(* ===== verification/Nebula_Prelude.thy ===== *)
theory Nebula_Prelude
  imports Main
begin

text \<open>
  Shared vocabulary of the development: identifiers and instants, the two shapes of
  database access the services use (select the first matching row, update the matching
  rows), and the lemmas about them that every component uses.

  A table is the list of its rows. A query that the code reads with
  \<open>session.scalar\<close> is \<^const>\<open>find\<close> over the table; assigning to
  attributes of a loaded row is \<open>update_where\<close>. The collection \<open>table_simps\<close>
  holds the rewrite rules for these two operations.
\<close>

named_theorems table_simps

text \<open>
  A UUID is modelled by a natural number: the code only compares, stores and renders
  them. An instant is an \<open>int\<close>, the number of microseconds since the epoch in UTC, which
  is the resolution of Python's \<open>datetime\<close>.
\<close>

type_synonym uuid = nat
type_synonym time = int
type_synonym ('e, 'a) result = "'e + 'a"

text \<open>Rows of a table: update those that match, keep the order.\<close>

definition update_where :: "('r \<Rightarrow> bool) \<Rightarrow> ('r \<Rightarrow> 'r) \<Rightarrow> 'r list \<Rightarrow> 'r list" where
  "update_where P f rows = map (\<lambda>r. if P r then f r else r) rows"

lemma update_where_Nil [simp]: "update_where P f [] = []"
  by (simp add: update_where_def)

lemma update_where_Cons [simp]:
  "update_where P f (r # rs) = (if P r then f r else r) # update_where P f rs"
  by (simp add: update_where_def)

lemma length_update_where [simp]: "length (update_where P f rows) = length rows"
  by (simp add: update_where_def)

lemma set_update_where:
  "set (update_where P f rows) = (\<lambda>r. if P r then f r else r) ` set rows"
  by (simp add: update_where_def)

lemma update_where_append [table_simps]:
  "update_where P f (xs @ ys) = update_where P f xs @ update_where P f ys"
  by (simp add: update_where_def)

lemma update_where_none: "(\<And>r. r \<in> set rows \<Longrightarrow> \<not> P r) \<Longrightarrow> update_where P f rows = rows"
  by (induction rows) auto

lemma update_where_compose:
  assumes "\<And>r. P r \<Longrightarrow> P (f r)"
  shows "update_where P g (update_where P f rows) = update_where P (g \<circ> f) rows"
  using assms by (induction rows) auto

text \<open>A column the update does not write keeps its values, in order.\<close>

lemma map_update_where [table_simps]:
  assumes "\<And>r. P r \<Longrightarrow> k (f r) = k r"
  shows "map k (update_where P f rows) = map k rows"
  using assms by (induction rows) auto

lemma find_append [table_simps]:
  "find P (xs @ ys) = (case find P xs of None \<Rightarrow> find P ys | Some x \<Rightarrow> Some x)"
  by (induction xs) auto

lemma find_SomeD: "find P xs = Some x \<Longrightarrow> P x \<and> x \<in> set xs"
  by (induction xs) (auto split: if_splits)

lemma find_None: "find P xs = None \<longleftrightarrow> (\<forall>x\<in>set xs. \<not> P x)"
  by (induction xs) auto

text \<open>Looking a row up by its key, after the row with that key was updated.\<close>

lemma find_update_same:
  assumes "\<And>r. k (f r) = k r"
  shows "find (\<lambda>r. k r = a) (update_where (\<lambda>r. k r = a) f rows)
       = map_option f (find (\<lambda>r. k r = a) rows)"
  using assms by (induction rows) auto

lemma find_update_other:
  assumes "\<And>r. k (f r) = k r" and "a \<noteq> b"
  shows "find (\<lambda>r. k r = a) (update_where (\<lambda>r. k r = b) f rows) = find (\<lambda>r. k r = a) rows"
  using assms by (induction rows) auto

lemma find_key_distinct:
  assumes "distinct (map k rows)" and "r \<in> set rows"
  shows "find (\<lambda>x. k x = k r) rows = Some r"
  using assms by (induction rows) (auto simp: image_iff)

lemma find_key_SomeD: "find (\<lambda>x. k x = a) rows = Some r \<Longrightarrow> k r = a \<and> r \<in> set rows"
  by (auto dest: find_SomeD)

text \<open>Updating a row that is alone under its key is a change of one element.\<close>

lemma update_where_key_split:
  assumes "distinct (map k rows)" and "r \<in> set rows"
  obtains xs ys where "rows = xs @ r # ys"
    and "update_where (\<lambda>x. k x = k r) f rows = xs @ f r # ys"
proof -
  from assms(2) obtain xs ys where split: "rows = xs @ r # ys"
    by (auto dest: split_list)
  with assms(1) have "\<forall>x\<in>set xs \<union> set ys. k x \<noteq> k r"
    by (auto simp: rev_image_eqI)
  then have "update_where (\<lambda>x. k x = k r) f rows = xs @ f r # ys"
    by (simp add: split update_where_append update_where_none)
  with split show ?thesis by (rule that)
qed

text \<open>Counting rows by a predicate.\<close>

definition count_where :: "('r \<Rightarrow> bool) \<Rightarrow> 'r list \<Rightarrow> nat" where
  "count_where P rows = length (filter P rows)"

lemma count_where_append [simp]: "count_where P (xs @ ys) = count_where P xs + count_where P ys"
  by (simp add: count_where_def)

lemma count_where_Cons [simp]:
  "count_where P (x # xs) = (if P x then 1 else 0) + count_where P xs"
  by (simp add: count_where_def)

lemma count_where_Nil [simp]: "count_where P [] = 0"
  by (simp add: count_where_def)

text \<open>
  Uniqueness of a key among the rows a partial index covers survives an update that keeps
  the key and brings no row under the index.
\<close>

lemma distinct_keys_update:
  assumes "distinct (map k (filter P xs))"
    and "\<And>x. x \<in> set xs \<Longrightarrow> Q x \<Longrightarrow> k (f x) = k x \<and> (P (f x) \<longrightarrow> P x)"
  shows "distinct (map k (filter P (update_where Q f xs)))"
proof -
  have sub: "k ` set (filter P (update_where Q f ys)) \<subseteq> k ` set (filter P ys)"
    if "set ys \<subseteq> set xs" for ys
    using that assms(2) by (induction ys) (auto split: if_splits)
  have "set ys \<subseteq> set xs \<Longrightarrow> distinct (map k (filter P ys)) \<Longrightarrow>
      distinct (map k (filter P (update_where Q f ys)))" for ys
  proof (induction ys)
    case (Cons y ys)
    have "k ` set (filter P (update_where Q f ys)) \<subseteq> k ` set (filter P ys)"
      using Cons.prems(1) by (intro sub) simp
    with Cons assms(2) [of y] show ?case by (auto split: if_splits)
  qed simp
  with assms(1) show ?thesis by blast
qed

lemma distinct_map_update:
  "distinct (map k xs) \<Longrightarrow> (\<And>x. x \<in> set xs \<Longrightarrow> Q x \<Longrightarrow> k (f x) = k x) \<Longrightarrow>
     distinct (map k (update_where Q f xs))"
  using distinct_keys_update [of k "\<lambda>_. True" xs Q f] by simp

lemma list_all_update:
  "list_all P xs \<Longrightarrow> (\<And>x. x \<in> set xs \<Longrightarrow> Q x \<Longrightarrow> P x \<Longrightarrow> P (f x)) \<Longrightarrow> list_all P (update_where Q f xs)"
  by (induction xs) auto

lemma find_update_key:
  assumes "\<And>x. k (f x) = k x"
  shows "find (\<lambda>x. k x = j) (update_where (\<lambda>x. k x = i) f xs) =
           (if i = j then map_option f (find (\<lambda>x. k x = j) xs) else find (\<lambda>x. k x = j) xs)"
  using assms by (induction xs) auto

lemma key_in_filter:
  "distinct (map k xs) \<Longrightarrow> x \<in> set xs \<Longrightarrow> k x \<in> k ` set (filter P xs) \<longleftrightarrow> P x"
  by (auto simp: distinct_map dest: inj_onD)

lemma update_where_cong:
  "(\<And>x. x \<in> set xs \<Longrightarrow> P x = Q x) \<Longrightarrow> update_where P f xs = update_where Q f xs"
  by (simp add: update_where_def)

lemma filter_update_where:
  "(\<And>x. x \<in> set xs \<Longrightarrow> Q x \<Longrightarrow> \<not> P x \<and> \<not> P (f x)) \<Longrightarrow> filter P (update_where Q f xs) = filter P xs"
  by (induction xs) auto

lemma distinct_map_filterI: "distinct (map k xs) \<Longrightarrow> distinct (map k (filter P xs))"
  by (simp add: distinct_map inj_on_def)

end
