(* ===== verification/Text_Format.thy ===== *)
theory Text_Format
  imports Nebula_Prelude "HOL-Library.Char_ord"
begin

text \<open>
  The text the control plane writes into its rows: decimal numbers, identifiers and IP
  addresses as Python prints them, and the error codes of agent operations
  (\<open>provisioning/service.py\<close>, \<open>_agent_error_code\<close>), which a CHECK constraint restricts to a
  small alphabet. Characters are the code points up to 255.
\<close>

subsection \<open>Numbers, identifiers, addresses\<close>

definition digit_char :: "nat \<Rightarrow> char" where
  "digit_char d = (''0123456789abcdef'' ! d)"

fun decimal :: "nat \<Rightarrow> string" where
  "decimal n = (if n < 10 then [digit_char n] else decimal (n div 10) @ [digit_char (n mod 10)])"

declare decimal.simps [simp del]

text \<open>The last \<open>k\<close> hexadecimal digits of a number, most significant first.\<close>

fun hex_digits :: "nat \<Rightarrow> nat \<Rightarrow> string" where
  "hex_digits 0 n = []"
| "hex_digits (Suc k) n = hex_digits k (n div 16) @ [digit_char (n mod 16)]"

text \<open>\<open>str(uuid)\<close>: 8-4-4-4-12 digits.\<close>

definition uuid_text :: "uuid \<Rightarrow> string" where
  "uuid_text u = (let h = hex_digits 32 u in
     take 8 h @ ''-'' @ take 4 (drop 8 h) @ ''-'' @ take 4 (drop 12 h) @ ''-'' @
     take 4 (drop 16 h) @ ''-'' @ drop 20 h)"

datatype ip_address = IPv4Address int | IPv6Address int

definition ipv4_text :: "int \<Rightarrow> string" where
  "ipv4_text n = decimal (nat (n div 16777216 mod 256)) @ ''.'' @ decimal (nat (n div 65536 mod 256)) @
     ''.'' @ decimal (nat (n div 256 mod 256)) @ ''.'' @ decimal (nat (n mod 256))"

text \<open>A hextet prints without leading zeros.\<close>

definition hextet_text :: "nat \<Rightarrow> string" where
  "hextet_text n = (let h = dropWhile (\<lambda>c. c = CHR ''0'') (hex_digits 4 n) in
     if h = [] then ''0'' else h)"

fun hextets :: "nat \<Rightarrow> int \<Rightarrow> nat list" where
  "hextets 0 n = []"
| "hextets (Suc k) n = hextets k (n div 65536) @ [nat (n mod 65536)]"

text \<open>The first longest run of zero hextets, as start and length; runs of one stay.\<close>

fun zero_run :: "nat list \<Rightarrow> nat" where
  "zero_run [] = 0"
| "zero_run (h # hs) = (if h = 0 then Suc (zero_run hs) else 0)"

fun best_run :: "nat \<Rightarrow> nat list \<Rightarrow> nat \<times> nat" where
  "best_run i [] = (i, 0)"
| "best_run i (h # hs) =
     (let here = zero_run (h # hs); (j, len) = best_run (Suc i) hs
      in if here \<ge> len \<and> here > 0 then (i, here) else (j, len))"

fun join_text :: "string \<Rightarrow> string list \<Rightarrow> string" where
  "join_text sep [] = []"
| "join_text sep [x] = x"
| "join_text sep (x # y # zs) = x @ sep @ join_text sep (y # zs)"

definition compressed_text :: "nat list \<Rightarrow> string" where
  "compressed_text hs =
     (let (i, len) = best_run 0 hs in
      if len \<le> 1 then join_text '':'' (map hextet_text hs)
      else join_text '':'' (map hextet_text (take i hs)) @ ''::'' @
           join_text '':'' (map hextet_text (drop (i + len) hs)))"

text \<open>An IPv4-mapped address prints its last 32 bits in dotted form.\<close>

definition ipv6_text :: "int \<Rightarrow> string" where
  "ipv6_text n =
     (if n div 4294967296 = 65535
      then compressed_text (hextets 8 (n div 4294967296)) @ '':'' @ ipv4_text (n mod 4294967296)
      else compressed_text (hextets 8 n))"

fun ip_text :: "ip_address \<Rightarrow> string" where
  "ip_text (IPv4Address n) = ipv4_text n"
| "ip_text (IPv6Address n) = ipv6_text n"

subsection \<open>Error codes\<close>

definition ascii_lower :: "char \<Rightarrow> char" where
  "ascii_lower c = (let n = of_char c :: nat in
     if 65 \<le> n \<and> n \<le> 90 then char_of (n + 32) else c)"

definition is_space :: "char \<Rightarrow> bool" where
  "is_space c = (let n = of_char c :: nat in
     9 \<le> n \<and> n \<le> 13 \<or> 28 \<le> n \<and> n \<le> 32 \<or> n = 133 \<or> n = 160)"

definition strip_chars :: "(char \<Rightarrow> bool) \<Rightarrow> string \<Rightarrow> string" where
  "strip_chars P s = rev (dropWhile P (rev (dropWhile P s)))"

definition is_lower_alnum :: "char \<Rightarrow> bool" where
  "is_lower_alnum c = (let n = of_char c :: nat in 48 \<le> n \<and> n \<le> 57 \<or> 97 \<le> n \<and> n \<le> 122)"

definition is_mark :: "char \<Rightarrow> bool" where
  "is_mark c \<longleftrightarrow> c = CHR ''_'' \<or> c = CHR ''.'' \<or> c = CHR ''-''"

text \<open>\<open>^[a-z0-9][a-z0-9_.-]{0,63}$\<close>\<close>

fun error_code_format :: "string \<Rightarrow> bool" where
  "error_code_format [] = False"
| "error_code_format (c # cs) =
     (is_lower_alnum c \<and> length cs \<le> 63 \<and> list_all (\<lambda>x. is_lower_alnum x \<or> is_mark x) cs)"

definition error_slug :: "string \<Rightarrow> string" where
  "error_slug detail =
     (let slug = map (\<lambda>c. if is_lower_alnum c \<or> is_mark c then c else CHR ''_'')
                   (map ascii_lower (strip_chars is_space detail));
          slug = take 64 (strip_chars is_mark slug)
      in if slug = [] then ''agent_error'' else slug)"

lemma dropWhile_hd: "dropWhile P xs = y # ys \<Longrightarrow> \<not> P y"
  by (induction xs) (auto split: if_splits)

lemma set_strip_chars: "set (strip_chars P s) \<subseteq> set s"
proof -
  have "set (strip_chars P s) \<subseteq> set (dropWhile P s)"
    by (simp add: strip_chars_def) (metis set_dropWhileD set_rev subsetI)
  then show ?thesis by (meson set_dropWhileD subset_eq)
qed

lemma dropWhile_rev_hd:
  "dropWhile P s = y # ys \<Longrightarrow> \<not> P y \<Longrightarrow> \<exists>zs. rev (dropWhile P (rev (dropWhile P s))) = y # zs"
  by (simp add: dropWhile_append) (metis rev_rev_ident)

lemma strip_chars_hd: "strip_chars P s = y # ys \<Longrightarrow> \<not> P y"
proof (cases "dropWhile P s")
  case (Cons z zs)
  assume *: "strip_chars P s = y # ys"
  from Cons have "\<not> P z" by (rule dropWhile_hd)
  with dropWhile_rev_hd [OF Cons] * show ?thesis by (auto simp: strip_chars_def)
qed (simp add: strip_chars_def)

text \<open>Whatever the detail says, the slug has the format the CHECK constraints ask for.\<close>

lemma error_slug_format: "error_code_format (error_slug detail)"
proof -
  define body where "body = map (\<lambda>c. if is_lower_alnum c \<or> is_mark c then c else CHR ''_'')
                   (map ascii_lower (strip_chars is_space detail))"
  have legal: "\<forall>c\<in>set (strip_chars is_mark body). is_lower_alnum c \<or> is_mark c"
  proof
    fix c
    assume "c \<in> set (strip_chars is_mark body)"
    then have "c \<in> set body" using set_strip_chars by fast
    then show "is_lower_alnum c \<or> is_mark c" by (auto simp: body_def is_mark_def)
  qed
  show ?thesis
  proof (cases "strip_chars is_mark body")
    case Nil
    then have "error_slug detail = ''agent_error''"
      unfolding error_slug_def Let_def body_def [symmetric] by simp
    then show ?thesis by (simp add: is_lower_alnum_def is_mark_def)
  next
    case (Cons c cs)
    then have "error_slug detail = c # take 63 cs"
      unfolding error_slug_def Let_def body_def [symmetric] by simp
    moreover have "is_lower_alnum c"
      using legal strip_chars_hd [OF Cons] by (simp add: Cons)
    moreover have "list_all (\<lambda>x. is_lower_alnum x \<or> is_mark x) (take 63 cs)"
      using legal by (auto simp: Cons list_all_iff dest: in_set_takeD)
    ultimately show ?thesis by simp
  qed
qed

end
