(* ===== verification/Allocator.thy ===== *)
theory Allocator
  imports Text_Format
begin

text \<open>
  Address allocation for WireGuard peers (\<open>provisioning/allocator.py\<close>) over Python's
  \<open>ipaddress\<close> networks: the first host of the pool that is neither the gateway nor held.
  A network is its version, its first address and its prefix length.
\<close>

datatype ip_version = V4 | V6

record ip_network =
  net_version :: ip_version
  net_address :: int
  net_prefixlen :: nat

fun ip_bits :: "ip_version \<Rightarrow> nat" where
  "ip_bits V4 = 32"
| "ip_bits V6 = 128"

fun ip_of :: "ip_version \<Rightarrow> int \<Rightarrow> ip_address" where
  "ip_of V4 n = IPv4Address n"
| "ip_of V6 n = IPv6Address n"

definition net_size :: "ip_network \<Rightarrow> int" where
  "net_size net = 2 ^ (ip_bits (net_version net) - net_prefixlen net)"

text \<open>
  The half-open range \<open>hosts()\<close> iterates over: everything for the two longest prefixes;
  otherwise without the network address and, for IPv4, without the broadcast address.
\<close>

definition hosts_from :: "ip_network \<Rightarrow> int" where
  "hosts_from net = (if net_size net \<le> 2 then net_address net else net_address net + 1)"

definition hosts_until :: "ip_network \<Rightarrow> int" where
  "hosts_until net =
     (if net_size net \<le> 2 \<or> net_version net = V6 then net_address net + net_size net
      else net_address net + net_size net - 1)"

definition pool_hosts :: "ip_network \<Rightarrow> ip_address set" where
  "pool_hosts net = ip_of (net_version net) ` {hosts_from net..<hosts_until net}"

text \<open>The loop: the first number of the range that does not map to an excluded address.\<close>

function first_free :: "(int \<Rightarrow> bool) \<Rightarrow> int \<Rightarrow> int \<Rightarrow> int option" where
  "first_free taken lo hi =
     (if lo \<ge> hi then None
      else if taken lo then first_free taken (lo + 1) hi
      else Some lo)"
  by pat_completeness auto
termination by (relation "measure (\<lambda>(_, lo, hi). nat (hi - lo))") auto

declare first_free.simps [simp del]

definition allocate_next_address ::
  "ip_network \<Rightarrow> ip_address option \<Rightarrow> ip_address list \<Rightarrow> ip_address option" where
  "allocate_next_address pool gateway_address excluded_addresses =
     (let excluded = set excluded_addresses \<union>
            (case gateway_address of None \<Rightarrow> {} | Some g \<Rightarrow> {g})
      in map_option (ip_of (net_version pool))
           (first_free (\<lambda>n. ip_of (net_version pool) n \<in> excluded) (hosts_from pool) (hosts_until pool)))"

lemma first_free_Some:
  "first_free taken lo hi = Some n \<Longrightarrow>
     lo \<le> n \<and> n < hi \<and> \<not> taken n \<and> (\<forall>m. lo \<le> m \<and> m < n \<longrightarrow> taken m)"
proof (induction taken lo hi rule: first_free.induct)
  case (1 taken lo hi)
  then show ?case
    unfolding first_free.simps [of taken lo hi]
    by (auto split: if_splits) (metis order_le_less zless_imp_add1_zle)
qed

lemma first_free_None:
  "first_free taken lo hi = None \<Longrightarrow> \<forall>m. lo \<le> m \<and> m < hi \<longrightarrow> taken m"
proof (induction taken lo hi rule: first_free.induct)
  case (1 taken lo hi)
  then show ?case
    unfolding first_free.simps [of taken lo hi]
    by (auto split: if_splits) (metis order_le_less zless_imp_add1_zle)
qed

lemma ip_of_inj: "ip_of v m = ip_of v n \<longleftrightarrow> m = n"
  by (cases v) auto

definition excluded_set :: "ip_address option \<Rightarrow> ip_address list \<Rightarrow> ip_address set" where
  "excluded_set gateway excluded = set excluded \<union> set_option gateway"

lemma excluded_set_eq:
  "set excluded \<union> (case gateway of None \<Rightarrow> {} | Some g \<Rightarrow> {g}) = excluded_set gateway excluded"
  by (simp add: excluded_set_def split: option.split)

lemma allocate_SomeD:
  assumes "allocate_next_address pool gateway excluded = Some a"
  shows "a \<in> pool_hosts pool" and "Some a \<noteq> gateway" and "a \<notin> set excluded"
  using assms
  by (auto simp: allocate_next_address_def excluded_set_eq pool_hosts_def excluded_set_def
      dest!: first_free_Some)

text \<open>
  The allocator is complete and picks the first free address: an address it returns is a
  host of the pool, is not the gateway, is held by nobody and has only taken addresses before
  it; when it returns none, every host of the pool is taken.
\<close>

lemma allocate_first_free:
  "case allocate_next_address pool gateway excluded of
     Some a \<Rightarrow> \<exists>n. a = ip_of (net_version pool) n \<and> hosts_from pool \<le> n \<and> n < hosts_until pool \<and>
       Some a \<noteq> gateway \<and> a \<notin> set excluded \<and>
       {ip_of (net_version pool) m |m. hosts_from pool \<le> m \<and> m < n} \<subseteq> excluded_set gateway excluded
   | None \<Rightarrow> pool_hosts pool \<subseteq> excluded_set gateway excluded"
proof (cases "first_free (\<lambda>n. ip_of (net_version pool) n \<in> excluded_set gateway excluded)
         (hosts_from pool) (hosts_until pool)")
  case None
  from first_free_None [OF this] None show ?thesis
    by (auto simp: allocate_next_address_def excluded_set_eq pool_hosts_def)
next
  case (Some n)
  from first_free_Some [OF Some] Some show ?thesis
    by (auto simp: allocate_next_address_def excluded_set_eq ip_of_inj)
      (auto simp: excluded_set_def)
qed

end
