(* ===== verification/Usage_Ledger.thy ===== *)
theory Usage_Ledger
  imports Nebula_Prelude
begin

text \<open>
  The usage ledger of the control plane (\<open>usage/service.py\<close>, table
  \<open>models/usage.py\<close>): resettable per-credential counters turned into running totals.

  The state is the table \<open>credential_usage\<close>, the list of its rows.
  \<open>ledger_record\<close> folds the samples of one poll into it and \<open>forget_readings\<close> sets the
  last reading of counters that disappeared back to zero; both are one transaction, so an
  error leaves the table as it was. The argument \<open>dbnow\<close> is the database's \<open>now()\<close>,
  which fills \<open>updated_at\<close> where the code does not assign it.

  The lemmas at the end give the lookup view of the table after each operation, in terms
  of an abstract \<open>meter\<close> per credential: totals, last readings and the stamp of the last
  accepted reading. The locale \<open>counter_ledger\<close> is that contract, and the interpretation
  \<open>ledger\<close> shows that the table implements it.
\<close>

subsection \<open>Data\<close>

record usage_sample =
  us_protocol :: string
  us_identity :: string
  us_rx_bytes :: int
  us_tx_bytes :: int
  us_sampled_at :: time
  us_collected_at :: time

text \<open>One row of \<open>credential_usage\<close>.\<close>

record credential_usage =
  cu_protocol :: string
  cu_identity :: string
  cu_rx_bytes :: int
  cu_tx_bytes :: int
  cu_last_rx_reading :: int
  cu_last_tx_reading :: int
  cu_last_collected_at :: "time option"
  cu_last_active_at :: "time option"
  cu_updated_at :: time

type_synonym usage_key = "string \<times> string"
type_synonym usage_table = "credential_usage list"

text \<open>What the database refuses: a violated constraint, or a value outside its column type.\<close>

datatype db_error = IntegrityError | DataError

definition us_key :: "usage_sample \<Rightarrow> usage_key" where
  "us_key s = (us_protocol s, us_identity s)"

definition cu_key :: "credential_usage \<Rightarrow> usage_key" where
  "cu_key r = (cu_protocol r, cu_identity r)"

definition bigint_ok :: "int \<Rightarrow> bool" where
  "bigint_ok v \<longleftrightarrow> - (2 ^ 63) \<le> v \<and> v \<le> 2 ^ 63 - 1"

text \<open>The column types and CHECK constraints of the table.\<close>

definition usage_row_error :: "credential_usage \<Rightarrow> db_error option" where
  "usage_row_error r =
     (if \<not> (length (cu_protocol r) \<le> 32 \<and> length (cu_identity r) \<le> 64
           \<and> bigint_ok (cu_rx_bytes r) \<and> bigint_ok (cu_tx_bytes r)
           \<and> bigint_ok (cu_last_rx_reading r) \<and> bigint_ok (cu_last_tx_reading r))
      then Some DataError
      else if \<not> (0 \<le> cu_rx_bytes r \<and> 0 \<le> cu_tx_bytes r
           \<and> 0 \<le> cu_last_rx_reading r \<and> 0 \<le> cu_last_tx_reading r)
      then Some IntegrityError
      else None)"

subsection \<open>What an account has used\<close>

record account_usage =
  au_rx_bytes :: int
  au_tx_bytes :: int
  au_quota_bytes :: "int option"
  au_baseline_bytes :: int
  au_exhausted_at :: "time option"

definition lifetime_bytes :: "account_usage \<Rightarrow> int" where
  "lifetime_bytes a = au_rx_bytes a + au_tx_bytes a"

definition total_bytes :: "account_usage \<Rightarrow> int" where
  "total_bytes a = max (lifetime_bytes a - au_baseline_bytes a) 0"

definition remaining_bytes :: "account_usage \<Rightarrow> int option" where
  "remaining_bytes a =
     (case au_quota_bytes a of None \<Rightarrow> None | Some q \<Rightarrow> Some (max (q - total_bytes a) 0))"

definition is_exhausted :: "account_usage \<Rightarrow> bool" where
  "is_exhausted a =
     (case au_quota_bytes a of None \<Rightarrow> False | Some q \<Rightarrow> total_bytes a \<ge> q)"

subsection \<open>Writing the totals\<close>

definition delta :: "int \<Rightarrow> int \<Rightarrow> int" where
  "delta reading last_reading =
     (if reading \<ge> last_reading then reading - last_reading else reading)"

definition older :: "time \<Rightarrow> time option \<Rightarrow> bool" where
  "older collected_at last_collected_at =
     (case last_collected_at of None \<Rightarrow> False | Some t \<Rightarrow> collected_at < t)"

definition new_usage_row :: "time \<Rightarrow> usage_sample \<Rightarrow> credential_usage" where
  "new_usage_row dbnow s =
     \<lparr>cu_protocol = us_protocol s, cu_identity = us_identity s,
      cu_rx_bytes = 0, cu_tx_bytes = 0, cu_last_rx_reading = 0, cu_last_tx_reading = 0,
      cu_last_collected_at = None, cu_last_active_at = None, cu_updated_at = dbnow\<rparr>"

text \<open>\<open>INSERT ... ON CONFLICT (protocol, identity) DO NOTHING\<close>.\<close>

definition insert_usage_row :: "credential_usage \<Rightarrow> usage_table \<Rightarrow> usage_table" where
  "insert_usage_row r t = (if (\<exists>x\<in>set t. cu_key x = cu_key r) then t else t @ [r])"

text \<open>The part of \<open>_apply\<close> after the row is locked; the flag is its result.\<close>

definition fold_sample :: "usage_sample \<Rightarrow> credential_usage \<Rightarrow> credential_usage \<times> bool" where
  "fold_sample s r =
     (if older (us_collected_at s) (cu_last_collected_at r) then (r, False)
      else let rx_delta = delta (us_rx_bytes s) (cu_last_rx_reading r);
               tx_delta = delta (us_tx_bytes s) (cu_last_tx_reading r);
               r' = r\<lparr>cu_rx_bytes := cu_rx_bytes r + rx_delta,
                      cu_tx_bytes := cu_tx_bytes r + tx_delta,
                      cu_last_rx_reading := us_rx_bytes s,
                      cu_last_tx_reading := us_tx_bytes s,
                      cu_last_collected_at := Some (us_collected_at s),
                      cu_updated_at := us_sampled_at s\<rparr>
           in if rx_delta \<noteq> 0 \<or> tx_delta \<noteq> 0
              then (r'\<lparr>cu_last_active_at := Some (us_sampled_at s)\<rparr>, True)
              else (r', False))"

definition usage_apply :: "time \<Rightarrow> usage_sample \<Rightarrow> usage_table \<Rightarrow> usage_table \<times> bool" where
  "usage_apply dbnow s t =
     (let t1 = insert_usage_row (new_usage_row dbnow s) t
      in case find (\<lambda>r. cu_key r = us_key s) t1 of
           None \<Rightarrow> (t1, False)
         | Some row \<Rightarrow>
             let (row', moved) = fold_sample s row
             in (update_where (\<lambda>r. cu_key r = us_key s) (\<lambda>_. row') t1, moved))"

text \<open>
  The loop of \<open>record\<close>. Sessions do not flush by themselves: the inserts reach the database
  at once, so a value that does not fit its column stops the loop there, while the changed
  rows are written by the commit.
\<close>

fun record_loop ::
  "time \<Rightarrow> usage_sample list \<Rightarrow> usage_table \<Rightarrow> int \<Rightarrow> (db_error, usage_table \<times> int) result" where
  "record_loop dbnow [] t moved = Inr (t, moved)"
| "record_loop dbnow (s # ss) t moved =
     (case usage_row_error (new_usage_row dbnow s) of
        Some e \<Rightarrow> Inl e
      | None \<Rightarrow>
          let (t', did) = usage_apply dbnow s t
          in record_loop dbnow ss t' (if did then moved + 1 else moved))"

text \<open>
  The flush of the commit. A changed row whose \<open>updated_at\<close> was not assigned a new value
  gets the database's \<open>now()\<close> (\<open>onupdate\<close> of \<open>TimestampMixin\<close>); a row without a net
  change is not written. A refused row makes the commit fail; which one is reported, when
  several are refused, follows the order of the table here.
\<close>

definition touch_usage :: "time \<Rightarrow> usage_table \<Rightarrow> credential_usage \<Rightarrow> credential_usage" where
  "touch_usage dbnow t r =
     (case find (\<lambda>x. cu_key x = cu_key r) t of
        None \<Rightarrow> r
      | Some old \<Rightarrow>
          if r = old \<or> cu_updated_at r \<noteq> cu_updated_at old then r
          else r\<lparr>cu_updated_at := dbnow\<rparr>)"

definition usage_commit ::
  "time \<Rightarrow> usage_table \<Rightarrow> usage_table \<Rightarrow> (db_error, usage_table) result" where
  "usage_commit dbnow t t' =
     (case find (\<lambda>r. usage_row_error r \<noteq> None) t' of
        Some r \<Rightarrow> Inl (the (usage_row_error r))
      | None \<Rightarrow> Inr (map (touch_usage dbnow t) t'))"

definition ledger_record ::
  "time \<Rightarrow> usage_sample list \<Rightarrow> usage_table \<Rightarrow> (db_error, int) result \<times> usage_table" where
  "ledger_record dbnow samples t =
     (if samples = [] then (Inr 0, t)
      else case record_loop dbnow samples t 0 of
             Inl e \<Rightarrow> (Inl e, t)
           | Inr (t', moved) \<Rightarrow>
               (case usage_commit dbnow t t' of
                  Inl e \<Rightarrow> (Inl e, t)
                | Inr t'' \<Rightarrow> (Inr moved, t'')))"

text \<open>The body of the loop of \<open>forget_readings\<close>; the flag says whether it counts.\<close>

definition forget_one :: "time \<Rightarrow> usage_key \<Rightarrow> usage_table \<Rightarrow> usage_table \<times> bool" where
  "forget_one collected_at k t =
     (case find (\<lambda>r. cu_key r = k) t of
        None \<Rightarrow> (t, False)
      | Some row \<Rightarrow>
          if older collected_at (cu_last_collected_at row) then (t, False)
          else (update_where (\<lambda>r. cu_key r = k)
                  (\<lambda>_. row\<lparr>cu_last_rx_reading := 0, cu_last_tx_reading := 0,
                           cu_last_collected_at := Some collected_at\<rparr>) t, True))"

fun forget_loop ::
  "time \<Rightarrow> usage_key list \<Rightarrow> usage_table \<Rightarrow> int \<Rightarrow> usage_table \<times> int" where
  "forget_loop collected_at [] t forgotten = (t, forgotten)"
| "forget_loop collected_at (k # ks) t forgotten =
     (let (t', did) = forget_one collected_at k t
      in forget_loop collected_at ks t' (if did then forgotten + 1 else forgotten))"

definition forget_readings ::
  "time \<Rightarrow> usage_key list \<Rightarrow> time \<Rightarrow> usage_table \<Rightarrow> (db_error, int) result \<times> usage_table" where
  "forget_readings dbnow gone collected_at t =
     (if gone = [] then (Inr 0, t)
      else let (t', forgotten) = forget_loop collected_at gone t 0
           in case usage_commit dbnow t t' of
                Inl e \<Rightarrow> (Inl e, t)
              | Inr t'' \<Rightarrow> (Inr forgotten, t''))"

text \<open>\<open>_latest\<close>, used to merge the activity of a device's counters.\<close>

definition latest :: "time option \<Rightarrow> time option \<Rightarrow> time option" where
  "latest a b =
     (case a of None \<Rightarrow> b | Some x \<Rightarrow> (case b of None \<Rightarrow> a | Some y \<Rightarrow> Some (max x y)))"

subsection \<open>The meter of one credential\<close>

text \<open>
  What the table promises per credential, free of rows and lists. A credential without a
  row has the empty meter.
\<close>

record meter =
  m_rx_total :: int
  m_tx_total :: int
  m_rx_last :: int
  m_tx_last :: int
  m_stamp :: "time option"

definition empty_meter :: meter where
  "empty_meter = \<lparr>m_rx_total = 0, m_tx_total = 0, m_rx_last = 0, m_tx_last = 0, m_stamp = None\<rparr>"

definition meter_step :: "usage_sample \<Rightarrow> meter \<Rightarrow> meter" where
  "meter_step s m =
     (if older (us_collected_at s) (m_stamp m) then m
      else \<lparr>m_rx_total = m_rx_total m + delta (us_rx_bytes s) (m_rx_last m),
            m_tx_total = m_tx_total m + delta (us_tx_bytes s) (m_tx_last m),
            m_rx_last = us_rx_bytes s, m_tx_last = us_tx_bytes s,
            m_stamp = Some (us_collected_at s)\<rparr>)"

definition meter_forget :: "time \<Rightarrow> meter \<Rightarrow> meter" where
  "meter_forget collected_at m =
     (if older collected_at (m_stamp m) then m
      else m\<lparr>m_rx_last := 0, m_tx_last := 0, m_stamp := Some collected_at\<rparr>)"

definition row_meter :: "credential_usage \<Rightarrow> meter" where
  "row_meter r = \<lparr>m_rx_total = cu_rx_bytes r, m_tx_total = cu_tx_bytes r,
     m_rx_last = cu_last_rx_reading r, m_tx_last = cu_last_tx_reading r,
     m_stamp = cu_last_collected_at r\<rparr>"

definition usage_at :: "usage_table \<Rightarrow> usage_key \<Rightarrow> credential_usage option" where
  "usage_at t k = find (\<lambda>r. cu_key r = k) t"

definition usage_known :: "usage_table \<Rightarrow> usage_key \<Rightarrow> bool" where
  "usage_known t k \<longleftrightarrow> usage_at t k \<noteq> None"

definition usage_meter :: "usage_table \<Rightarrow> usage_key \<Rightarrow> meter" where
  "usage_meter t k = (case usage_at t k of None \<Rightarrow> empty_meter | Some r \<Rightarrow> row_meter r)"

text \<open>The uniqueness constraint \<open>one_row_per_credential\<close>.\<close>

definition usage_unique :: "usage_table \<Rightarrow> bool" where
  "usage_unique t \<longleftrightarrow> distinct (map cu_key t)"

subsection \<open>The table implements the meters\<close>

lemma cu_key_new [simp]: "cu_key (new_usage_row dbnow s) = us_key s"
  by (simp add: cu_key_def us_key_def new_usage_row_def)

lemma cu_key_fold [simp]: "cu_key (fst (fold_sample s r)) = cu_key r"
  by (simp add: fold_sample_def cu_key_def Let_def)

lemma row_meter_new [simp]: "row_meter (new_usage_row dbnow s) = empty_meter"
  by (simp add: row_meter_def new_usage_row_def empty_meter_def)

lemma row_meter_fold [simp]: "row_meter (fst (fold_sample s r)) = meter_step s (row_meter r)"
  by (simp add: fold_sample_def row_meter_def meter_step_def Let_def)

lemma usage_at_None: "usage_at t k = None \<longleftrightarrow> (\<forall>r\<in>set t. cu_key r \<noteq> k)"
  by (simp add: usage_at_def find_None)

lemma usage_at_insert:
  "usage_at (insert_usage_row r t) k =
     (if k = cu_key r \<and> usage_at t k = None then Some r else usage_at t k)"
proof (cases "usage_at t (cu_key r) = None")
  case True
  then have "insert_usage_row r t = t @ [r]"
    by (simp add: insert_usage_row_def usage_at_None)
  with True show ?thesis
    by (auto simp: usage_at_def find_append split: option.splits)
next
  case False
  then have "insert_usage_row r t = t"
    by (auto simp: insert_usage_row_def usage_at_None)
  with False show ?thesis by auto
qed

lemma usage_at_key: "usage_at t k = Some r \<Longrightarrow> cu_key r = k"
  by (auto simp: usage_at_def dest: find_SomeD)

lemma usage_at_overwrite_other:
  "cu_key r' = k \<Longrightarrow> j \<noteq> k \<Longrightarrow>
     usage_at (update_where (\<lambda>x. cu_key x = k) (\<lambda>_. r') t) j = usage_at t j"
  unfolding usage_at_def by (induction t) auto

lemma usage_at_overwrite_same:
  "cu_key r' = k \<Longrightarrow> usage_at t k = Some r \<Longrightarrow>
     usage_at (update_where (\<lambda>x. cu_key x = k) (\<lambda>_. r') t) k = Some r'"
  unfolding usage_at_def by (induction t) (auto split: if_splits)

lemma usage_at_overwrite:
  assumes "usage_at t k = Some r" and "cu_key r' = k"
  shows "usage_at (update_where (\<lambda>x. cu_key x = k) (\<lambda>_. r') t) j =
           (if j = k then Some r' else usage_at t j)"
  using assms by (simp add: usage_at_overwrite_other usage_at_overwrite_same)

text \<open>The row that a sample is folded into: the one found, or the one just inserted.\<close>

definition usage_row_for :: "time \<Rightarrow> usage_sample \<Rightarrow> usage_table \<Rightarrow> credential_usage" where
  "usage_row_for dbnow s t =
     (case usage_at t (us_key s) of None \<Rightarrow> new_usage_row dbnow s | Some r \<Rightarrow> r)"

lemma usage_at_insert_same:
  "usage_at (insert_usage_row (new_usage_row dbnow s) t) (us_key s) = Some (usage_row_for dbnow s t)"
  by (auto simp: usage_at_insert usage_row_for_def split: option.splits)

lemma cu_key_row_for [simp]: "cu_key (usage_row_for dbnow s t) = us_key s"
  by (auto simp: usage_row_for_def dest: usage_at_key split: option.splits)

lemma usage_apply_eq:
  "usage_apply dbnow s t =
     (update_where (\<lambda>r. cu_key r = us_key s) (\<lambda>_. fst (fold_sample s (usage_row_for dbnow s t)))
        (insert_usage_row (new_usage_row dbnow s) t),
      snd (fold_sample s (usage_row_for dbnow s t)))"
  using usage_at_insert_same [of dbnow s t]
  by (simp add: usage_apply_def usage_at_def Let_def split: prod.splits)

lemma usage_at_apply:
  "usage_at (fst (usage_apply dbnow s t)) k =
     (if k = us_key s then Some (fst (fold_sample s (usage_row_for dbnow s t)))
      else usage_at t k)"
  by (simp add: usage_apply_eq usage_at_insert
      usage_at_overwrite [OF usage_at_insert_same])

lemma usage_meter_row_for: "row_meter (usage_row_for dbnow s t) = usage_meter t (us_key s)"
  by (simp add: usage_row_for_def usage_meter_def split: option.splits)

lemma usage_meter_apply:
  "usage_meter (fst (usage_apply dbnow s t)) k =
     (if k = us_key s then meter_step s (usage_meter t k) else usage_meter t k)"
  by (simp add: usage_meter_def [of "fst (usage_apply dbnow s t)"] usage_at_apply
      usage_meter_row_for) (simp add: usage_meter_def)

lemma usage_known_apply:
  "usage_known (fst (usage_apply dbnow s t)) k \<longleftrightarrow> k = us_key s \<or> usage_known t k"
  by (simp add: usage_known_def usage_at_apply)

lemma map_key_overwrite:
  "cu_key r' = k \<Longrightarrow>
    map cu_key (update_where (\<lambda>x. cu_key x = k) (\<lambda>_. r') t) = map cu_key t"
  by (induction t) auto

lemma usage_unique_apply: "usage_unique t \<Longrightarrow> usage_unique (fst (usage_apply dbnow s t))"
  by (auto simp: usage_unique_def usage_apply_eq map_key_overwrite insert_usage_row_def)

text \<open>Recording a list of samples: each sample moves the meter of its own credential.\<close>

lemma record_loop_cases:
  assumes "record_loop dbnow (s # ss) t moved = Inr res"
  obtains moved' where "record_loop dbnow ss (fst (usage_apply dbnow s t)) moved' = Inr res"
  using assms by (auto simp: Let_def split: prod.splits option.splits)

lemma record_loop_meter:
  "record_loop dbnow ss t moved = Inr (t', n) \<Longrightarrow>
     usage_meter t' k = fold meter_step (filter (\<lambda>s. us_key s = k) ss) (usage_meter t k)"
proof (induction ss arbitrary: t moved)
  case (Cons s ss)
  from Cons.prems obtain moved' where
    "record_loop dbnow ss (fst (usage_apply dbnow s t)) moved' = Inr (t', n)"
    by (rule record_loop_cases)
  from Cons.IH [OF this] show ?case by (simp add: usage_meter_apply)
qed simp

lemma record_loop_known:
  "record_loop dbnow ss t moved = Inr (t', n) \<Longrightarrow>
     usage_known t' k \<longleftrightarrow> k \<in> us_key ` set ss \<or> usage_known t k"
proof (induction ss arbitrary: t moved)
  case (Cons s ss)
  from Cons.prems obtain moved' where
    "record_loop dbnow ss (fst (usage_apply dbnow s t)) moved' = Inr (t', n)"
    by (rule record_loop_cases)
  from Cons.IH [OF this] show ?case by (auto simp: usage_known_apply)
qed simp

lemma record_loop_unique:
  "record_loop dbnow ss t moved = Inr (t', n) \<Longrightarrow> usage_unique t \<Longrightarrow> usage_unique t'"
proof (induction ss arbitrary: t moved)
  case (Cons s ss)
  from Cons.prems(1) obtain moved' where
    "record_loop dbnow ss (fst (usage_apply dbnow s t)) moved' = Inr (t', n)"
    by (rule record_loop_cases)
  from Cons.IH [OF this] Cons.prems(2) show ?case by (simp add: usage_unique_apply)
qed simp

text \<open>The commit changes no meter and refuses what breaks a constraint.\<close>

lemma cu_key_touch [simp]: "cu_key (touch_usage dbnow t r) = cu_key r"
  by (simp add: touch_usage_def cu_key_def split: option.split)

lemma row_meter_touch [simp]: "row_meter (touch_usage dbnow t r) = row_meter r"
  by (simp add: touch_usage_def row_meter_def split: option.split)

lemma usage_row_error_touch [simp]: "usage_row_error (touch_usage dbnow t r) = usage_row_error r"
  by (simp add: touch_usage_def usage_row_error_def split: option.split)

lemma usage_at_touch:
  "usage_at (map (touch_usage dbnow t) t') k = map_option (touch_usage dbnow t) (usage_at t' k)"
  unfolding usage_at_def by (induction t') auto

definition usage_rows_ok :: "usage_table \<Rightarrow> bool" where
  "usage_rows_ok t \<longleftrightarrow> usage_unique t \<and> (\<forall>r\<in>set t. usage_row_error r = None)"

lemma usage_commit_InrD:
  assumes "usage_commit dbnow t t' = Inr t''"
  shows "t'' = map (touch_usage dbnow t) t'" and "\<forall>r\<in>set t''. usage_row_error r = None"
  using assms by (auto simp: usage_commit_def find_None split: option.splits)

lemma usage_commit_view:
  assumes "usage_commit dbnow t t' = Inr t''"
  shows "usage_meter t'' k = usage_meter t' k" "usage_known t'' k = usage_known t' k"
    "usage_unique t'' = usage_unique t'"
  by (auto simp: usage_commit_InrD(1) [OF assms] usage_meter_def usage_known_def usage_at_touch
      usage_unique_def comp_def split: option.split)

lemma ledger_record_InrD:
  assumes "ledger_record dbnow ss t = (Inr n, t')"
  shows "ss = [] \<and> t' = t \<and> n = 0 \<or>
    (\<exists>t1. record_loop dbnow ss t 0 = Inr (t1, n) \<and> usage_commit dbnow t t1 = Inr t')"
  using assms by (auto simp: ledger_record_def split: if_splits sum.splits prod.splits)

lemma ledger_record_InlD: "ledger_record dbnow ss t = (Inl e, t') \<Longrightarrow> t' = t"
  by (auto simp: ledger_record_def split: if_splits sum.splits prod.splits)

lemma ledger_record_meter:
  "ledger_record dbnow ss t = (Inr n, t') \<Longrightarrow>
     usage_meter t' k = fold meter_step (filter (\<lambda>s. us_key s = k) ss) (usage_meter t k)"
  by (auto dest!: ledger_record_InrD record_loop_meter simp: usage_commit_view)

lemma ledger_record_known:
  "ledger_record dbnow ss t = (Inr n, t') \<Longrightarrow>
     usage_known t' k \<longleftrightarrow> k \<in> us_key ` set ss \<or> usage_known t k"
  by (auto dest!: ledger_record_InrD record_loop_known simp: usage_commit_view)

text \<open>Forgetting readings.\<close>

definition forgotten_row :: "time \<Rightarrow> credential_usage \<Rightarrow> credential_usage" where
  "forgotten_row c row =
     (if older c (cu_last_collected_at row) then row
      else row\<lparr>cu_last_rx_reading := 0, cu_last_tx_reading := 0,
               cu_last_collected_at := Some c\<rparr>)"

lemma row_meter_forgotten [simp]:
  "row_meter (forgotten_row c row) = meter_forget c (row_meter row)"
  by (simp add: forgotten_row_def row_meter_def meter_forget_def)

lemma usage_at_forget_one:
  "usage_at (fst (forget_one c k t)) j =
     (if j = k then map_option (forgotten_row c) (usage_at t k) else usage_at t j)"
proof (cases "usage_at t k")
  case None
  then show ?thesis by (auto simp: forget_one_def usage_at_def)
next
  case (Some row)
  then have "cu_key row = k" by (rule usage_at_key)
  then have "cu_key (row\<lparr>cu_last_rx_reading := 0, cu_last_tx_reading := 0,
               cu_last_collected_at := Some c\<rparr>) = k"
    by (simp add: cu_key_def)
  from usage_at_overwrite [OF Some this, of j] Some show ?thesis
    by (auto simp: forget_one_def forgotten_row_def usage_at_def)
qed

lemma usage_meter_forget_one:
  "usage_meter (fst (forget_one c k t)) j =
     (if j = k \<and> usage_known t k then meter_forget c (usage_meter t k) else usage_meter t j)"
  by (auto simp: usage_meter_def usage_known_def usage_at_forget_one split: option.splits)

lemma usage_known_forget_one [simp]:
  "usage_known (fst (forget_one c k t)) j \<longleftrightarrow> usage_known t j"
  by (auto simp: usage_known_def usage_at_forget_one)

lemma cu_key_readings [simp]:
  "cu_key (row\<lparr>cu_last_rx_reading := a, cu_last_tx_reading := b,
     cu_last_collected_at := c\<rparr>) = cu_key row"
  by (simp add: cu_key_def)

lemma usage_unique_forget_one: "usage_unique t \<Longrightarrow> usage_unique (fst (forget_one c k t))"
  by (auto simp: forget_one_def usage_unique_def map_key_overwrite
      dest!: find_SomeD split: option.splits)

lemma meter_forget_idem [simp]: "meter_forget c (meter_forget c m) = meter_forget c m"
  by (auto simp: meter_forget_def older_def split: option.splits)

lemma forget_loop_step:
  "fst (forget_loop c (k # ks) t n) =
     fst (forget_loop c ks (fst (forget_one c k t))
            (if snd (forget_one c k t) then n + 1 else n))"
  by (simp add: Let_def split: prod.splits)

lemma forget_loop_known [simp]:
  "usage_known (fst (forget_loop c ks t n)) j \<longleftrightarrow> usage_known t j"
  by (induction ks arbitrary: t n) (simp_all add: forget_loop_step del: forget_loop.simps(2))

lemma forget_loop_meter:
  "usage_meter (fst (forget_loop c ks t n)) j =
     (if j \<in> set ks \<and> usage_known t j then meter_forget c (usage_meter t j) else usage_meter t j)"
  by (induction ks arbitrary: t n)
    (auto simp: forget_loop_step usage_meter_forget_one simp del: forget_loop.simps(2))

lemma forget_loop_unique: "usage_unique t \<Longrightarrow> usage_unique (fst (forget_loop c ks t n))"
  by (induction ks arbitrary: t n)
    (simp_all add: forget_loop_step usage_unique_forget_one del: forget_loop.simps(2))

lemma forget_readings_InrD:
  assumes "forget_readings dbnow gone c t = (Inr n, t')"
  shows "gone = [] \<and> t' = t \<and> n = 0 \<or> usage_commit dbnow t (fst (forget_loop c gone t 0)) = Inr t'"
  using assms by (auto simp: forget_readings_def split: if_splits prod.splits sum.splits)

lemma forget_readings_InlD: "forget_readings dbnow gone c t = (Inl e, t') \<Longrightarrow> t' = t"
  by (auto simp: forget_readings_def split: if_splits sum.splits prod.splits)

subsection \<open>The ledger interface\<close>

text \<open>
  The contract a client of the ledger relies on (\<open>CounterLedger\<close> in
  \<open>usage/counters.py\<close>): what the meter of one credential is after each operation, and
  that a refused write changes nothing.
\<close>

locale counter_ledger =
  fixes record_samples :: "time \<Rightarrow> usage_sample list \<Rightarrow> 'l \<Rightarrow> (db_error, int) result \<times> 'l"
    and forget :: "time \<Rightarrow> usage_key list \<Rightarrow> time \<Rightarrow> 'l \<Rightarrow> (db_error, int) result \<times> 'l"
    and meter_of :: "'l \<Rightarrow> usage_key \<Rightarrow> meter"
    and known :: "'l \<Rightarrow> usage_key \<Rightarrow> bool"
  assumes record_meter: "record_samples d ss l = (Inr n, l') \<Longrightarrow>
      meter_of l' k = fold meter_step (filter (\<lambda>s. us_key s = k) ss) (meter_of l k)"
    and record_known: "record_samples d ss l = (Inr n, l') \<Longrightarrow>
      known l' k \<longleftrightarrow> k \<in> us_key ` set ss \<or> known l k"
    and record_refused: "record_samples d ss l = (Inl e, l') \<Longrightarrow> l' = l"
    and forget_meter: "forget d gone c l = (Inr n, l') \<Longrightarrow>
      meter_of l' k = (if k \<in> set gone \<and> known l k then meter_forget c (meter_of l k)
                       else meter_of l k)"
    and forget_known: "forget d gone c l = (Inr n, l') \<Longrightarrow> known l' k \<longleftrightarrow> known l k"
    and forget_refused: "forget d gone c l = (Inl e, l') \<Longrightarrow> l' = l"

interpretation ledger: counter_ledger ledger_record forget_readings usage_meter usage_known
proof unfold_locales
  fix d ss l n l' k
  assume rec: "ledger_record d ss l = (Inr n, l')"
  from rec show "usage_meter l' k = fold meter_step (filter (\<lambda>s. us_key s = k) ss) (usage_meter l k)"
    by (rule ledger_record_meter)
  from rec show "usage_known l' k \<longleftrightarrow> k \<in> us_key ` set ss \<or> usage_known l k"
    by (rule ledger_record_known)
next
  fix d ss l e l'
  assume "ledger_record d ss l = (Inl e, l')"
  then show "l' = l" by (rule ledger_record_InlD)
next
  fix d gone c l n l' k
  assume f: "forget_readings d gone c l = (Inr n, l')"
  then show "usage_meter l' k = (if k \<in> set gone \<and> usage_known l k
          then meter_forget c (usage_meter l k) else usage_meter l k)"
    by (auto dest!: forget_readings_InrD simp: usage_commit_view forget_loop_meter)
  from f show "usage_known l' k \<longleftrightarrow> usage_known l k"
    by (auto dest!: forget_readings_InrD simp: usage_commit_view)
next
  fix d gone c l e l'
  assume "forget_readings d gone c l = (Inl e, l')"
  then show "l' = l" by (rule forget_readings_InlD)
qed

subsection \<open>Properties of the ledger\<close>

lemma meter_step_idem [simp]: "meter_step s (meter_step s m) = meter_step s m"
  by (auto simp: meter_step_def older_def delta_def split: option.splits)

lemma meter_step_mono:
  "0 \<le> us_rx_bytes s \<Longrightarrow> 0 \<le> us_tx_bytes s \<Longrightarrow>
     m_rx_total m \<le> m_rx_total (meter_step s m) \<and> m_tx_total m \<le> m_tx_total (meter_step s m)"
  by (simp add: meter_step_def delta_def)

lemma meter_steps_mono:
  assumes "\<forall>s\<in>set ss. 0 \<le> us_rx_bytes s \<and> 0 \<le> us_tx_bytes s"
  shows "m_rx_total m \<le> m_rx_total (fold meter_step ss m) \<and>
    m_tx_total m \<le> m_tx_total (fold meter_step ss m)"
  using assms
proof (induction ss arbitrary: m)
  case (Cons s ss)
  then show ?case using meter_step_mono [of s m] by (fastforce intro: order_trans)
qed simp

lemma filter_key_distinct:
  "distinct (map f xs) \<Longrightarrow> filter (\<lambda>x. f x = k) xs = [] \<or> (\<exists>x. filter (\<lambda>x. f x = k) xs = [x])"
  by (induction xs) (auto simp: filter_empty_conv image_iff)

lemma record_loop_rows_ok:
  assumes "usage_rows_ok t" and "ledger_record dbnow ss t = (Inr n, t')"
  shows "usage_rows_ok t'"
  using ledger_record_InrD [OF assms(2)] assms(1)
  by (auto simp: usage_rows_ok_def usage_commit_view
      dest: usage_commit_InrD(2) dest!: record_loop_unique)

lemma forget_readings_rows_ok:
  assumes "usage_rows_ok t" and "forget_readings dbnow gone c t = (Inr n, t')"
  shows "usage_rows_ok t'"
  using forget_readings_InrD [OF assms(2)] assms(1)
  by (auto simp: usage_rows_ok_def usage_commit_view forget_loop_unique
      dest: usage_commit_InrD(2))

text \<open>
  Whatever the samples are, and whether or not the database accepts them, recording and
  forgetting keep the table well formed: one row per credential, every row within its column
  types and CHECK constraints. A refused transaction leaves the table as it was.
\<close>

lemma ledger_keeps_table:
  assumes "usage_rows_ok t"
  shows "usage_rows_ok (snd (ledger_record dbnow samples t)) \<and>
         usage_rows_ok (snd (forget_readings dbnow gone collected_at t)) \<and>
         (\<forall>e t'. ledger_record dbnow samples t = (Inl e, t') \<longrightarrow> t' = t)"
proof (intro conjI allI impI)
  show "usage_rows_ok (snd (ledger_record dbnow samples t))"
    using assms record_loop_rows_ok ledger_record_InlD
    by (cases "ledger_record dbnow samples t"; cases "fst (ledger_record dbnow samples t)") fastforce+
  show "usage_rows_ok (snd (forget_readings dbnow gone collected_at t))"
    using assms forget_readings_rows_ok forget_readings_InlD
    by (cases "forget_readings dbnow gone collected_at t";
        cases "fst (forget_readings dbnow gone collected_at t)") fastforce+
qed (rule ledger_record_InlD)

text \<open>
  Recording the readings of one poll a second time changes nothing: no credential's
  totals, last readings or stamp move. (The poll reports each counter once.)
\<close>

lemma record_twice_adds_nothing:
  assumes "distinct (map us_key samples)"
    and "ledger_record d1 samples t = (Inr n, t1)"
    and "ledger_record d2 samples t1 = (Inr n', t2)"
  shows "usage_meter t2 k = usage_meter t1 k"
  using ledger_record_meter [OF assms(2), of k] ledger_record_meter [OF assms(3), of k]
    filter_key_distinct [OF assms(1), of k] by auto

text \<open>
  Totals only go up. Recording readings that are not negative lowers no total of any
  credential, and forgetting readings changes no total at all.
\<close>

lemma totals_only_go_up:
  assumes "\<forall>s\<in>set samples. 0 \<le> us_rx_bytes s \<and> 0 \<le> us_tx_bytes s"
    and "ledger_record d samples t = (Inr n, t1)"
    and "forget_readings d' gone c t1 = (Inr n', t2)"
  shows "m_rx_total (usage_meter t k) \<le> m_rx_total (usage_meter t1 k) \<and>
         m_tx_total (usage_meter t k) \<le> m_tx_total (usage_meter t1 k) \<and>
         m_rx_total (usage_meter t2 k) = m_rx_total (usage_meter t1 k) \<and>
         m_tx_total (usage_meter t2 k) = m_tx_total (usage_meter t1 k)"
  using meter_steps_mono [of "filter (\<lambda>s. us_key s = k) samples" "usage_meter t k"] assms(1)
    ledger_record_meter [OF assms(2), of k] ledger.forget_meter [OF assms(3), of k]
  by (simp add: meter_forget_def)

text \<open>
  C22. One row per (protocol, identity) is not enough when two servers report the same
  identity, as they do for a device that keeps one WireGuard key for every server. With the
  two counters standing still at \<open>a > b\<close>, the second reading of each poll looks like a reset
  of the first, so every poll adds \<open>a\<close> bytes that nobody transferred, and leaves the row
  ready to do it again.
\<close>

theorem two_servers_inflate:
  assumes "us_key sa = k" and "us_key sb = k"
    and "us_rx_bytes sa = a" and "us_rx_bytes sb = b" and "0 \<le> b" and "b < a"
    and "us_collected_at sa \<le> us_collected_at sb"
    and "m_rx_last (usage_meter t k) = b"
    and "\<not> older (us_collected_at sa) (m_stamp (usage_meter t k))"
    and "ledger_record d [sa, sb] t = (Inr n, t')"
  shows "m_rx_total (usage_meter t' k) = m_rx_total (usage_meter t k) + a \<and>
         m_rx_last (usage_meter t' k) = b"
  using ledger_record_meter [OF assms(10), of k] assms(1-9)
  by (simp add: meter_step_def delta_def older_def)

theorem two_servers_inflate_witness:
  "let k = (''wireguard'', ''pk'');
       sa = \<lparr>us_protocol = ''wireguard'', us_identity = ''pk'', us_rx_bytes = 900, us_tx_bytes = 0,
             us_sampled_at = 5, us_collected_at = 6\<rparr>;
       sb = sa\<lparr>us_rx_bytes := 100\<rparr>;
       t = snd (ledger_record 1 [sa, sb] []); t' = snd (ledger_record 2 [sa, sb] t)
   in m_rx_total (usage_meter t' k) = m_rx_total (usage_meter t k) + 900"
proof -
  let ?sa = "\<lparr>us_protocol = ''wireguard'', us_identity = ''pk'', us_rx_bytes = 900, us_tx_bytes = 0,
             us_sampled_at = 5, us_collected_at = 6\<rparr>"
  let ?sb = "?sa\<lparr>us_rx_bytes := 100\<rparr>"
  let ?k = "(''wireguard'', ''pk'')"
  let ?t = "snd (ledger_record 1 [?sa, ?sb] [])"
  have "ledger_record 2 [?sa, ?sb] ?t = (Inr 2, snd (ledger_record 2 [?sa, ?sb] ?t))"
    and "m_rx_last (usage_meter ?t ?k) = 100" and "m_stamp (usage_meter ?t ?k) = Some 6"
    by code_simp+
  then show ?thesis
    using two_servers_inflate [of ?sa ?k ?sb 900 100 ?t 2 2]
    by (simp add: Let_def us_key_def older_def)
qed

end
