(* ===== verification/Control_DB.thy ===== *)
theory Control_DB
  imports Allocator Usage_Ledger
begin

text \<open>
  The control plane's database as the provisioning code sees it: the closed vocabularies of
  \<open>models/types.py\<close>, the rows of \<open>models/identity.py\<close>, \<open>models/topology.py\<close>,
  \<open>models/provisioning.py\<close> and \<open>models/operations.py\<close> with the columns the modelled code reads
  or writes, and the constraints PostgreSQL checks when a statement is executed.

  A transaction is a function of the database; a raise inside one leaves the database as it
  was. \<open>constrained\<close> is a statement that succeeds only if the constraints hold afterwards.
  WireGuard peers and Xray clients share the columns of a runtime row, so the record of each
  extends \<open>cred_row\<close>, and what the code does alike to both tables is written once over a
  \<open>row_table\<close>, the pair of a getter and a setter; the locale \<open>runtime_table\<close> holds the laws of
  that pair and is interpreted for both tables.

  \<open>uuid4()\<close> is a supply of identifiers kept with the tables.
\<close>

subsection \<open>Vocabularies\<close>

datatype account_state = PENDING_ACTIVATION | ACCOUNT_ACTIVE | SUSPENDED | ACCOUNT_DISABLED

datatype lifecycle_state = LIFE_ACTIVE | LIFE_REVOKED

datatype profile_state = DRAFT | VALIDATED | IMPLEMENTED | DEPRECATED

datatype server_state = SERVER_ACTIVE | MAINTENANCE | SERVER_DISABLED

datatype capability_state = CAP_ENABLED | CAP_DISABLED

datatype provisioning_state = REQUESTED | APPLYING | ACTIVE | REVOKING | REVOKED | FAILED

datatype operation_state = OP_PENDING | OP_RUNNING | OP_SUCCEEDED | OP_FAILED | OP_CANCELLED

fun provisioning_text :: "provisioning_state \<Rightarrow> string" where
  "provisioning_text REQUESTED = ''requested''"
| "provisioning_text APPLYING = ''applying''"
| "provisioning_text ACTIVE = ''active''"
| "provisioning_text REVOKING = ''revoking''"
| "provisioning_text REVOKED = ''revoked''"
| "provisioning_text FAILED = ''failed''"

definition running_server :: "server_state \<Rightarrow> bool" where
  "running_server s \<longleftrightarrow> s \<in> {SERVER_ACTIVE, MAINTENANCE}"

text \<open>The states the partial unique indexes and \<open>_LIVE_PEER_STATES\<close> call live.\<close>

definition live :: "provisioning_state \<Rightarrow> bool" where
  "live s \<longleftrightarrow> s \<in> {REQUESTED, APPLYING, ACTIVE, REVOKING}"

subsection \<open>Rows\<close>

record user_row =
  usr_id :: uuid
  usr_state :: account_state
  usr_dns_profile :: string
  usr_traffic_quota_bytes :: "int option"
  usr_traffic_baseline_bytes :: int
  usr_quota_exhausted_at :: "time option"
  usr_expires_at :: "time option"

record device_row =
  dev_id :: uuid
  dev_user_id :: uuid
  dev_state :: lifecycle_state
  dev_dns_profile :: "string option"

record protocol_profile =
  pp_id :: uuid
  pp_code :: string
  pp_state :: profile_state
  pp_ad_block :: bool
  pp_agent_profile_code :: "string option"

record vpn_server =
  srv_id :: uuid
  srv_code :: string
  srv_state :: server_state
  srv_agent_host :: string
  srv_agent_port :: int
  srv_client_pool :: "ip_network option"
  srv_gateway_address :: "ip_address option"
  srv_maximum_devices :: int

record capability_row =
  cap_server_id :: uuid
  cap_profile_id :: uuid
  cap_state :: capability_state
  cap_capacity_limit :: "int option"

record permission_row =
  perm_id :: uuid
  perm_user_id :: uuid
  perm_profile_id :: uuid
  perm_state :: capability_state
  perm_granted_at :: time
  perm_expires_at :: "time option"
  perm_revoked_at :: "time option"

record assignment_row =
  asg_id :: uuid
  asg_user_id :: uuid
  asg_server_id :: uuid
  asg_state :: lifecycle_state
  asg_assigned_at :: time
  asg_expires_at :: "time option"
  asg_revoked_at :: "time option"

text \<open>Bytes are lists of 8-bit characters.\<close>

type_synonym bytes = string

record credential_row =
  cred_id :: uuid
  cred_device_id :: uuid
  cred_profile_id :: uuid
  cred_server_id :: uuid
  cred_kind :: string
  cred_state :: provisioning_state
  cred_generation :: int
  cred_ciphertext :: "bytes option"
  cred_nonce :: "bytes option"
  cred_key_version :: "string option"
  cred_key_fingerprint :: "string option"
  cred_key_material_lost_at :: "time option"
  cred_issued_at :: time
  cred_expires_at :: "time option"
  cred_revoked_at :: "time option"

text \<open>The columns a WireGuard peer and an Xray client have in common.\<close>

record cred_row =
  rt_id :: uuid
  rt_credential_id :: uuid
  rt_device_id :: uuid
  rt_profile_id :: uuid
  rt_server_id :: uuid
  rt_state :: provisioning_state
  rt_applied_generation :: int
  rt_applied_at :: "time option"
  rt_revoked_at :: "time option"
  rt_updated_at :: time

record wg_peer = cred_row +
  wp_public_key :: string
  wp_assigned_address :: ip_address

record xray_client = cred_row +
  xc_opaque_label :: string

record agent_operation_row =
  op_id :: uuid
  op_server_id :: uuid
  op_idempotency_key :: uuid
  op_correlation_id :: uuid
  op_kind :: string
  op_target_kind :: string
  op_target_id :: uuid
  op_state :: operation_state
  op_desired_generation :: int
  op_request_fingerprint :: string
  op_attempt_count :: int
  op_requested_at :: time
  op_started_at :: "time option"
  op_finished_at :: "time option"
  op_error_code :: "string option"

record reconciliation_record =
  rr_server_id :: uuid
  rr_agent_operation_id :: "uuid option"
  rr_target_kind :: string
  rr_target_id :: uuid
  rr_desired_generation :: int
  rr_observed_generation :: "int option"
  rr_outcome :: string
  rr_checked_at :: time
  rr_error_code :: "string option"

record audit_event =
  ae_actor_kind :: string
  ae_actor_id :: "uuid option"
  ae_target_kind :: string
  ae_target_id :: uuid
  ae_event_code :: string
  ae_outcome :: string
  ae_request_id :: uuid
  ae_reason_code :: "string option"

record control_db =
  db_users :: "user_row list"
  db_devices :: "device_row list"
  db_profiles :: "protocol_profile list"
  db_servers :: "vpn_server list"
  db_capabilities :: "capability_row list"
  db_permissions :: "permission_row list"
  db_assignments :: "assignment_row list"
  db_credentials :: "credential_row list"
  db_peers :: "wg_peer list"
  db_clients :: "xray_client list"
  db_operations :: "agent_operation_row list"
  db_recon :: "reconciliation_record list"
  db_audit :: "audit_event list"
  db_usage :: usage_table
  uuid_supply :: uuid

definition uuid4 :: "control_db \<Rightarrow> uuid \<times> control_db" where
  "uuid4 db = (uuid_supply db, db\<lparr>uuid_supply := Suc (uuid_supply db)\<rparr>)"

subsection \<open>Constraints\<close>

definition optional :: "('a \<Rightarrow> bool) \<Rightarrow> 'a option \<Rightarrow> bool" where
  "optional P x \<longleftrightarrow> (case x of None \<Rightarrow> True | Some v \<Rightarrow> P v)"

definition credential_check :: "credential_row \<Rightarrow> bool" where
  "credential_check c \<longleftrightarrow>
     cred_kind c \<in> {''wireguard_public'', ''xray_bearer''} \<and>
     1 \<le> cred_generation c \<and>
     (cred_ciphertext c = None \<longleftrightarrow> cred_nonce c = None) \<and>
     (cred_ciphertext c = None \<longleftrightarrow> cred_key_version c = None) \<and>
     (cred_kind c = ''wireguard_public'' \<longrightarrow> cred_ciphertext c = None) \<and>
     (cred_kind c = ''xray_bearer'' \<and> cred_state c \<in> {ACTIVE, REVOKING} \<longrightarrow> cred_ciphertext c \<noteq> None) \<and>
     optional (\<lambda>t. cred_issued_at c < t) (cred_expires_at c) \<and>
     optional (\<lambda>t. cred_issued_at c \<le> t) (cred_revoked_at c) \<and>
     (cred_state c = REVOKED \<longrightarrow> cred_revoked_at c \<noteq> None)"

definition live_key :: "credential_row \<Rightarrow> uuid \<times> uuid \<times> uuid" where
  "live_key c = (cred_device_id c, cred_profile_id c, cred_server_id c)"

definition credentials_ok :: "credential_row list \<Rightarrow> bool" where
  "credentials_ok cs \<longleftrightarrow>
     list_all credential_check cs \<and> distinct (map cred_id cs) \<and>
     distinct (map live_key (filter (\<lambda>c. live (cred_state c)) cs))"

definition runtime_check :: "'a cred_row_scheme \<Rightarrow> bool" where
  "runtime_check r \<longleftrightarrow>
     0 \<le> rt_applied_generation r \<and>
     (case (rt_revoked_at r, rt_applied_at r) of
        (Some gone, Some since) \<Rightarrow> since \<le> gone
      | _ \<Rightarrow> True)"

text \<open>The composite foreign key of a runtime row.\<close>

definition credential_of :: "string \<Rightarrow> credential_row list \<Rightarrow> 'a cred_row_scheme \<Rightarrow> bool" where
  "credential_of kind cs r \<longleftrightarrow>
     list_ex (\<lambda>c. cred_id c = rt_credential_id r \<and> cred_kind c = kind \<and>
                  cred_device_id c = rt_device_id r \<and> cred_profile_id c = rt_profile_id r \<and>
                  cred_server_id c = rt_server_id r) cs"

definition is_base64_char :: "char \<Rightarrow> bool" where
  "is_base64_char c = (let n = of_char c :: nat in
     65 \<le> n \<and> n \<le> 90 \<or> 97 \<le> n \<and> n \<le> 122 \<or> 48 \<le> n \<and> n \<le> 57 \<or> n = 43 \<or> n = 47)"

definition public_key_canonical :: "string \<Rightarrow> bool" where
  "public_key_canonical k \<longleftrightarrow>
     length k = 44 \<and> list_all is_base64_char (take 43 k) \<and> drop 43 k = ''='' \<and>
     k \<noteq> replicate 43 (CHR ''A'') @ ''=''"

definition peers_ok :: "credential_row list \<Rightarrow> wg_peer list \<Rightarrow> bool" where
  "peers_ok cs ps \<longleftrightarrow>
     (let live_peers = filter (\<lambda>p. live (rt_state p)) ps in
      list_all (\<lambda>p. runtime_check p \<and> public_key_canonical (wp_public_key p) \<and>
                    credential_of ''wireguard_public'' cs p) ps \<and>
      distinct (map rt_id ps) \<and> distinct (map rt_credential_id ps) \<and>
      distinct (map (\<lambda>p. (rt_server_id p, wp_public_key p)) live_peers) \<and>
      distinct (map (\<lambda>p. (rt_server_id p, wp_assigned_address p)) live_peers) \<and>
      distinct (map (\<lambda>p. (rt_device_id p, rt_server_id p)) live_peers))"

definition is_label_char :: "char \<Rightarrow> bool" where
  "is_label_char c = (let n = of_char c :: nat in
     65 \<le> n \<and> n \<le> 90 \<or> 97 \<le> n \<and> n \<le> 122 \<or> 48 \<le> n \<and> n \<le> 57 \<or> n = 95 \<or> n = 45)"

definition clients_ok :: "credential_row list \<Rightarrow> xray_client list \<Rightarrow> bool" where
  "clients_ok cs xs \<longleftrightarrow>
     list_all (\<lambda>x. runtime_check x \<and> credential_of ''xray_bearer'' cs x \<and>
                   16 \<le> length (xc_opaque_label x) \<and> length (xc_opaque_label x) \<le> 64 \<and>
                   list_all is_label_char (xc_opaque_label x)) xs \<and>
     distinct (map rt_id xs) \<and> distinct (map rt_credential_id xs) \<and>
     distinct (map xc_opaque_label xs) \<and>
     distinct (map (\<lambda>x. (rt_device_id x, rt_profile_id x, rt_server_id x))
                 (filter (\<lambda>x. live (rt_state x)) xs))"

definition operation_check :: "agent_operation_row \<Rightarrow> bool" where
  "operation_check p \<longleftrightarrow>
     0 \<le> op_desired_generation p \<and> 0 \<le> op_attempt_count p \<and> op_attempt_count p \<le> 100 \<and>
     optional error_code_format (op_error_code p) \<and>
     optional (\<lambda>t. op_requested_at p \<le> t) (op_started_at p) \<and>
     (case (op_finished_at p, op_started_at p) of
        (Some f, Some s) \<Rightarrow> s \<le> f
      | _ \<Rightarrow> True) \<and>
     (op_state p \<in> {OP_SUCCEEDED, OP_FAILED, OP_CANCELLED} \<longrightarrow> op_finished_at p \<noteq> None)"

definition inflight :: "operation_state \<Rightarrow> bool" where
  "inflight s \<longleftrightarrow> s \<in> {OP_PENDING, OP_RUNNING}"

definition op_target :: "agent_operation_row \<Rightarrow> uuid \<times> string \<times> uuid" where
  "op_target p = (op_server_id p, op_target_kind p, op_target_id p)"

definition operations_ok :: "agent_operation_row list \<Rightarrow> bool" where
  "operations_ok ops \<longleftrightarrow>
     list_all operation_check ops \<and> distinct (map op_id ops) \<and>
     distinct (map op_idempotency_key ops) \<and>
     distinct (map op_target (filter (\<lambda>p. inflight (op_state p)) ops))"

definition recon_check :: "reconciliation_record \<Rightarrow> bool" where
  "recon_check r \<longleftrightarrow>
     0 \<le> rr_desired_generation r \<and> optional (\<lambda>g. 0 \<le> g) (rr_observed_generation r) \<and>
     optional error_code_format (rr_error_code r)"

definition recon_ok :: "reconciliation_record list \<Rightarrow> bool" where
  "recon_ok rs \<longleftrightarrow> list_all recon_check rs \<and>
     distinct (map (\<lambda>r. (rr_server_id r, rr_target_kind r, rr_target_id r, rr_checked_at r)) rs)"

definition audit_check :: "audit_event \<Rightarrow> bool" where
  "audit_check e \<longleftrightarrow>
     (ae_actor_kind e \<in> {''anonymous'', ''system'', ''worker'', ''bootstrap''} \<and> ae_actor_id e = None \<or>
      ae_actor_kind e \<in> {''user'', ''admin'', ''agent''} \<and> ae_actor_id e \<noteq> None) \<and>
     ae_outcome e \<in> {''succeeded'', ''failed'', ''denied''} \<and>
     optional error_code_format (ae_reason_code e)"

definition db_ok :: "control_db \<Rightarrow> bool" where
  "db_ok db \<longleftrightarrow>
     credentials_ok (db_credentials db) \<and>
     peers_ok (db_credentials db) (db_peers db) \<and>
     clients_ok (db_credentials db) (db_clients db) \<and>
     operations_ok (db_operations db) \<and>
     recon_ok (db_recon db) \<and>
     list_all audit_check (db_audit db)"

text \<open>A statement the database accepts only if every constraint holds after it.\<close>

definition constrained :: "control_db \<Rightarrow> (db_error, control_db) result" where
  "constrained db = (if db_ok db then Inr db else Inl IntegrityError)"

subsection \<open>Statements\<close>

text \<open>
  Writing a loaded row back: without a net change nothing is written, and \<open>onupdate\<close> fills
  \<open>updated_at\<close> unless the code assigned it a new value.
\<close>

definition orm_write ::
  "time \<Rightarrow> ('a cred_row_scheme \<Rightarrow> 'a cred_row_scheme) \<Rightarrow> 'a cred_row_scheme \<Rightarrow> 'a cred_row_scheme" where
  "orm_write dbnow f r =
     (let r' = f r in
      if r' = r \<or> rt_updated_at r' \<noteq> rt_updated_at r then r'
      else r'\<lparr>rt_updated_at := dbnow\<rparr>)"

text \<open>A table of runtime rows inside the database.\<close>

record 'a row_table =
  tab_get :: "control_db \<Rightarrow> 'a cred_row_scheme list"
  tab_put :: "'a cred_row_scheme list \<Rightarrow> control_db \<Rightarrow> control_db"
  tab_kind :: string

definition peer_table where
  "peer_table = \<lparr>tab_get = db_peers, tab_put = (\<lambda>rows. db_peers_update (\<lambda>_. rows)),
     tab_kind = ''wireguard_peer''\<rparr>"

definition client_table where
  "client_table = \<lparr>tab_get = db_clients, tab_put = (\<lambda>rows. db_clients_update (\<lambda>_. rows)),
     tab_kind = ''xray_client''\<rparr>"

definition row_by_id :: "'a row_table \<Rightarrow> uuid \<Rightarrow> control_db \<Rightarrow> 'a cred_row_scheme option" where
  "row_by_id T i db = find (\<lambda>r. rt_id r = i) (tab_get T db)"

definition write_row ::
  "'a row_table \<Rightarrow> time \<Rightarrow> uuid \<Rightarrow> ('a cred_row_scheme \<Rightarrow> 'a cred_row_scheme) \<Rightarrow> control_db \<Rightarrow> control_db" where
  "write_row T dbnow i f db =
     tab_put T (update_where (\<lambda>r. rt_id r = i) (orm_write dbnow f) (tab_get T db)) db"

definition insert_row :: "'a row_table \<Rightarrow> 'a cred_row_scheme \<Rightarrow> control_db \<Rightarrow> control_db" where
  "insert_row T r db = tab_put T (tab_get T db @ [r]) db"

definition credential_by_id :: "uuid \<Rightarrow> control_db \<Rightarrow> credential_row option" where
  "credential_by_id i db = find (\<lambda>c. cred_id c = i) (db_credentials db)"

definition write_credential :: "uuid \<Rightarrow> (credential_row \<Rightarrow> credential_row) \<Rightarrow> control_db \<Rightarrow> control_db" where
  "write_credential i f db =
     db\<lparr>db_credentials := update_where (\<lambda>c. cred_id c = i) f (db_credentials db)\<rparr>"

definition operation_by_id :: "uuid \<Rightarrow> control_db \<Rightarrow> agent_operation_row option" where
  "operation_by_id i db = find (\<lambda>p. op_id p = i) (db_operations db)"

definition write_operation ::
  "uuid \<Rightarrow> (agent_operation_row \<Rightarrow> agent_operation_row) \<Rightarrow> control_db \<Rightarrow> control_db" where
  "write_operation i f db =
     db\<lparr>db_operations := update_where (\<lambda>p. op_id p = i) f (db_operations db)\<rparr>"

definition add_audit_event ::
  "string \<Rightarrow> uuid option \<Rightarrow> string \<Rightarrow> uuid \<Rightarrow> string \<Rightarrow> string \<Rightarrow> uuid \<Rightarrow> string option \<Rightarrow>
   control_db \<Rightarrow> control_db" where
  "add_audit_event actor_kind actor_id target_kind target_id event_code outcome request_id reason_code db =
     db\<lparr>db_audit := db_audit db @
       [\<lparr>ae_actor_kind = actor_kind, ae_actor_id = actor_id, ae_target_kind = target_kind,
         ae_target_id = target_id, ae_event_code = event_code, ae_outcome = outcome,
         ae_request_id = request_id, ae_reason_code = reason_code\<rparr>]\<rparr>"

end
