(* ===== verification/DB_Invariant.thy ===== *)
theory DB_Invariant
  imports Control_DB
begin

text \<open>
  The laws of the two tables of runtime rows (locale \<open>runtime_table\<close>, interpreted for
  WireGuard peers and for Xray clients) and the invariant the services keep beyond the
  database's own constraints: a live runtime row has a live credential, and an Xray
  credential has its encrypted secret from the start. With it, the updates the services make
  to existing rows never run into a constraint.
\<close>

subsection \<open>A table of runtime rows\<close>

locale runtime_table =
  fixes T :: "'a row_table"
  assumes get_put: "tab_get T (tab_put T rows db) = rows"
    and put_credentials: "db_credentials (tab_put T rows db) = db_credentials db"
    and put_operations: "db_operations (tab_put T rows db) = db_operations db"
    and put_audit: "db_audit (tab_put T rows db) = db_audit db"
    and put_recon: "db_recon (tab_put T rows db) = db_recon db"
    and put_users: "db_users (tab_put T rows db) = db_users db"
    and put_devices: "db_devices (tab_put T rows db) = db_devices db"
    and put_servers: "db_servers (tab_put T rows db) = db_servers db"
    and get_credentials: "tab_get T (db_credentials_update f db) = tab_get T db"
    and get_operations: "tab_get T (db_operations_update g db) = tab_get T db"
    and get_audit: "tab_get T (db_audit_update h db) = tab_get T db"
    and get_recon: "tab_get T (db_recon_update j db) = tab_get T db"
    and get_supply: "tab_get T (uuid_supply_update u db) = tab_get T db"
begin

lemmas table_laws = get_put put_credentials put_operations put_audit put_recon put_users put_devices
  put_servers get_credentials get_operations get_audit get_recon get_supply

lemma rows_after_write:
  "tab_get T (write_row T dbnow i f db) =
     update_where (\<lambda>r. rt_id r = i) (orm_write dbnow f) (tab_get T db)"
  by (simp add: write_row_def get_put)

lemma write_row_frame:
  "db_credentials (write_row T dbnow i f db) = db_credentials db"
  "db_operations (write_row T dbnow i f db) = db_operations db"
  "db_audit (write_row T dbnow i f db) = db_audit db"
  "db_recon (write_row T dbnow i f db) = db_recon db"
  "db_users (write_row T dbnow i f db) = db_users db"
  "db_devices (write_row T dbnow i f db) = db_devices db"
  "db_servers (write_row T dbnow i f db) = db_servers db"
  by (simp_all add: write_row_def table_laws)

lemma rows_frame:
  "tab_get T (write_credential i g db) = tab_get T db"
  "tab_get T (write_operation i h db) = tab_get T db"
  "tab_get T (add_audit_event a b c d e e1 e2 e3 db) = tab_get T db"
  by (simp_all add: write_credential_def write_operation_def add_audit_event_def table_laws)

lemma row_by_id_frame:
  "row_by_id T j (write_credential i g db) = row_by_id T j db"
  "row_by_id T j (write_operation i h db) = row_by_id T j db"
  "row_by_id T j (add_audit_event a b c d e e1 e2 e3 db) = row_by_id T j db"
  by (simp_all add: row_by_id_def rows_frame)

lemma by_id_frame:
  "credential_by_id j (write_row T dbnow i f db) = credential_by_id j db"
  "operation_by_id j (write_row T dbnow i f db) = operation_by_id j db"
  by (simp_all add: credential_by_id_def operation_by_id_def write_row_frame)

end

interpretation peers: runtime_table peer_table
  by unfold_locales (simp_all add: peer_table_def)

interpretation clients: runtime_table client_table
  by unfold_locales (simp_all add: client_table_def)

lemma tab_get_peers [simp]: "tab_get peer_table = db_peers"
  by (simp add: peer_table_def)

lemma tab_get_clients [simp]: "tab_get client_table = db_clients"
  by (simp add: client_table_def)

lemma tab_kinds [simp]:
  "tab_kind peer_table = ''wireguard_peer''" "tab_kind client_table = ''xray_client''"
  by (simp_all add: peer_table_def client_table_def)

lemma other_table_frame [simp]:
  "db_clients (write_row peer_table dbnow i f db) = db_clients db"
  "db_peers (write_row client_table dbnow i g db) = db_peers db"
  by (simp_all add: write_row_def peer_table_def client_table_def)

lemma write_frames [simp]:
  "db_peers (write_credential i g db) = db_peers db"
  "db_clients (write_credential i g db) = db_clients db"
  "db_operations (write_credential i g db) = db_operations db"
  "db_recon (write_credential i g db) = db_recon db"
  "db_audit (write_credential i g db) = db_audit db"
  "db_users (write_credential i g db) = db_users db"
  "db_devices (write_credential i g db) = db_devices db"
  "db_servers (write_credential i g db) = db_servers db"
  "db_credentials (write_operation i h db) = db_credentials db"
  "db_peers (write_operation i h db) = db_peers db"
  "db_clients (write_operation i h db) = db_clients db"
  "db_recon (write_operation i h db) = db_recon db"
  "db_audit (write_operation i h db) = db_audit db"
  by (simp_all add: write_credential_def write_operation_def)

lemma audit_frames [simp]:
  "db_credentials (add_audit_event a b c d e e1 e2 e3 db) = db_credentials db"
  "db_peers (add_audit_event a b c d e e1 e2 e3 db) = db_peers db"
  "db_clients (add_audit_event a b c d e e1 e2 e3 db) = db_clients db"
  "db_operations (add_audit_event a b c d e e1 e2 e3 db) = db_operations db"
  "db_recon (add_audit_event a b c d e e1 e2 e3 db) = db_recon db"
  "db_users (add_audit_event a b c d e e1 e2 e3 db) = db_users db"
  "db_devices (add_audit_event a b c d e e1 e2 e3 db) = db_devices db"
  by (simp_all add: add_audit_event_def)

lemma orm_write_columns [simp]:
  "rt_id (orm_write dbnow f r) = rt_id (f r)"
  "rt_credential_id (orm_write dbnow f r) = rt_credential_id (f r)"
  "rt_device_id (orm_write dbnow f r) = rt_device_id (f r)"
  "rt_profile_id (orm_write dbnow f r) = rt_profile_id (f r)"
  "rt_server_id (orm_write dbnow f r) = rt_server_id (f r)"
  "rt_state (orm_write dbnow f r) = rt_state (f r)"
  "rt_applied_generation (orm_write dbnow f r) = rt_applied_generation (f r)"
  "rt_applied_at (orm_write dbnow f r) = rt_applied_at (f r)"
  "rt_revoked_at (orm_write dbnow f r) = rt_revoked_at (f r)"
  by (simp_all add: orm_write_def Let_def)

lemma orm_write_peer [simp]:
  "wp_public_key (orm_write dbnow f p) = wp_public_key (f p)"
  "wp_assigned_address (orm_write dbnow f p) = wp_assigned_address (f p)"
  by (simp_all add: orm_write_def Let_def)

lemma orm_write_client [simp]: "xc_opaque_label (orm_write dbnow f x) = xc_opaque_label (f x)"
  by (simp add: orm_write_def Let_def)

lemma runtime_check_orm [simp]: "runtime_check (orm_write dbnow f r) = runtime_check (f r)"
  by (simp add: runtime_check_def)

subsection \<open>Looking rows up after a write\<close>

lemma row_by_id_write:
  assumes "runtime_table T" and "\<And>r. rt_id (f r) = rt_id r"
  shows "row_by_id T j (write_row T dbnow i f db) =
    (if i = j then map_option (orm_write dbnow f) (row_by_id T j db) else row_by_id T j db)"
  using assms(2) find_update_key [of rt_id "orm_write dbnow f" j i "tab_get T db"]
  by (simp add: row_by_id_def runtime_table.rows_after_write [OF assms(1)])

lemma credential_by_id_write:
  assumes "\<And>c. cred_id (f c) = cred_id c"
  shows "credential_by_id j (write_credential i f db) =
    (if i = j then map_option f (credential_by_id j db) else credential_by_id j db)"
  using assms find_update_key [of cred_id f j i "db_credentials db"]
  by (simp add: credential_by_id_def write_credential_def)

lemma operation_by_id_write:
  assumes "\<And>p. op_id (f p) = op_id p"
  shows "operation_by_id j (write_operation i f db) =
    (if i = j then map_option f (operation_by_id j db) else operation_by_id j db)"
  using assms find_update_key [of op_id f j i "db_operations db"]
  by (simp add: operation_by_id_def write_operation_def)

lemma by_id_frames [simp]:
  "credential_by_id j (write_operation i h db) = credential_by_id j db"
  "operation_by_id j (write_credential i g db) = operation_by_id j db"
  "credential_by_id j (add_audit_event a b c d e e1 e2 e3 db) = credential_by_id j db"
  "operation_by_id j (add_audit_event a b c d e e1 e2 e3 db) = operation_by_id j db"
  by (simp_all add: credential_by_id_def operation_by_id_def write_credential_def
      write_operation_def add_audit_event_def)

subsection \<open>Constraints and updates\<close>

lemma credentials_ok_write:
  assumes "credentials_ok cs"
    and "\<And>c. c \<in> set cs \<Longrightarrow> cred_id c = i \<Longrightarrow>
      cred_id (f c) = cred_id c \<and> live_key (f c) = live_key c \<and> credential_check (f c) \<and>
      (live (cred_state (f c)) \<longrightarrow> live (cred_state c))"
  shows "credentials_ok (update_where (\<lambda>c. cred_id c = i) f cs)"
  using assms unfolding credentials_ok_def
  by (intro conjI list_all_update distinct_map_update distinct_keys_update) auto

text \<open>An update that leaves alone what a runtime row's foreign key refers to.\<close>

definition keeps_identity :: "(credential_row \<Rightarrow> credential_row) \<Rightarrow> bool" where
  "keeps_identity f \<longleftrightarrow>
     (\<forall>c. cred_id (f c) = cred_id c \<and> live_key (f c) = live_key c \<and> cred_kind (f c) = cred_kind c)"

lemma credential_of_write:
  assumes "credential_of kind cs r"
    and "keeps_identity f"
  shows "credential_of kind (update_where (\<lambda>c. cred_id c = i) f cs) r"
  using assms unfolding credential_of_def live_key_def keeps_identity_def
  by (induction cs) auto

lemma peers_ok_write:
  assumes "peers_ok cs ps"
    and "\<And>p. p \<in> set ps \<Longrightarrow> rt_id p = i \<Longrightarrow>
      rt_id (f p) = rt_id p \<and> rt_credential_id (f p) = rt_credential_id p \<and>
      rt_device_id (f p) = rt_device_id p \<and> rt_profile_id (f p) = rt_profile_id p \<and>
      rt_server_id (f p) = rt_server_id p \<and> wp_public_key (f p) = wp_public_key p \<and>
      wp_assigned_address (f p) = wp_assigned_address p \<and> runtime_check (f p) \<and>
      (live (rt_state (f p)) \<longrightarrow> live (rt_state p))"
  shows "peers_ok cs (update_where (\<lambda>p. rt_id p = i) f ps)"
  using assms unfolding peers_ok_def Let_def
  by (intro conjI list_all_update distinct_map_update distinct_keys_update)
    (auto simp: credential_of_def)

lemma clients_ok_write:
  assumes "clients_ok cs xs"
    and "\<And>x. x \<in> set xs \<Longrightarrow> rt_id x = i \<Longrightarrow>
      rt_id (f x) = rt_id x \<and> rt_credential_id (f x) = rt_credential_id x \<and>
      rt_device_id (f x) = rt_device_id x \<and> rt_profile_id (f x) = rt_profile_id x \<and>
      rt_server_id (f x) = rt_server_id x \<and> xc_opaque_label (f x) = xc_opaque_label x \<and>
      runtime_check (f x) \<and> (live (rt_state (f x)) \<longrightarrow> live (rt_state x))"
  shows "clients_ok cs (update_where (\<lambda>x. rt_id x = i) f xs)"
  using assms unfolding clients_ok_def
  by (intro conjI list_all_update distinct_map_update distinct_keys_update)
    (auto simp: credential_of_def)

lemma operations_ok_write:
  assumes "operations_ok ops"
    and "\<And>p. p \<in> set ops \<Longrightarrow> op_id p = i \<Longrightarrow>
      op_id (f p) = op_id p \<and> op_idempotency_key (f p) = op_idempotency_key p \<and>
      op_target (f p) = op_target p \<and> operation_check (f p) \<and>
      (inflight (op_state (f p)) \<longrightarrow> inflight (op_state p))"
  shows "operations_ok (update_where (\<lambda>p. op_id p = i) f ops)"
  using assms unfolding operations_ok_def
  by (intro conjI list_all_update distinct_map_update distinct_keys_update) auto

lemma peers_ok_credentials:
  assumes "peers_ok cs ps"
    and "keeps_identity f"
  shows "peers_ok (update_where (\<lambda>c. cred_id c = i) f cs) ps"
  using assms(1) unfolding peers_ok_def Let_def
  by (auto simp: list_all_iff intro: credential_of_write [OF _ assms(2)])

lemma clients_ok_credentials:
  assumes "clients_ok cs xs"
    and "keeps_identity f"
  shows "clients_ok (update_where (\<lambda>c. cred_id c = i) f cs) xs"
  using assms(1) unfolding clients_ok_def
  by (auto simp: list_all_iff intro: credential_of_write [OF _ assms(2)])

lemma db_ok_write_credential:
  assumes "db_ok db" and "keeps_identity f"
    and "\<And>c. c \<in> set (db_credentials db) \<Longrightarrow> cred_id c = i \<Longrightarrow>
      credential_check (f c) \<and> (live (cred_state (f c)) \<longrightarrow> live (cred_state c))"
  shows "db_ok (write_credential i f db)"
proof -
  have "credentials_ok (update_where (\<lambda>c. cred_id c = i) f (db_credentials db))"
    using assms by (intro credentials_ok_write) (auto simp: db_ok_def keeps_identity_def)
  with assms(1,2) show ?thesis
    by (simp add: db_ok_def write_credential_def peers_ok_credentials clients_ok_credentials)
qed

lemma db_ok_write_operation:
  assumes "db_ok db"
    and "\<And>p. p \<in> set (db_operations db) \<Longrightarrow> op_id p = i \<Longrightarrow>
      op_id (f p) = op_id p \<and> op_idempotency_key (f p) = op_idempotency_key p \<and>
      op_target (f p) = op_target p \<and> operation_check (f p) \<and>
      (inflight (op_state (f p)) \<longrightarrow> inflight (op_state p))"
  shows "db_ok (write_operation i f db)"
  using assms by (auto simp: db_ok_def write_operation_def intro!: operations_ok_write)

lemma db_ok_audit:
  "db_ok db \<Longrightarrow>
   audit_check \<lparr>ae_actor_kind = a, ae_actor_id = b, ae_target_kind = c, ae_target_id = d,
     ae_event_code = e, ae_outcome = e1, ae_request_id = e2, ae_reason_code = e3\<rparr> \<Longrightarrow>
   db_ok (add_audit_event a b c d e e1 e2 e3 db)"
  by (simp add: db_ok_def add_audit_event_def)

subsection \<open>The constraints of one table of runtime rows\<close>

text \<open>An update of a runtime row that a service makes: lifecycle columns only.\<close>

definition lifecycle_write :: "('a cred_row_scheme \<Rightarrow> 'a cred_row_scheme) \<Rightarrow> 'a cred_row_scheme \<Rightarrow> bool" where
  "lifecycle_write f r \<longleftrightarrow>
     rt_id (f r) = rt_id r \<and> rt_credential_id (f r) = rt_credential_id r \<and>
     rt_device_id (f r) = rt_device_id r \<and> rt_profile_id (f r) = rt_profile_id r \<and>
     rt_server_id (f r) = rt_server_id r \<and> cred_row.more (f r) = cred_row.more r \<and>
     runtime_check (f r) \<and> (live (rt_state (f r)) \<longrightarrow> live (rt_state r))"

locale constrained_table = runtime_table T for T :: "'a row_table" +
  fixes kind :: string
  assumes ok_write: "db_ok db \<Longrightarrow>
      (\<And>r. r \<in> set (tab_get T db) \<Longrightarrow> rt_id r = i \<Longrightarrow> lifecycle_write f r) \<Longrightarrow>
      db_ok (write_row T dbnow i f db)"
    and ok_reference: "db_ok db \<Longrightarrow> r \<in> set (tab_get T db) \<Longrightarrow> credential_of kind (db_credentials db) r"
    and ok_ids: "db_ok db \<Longrightarrow> distinct (map rt_id (tab_get T db))"
    and ok_credential_ids: "db_ok db \<Longrightarrow> distinct (map rt_credential_id (tab_get T db))"
    and ok_rows: "db_ok db \<Longrightarrow> r \<in> set (tab_get T db) \<Longrightarrow> runtime_check r"
begin

lemma credential_exists:
  assumes "db_ok db" and "r \<in> set (tab_get T db)"
  obtains c where "credential_by_id (rt_credential_id r) db = Some c" and "cred_kind c = kind"
    and "c \<in> set (db_credentials db)"
proof -
  from ok_reference [OF assms] obtain c where c: "c \<in> set (db_credentials db)"
    "cred_id c = rt_credential_id r" "cred_kind c = kind"
    by (auto simp: credential_of_def list_ex_iff)
  moreover have "distinct (map cred_id (db_credentials db))"
    using assms(1) by (simp add: db_ok_def credentials_ok_def)
  ultimately show thesis
    using that find_key_distinct [of cred_id "db_credentials db" c] by (simp add: credential_by_id_def)
qed

lemma row_by_id_mem:
  assumes "db_ok db" and "r \<in> set (tab_get T db)"
  shows "row_by_id T (rt_id r) db = Some r"
  using find_key_distinct [OF ok_ids [OF assms(1)] assms(2)] by (simp add: row_by_id_def)

lemma row_by_idD: "row_by_id T i db = Some r \<Longrightarrow> r \<in> set (tab_get T db) \<and> rt_id r = i"
  by (auto simp: row_by_id_def dest: find_SomeD)

end

lemma more_peer:
  assumes "cred_row.more p = cred_row.more q"
  shows "wp_public_key p = wp_public_key q" "wp_assigned_address p = wp_assigned_address q"
  using assms by (cases p; cases q; simp)+

lemma more_client:
  assumes "cred_row.more p = cred_row.more q"
  shows "xc_opaque_label p = xc_opaque_label q"
  using assms by (cases p; cases q; simp)

interpretation peer_rows: constrained_table peer_table "''wireguard_public''"
proof unfold_locales
  fix db i and f :: "wg_peer \<Rightarrow> wg_peer" and dbnow
  assume ok: "db_ok db"
    and f: "\<And>r. r \<in> set (tab_get peer_table db) \<Longrightarrow> rt_id r = i \<Longrightarrow> lifecycle_write f r"
  have "peers_ok (db_credentials db)
      (update_where (\<lambda>p. rt_id p = i) (orm_write dbnow f) (db_peers db))"
  proof (rule peers_ok_write)
    show "peers_ok (db_credentials db) (db_peers db)" using ok by (simp add: db_ok_def)
  next
    fix p assume "p \<in> set (db_peers db)" "rt_id p = i"
    with f [of p] have "lifecycle_write f p" by simp
    then show "rt_id (orm_write dbnow f p) = rt_id p \<and>
      rt_credential_id (orm_write dbnow f p) = rt_credential_id p \<and>
      rt_device_id (orm_write dbnow f p) = rt_device_id p \<and>
      rt_profile_id (orm_write dbnow f p) = rt_profile_id p \<and>
      rt_server_id (orm_write dbnow f p) = rt_server_id p \<and>
      wp_public_key (orm_write dbnow f p) = wp_public_key p \<and>
      wp_assigned_address (orm_write dbnow f p) = wp_assigned_address p \<and>
      runtime_check (orm_write dbnow f p) \<and>
      (live (rt_state (orm_write dbnow f p)) \<longrightarrow> live (rt_state p))"
      using more_peer [of "f p" p] by (simp add: lifecycle_write_def)
  qed
  with ok show "db_ok (write_row peer_table dbnow i f db)"
    by (simp add: db_ok_def peers.write_row_frame peers.rows_after_write [simplified])
qed (auto simp: db_ok_def peers_ok_def Let_def list_all_iff)

interpretation client_rows: constrained_table client_table "''xray_bearer''"
proof unfold_locales
  fix db i and f :: "xray_client \<Rightarrow> xray_client" and dbnow
  assume ok: "db_ok db"
    and f: "\<And>r. r \<in> set (tab_get client_table db) \<Longrightarrow> rt_id r = i \<Longrightarrow> lifecycle_write f r"
  have "clients_ok (db_credentials db)
      (update_where (\<lambda>p. rt_id p = i) (orm_write dbnow f) (db_clients db))"
  proof (rule clients_ok_write)
    show "clients_ok (db_credentials db) (db_clients db)" using ok by (simp add: db_ok_def)
  next
    fix p assume "p \<in> set (db_clients db)" "rt_id p = i"
    with f [of p] have "lifecycle_write f p" by simp
    then show "rt_id (orm_write dbnow f p) = rt_id p \<and>
      rt_credential_id (orm_write dbnow f p) = rt_credential_id p \<and>
      rt_device_id (orm_write dbnow f p) = rt_device_id p \<and>
      rt_profile_id (orm_write dbnow f p) = rt_profile_id p \<and>
      rt_server_id (orm_write dbnow f p) = rt_server_id p \<and>
      xc_opaque_label (orm_write dbnow f p) = xc_opaque_label p \<and>
      runtime_check (orm_write dbnow f p) \<and>
      (live (rt_state (orm_write dbnow f p)) \<longrightarrow> live (rt_state p))"
      using more_client [of "f p" p] by (simp add: lifecycle_write_def)
  qed
  with ok show "db_ok (write_row client_table dbnow i f db)"
    by (simp add: db_ok_def clients.write_row_frame clients.rows_after_write [simplified])
qed (auto simp: db_ok_def clients_ok_def Let_def list_all_iff)

subsection \<open>The services' own invariant\<close>

definition paired :: "'a cred_row_scheme list \<Rightarrow> credential_row list \<Rightarrow> bool" where
  "paired rows cs \<longleftrightarrow>
     (\<forall>r\<in>set rows. \<forall>c\<in>set cs. cred_id c = rt_credential_id r \<and> live (rt_state r) \<longrightarrow> live (cred_state c))"

definition sealed :: "credential_row list \<Rightarrow> bool" where
  "sealed cs \<longleftrightarrow> (\<forall>c\<in>set cs. cred_kind c = ''xray_bearer'' \<longrightarrow> cred_ciphertext c \<noteq> None)"

definition db_wf :: "control_db \<Rightarrow> bool" where
  "db_wf db \<longleftrightarrow> db_ok db \<and> paired (db_peers db) (db_credentials db) \<and>
     paired (db_clients db) (db_credentials db) \<and> sealed (db_credentials db)"

text \<open>What the services do to a runtime row and the credential behind it, together.\<close>

definition pair_write ::
  "'a row_table \<Rightarrow> time \<Rightarrow> 'a cred_row_scheme \<Rightarrow> ('a cred_row_scheme \<Rightarrow> 'a cred_row_scheme) \<Rightarrow>
   (credential_row \<Rightarrow> credential_row) \<Rightarrow> control_db \<Rightarrow> control_db" where
  "pair_write T dbnow r f g db =
     write_credential (rt_credential_id r) g (write_row T dbnow (rt_id r) f db)"

definition keeps_secret :: "(credential_row \<Rightarrow> credential_row) \<Rightarrow> bool" where
  "keeps_secret g \<longleftrightarrow> (\<forall>c. cred_ciphertext (g c) = cred_ciphertext c)"

lemma paired_same_table:
  assumes "paired rows cs" and "distinct (map rt_id rows)" and "distinct (map rt_credential_id rows)"
    and r: "r \<in> set rows" and "lifecycle_write f r" and "keeps_identity g"
    and g: "\<And>c. c \<in> set cs \<Longrightarrow> cred_id c = rt_credential_id r \<Longrightarrow> live (rt_state (f r)) \<Longrightarrow> live (cred_state (g c))"
  shows "paired (update_where (\<lambda>x. rt_id x = rt_id r) (orm_write dbnow f) rows)
           (update_where (\<lambda>c. cred_id c = rt_credential_id r) g cs)"
proof (unfold paired_def, intro ballI impI)
  have only: "x = r" if "x \<in> set rows" "rt_id x = rt_id r \<or> rt_credential_id x = rt_credential_id r" for x
    using that r assms(2,3) by (metis distinct_map inj_onD)
  fix x c
  assume "x \<in> set (update_where (\<lambda>x. rt_id x = rt_id r) (orm_write dbnow f) rows)"
    and "c \<in> set (update_where (\<lambda>c. cred_id c = rt_credential_id r) g cs)"
    and ref: "cred_id c = rt_credential_id x \<and> live (rt_state x)"
  then obtain x0 c0 where x0: "x0 \<in> set rows" "x = (if rt_id x0 = rt_id r then orm_write dbnow f x0 else x0)"
    and c0: "c0 \<in> set cs" "c = (if cred_id c0 = rt_credential_id r then g c0 else c0)"
    by (auto simp: set_update_where)
  from c0(2) \<open>keeps_identity g\<close> have id: "cred_id c = cred_id c0" by (simp add: keeps_identity_def)
  show "live (cred_state c)"
  proof (cases "x0 = r")
    case True
    with x0 \<open>lifecycle_write f r\<close> have "rt_credential_id x = rt_credential_id r" "rt_state x = rt_state (f r)"
      by (simp_all add: lifecycle_write_def)
    with ref c0 id g [of c0] show ?thesis by simp
  next
    case False
    with only [OF x0(1)] have "rt_id x0 \<noteq> rt_id r" "rt_credential_id x0 \<noteq> rt_credential_id r" by auto
    with x0 c0 id ref \<open>paired rows cs\<close> show ?thesis by (auto simp: paired_def)
  qed
qed

lemma paired_other_table:
  assumes "paired rows cs" and "\<And>x. x \<in> set rows \<Longrightarrow> rt_credential_id x \<noteq> i" and "keeps_identity g"
  shows "paired rows (update_where (\<lambda>c. cred_id c = i) g cs)"
proof (unfold paired_def, intro ballI impI)
  fix x c
  assume x: "x \<in> set rows" and "c \<in> set (update_where (\<lambda>c. cred_id c = i) g cs)"
    and ref: "cred_id c = rt_credential_id x \<and> live (rt_state x)"
  then obtain c0 where c0: "c0 \<in> set cs" "c = (if cred_id c0 = i then g c0 else c0)"
    by (auto simp: set_update_where)
  from c0(2) assms(3) have "cred_id c = cred_id c0" by (simp add: keeps_identity_def)
  with assms(1) assms(2) [OF x] x c0 ref show "live (cred_state c)" by (auto simp: paired_def)
qed

lemma credential_not_shared:
  assumes "db_ok db" and "p \<in> set (db_peers db)" and "x \<in> set (db_clients db)"
  shows "rt_credential_id p \<noteq> rt_credential_id x"
proof
  assume same: "rt_credential_id p = rt_credential_id x"
  obtain c where "credential_by_id (rt_credential_id p) db = Some c" "cred_kind c = ''wireguard_public''"
    using peer_rows.credential_exists [OF assms(1), of p] assms(2) by auto
  moreover obtain d where "credential_by_id (rt_credential_id x) db = Some d" "cred_kind d = ''xray_bearer''"
    using client_rows.credential_exists [OF assms(1), of x] assms(3) by auto
  ultimately show False using same by simp
qed

lemma sealed_write:
  "sealed cs \<Longrightarrow> keeps_identity g \<Longrightarrow> keeps_secret g \<Longrightarrow> sealed (update_where P g cs)"
  by (auto simp: sealed_def keeps_identity_def keeps_secret_def set_update_where)

lemma paired_live:
  "paired rows cs \<Longrightarrow> r \<in> set rows \<Longrightarrow> c \<in> set cs \<Longrightarrow> cred_id c = rt_credential_id r \<Longrightarrow>
     live (rt_state r) \<Longrightarrow> live (cred_state c)"
  by (auto simp: paired_def)

lemma pair_write_ok:
  assumes T: "constrained_table T kind" and "db_ok db" and r: "r \<in> set (tab_get T db)"
    and "paired (tab_get T db) (db_credentials db)"
    and f: "lifecycle_write f r" and "keeps_identity g"
    and g: "\<And>c. c \<in> set (db_credentials db) \<Longrightarrow> cred_id c = rt_credential_id r \<Longrightarrow>
      credential_check (g c) \<and> live (cred_state (g c)) = live (rt_state (f r))"
  shows "db_ok (pair_write T dbnow r f g db)"
proof -
  have base: "runtime_table T" using T by (simp add: constrained_table_def)
  have "lifecycle_write f x" if "x \<in> set (tab_get T db)" "rt_id x = rt_id r" for x
    using that r f constrained_table.ok_ids [OF T assms(2)] by (metis distinct_map inj_onD)
  then have ok: "db_ok (write_row T dbnow (rt_id r) f db)"
    by (rule constrained_table.ok_write [OF T assms(2)])
  have "live (cred_state c)" if "c \<in> set (db_credentials db)" "cred_id c = rt_credential_id r"
    "live (cred_state (g c))" for c
    using that g [of c] f paired_live [OF assms(4) r, of c] by (auto simp: lifecycle_write_def)
  then show ?thesis
    unfolding pair_write_def using assms(6) g
    by (intro db_ok_write_credential [OF ok]) (auto simp: runtime_table.write_row_frame [OF base])
qed

lemma peer_pair_wf:
  assumes wf: "db_wf db" and r: "r \<in> set (db_peers db)"
    and f: "lifecycle_write f r" and g: "keeps_identity g" "keeps_secret g"
    and check: "\<And>c. c \<in> set (db_credentials db) \<Longrightarrow> cred_id c = rt_credential_id r \<Longrightarrow>
      credential_check (g c) \<and> live (cred_state (g c)) = live (rt_state (f r))"
  shows "db_wf (pair_write peer_table dbnow r f g db)"
proof -
  have "db_ok (pair_write peer_table dbnow r f g db)"
    using wf r f g(1) check
    by (intro pair_write_ok [OF peer_rows.constrained_table_axioms]) (auto simp: db_wf_def)
  moreover have "paired (update_where (\<lambda>x. rt_id x = rt_id r) (orm_write dbnow f) (db_peers db))
           (update_where (\<lambda>c. cred_id c = rt_credential_id r) g (db_credentials db))"
    using wf r f g(1) check peer_rows.ok_ids [of db] peer_rows.ok_credential_ids [of db]
    by (intro paired_same_table) (auto simp: db_wf_def)
  moreover have "paired (db_clients db)
      (update_where (\<lambda>c. cred_id c = rt_credential_id r) g (db_credentials db))"
    using wf r g(1) by (intro paired_other_table) (auto simp: db_wf_def dest: credential_not_shared)
  ultimately show ?thesis
    using wf g by (simp add: db_wf_def pair_write_def write_credential_def peers.write_row_frame
        peers.rows_after_write [simplified] sealed_write)
qed

lemma client_pair_wf:
  assumes wf: "db_wf db" and r: "r \<in> set (db_clients db)"
    and f: "lifecycle_write f r" and g: "keeps_identity g" "keeps_secret g"
    and check: "\<And>c. c \<in> set (db_credentials db) \<Longrightarrow> cred_id c = rt_credential_id r \<Longrightarrow>
      credential_check (g c) \<and> live (cred_state (g c)) = live (rt_state (f r))"
  shows "db_wf (pair_write client_table dbnow r f g db)"
proof -
  have "db_ok (pair_write client_table dbnow r f g db)"
    using wf r f g(1) check
    by (intro pair_write_ok [OF client_rows.constrained_table_axioms]) (auto simp: db_wf_def)
  moreover have "paired (update_where (\<lambda>x. rt_id x = rt_id r) (orm_write dbnow f) (db_clients db))
           (update_where (\<lambda>c. cred_id c = rt_credential_id r) g (db_credentials db))"
    using wf r f g(1) check client_rows.ok_ids [of db] client_rows.ok_credential_ids [of db]
    by (intro paired_same_table) (auto simp: db_wf_def)
  moreover have "paired (db_peers db)
      (update_where (\<lambda>c. cred_id c = rt_credential_id r) g (db_credentials db))"
    using wf r g(1) by (intro paired_other_table) (auto simp: db_wf_def dest: credential_not_shared)
  ultimately show ?thesis
    using wf g by (simp add: db_wf_def pair_write_def write_credential_def clients.write_row_frame
        clients.rows_after_write [simplified] sealed_write)
qed

text \<open>Both tables as one interface: what a client of the pair of updates relies on.\<close>

locale managed_table = constrained_table T kind for T :: "'a row_table" and kind :: string +
  assumes pair_wf: "db_wf db \<Longrightarrow> r \<in> set (tab_get T db) \<Longrightarrow> lifecycle_write f r \<Longrightarrow>
      keeps_identity g \<Longrightarrow> keeps_secret g \<Longrightarrow>
      (\<And>c. c \<in> set (db_credentials db) \<Longrightarrow> cred_id c = rt_credential_id r \<Longrightarrow>
        credential_check (g c) \<and> live (cred_state (g c)) = live (rt_state (f r))) \<Longrightarrow>
      db_wf (pair_write T dbnow r f g db)"

interpretation wg: managed_table peer_table "''wireguard_public''"
  by unfold_locales (auto intro: peer_pair_wf)

interpretation xray: managed_table client_table "''xray_bearer''"
  by unfold_locales (auto intro: client_pair_wf)

end
