(* ===== verification/Xray_Credentials.thy ===== *)
theory Xray_Credentials
  imports Control_DB
begin

text \<open>
  Envelope encryption of Xray client identifiers (\<open>provisioning/xray_credentials.py\<close>). The
  cipher (AES-GCM of the \<open>cryptography\<close> package) is a parameter: \<open>enc\<close> and \<open>dec\<close> take key,
  nonce, text and associated data, and \<open>dec\<close> answers \<open>None\<close> for \<open>InvalidTag\<close>. What is
  modelled is everything around it: the checks, the key ring, and the associated data that
  binds an envelope to its device, its credential and its key version.

  Python's type tests (\<open>isinstance\<close>, \<open>type(x) is bytes\<close>) hold by typing here.
\<close>

subsection \<open>Bytes of numbers\<close>

text \<open>\<open>n.to_bytes(k, "big")\<close>, for a number that fits.\<close>

fun be_bytes :: "nat \<Rightarrow> nat \<Rightarrow> bytes" where
  "be_bytes 0 n = []"
| "be_bytes (Suc k) n = be_bytes k (n div 256) @ [char_of (n mod 256)]"

definition be_value :: "bytes \<Rightarrow> nat" where
  "be_value bs = foldl (\<lambda>acc c. acc * 256 + of_char c) 0 bs"

lemma length_be_bytes [simp]: "length (be_bytes k n) = k"
  by (induction k arbitrary: n) auto

lemma be_value_snoc [simp]: "be_value (bs @ [c]) = be_value bs * 256 + of_char c"
  by (simp add: be_value_def)

lemma be_value_bytes: "n < 256 ^ k \<Longrightarrow> be_value (be_bytes k n) = n"
proof (induction k arbitrary: n)
  case 0
  then show ?case by (simp add: be_value_def)
next
  case (Suc k)
  then have "n div 256 < 256 ^ k" by (simp add: less_mult_imp_div_less mult.commute)
  with Suc.IH show ?case by simp
qed

lemma be_bytes_inj:
  "m < 256 ^ k \<Longrightarrow> n < 256 ^ k \<Longrightarrow> be_bytes k m = be_bytes k n \<Longrightarrow> m = n"
  by (metis be_value_bytes)

definition uuid_bytes :: "uuid \<Rightarrow> bytes" where
  "uuid_bytes u = be_bytes 16 u"

definition uuid_ok :: "uuid \<Rightarrow> bool" where
  "uuid_ok u \<longleftrightarrow> u < 256 ^ 16"

lemma uuid_bytes_inj: "uuid_ok a \<Longrightarrow> uuid_ok b \<Longrightarrow> uuid_bytes a = uuid_bytes b \<Longrightarrow> a = b"
  unfolding uuid_ok_def uuid_bytes_def by (rule be_bytes_inj)

subsection \<open>The envelope\<close>

definition XRAY_CLIENT_UUID_BYTES :: nat where "XRAY_CLIENT_UUID_BYTES = 16"
definition XRAY_NONCE_BYTES :: nat where "XRAY_NONCE_BYTES = 12"
definition XRAY_ENCRYPTION_KEY_BYTES :: nat where "XRAY_ENCRYPTION_KEY_BYTES = 32"
definition AES_GCM_TAG_BYTES :: nat where "AES_GCM_TAG_BYTES = 16"

lemmas xray_sizes =
  XRAY_CLIENT_UUID_BYTES_def XRAY_NONCE_BYTES_def XRAY_ENCRYPTION_KEY_BYTES_def AES_GCM_TAG_BYTES_def

definition xray_aad_prefix :: bytes where
  "xray_aad_prefix = ''nebula:xray-client-credential:v1'' @ [CHR 0x00]"

definition valid_key_version :: "int \<Rightarrow> bool" where
  "valid_key_version v \<longleftrightarrow> 1 \<le> v \<and> v \<le> 2147483647"

record xray_envelope =
  env_key_version :: int
  env_nonce :: bytes
  env_ciphertext :: bytes

text \<open>The constructor; \<open>None\<close> is its \<open>ValueError\<close>.\<close>

definition EncryptedXrayCredential :: "int \<Rightarrow> bytes \<Rightarrow> bytes \<Rightarrow> xray_envelope option" where
  "EncryptedXrayCredential key_version nonce ciphertext =
     (if \<not> valid_key_version key_version then None
      else if length nonce \<noteq> XRAY_NONCE_BYTES then None
      else if length ciphertext < XRAY_CLIENT_UUID_BYTES + AES_GCM_TAG_BYTES then None
      else Some \<lparr>env_key_version = key_version, env_nonce = nonce, env_ciphertext = ciphertext\<rparr>)"

type_synonym key_ring = "int \<rightharpoonup> bytes"

definition xray_encryption_key :: "key_ring \<Rightarrow> int \<Rightarrow> bytes option" where
  "xray_encryption_key key_ring key_version =
     (if \<not> valid_key_version key_version then None
      else case key_ring key_version of
             None \<Rightarrow> None
           | Some key \<Rightarrow> if length key \<noteq> XRAY_ENCRYPTION_KEY_BYTES then None else Some key)"

definition xray_aad :: "uuid \<Rightarrow> uuid \<Rightarrow> int \<Rightarrow> bytes" where
  "xray_aad device_id credential_id key_version =
     xray_aad_prefix @ be_bytes 4 (nat key_version) @ uuid_bytes device_id @ uuid_bytes credential_id"

text \<open>
  \<open>encrypt_xray_credential\<close>. \<open>nonce\<close> is what the random source returned; \<open>None\<close> is any of the
  exceptions the function raises.
\<close>

definition encrypt_xray_credential ::
  "(bytes \<Rightarrow> bytes \<Rightarrow> bytes \<Rightarrow> bytes \<Rightarrow> bytes) \<Rightarrow> uuid \<Rightarrow> uuid \<Rightarrow> uuid \<Rightarrow> int \<Rightarrow> key_ring \<Rightarrow> bytes \<Rightarrow>
   xray_envelope option" where
  "encrypt_xray_credential enc client_uuid device_id credential_id key_version key_ring nonce =
     (case xray_encryption_key key_ring key_version of
        None \<Rightarrow> None
      | Some key \<Rightarrow>
          if length nonce \<noteq> XRAY_NONCE_BYTES then None
          else EncryptedXrayCredential key_version nonce
                 (enc key nonce (uuid_bytes client_uuid)
                    (xray_aad device_id credential_id key_version)))"

definition decrypt_xray_credential ::
  "(bytes \<Rightarrow> bytes \<Rightarrow> bytes \<Rightarrow> bytes \<Rightarrow> bytes option) \<Rightarrow> xray_envelope \<Rightarrow> uuid \<Rightarrow> uuid \<Rightarrow> key_ring \<Rightarrow>
   uuid option" where
  "decrypt_xray_credential dec envelope device_id credential_id key_ring =
     (case xray_encryption_key key_ring (env_key_version envelope) of
        None \<Rightarrow> None
      | Some key \<Rightarrow>
          (case dec key (env_nonce envelope) (env_ciphertext envelope)
                  (xray_aad device_id credential_id (env_key_version envelope)) of
             None \<Rightarrow> None
           | Some plaintext \<Rightarrow>
               if length plaintext \<noteq> XRAY_CLIENT_UUID_BYTES then None
               else Some (be_value plaintext)))"

text \<open>\<open>key_fingerprint\<close>, with SHA-256 in hexadecimal as a parameter.\<close>

definition key_fingerprint :: "(bytes \<Rightarrow> string) \<Rightarrow> bytes \<Rightarrow> string" where
  "key_fingerprint sha256 key =
     take 32 (sha256 (''nebula:xray-encryption-key-fingerprint:v1:'' @ key))"

subsection \<open>The columns of a credential row\<close>

text \<open>
  \<open>int(key_version or 0)\<close> on the text of the column, which is written as \<open>str\<close> of an int: a
  decimal number, anything else is a \<open>ValueError\<close>.
\<close>

definition digit_value :: "char \<Rightarrow> nat option" where
  "digit_value c = (let n = of_char c :: nat in if 48 \<le> n \<and> n \<le> 57 then Some (n - 48) else None)"

fun dec_value :: "nat \<Rightarrow> string \<Rightarrow> nat option" where
  "dec_value acc [] = Some acc"
| "dec_value acc (c # cs) =
     (case digit_value c of None \<Rightarrow> None | Some d \<Rightarrow> dec_value (acc * 10 + d) cs)"

definition int_or_zero :: "string option \<Rightarrow> int option" where
  "int_or_zero v =
     (case v of
        None \<Rightarrow> Some 0
      | Some s \<Rightarrow> if s = [] then Some 0 else map_option int (dec_value 0 s))"

text \<open>
  What every reader of a stored credential does: build the envelope from the columns and
  decrypt it for the given device. \<open>None\<close> covers each exception they catch together.
\<close>

definition stored_client_uuid ::
  "(bytes \<Rightarrow> bytes \<Rightarrow> bytes \<Rightarrow> bytes \<Rightarrow> bytes option) \<Rightarrow> key_ring \<Rightarrow> uuid \<Rightarrow> credential_row \<Rightarrow> uuid option" where
  "stored_client_uuid dec key_ring device_id c =
     (case int_or_zero (cred_key_version c) of
        None \<Rightarrow> None
      | Some version \<Rightarrow>
          (case EncryptedXrayCredential version
                  (case cred_nonce c of None \<Rightarrow> [] | Some n \<Rightarrow> n)
                  (case cred_ciphertext c of None \<Rightarrow> [] | Some t \<Rightarrow> t) of
             None \<Rightarrow> None
           | Some envelope \<Rightarrow> decrypt_xray_credential dec envelope device_id (cred_id c) key_ring))"

subsection \<open>Properties\<close>

lemma digit_value_char: "d < 10 \<Longrightarrow> digit_value (digit_char d) = Some d"
  by (auto simp: less_Suc_eq numeral_eq_Suc digit_char_def digit_value_def)

lemma dec_value_append:
  "dec_value acc (xs @ ys) = (case dec_value acc xs of None \<Rightarrow> None | Some v \<Rightarrow> dec_value v ys)"
  by (induction xs arbitrary: acc) (auto split: option.splits)

lemma dec_value_decimal: "dec_value 0 (decimal n) = Some n"
proof (induction n rule: decimal.induct)
  case (1 n)
  then show ?case
    by (subst decimal.simps) (auto simp: digit_value_char dec_value_append)
qed

lemma decimal_not_empty: "decimal n \<noteq> []"
  by (subst decimal.simps) simp

lemma int_or_zero_decimal: "int_or_zero (Some (decimal n)) = Some (int n)"
  by (simp add: int_or_zero_def decimal_not_empty dec_value_decimal)

lemma decrypt_encrypt:
  assumes aead: "\<And>k n p a. dec k n (enc k n p a) a = Some p"
    and "uuid_ok u"
    and "encrypt_xray_credential enc u did cid version ring nonce = Some envelope"
  shows "decrypt_xray_credential dec envelope did cid ring = Some u"
  using assms(2,3)
  by (auto simp: encrypt_xray_credential_def decrypt_xray_credential_def EncryptedXrayCredential_def
      aead uuid_bytes_def xray_sizes uuid_ok_def be_value_bytes split: option.splits if_splits)

lemma encrypt_fields:
  "encrypt_xray_credential enc u did cid version ring nonce = Some envelope \<Longrightarrow>
     env_key_version envelope = version \<and> valid_key_version version \<and>
     EncryptedXrayCredential version (env_nonce envelope) (env_ciphertext envelope) = Some envelope"
  by (auto simp: encrypt_xray_credential_def EncryptedXrayCredential_def split: option.splits if_splits)

text \<open>
  C32. Round trip through the row: a client identifier encrypted for a device and stored in a
  credential's columns the way provisioning stores it is read back unchanged by every reader
  that holds the same key ring, given that the cipher decrypts what it encrypted.
\<close>

theorem stored_credential_roundtrip:
  assumes "\<And>k n p a. dec k n (enc k n p a) a = Some p"
    and "uuid_ok u"
    and "encrypt_xray_credential enc u did (cred_id c) version ring nonce = Some envelope"
    and "cred_ciphertext c = Some (env_ciphertext envelope)"
    and "cred_nonce c = Some (env_nonce envelope)"
    and "cred_key_version c = Some (decimal (nat version))"
  shows "stored_client_uuid dec ring did c = Some u"
proof -
  from encrypt_fields [OF assms(3)]
  have "int (nat version) = version" by (simp add: valid_key_version_def)
  with encrypt_fields [OF assms(3)] decrypt_encrypt [where enc = enc and dec = dec, OF assms(1-3)]
  show ?thesis
    by (simp add: stored_client_uuid_def assms(4-6) int_or_zero_decimal)
qed

text \<open>
  The associated data is an injective encoding of device, credential and key version, so
  an envelope copied to another device's or another credential's row is presented to the
  cipher under data it was not sealed with.
\<close>

lemma aad_binds_context:
  assumes "uuid_ok d1" "uuid_ok d2" "uuid_ok c1" "uuid_ok c2"
    and "valid_key_version v1" "valid_key_version v2"
    and "xray_aad d1 c1 v1 = xray_aad d2 c2 v2"
  shows "d1 = d2 \<and> c1 = c2 \<and> v1 = v2"
proof -
  from assms(7) have "be_bytes 4 (nat v1) = be_bytes 4 (nat v2)" "uuid_bytes d1 = uuid_bytes d2"
    "uuid_bytes c1 = uuid_bytes c2"
    by (simp_all add: xray_aad_def uuid_bytes_def)
  moreover have "nat v1 < 256 ^ 4" "nat v2 < 256 ^ 4"
    using assms(5,6) by (auto simp: valid_key_version_def nat_less_iff)
  ultimately have "d1 = d2" "c1 = c2" "nat v1 = nat v2"
    using uuid_bytes_inj be_bytes_inj assms(1-4) by blast+
  with assms(5,6) show ?thesis by (auto simp: valid_key_version_def eq_nat_nat_iff)
qed

text \<open>A cipher for the witness: the associated data and a tag around the text.\<close>

definition demo_enc :: "bytes \<Rightarrow> bytes \<Rightarrow> bytes \<Rightarrow> bytes \<Rightarrow> bytes" where
  "demo_enc k n p a = replicate 16 (CHR ''t'') @ p"

definition demo_dec :: "bytes \<Rightarrow> bytes \<Rightarrow> bytes \<Rightarrow> bytes \<Rightarrow> bytes option" where
  "demo_dec k n c a = (if take 16 c = replicate 16 (CHR ''t'') then Some (drop 16 c) else None)"

definition demo_ring :: key_ring where
  "demo_ring v = (if v = 1 then Some (replicate 32 (CHR ''k'')) else None)"

definition demo_credential :: credential_row where
  "demo_credential = \<lparr>cred_id = 7, cred_device_id = 5, cred_profile_id = 3, cred_server_id = 2,
     cred_kind = ''xray_bearer'', cred_state = ACTIVE, cred_generation = 1,
     cred_ciphertext = Some (demo_enc [] [] (uuid_bytes 77) []), cred_nonce = Some (replicate 12 (CHR ''n'')),
     cred_key_version = Some ''1'', cred_key_fingerprint = None, cred_key_material_lost_at = None,
     cred_issued_at = 0, cred_expires_at = None, cred_revoked_at = None\<rparr>"

theorem stored_credential_roundtrip_witness:
  "stored_client_uuid demo_dec demo_ring 5 demo_credential = Some 77"
proof -
  have "encrypt_xray_credential demo_enc 77 5 (cred_id demo_credential) 1 demo_ring (replicate 12 (CHR ''n''))
    = Some \<lparr>env_key_version = 1, env_nonce = replicate 12 (CHR ''n''),
            env_ciphertext = demo_enc [] [] (uuid_bytes 77) []\<rparr>"
    by (simp add: encrypt_xray_credential_def xray_encryption_key_def demo_ring_def valid_key_version_def
        EncryptedXrayCredential_def xray_sizes demo_enc_def uuid_bytes_def)
  from stored_credential_roundtrip [where dec = demo_dec and enc = demo_enc, OF _ _ this]
  show ?thesis
    by (simp add: demo_dec_def demo_enc_def uuid_ok_def demo_credential_def decimal.simps digit_char_def)
qed

end
