(* ===== verification/Example_DB.thy ===== *)
theory Example_DB
  imports DB_Invariant Xray_Credentials
begin

text \<open>
  A small deployment on which the hypotheses of the theorems hold: one account with one
  device on one server, which serves it a WireGuard peer and an Xray client. The witnesses of
  the other theories evaluate the model on it.
\<close>

definition ex_key :: string where
  "ex_key = replicate 42 (CHR ''k'') @ ''A=''"

definition ex_user :: user_row where
  "ex_user = \<lparr>usr_id = 1, usr_state = ACCOUNT_ACTIVE, usr_dns_profile = ''default'',
     usr_traffic_quota_bytes = Some 1000, usr_traffic_baseline_bytes = 0,
     usr_quota_exhausted_at = None, usr_expires_at = None\<rparr>"

definition ex_device :: device_row where
  "ex_device = \<lparr>dev_id = 2, dev_user_id = 1, dev_state = LIFE_ACTIVE, dev_dns_profile = None\<rparr>"

definition ex_profile :: protocol_profile where
  "ex_profile = \<lparr>pp_id = 3, pp_code = ''wireguard-native'', pp_state = IMPLEMENTED,
     pp_ad_block = False, pp_agent_profile_code = None\<rparr>"

definition ex_xray_profile :: protocol_profile where
  "ex_xray_profile = \<lparr>pp_id = 4, pp_code = ''vless-xhttp-tls'', pp_state = IMPLEMENTED,
     pp_ad_block = False, pp_agent_profile_code = None\<rparr>"

text \<open>The pool is 10.8.0.0/24 and the gateway 10.8.0.1.\<close>

definition ex_pool :: ip_network where
  "ex_pool = \<lparr>net_version = V4, net_address = 168296448, net_prefixlen = 24\<rparr>"

definition ex_server :: vpn_server where
  "ex_server = \<lparr>srv_id = 5, srv_code = ''fra1'', srv_state = SERVER_ACTIVE,
     srv_agent_host = ''10.0.0.2'', srv_agent_port = 9443, srv_client_pool = Some ex_pool,
     srv_gateway_address = Some (IPv4Address 168296449), srv_maximum_devices = 10\<rparr>"

definition ex_peer_credential :: credential_row where
  "ex_peer_credential = \<lparr>cred_id = 6, cred_device_id = 2, cred_profile_id = 3, cred_server_id = 5,
     cred_kind = ''wireguard_public'', cred_state = ACTIVE, cred_generation = 1,
     cred_ciphertext = None, cred_nonce = None, cred_key_version = None,
     cred_key_fingerprint = None, cred_key_material_lost_at = None,
     cred_issued_at = 10, cred_expires_at = None, cred_revoked_at = None\<rparr>"

definition ex_client_credential :: credential_row where
  "ex_client_credential = \<lparr>cred_id = 8, cred_device_id = 2, cred_profile_id = 4, cred_server_id = 5,
     cred_kind = ''xray_bearer'', cred_state = ACTIVE, cred_generation = 1,
     cred_ciphertext = Some (demo_enc [] [] (uuid_bytes 77) []),
     cred_nonce = Some (replicate 12 (CHR ''n'')), cred_key_version = Some ''1'',
     cred_key_fingerprint = None, cred_key_material_lost_at = None,
     cred_issued_at = 10, cred_expires_at = None, cred_revoked_at = None\<rparr>"

definition ex_peer :: wg_peer where
  "ex_peer = \<lparr>rt_id = 7, rt_credential_id = 6, rt_device_id = 2, rt_profile_id = 3, rt_server_id = 5,
     rt_state = ACTIVE, rt_applied_generation = 1, rt_applied_at = Some 11, rt_revoked_at = None,
     rt_updated_at = 11, wp_public_key = ex_key, wp_assigned_address = IPv4Address 168296450\<rparr>"

definition ex_client :: xray_client where
  "ex_client = \<lparr>rt_id = 9, rt_credential_id = 8, rt_device_id = 2, rt_profile_id = 4, rt_server_id = 5,
     rt_state = ACTIVE, rt_applied_generation = 1, rt_applied_at = Some 11, rt_revoked_at = None,
     rt_updated_at = 11, xc_opaque_label = ''abcdefghijklmnop''\<rparr>"

definition ex_db :: control_db where
  "ex_db = \<lparr>db_users = [ex_user], db_devices = [ex_device], db_profiles = [ex_profile, ex_xray_profile],
     db_servers = [ex_server],
     db_capabilities =
       [\<lparr>cap_server_id = 5, cap_profile_id = 3, cap_state = CAP_ENABLED, cap_capacity_limit = Some 5\<rparr>,
        \<lparr>cap_server_id = 5, cap_profile_id = 4, cap_state = CAP_ENABLED, cap_capacity_limit = None\<rparr>],
     db_permissions =
       [\<lparr>perm_id = 20, perm_user_id = 1, perm_profile_id = 3, perm_state = CAP_ENABLED,
         perm_granted_at = 5, perm_expires_at = None, perm_revoked_at = None\<rparr>,
        \<lparr>perm_id = 21, perm_user_id = 1, perm_profile_id = 4, perm_state = CAP_ENABLED,
         perm_granted_at = 5, perm_expires_at = Some 5000, perm_revoked_at = None\<rparr>],
     db_assignments =
       [\<lparr>asg_id = 22, asg_user_id = 1, asg_server_id = 5, asg_state = LIFE_ACTIVE,
         asg_assigned_at = 5, asg_expires_at = None, asg_revoked_at = None\<rparr>],
     db_credentials = [ex_peer_credential, ex_client_credential],
     db_peers = [ex_peer], db_clients = [ex_client], db_operations = [], db_recon = [],
     db_audit = [], db_usage = [], uuid_supply = 100\<rparr>"

lemma ex_db_wf: "db_wf ex_db"
  by code_simp

text \<open>The same deployment before the device asked for anything.\<close>

definition ex_empty_db :: control_db where
  "ex_empty_db = ex_db\<lparr>db_credentials := [], db_peers := [], db_clients := []\<rparr>"

lemma ex_empty_db_wf: "db_wf ex_empty_db"
  by code_simp

end
