(* ===== verification/Revocation.thy ===== *)
theory Revocation
  imports Example_DB
begin

text \<open>
  Taking a device's live credentials away (\<open>provisioning/revocation.py\<close>): every live runtime
  row of the device, and the credential behind it, goes to \<open>REVOKING\<close>. No agent is called;
  reconciliation takes the credential off its server. The functions here run inside the
  caller's transaction, so they return the database and the caller commits.

  The lemmas are proved once over the interface \<open>managed_table\<close> and used for both tables.
\<close>

text \<open>\<open>_LIVE_CREDENTIAL_STATES\<close>.\<close>

definition serving :: "provisioning_state \<Rightarrow> bool" where
  "serving s \<longleftrightarrow> s \<in> {REQUESTED, APPLYING, ACTIVE}"

definition mark_revoking :: "time \<Rightarrow> 'a cred_row_scheme \<Rightarrow> 'a cred_row_scheme" where
  "mark_revoking now r = r\<lparr>rt_state := REVOKING, rt_updated_at := now\<rparr>"

definition credential_revoking :: "credential_row \<Rightarrow> credential_row" where
  "credential_revoking c = c\<lparr>cred_state := REVOKING\<rparr>"

definition revoke_credential_row ::
  "'a row_table \<Rightarrow> time \<Rightarrow> time \<Rightarrow> 'a cred_row_scheme \<Rightarrow> control_db \<Rightarrow> control_db" where
  "revoke_credential_row T dbnow now row db =
     pair_write T dbnow row (mark_revoking now) credential_revoking db"

definition revoke_rows ::
  "'a row_table \<Rightarrow> time \<Rightarrow> uuid \<Rightarrow> time \<Rightarrow> control_db \<Rightarrow> control_db \<times> int" where
  "revoke_rows T dbnow device_id now db =
     (let rows = filter (\<lambda>r. rt_device_id r = device_id \<and> serving (rt_state r)) (tab_get T db)
      in (fold (revoke_credential_row T dbnow now) rows db, int (length rows)))"

definition revoke_device_credentials ::
  "time \<Rightarrow> uuid \<Rightarrow> time \<Rightarrow> control_db \<Rightarrow> control_db \<times> int" where
  "revoke_device_credentials dbnow device_id now db =
     (let (db1, n1) = revoke_rows peer_table dbnow device_id now db;
          (db2, n2) = revoke_rows client_table dbnow device_id now db1
      in (db2, n1 + n2))"

definition credentials_awaiting_removal :: "control_db \<Rightarrow> bool" where
  "credentials_awaiting_removal db \<longleftrightarrow>
     list_ex (\<lambda>r. rt_state r = REVOKING) (db_peers db) \<or>
     list_ex (\<lambda>r. rt_state r = REVOKING) (db_clients db)"

subsection \<open>Lemmas over either table\<close>

lemma live_cases: "live s \<longleftrightarrow> serving s \<or> s = REVOKING"
  by (auto simp: live_def serving_def)

lemma revoking_keeps: "keeps_identity credential_revoking" "keeps_secret credential_revoking"
  by (simp_all add: keeps_identity_def keeps_secret_def credential_revoking_def live_key_def)

lemma revoking_check:
  "credential_check c \<Longrightarrow> (cred_kind c = ''xray_bearer'' \<longrightarrow> cred_ciphertext c \<noteq> None) \<Longrightarrow>
     credential_check (credential_revoking c)"
  by (auto simp: credential_check_def credential_revoking_def)

lemma mark_columns [simp]:
  "rt_id (mark_revoking now r) = rt_id r"
  "rt_device_id (mark_revoking now r) = rt_device_id r"
  "rt_state (mark_revoking now r) = REVOKING"
  "cred_id (credential_revoking c) = cred_id c"
  "cred_state (credential_revoking c) = REVOKING"
  "credential_revoking (credential_revoking c) = credential_revoking c"
  by (simp_all add: mark_revoking_def credential_revoking_def)

lemma wf_credential_check:
  "db_wf db \<Longrightarrow> c \<in> set (db_credentials db) \<Longrightarrow>
     credential_check c \<and> (cred_kind c = ''xray_bearer'' \<longrightarrow> cred_ciphertext c \<noteq> None)"
  by (auto simp: db_wf_def db_ok_def credentials_ok_def list_all_iff sealed_def)

context managed_table
begin

lemma mark_lifecycle:
  assumes "db_wf db" and "r \<in> set (tab_get T db)" and "live (rt_state r)"
  shows "lifecycle_write (mark_revoking now) r"
  using assms ok_rows [of db r]
  by (simp add: lifecycle_write_def mark_revoking_def runtime_check_def db_wf_def)

lemma revoke_row_wf:
  assumes "db_wf db" and "r \<in> set (tab_get T db)" and "live (rt_state r)"
  shows "db_wf (revoke_credential_row T dbnow now r db)"
  unfolding revoke_credential_row_def
proof (rule pair_wf [OF assms(1,2) mark_lifecycle [OF assms] revoking_keeps])
  fix c
  assume "c \<in> set (db_credentials db)"
  with assms(1) show "credential_check (credential_revoking c) \<and>
      live (cred_state (credential_revoking c)) = live (rt_state (mark_revoking now r))"
    using wf_credential_check [of db c] revoking_check [of c]
    by (simp add: credential_revoking_def mark_revoking_def)
qed

lemma rows_after_revoke:
  "tab_get T (revoke_credential_row T dbnow now r db) =
     update_where (\<lambda>x. rt_id x = rt_id r) (orm_write dbnow (mark_revoking now)) (tab_get T db)"
  by (simp add: revoke_credential_row_def pair_write_def rows_frame rows_after_write)

lemma credentials_after_revoke:
  "db_credentials (revoke_credential_row T dbnow now r db) =
     update_where (\<lambda>c. cred_id c = rt_credential_id r) credential_revoking (db_credentials db)"
  by (simp add: revoke_credential_row_def pair_write_def write_credential_def write_row_frame)

lemma revoke_fold:
  assumes "db_wf db" and "set rs \<subseteq> set (tab_get T db)" and "distinct (map rt_id rs)"
    and "\<forall>r\<in>set rs. live (rt_state r)"
  shows "db_wf (fold (revoke_credential_row T dbnow now) rs db)"
    and "tab_get T (fold (revoke_credential_row T dbnow now) rs db) =
      update_where (\<lambda>x. rt_id x \<in> rt_id ` set rs) (orm_write dbnow (mark_revoking now)) (tab_get T db)"
    and "db_credentials (fold (revoke_credential_row T dbnow now) rs db) =
      update_where (\<lambda>c. cred_id c \<in> rt_credential_id ` set rs) credential_revoking (db_credentials db)"
proof -
  have "db_wf (fold (revoke_credential_row T dbnow now) rs db) \<and>
    tab_get T (fold (revoke_credential_row T dbnow now) rs db) =
      update_where (\<lambda>x. rt_id x \<in> rt_id ` set rs) (orm_write dbnow (mark_revoking now)) (tab_get T db) \<and>
    db_credentials (fold (revoke_credential_row T dbnow now) rs db) =
      update_where (\<lambda>c. cred_id c \<in> rt_credential_id ` set rs) credential_revoking (db_credentials db)"
    using assms
  proof (induction rs arbitrary: db)
    case Nil
    then show ?case by (simp add: update_where_def)
  next
    case (Cons r rs)
    let ?db = "revoke_credential_row T dbnow now r db"
    have wf: "db_wf ?db" using Cons.prems by (intro revoke_row_wf) auto
    have still: "set rs \<subseteq> set (tab_get T ?db)"
    proof
      fix x assume x: "x \<in> set rs"
      with Cons.prems(3) have "rt_id x \<noteq> rt_id r" by (auto simp: rev_image_eqI)
      moreover have "x \<in> set (tab_get T db)" using x Cons.prems(2) by auto
      ultimately show "x \<in> set (tab_get T ?db)"
        by (auto simp: rows_after_revoke set_update_where)
    qed
    have ih: "db_wf (fold (revoke_credential_row T dbnow now) rs ?db) \<and>
      tab_get T (fold (revoke_credential_row T dbnow now) rs ?db) =
        update_where (\<lambda>x. rt_id x \<in> rt_id ` set rs) (orm_write dbnow (mark_revoking now)) (tab_get T ?db) \<and>
      db_credentials (fold (revoke_credential_row T dbnow now) rs ?db) =
        update_where (\<lambda>c. cred_id c \<in> rt_credential_id ` set rs) credential_revoking (db_credentials ?db)"
      using Cons.prems by (intro Cons.IH [OF wf still]) auto
    have notin: "rt_id r \<notin> rt_id ` set rs" using Cons.prems(3) by simp
    show ?case
      using ih notin
      by (auto simp: rows_after_revoke credentials_after_revoke update_where_def)
  qed
  then show "db_wf (fold (revoke_credential_row T dbnow now) rs db)"
    and "tab_get T (fold (revoke_credential_row T dbnow now) rs db) =
      update_where (\<lambda>x. rt_id x \<in> rt_id ` set rs) (orm_write dbnow (mark_revoking now)) (tab_get T db)"
    and "db_credentials (fold (revoke_credential_row T dbnow now) rs db) =
      update_where (\<lambda>c. cred_id c \<in> rt_credential_id ` set rs) credential_revoking (db_credentials db)"
    by auto
qed

lemma revoke_rows_spec:
  assumes "db_wf db"
  shows "db_wf (fst (revoke_rows T dbnow did now db))"
    and "tab_get T (fst (revoke_rows T dbnow did now db)) =
      update_where (\<lambda>x. rt_device_id x = did \<and> serving (rt_state x))
        (orm_write dbnow (mark_revoking now)) (tab_get T db)"
    and "db_credentials (fst (revoke_rows T dbnow did now db)) =
      update_where (\<lambda>c. cred_id c \<in> rt_credential_id `
          set (filter (\<lambda>r. rt_device_id r = did \<and> serving (rt_state r)) (tab_get T db)))
        credential_revoking (db_credentials db)"
proof -
  let ?rs = "filter (\<lambda>r. rt_device_id r = did \<and> serving (rt_state r)) (tab_get T db)"
  have ids: "distinct (map rt_id (tab_get T db))"
    using assms ok_ids by (simp add: db_wf_def)
  have rs: "set ?rs \<subseteq> set (tab_get T db)" "distinct (map rt_id ?rs)" "\<forall>r\<in>set ?rs. live (rt_state r)"
    using ids by (auto simp: distinct_map_filterI live_cases)
  note f = revoke_fold [OF assms rs, of dbnow now]
  show "db_wf (fst (revoke_rows T dbnow did now db))"
    using f(1) by (simp add: revoke_rows_def Let_def)
  show "tab_get T (fst (revoke_rows T dbnow did now db)) =
      update_where (\<lambda>x. rt_device_id x = did \<and> serving (rt_state x))
        (orm_write dbnow (mark_revoking now)) (tab_get T db)"
    using f(2) key_in_filter [OF ids] by (simp add: revoke_rows_def Let_def cong: update_where_cong)
  show "db_credentials (fst (revoke_rows T dbnow did now db)) =
      update_where (\<lambda>c. cred_id c \<in> rt_credential_id ` set ?rs) credential_revoking (db_credentials db)"
    using f(3) by (simp add: revoke_rows_def Let_def)
qed

end

lemma revoke_row_frames [simp]:
  "db_clients (revoke_credential_row peer_table dbnow now p db) = db_clients db"
  "db_peers (revoke_credential_row client_table dbnow now x db) = db_peers db"
  by (simp_all add: revoke_credential_row_def pair_write_def)

lemma fold_frame: "(\<And>x d. v (f x d) = v d) \<Longrightarrow> v (fold f xs d) = v d"
  by (induction xs arbitrary: d) auto

lemma revoke_rows_frames [simp]:
  "db_clients (fst (revoke_rows peer_table dbnow did now db)) = db_clients db"
  "db_peers (fst (revoke_rows client_table dbnow did now db)) = db_peers db"
  by (simp_all add: revoke_rows_def Let_def fold_frame)

lemma revoke_device_tables:
  assumes "db_wf db"
  shows "db_wf (fst (revoke_device_credentials dbnow did now db))"
    and "db_peers (fst (revoke_device_credentials dbnow did now db)) =
      update_where (\<lambda>x. rt_device_id x = did \<and> serving (rt_state x))
        (orm_write dbnow (mark_revoking now)) (db_peers db)"
    and "db_clients (fst (revoke_device_credentials dbnow did now db)) =
      update_where (\<lambda>x. rt_device_id x = did \<and> serving (rt_state x))
        (orm_write dbnow (mark_revoking now)) (db_clients db)"
  using wg.revoke_rows_spec [OF assms, of dbnow did now]
    xray.revoke_rows_spec [OF wg.revoke_rows_spec(1) [OF assms, of dbnow did now], of dbnow did now]
  by (simp_all add: revoke_device_credentials_def split_beta Let_def)

definition device_cut_off :: "uuid \<Rightarrow> 'a cred_row_scheme list \<Rightarrow> bool" where
  "device_cut_off did rows \<longleftrightarrow> list_all (\<lambda>r. rt_device_id r = did \<longrightarrow> \<not> serving (rt_state r)) rows"

lemma cut_off_update:
  "device_cut_off did (update_where (\<lambda>x. rt_device_id x = did \<and> serving (rt_state x))
     (orm_write dbnow (mark_revoking now)) rows)"
  by (induction rows) (auto simp: device_cut_off_def serving_def)

lemma others_update:
  "filter (\<lambda>r. rt_device_id r \<noteq> did) (update_where (\<lambda>x. rt_device_id x = did \<and> serving (rt_state x))
     (orm_write dbnow (mark_revoking now)) rows) = filter (\<lambda>r. rt_device_id r \<noteq> did) rows"
  by (induction rows) auto

text \<open>
  C25. Revoking a device's credentials leaves it none that serves: afterwards no WireGuard peer
  and no Xray client of the device is requested, applying or active. Rows of other devices
  are untouched, the number returned is the number of rows moved, and every constraint of the
  database holds, so the commit that follows is accepted.
\<close>

theorem revoke_device_cuts_off:
  assumes "db_wf db" and "revoke_device_credentials dbnow did now db = (db', n)"
  shows "device_cut_off did (db_peers db') \<and> device_cut_off did (db_clients db') \<and>
    filter (\<lambda>p. rt_device_id p \<noteq> did) (db_peers db') = filter (\<lambda>p. rt_device_id p \<noteq> did) (db_peers db) \<and>
    filter (\<lambda>x. rt_device_id x \<noteq> did) (db_clients db') = filter (\<lambda>x. rt_device_id x \<noteq> did) (db_clients db) \<and>
    n = int (count_where (\<lambda>p. rt_device_id p = did \<and> serving (rt_state p)) (db_peers db)) +
        int (count_where (\<lambda>x. rt_device_id x = did \<and> serving (rt_state x)) (db_clients db)) \<and>
    constrained db' = Inr db' \<and> db_wf db'"
proof -
  have db': "db' = fst (revoke_device_credentials dbnow did now db)" using assms(2) by simp
  note tables = revoke_device_tables [OF assms(1), of dbnow did now, folded db']
  have "n = int (count_where (\<lambda>p. rt_device_id p = did \<and> serving (rt_state p)) (db_peers db)) +
        int (count_where (\<lambda>x. rt_device_id x = did \<and> serving (rt_state x)) (db_clients db))"
    using assms(2)
    by (auto simp: revoke_device_credentials_def revoke_rows_def Let_def count_where_def fold_frame)
  then show ?thesis
    using tables by (simp add: cut_off_update others_update constrained_def db_wf_def)
qed

theorem revoke_device_cuts_off_witness:
  "device_cut_off 2 (db_peers (fst (revoke_device_credentials 50 2 50 ex_db))) \<and>
   snd (revoke_device_credentials 50 2 50 ex_db) = 2"
proof -
  have "snd (revoke_device_credentials 50 2 50 ex_db) = 2" by code_simp
  then show ?thesis
    using revoke_device_cuts_off [OF ex_db_wf surjective_pairing,
        where did = 2 and dbnow = 50 and now = 50] by blast
qed

end
