(* ===== verification/Address_Text.thy ===== *)
theory Address_Text
  imports Python_Text
begin

text \<open>
  \<open>ip_address(text)\<close> of Python's \<open>ipaddress\<close>, for addresses without a scope id, and its round
  trip with the printing of \<open>Text_Format\<close>: every IPv4 and IPv6 address reads back from its own
  text, compressed and IPv4-mapped forms included. The agent depends on this to recover its
  peers from the configuration file it wrote.
\<close>

subsection \<open>Reading addresses\<close>

definition decimal_value :: "string \<Rightarrow> nat" where
  "decimal_value s = foldl (\<lambda>a c. 10 * a + digit_number c) 0 s"

definition parse_octet :: "string \<Rightarrow> nat option" where
  "parse_octet s =
     (if s = [] \<or> \<not> list_all is_digit s \<or> 3 < length s \<or> (s \<noteq> ''0'' \<and> hd s = CHR ''0'') \<or> 255 < decimal_value s
      then None else Some (decimal_value s))"

fun all_some :: "'a option list \<Rightarrow> 'a list option" where
  "all_some [] = Some []"
| "all_some (x # xs) =
     (case x of None \<Rightarrow> None | Some a \<Rightarrow> (case all_some xs of None \<Rightarrow> None | Some as \<Rightarrow> Some (a # as)))"

definition from_digits :: "int \<Rightarrow> nat list \<Rightarrow> int" where
  "from_digits b ds = foldl (\<lambda>a d. b * a + int d) 0 ds"

definition parse_ipv4 :: "string \<Rightarrow> int option" where
  "parse_ipv4 s =
     (let octets = split_on CHR ''.'' s in
      if length octets \<noteq> 4 then None
      else map_option (from_digits 256) (all_some (map parse_octet octets)))"

definition hex_value :: "char \<Rightarrow> nat option" where
  "hex_value c = (let n = of_char c :: nat in
     if 48 \<le> n \<and> n \<le> 57 then Some (n - 48)
     else if 97 \<le> n \<and> n \<le> 102 then Some (n - 87)
     else if 65 \<le> n \<and> n \<le> 70 then Some (n - 55)
     else None)"

definition parse_hextet :: "string \<Rightarrow> nat option" where
  "parse_hextet s =
     (if s = [] \<or> 4 < length s then None
      else map_option (foldl (\<lambda>a d. 16 * a + d) 0) (all_some (map hex_value s)))"

text \<open>
  The groups before and after a \<open>::\<close>. An empty group other than the first and the last marks
  it; there is at most one, and it stands for at least one zero group. An empty first or last
  group is only allowed next to it.
\<close>

definition ipv6_groups :: "string list \<Rightarrow> (string list \<times> string list) option" where
  "ipv6_groups parts =
     (if length parts < 3 \<or> 9 < length parts then None
      else case filter (\<lambda>i. parts ! i = []) [1..<length parts - 1] of
        [] \<Rightarrow> if length parts = 8 \<and> hd parts \<noteq> [] \<and> last parts \<noteq> [] then Some (parts, []) else None
      | [k] \<Rightarrow>
          (let hi = (if hd parts = [] then [] else take k parts);
               lo = (if last parts = [] then [] else drop (Suc k) parts)
           in if hd parts = [] \<and> k \<noteq> 1 \<or> last parts = [] \<and> k \<noteq> length parts - 2 \<or> 7 < length hi + length lo
              then None else Some (hi, lo))
      | _ \<Rightarrow> None)"

text \<open>A last group in dotted form stands for two groups.\<close>

definition expand_dotted :: "string list \<Rightarrow> string list option" where
  "expand_dotted parts =
     (if CHR ''.'' \<in> set (last parts)
      then map_option (\<lambda>n. butlast parts @ map hextet_text (hextets 2 n)) (parse_ipv4 (last parts))
      else Some parts)"

definition parse_ipv6 :: "string \<Rightarrow> int option" where
  "parse_ipv6 s =
     (if s = [] \<or> 45 < length s \<or> length (split_on CHR '':'' s) < 3 then None
      else case expand_dotted (split_on CHR '':'' s) of
        None \<Rightarrow> None
      | Some parts \<Rightarrow>
          (case ipv6_groups parts of
             None \<Rightarrow> None
           | Some (hi, lo) \<Rightarrow>
               (case (all_some (map parse_hextet hi), all_some (map parse_hextet lo)) of
                  (Some h, Some l) \<Rightarrow>
                    Some (from_digits 65536 (h @ replicate (8 - (length h + length l)) 0 @ l))
                | _ \<Rightarrow> None)))"

definition parse_ip_address :: "string \<Rightarrow> ip_address option" where
  "parse_ip_address s =
     (case parse_ipv4 s of
        Some n \<Rightarrow> Some (IPv4Address n)
      | None \<Rightarrow> map_option IPv6Address (parse_ipv6 s))"

fun ip_ok :: "ip_address \<Rightarrow> bool" where
  "ip_ok (IPv4Address n) \<longleftrightarrow> 0 \<le> n \<and> n < 4294967296"
| "ip_ok (IPv6Address n) \<longleftrightarrow> 0 \<le> n \<and> n < 340282366920938463463374607431768211456"

subsection \<open>Decimal and hexadecimal groups\<close>

lemma all_some_map: "(\<And>x. x \<in> set xs \<Longrightarrow> f x = Some (g x)) \<Longrightarrow> all_some (map f xs) = Some (map g xs)"
  by (induction xs) auto

lemma decimal_value_snoc: "decimal_value (s @ [c]) = 10 * decimal_value s + digit_number c"
  by (simp add: decimal_value_def)

lemma decimal_value_decimal: "decimal_value (decimal n) = n"
proof (induction n rule: decimal.induct)
  case (1 n)
  show ?case
  proof (cases "n < 10")
    case True
    then show ?thesis by (subst decimal.simps) (simp add: decimal_value_def digit_char_digit)
  next
    case False
    then have "decimal n = decimal (n div 10) @ [digit_char (n mod 10)]" by (subst decimal.simps) simp
    with 1 False show ?thesis by (simp add: decimal_value_snoc digit_char_digit)
  qed
qed

lemma length_decimal: "n < 10 ^ k \<Longrightarrow> 0 < k \<Longrightarrow> length (decimal n) \<le> k"
proof (induction n arbitrary: k rule: decimal.induct)
  case (1 n)
  show ?case
  proof (cases "n < 10")
    case True
    with 1 show ?thesis by (subst decimal.simps) simp
  next
    case False
    have "k \<noteq> 1" using 1(2) False by auto
    with 1(3) obtain j where k: "k = Suc (Suc j)" by (cases k; cases "k - 1") auto
    with 1(2) have "n div 10 < 10 ^ Suc j" by auto
    with 1(1) False have "length (decimal (n div 10)) \<le> Suc j" by blast
    with False k show ?thesis by (subst decimal.simps) simp
  qed
qed

lemma digit_char_table:
  "list_all (\<lambda>d. (digit_char d = CHR ''0'' \<longleftrightarrow> d = 0) \<and> hex_value (digit_char d) = Some d) [0..<16]"
  by code_simp

lemma digit_char_zero: "d < 16 \<Longrightarrow> digit_char d = CHR ''0'' \<longleftrightarrow> d = 0"
  using digit_char_table by (auto simp: list_all_iff)

lemma hex_value_digit_char: "d < 16 \<Longrightarrow> hex_value (digit_char d) = Some d"
  using digit_char_table by (auto simp: list_all_iff)

lemma hd_decimal: "0 < n \<Longrightarrow> hd (decimal n) \<noteq> CHR ''0''"
proof (induction n rule: decimal.induct)
  case (1 n)
  show ?case
  proof (cases "n < 10")
    case True
    with 1(2) show ?thesis by (subst decimal.simps) (simp add: digit_char_zero)
  next
    case False
    with 1 show ?thesis by (subst decimal.simps) simp
  qed
qed

lemma decimal_0: "decimal 0 = ''0''"
  by (subst decimal.simps) (simp add: digit_char_def)

lemma parse_octet_decimal: "n < 256 \<Longrightarrow> parse_octet (decimal n) = Some n"
proof -
  assume n: "n < 256"
  then have "length (decimal n) \<le> 3" by (intro length_decimal) auto
  moreover have "decimal n = ''0'' \<or> hd (decimal n) \<noteq> CHR ''0''"
    using hd_decimal [of n] decimal_0 by (cases "n = 0") auto
  moreover have "list_all is_digit (decimal n)" using decimal_digits by (simp add: list_all_iff)
  ultimately show ?thesis using n by (simp add: parse_octet_def decimal_value_decimal)
qed

lemma all_some_append:
  "all_some (xs @ ys) =
     (case all_some xs of None \<Rightarrow> None | Some a \<Rightarrow> (case all_some ys of None \<Rightarrow> None | Some b \<Rightarrow> Some (a @ b)))"
  by (induction xs) (auto split: option.splits)

lemma hex_digits_value:
  "\<exists>ds. all_some (map hex_value (hex_digits k n)) = Some ds \<and> foldl (\<lambda>a d. 16 * a + d) 0 ds = n mod 16 ^ k"
proof (induction k arbitrary: n)
  case (Suc k)
  obtain ds where "all_some (map hex_value (hex_digits k (n div 16))) = Some ds"
    "foldl (\<lambda>a d. 16 * a + d) 0 ds = n div 16 mod 16 ^ k" using Suc by blast
  then show ?case
    by (simp add: all_some_append hex_value_digit_char mod_mult2_eq)
qed simp

lemma zero_digit: "hex_value CHR ''0'' = Some 0"
  by (simp add: hex_value_def)

lemma all_some_drop_zeros:
  assumes "all_some (map hex_value s) = Some ds"
  shows "\<exists>es. all_some (map hex_value (dropWhile (\<lambda>c. c = CHR ''0'') s)) = Some es \<and>
           foldl (\<lambda>a d. 16 * a + d) 0 es = foldl (\<lambda>a d. 16 * a + d) 0 ds"
  using assms by (induction s arbitrary: ds) (auto simp: zero_digit split: option.splits)

lemma length_hex_digits [simp]: "length (hex_digits k n) = k"
  by (induction k arbitrary: n) auto

lemma parse_hextet_text: "n < 65536 \<Longrightarrow> parse_hextet (hextet_text n) = Some n"
proof -
  assume n: "n < 65536"
  let ?h = "dropWhile (\<lambda>c. c = CHR ''0'') (hex_digits 4 n)"
  obtain ds where ds: "all_some (map hex_value (hex_digits 4 n)) = Some ds"
    "foldl (\<lambda>a d. 16 * a + d) 0 ds = n mod 16 ^ 4" using hex_digits_value by blast
  obtain es where es: "all_some (map hex_value ?h) = Some es" "foldl (\<lambda>a d. 16 * a + d) 0 es = n mod 16 ^ 4"
    using all_some_drop_zeros [OF ds(1)] ds(2) by auto
  have "n mod 16 ^ 4 = n" using n by simp
  note es = es [unfolded this]
  have len: "length ?h \<le> 4" using length_dropWhile_le [of _ "hex_digits 4 n"] by simp
  show ?thesis
  proof (cases "?h = []")
    case True
    with es have "n = 0" by simp
    with True show ?thesis by (simp add: hextet_text_def parse_hextet_def zero_digit)
  next
    case False
    then have "hextet_text n = ?h" unfolding hextet_text_def Let_def by (rule if_not_P)
    with es len False show ?thesis by (simp add: parse_hextet_def)
  qed
qed

lemma hextet_text_not_Nil [simp]: "hextet_text n \<noteq> []"
  by (simp add: hextet_text_def Let_def)

lemma Nil_not_hextet_text [simp]: "[] \<noteq> hextet_text n"
  using hextet_text_not_Nil by metis

lemma length_hextet_text: "length (hextet_text n) \<le> 4"
  using length_dropWhile_le [of _ "hex_digits 4 n"] by (simp add: hextet_text_def Let_def)

definition is_hex :: "char \<Rightarrow> bool" where
  "is_hex c \<longleftrightarrow> c \<in> set ''0123456789abcdef''"

lemma digit_char_hex: "d < 16 \<Longrightarrow> is_hex (digit_char d)"
  unfolding is_hex_def digit_char_def by (rule nth_mem) simp

lemma hex_digits_hex: "c \<in> set (hex_digits k n) \<Longrightarrow> is_hex c"
  by (induction k arbitrary: n) (auto simp: digit_char_hex)

lemma hextet_text_hex: "c \<in> set (hextet_text n) \<Longrightarrow> is_hex c"
proof -
  assume "c \<in> set (hextet_text n)"
  then have "c = CHR ''0'' \<or> c \<in> set (hex_digits 4 n)"
    by (auto simp: hextet_text_def Let_def split: if_splits dest: set_dropWhileD)
  then show ?thesis
  proof
    assume "c = CHR ''0''"
    then show ?thesis by (simp add: is_hex_def)
  qed (rule hex_digits_hex)
qed

lemma is_hex_plain: "is_hex c \<Longrightarrow> c \<noteq> CHR '':'' \<and> c \<noteq> CHR ''.'' \<and> c \<noteq> CHR ''/'' \<and> \<not> is_space c \<and> \<not> line_break c"
  by (auto simp: is_hex_def is_space_def line_break_def)


subsection \<open>Round trips\<close>

lemma from_digits_snoc: "from_digits b (ds @ [d]) = b * from_digits b ds + int d"
  by (simp add: from_digits_def)

lemma from_digits_zeros: "from_digits b (replicate k 0 @ ds) = from_digits b ds"
  by (induction k) (simp_all add: from_digits_def)

lemma from_hextets: "0 \<le> n \<Longrightarrow> n < 65536 ^ k \<Longrightarrow> from_digits 65536 (hextets k n) = n"
proof (induction k arbitrary: n)
  case 0
  then show ?case by (simp add: from_digits_def)
next
  case (Suc k)
  have "from_digits 65536 (hextets k (n div 65536)) = n div 65536"
    using Suc.prems by (intro Suc.IH) auto
  then show ?case by (simp add: from_digits_snoc)
qed

lemma length_hextets [simp]: "length (hextets k n) = k"
  by (induction k arbitrary: n) auto

lemma hextets_bound: "h \<in> set (hextets k n) \<Longrightarrow> h < 65536"
  by (induction k arbitrary: n) auto

lemma from_octets:
  assumes "0 \<le> n" and "n < 4294967296"
  shows "from_digits 256 [nat (n div 16777216 mod 256), nat (n div 65536 mod 256), nat (n div 256 mod 256), nat (n mod 256)] = n"
proof -
  define a b c where "a = n div 256" and "b = n div 65536" and "c = n div 16777216"
  have b: "b = a div 256" and c: "c = b div 256"
    by (simp_all add: a_def b_def c_def div_mult2_eq [symmetric])
  have "0 \<le> c" using assms(1) by (simp add: c_def pos_imp_zdiv_nonneg_iff)
  moreover have "c mod 256 = c"
    using assms by (intro mod_pos_pos_trivial) (auto simp: c_def pos_imp_zdiv_nonneg_iff)
  moreover have "256 * a + n mod 256 = n" "256 * b + a mod 256 = a" "256 * c + b mod 256 = b"
    unfolding a_def b c by (simp_all only: mult_div_mod_eq)
  ultimately show ?thesis
    unfolding a_def [symmetric] b_def [symmetric] c_def [symmetric] from_digits_def foldl.simps
    by simp
qed

lemma parse_ipv4_text: "0 \<le> n \<Longrightarrow> n < 4294967296 \<Longrightarrow> parse_ipv4 (ipv4_text n) = Some n"
proof -
  assume n: "0 \<le> n" "n < 4294967296"
  define os where "os = [nat (n div 16777216 mod 256), nat (n div 65536 mod 256), nat (n div 256 mod 256), nat (n mod 256)]"
  have small: "\<forall>k\<in>set os. k < 256" by (auto simp: os_def nat_less_iff)
  have dotless: "CHR ''.'' \<notin> set (decimal k)" for k
    using decimal_digits [of k] digit_plain [of "CHR ''.''"] by blast
  have printed: "ipv4_text n = join_text ''.'' (map decimal os)"
    by (simp add: ipv4_text_def os_def)
  have split: "split_on CHR ''.'' (ipv4_text n) = map decimal os"
    unfolding printed by (rule split_on_join) (auto simp: os_def dotless)
  have "all_some (map (parse_octet \<circ> decimal) os) = Some (map id os)"
    by (rule all_some_map) (use small in \<open>simp add: parse_octet_decimal\<close>)
  then have "all_some (map parse_octet (map decimal os)) = Some os" by simp
  moreover have "from_digits 256 os = n" unfolding os_def using n by (rule from_octets)
  ultimately show ?thesis
    unfolding parse_ipv4_def split Let_def by (simp add: os_def)
qed

lemma parse_hextets: "\<forall>h\<in>set hs. h < 65536 \<Longrightarrow> all_some (map parse_hextet (map hextet_text hs)) = Some hs"
  by (induction hs) (auto simp: parse_hextet_text)

lemma zero_run_zeros: "k \<le> zero_run hs \<Longrightarrow> k \<le> length hs \<and> take k hs = replicate k 0"
proof (induction hs arbitrary: k)
  case (Cons h hs)
  then show ?case by (cases k) (auto split: if_splits)
qed simp

lemma best_run_zeros:
  "best_run i hs = (j, len) \<Longrightarrow> i \<le> j \<and> j - i + len \<le> length hs \<and> take len (drop (j - i) hs) = replicate len 0"
proof (induction i hs arbitrary: j len rule: best_run.induct)
  case (2 i h hs)
  obtain j' len' where rest: "best_run (Suc i) hs = (j', len')" by fastforce
  have IH: "Suc i \<le> j' \<and> j' - Suc i + len' \<le> length hs \<and> take len' (drop (j' - Suc i) hs) = replicate len' 0"
    using 2(1) rest by force
  show ?case
  proof (cases "len' \<le> zero_run (h # hs) \<and> 0 < zero_run (h # hs)")
    case True
    then have "j = i" "len = zero_run (h # hs)" using 2(2) rest by (auto simp: Let_def)
    then show ?thesis using zero_run_zeros [of len "h # hs"] by auto
  next
    case False
    then have "j = j'" "len = len'" using 2(2) rest by (auto simp: Let_def split: if_splits)
    moreover have "j' - i = Suc (j' - Suc i)" using IH by auto
    ultimately show ?thesis using IH by auto
  qed
qed auto

text \<open>Where the printed groups leave out a run, it is a run of zeros.\<close>

lemma best_run_split:
  assumes "best_run 0 hs = (i, len)"
  shows "hs = take i hs @ replicate len 0 @ drop (i + len) hs" and "i + len \<le> length hs"
proof -
  from best_run_zeros [OF assms] have *: "i + len \<le> length hs" "take len (drop i hs) = replicate len 0" by auto
  then show "i + len \<le> length hs" by blast
  have "hs = take i hs @ take len (drop i hs) @ drop len (drop i hs)"
    by (simp only: append_take_drop_id)
  with * show "hs = take i hs @ replicate len 0 @ drop (i + len) hs" by (simp add: add.commute)
qed

lemma filter_mark:
  assumes "P \<noteq> []" and "Q \<noteq> []" and "\<forall>p\<in>set (tl P). p \<noteq> []" and "\<forall>q\<in>set (butlast Q). q \<noteq> []"
  shows "filter (\<lambda>i. (P @ [] # Q) ! i = []) [1..<length (P @ [] # Q) - 1] = [length P]"
proof -
  let ?parts = "P @ [] # Q"
  have split: "[1..<length ?parts - 1] = [1..<length P] @ length P # [Suc (length P)..<length P + length Q]"
  proof -
    have "[1..<length ?parts - 1] = [1..<length P + length Q]" by simp
    also have "\<dots> = [1..<length P] @ [length P..<length P + length Q]"
      using assms(1) by (intro upt_add_eq_append) (simp add: Suc_leI)
    also have "[length P..<length P + length Q] = length P # [Suc (length P)..<length P + length Q]"
      using assms(2) by (intro upt_conv_Cons) simp
    finally show ?thesis .
  qed
  have "?parts ! i \<noteq> []" if "i \<in> set [1..<length P]" for i
  proof -
    from that have "?parts ! i = tl P ! (i - 1)" by (auto simp: nth_append nth_tl)
    with that assms(3) show ?thesis by (auto intro!: bspec [OF assms(3)] simp: set_conv_nth)
  qed
  then have pre: "filter (\<lambda>i. ?parts ! i = []) [1..<length P] = []" by (simp add: filter_empty_conv)
  have "?parts ! i \<noteq> []" if "i \<in> set [Suc (length P)..<length P + length Q]" for i
  proof -
    define k where "k = i - Suc (length P)"
    with that have k: "k < length Q - 1" "i = Suc (length P) + k" by auto
    then have "?parts ! i = butlast Q ! k" by (simp add: nth_append nth_butlast)
    with k(1) assms(4) show ?thesis by (metis length_butlast nth_mem)
  qed
  then have post: "filter (\<lambda>i. ?parts ! i = []) [Suc (length P)..<length P + length Q] = []"
    by (simp add: filter_empty_conv)
  show ?thesis unfolding split by (simp add: pre [simplified] post del: upt_Suc)
qed

lemma split_compressed:
  "split_on CHR '':'' (s @ ''::'' @ t) = split_on CHR '':'' s @ [] # split_on CHR '':'' t"
  using split_on_append [of "CHR '':''" s "CHR '':'' # t"] by simp

text \<open>The groups of a text, empty when there are none.\<close>

lemma split_groups:
  "\<forall>g\<in>set gs. CHR '':'' \<notin> set g \<Longrightarrow>
     split_on CHR '':'' (join_text '':'' gs) = (if gs = [] then [[]] else gs)"
  by (cases gs) (simp_all add: split_on_join)

lemma ipv6_groups_compressed:
  assumes "\<forall>g\<in>set (A @ B). g \<noteq> []" and "length A + length B \<le> 7"
  shows "ipv6_groups ((if A = [] then [[]] else A) @ [] # (if B = [] then [[]] else B)) = Some (A, B)"
proof -
  define P where "P = (if A = [] then [[]] else A)"
  define Q where "Q = (if B = [] then [[]] else B)"
  have ne: "P \<noteq> []" "Q \<noteq> []" by (auto simp: P_def Q_def)
  have "\<forall>p\<in>set (tl P). p \<noteq> []" using assms(1) by (auto simp: P_def dest: list.set_sel(2))
  moreover have "\<forall>q\<in>set (butlast Q). q \<noteq> []" using assms(1) by (auto simp: Q_def dest: in_set_butlastD)
  ultimately have mark: "filter (\<lambda>i. (P @ [] # Q) ! i = []) [1..<length (P @ [] # Q) - 1] = [length P]"
    by (rule filter_mark [OF ne])
  have len: "\<not> (length (P @ [] # Q) < 3 \<or> 9 < length (P @ [] # Q))"
    using assms(2) by (cases A; cases B) (auto simp: P_def Q_def)
  have hd: "hd (P @ [] # Q) = [] \<longleftrightarrow> A = []" using assms(1) by (auto simp: P_def)
  have last: "last (P @ [] # Q) = [] \<longleftrightarrow> B = []" using assms(1) by (auto simp: Q_def)
  have parts: "take (length P) (P @ [] # Q) = P" "drop (Suc (length P)) (P @ [] # Q) = Q" by auto
  have "ipv6_groups (P @ [] # Q) = Some (A, B)"
    unfolding ipv6_groups_def mark if_not_P [OF len] list.case Let_def hd last parts
    using assms(2) by (auto simp: P_def Q_def)
  then show ?thesis by (simp add: P_def Q_def)
qed

lemma ipv6_groups_full:
  assumes "\<forall>g\<in>set gs. g \<noteq> []" and "length gs = 8"
  shows "ipv6_groups gs = Some (gs, [])"
proof -
  have "filter (\<lambda>i. gs ! i = []) [1..<length gs - 1] = []"
    using assms by (auto simp: filter_empty_conv)
  moreover have "gs \<noteq> []" using assms(2) by auto
  moreover from this have "hd gs \<noteq> []" "last gs \<noteq> []"
    using assms(1) hd_in_set [of gs] last_in_set [of gs] by metis+
  ultimately show ?thesis using assms(2) by (simp add: ipv6_groups_def del: upt_Suc)
qed

definition groups_of :: "nat list \<Rightarrow> string list" where
  "groups_of hs =
     (let (i, len) = best_run 0 hs in
      if len \<le> 1 then map hextet_text hs
      else (if take i hs = [] then [[]] else map hextet_text (take i hs)) @
           [] # (if drop (i + len) hs = [] then [[]] else map hextet_text (drop (i + len) hs)))"

lemma colonless: "CHR '':'' \<notin> set (hextet_text n)"
  using hextet_text_hex [of "CHR '':''" n] is_hex_plain by blast

lemma split_compressed_text: "hs \<noteq> [] \<Longrightarrow> split_on CHR '':'' (compressed_text hs) = groups_of hs"
  unfolding compressed_text_def groups_of_def
  by (cases "best_run 0 hs") (simp add: split_compressed split_groups colonless del: append.simps)

text \<open>The groups of a printed address are read as its eight numbers.\<close>

lemma groups_value:
  assumes "length hs = 8" and "\<forall>h\<in>set hs. h < 65536"
  shows "\<exists>A B h l. ipv6_groups (groups_of hs) = Some (A, B) \<and> all_some (map parse_hextet A) = Some h \<and>
    all_some (map parse_hextet B) = Some l \<and> h @ replicate (8 - (length h + length l)) 0 @ l = hs"
proof (cases "best_run 0 hs")
  case (Pair i len)
  show ?thesis
  proof (cases "len \<le> 1")
    case True
    then have g: "groups_of hs = map hextet_text hs" by (simp add: groups_of_def Pair)
    have "ipv6_groups (groups_of hs) = Some (map hextet_text hs, [])"
      unfolding g by (rule ipv6_groups_full) (auto simp: assms(1))
    with parse_hextets [OF assms(2)] assms(1) show ?thesis by auto
  next
    case False
    let ?A = "map hextet_text (take i hs)" and ?B = "map hextet_text (drop (i + len) hs)"
    have g: "groups_of hs = (if ?A = [] then [[]] else ?A) @ [] # (if ?B = [] then [[]] else ?B)"
      using False by (simp add: groups_of_def Pair)
    note split = best_run_split [OF Pair]
    have "length ?A + length ?B \<le> 7" using split(2) False assms(1) by auto
    then have "ipv6_groups (groups_of hs) = Some (?A, ?B)"
      unfolding g by (intro ipv6_groups_compressed) auto
    moreover have "all_some (map parse_hextet ?A) = Some (take i hs)"
      using assms(2) by (intro parse_hextets) (auto dest: in_set_takeD)
    moreover have "all_some (map parse_hextet ?B) = Some (drop (i + len) hs)"
      using assms(2) by (intro parse_hextets) (auto dest: in_set_dropD)
    moreover have "take i hs @ replicate (8 - (length (take i hs) + length (drop (i + len) hs))) 0 @ drop (i + len) hs = hs"
      using split assms(1) by simp
    ultimately show ?thesis by blast
  qed
qed

lemma length_join_text: "\<forall>g\<in>set gs. length g \<le> 4 \<Longrightarrow> length (join_text '':'' gs) \<le> 5 * length gs"
  by (induction "'':''" gs rule: join_text.induct) auto

lemma length_compressed_text: "length hs = 8 \<Longrightarrow> length (compressed_text hs) \<le> 45"
proof -
  assume hs: "length hs = 8"
  obtain i len where run: "best_run 0 hs = (i, len)" by fastforce
  have j: "length (join_text '':'' (map hextet_text xs)) \<le> 5 * length xs" for xs
    using length_join_text [of "map hextet_text xs"] by (simp add: length_hextet_text)
  show ?thesis
    using hs best_run_split(2) [OF run] j [of hs] j [of "take i hs"] j [of "drop (i + len) hs"]
    by (auto simp add: compressed_text_def run del: append_Cons)
qed

lemma length_groups: "length hs = 8 \<Longrightarrow> 3 \<le> length (groups_of hs)"
proof -
  assume hs: "length hs = 8"
  obtain i len where run: "best_run 0 hs = (i, len)" by fastforce
  have "1 \<le> length (if xs = [] then [[]] else map hextet_text xs)" for xs
    by (cases xs) auto
  from this [of "take i hs"] this [of "drop (i + len) hs"] show ?thesis
    using hs by (simp add: groups_of_def run)
qed

lemma groups_dotless: "g \<in> set (groups_of hs) \<Longrightarrow> CHR ''.'' \<notin> set g"
proof -
  have "CHR ''.'' \<notin> set (hextet_text n)" for n
    using hextet_text_hex [of "CHR ''.''" n] is_hex_plain by blast
  then show "g \<in> set (groups_of hs) \<Longrightarrow> CHR ''.'' \<notin> set g"
    by (cases "best_run 0 hs") (auto simp: groups_of_def split: if_splits)
qed

lemma parse_ipv6_groups:
  assumes "s \<noteq> []" and "length s \<le> 45" and "3 \<le> length (split_on CHR '':'' s)"
    and "expand_dotted (split_on CHR '':'' s) = Some parts" and "ipv6_groups parts = Some (A, B)"
    and "all_some (map parse_hextet A) = Some h" and "all_some (map parse_hextet B) = Some l"
  shows "parse_ipv6 s = Some (from_digits 65536 (h @ replicate (8 - (length h + length l)) 0 @ l))"
  using assms by (simp add: parse_ipv6_def)

lemma parse_compressed_text:
  assumes "0 \<le> n" and "n < 65536 ^ 8"
  shows "parse_ipv6 (compressed_text (hextets 8 n)) = Some n"
proof -
  let ?hs = "hextets 8 n"
  have hs: "length ?hs = 8" "?hs \<noteq> []" by (simp, metis length_hextets list.size(3) zero_neq_numeral)
  note split = split_compressed_text [OF hs(2)]
  obtain A B h l where g: "ipv6_groups (groups_of ?hs) = Some (A, B)" "all_some (map parse_hextet A) = Some h"
    "all_some (map parse_hextet B) = Some l" "h @ replicate (8 - (length h + length l)) 0 @ l = ?hs"
    using groups_value [OF hs(1)] hextets_bound by blast
  have three: "3 \<le> length (split_on CHR '':'' (compressed_text ?hs))"
    unfolding split by (rule length_groups [OF hs(1)])
  then have "compressed_text ?hs \<noteq> []" by auto
  moreover have "expand_dotted (split_on CHR '':'' (compressed_text ?hs)) = Some (groups_of ?hs)"
  proof -
    have "groups_of ?hs \<noteq> []" using length_groups [OF hs(1)] by auto
    then have "CHR ''.'' \<notin> set (last (groups_of ?hs))" using groups_dotless last_in_set by blast
    then show ?thesis unfolding split by (simp add: expand_dotted_def)
  qed
  ultimately show ?thesis
    using parse_ipv6_groups [OF _ length_compressed_text [OF hs(1)] three _ g(1-3)] g(4) from_hextets [OF assms]
    by simp
qed

lemma set_split_on: "set s \<subseteq> insert c (\<Union>(set ` set (split_on c s)))"
proof (induction s)
  case (Cons a s)
  then show ?case by (cases "split_on c s") (auto simp: subset_iff)
qed simp

lemma parse_octet_digits: "parse_octet s = Some n \<Longrightarrow> \<forall>c\<in>set s. is_digit c"
  by (auto simp: parse_octet_def list_all_iff split: if_splits)

lemma all_some_SomeD: "all_some (map f xs) = Some ys \<Longrightarrow> x \<in> set xs \<Longrightarrow> \<exists>y. f x = Some y"
  by (induction xs arbitrary: ys) (auto split: option.splits)

lemma parse_ipv4_colonless: "CHR '':'' \<in> set s \<Longrightarrow> parse_ipv4 s = None"
proof (rule ccontr)
  assume colon: "CHR '':'' \<in> set s" and "parse_ipv4 s \<noteq> None"
  then obtain ys where ys: "all_some (map parse_octet (split_on CHR ''.'' s)) = Some ys"
    by (auto simp: parse_ipv4_def Let_def split: if_splits)
  from colon set_split_on [of s "CHR ''.''"] obtain g where "g \<in> set (split_on CHR ''.'' s)" "CHR '':'' \<in> set g"
    by auto
  with all_some_SomeD [OF ys] parse_octet_digits have "is_digit CHR '':''" by blast
  then show False by (simp add: is_digit_def)
qed

lemma ipv4_text_chars: "c \<in> set (ipv4_text n) \<Longrightarrow> is_digit c \<or> c = CHR ''.''"
proof -
  assume c: "c \<in> set (ipv4_text n)"
  obtain i j k l where "ipv4_text n = decimal i @ ''.'' @ decimal j @ ''.'' @ decimal k @ ''.'' @ decimal l"
    unfolding ipv4_text_def by blast
  with c have "c \<in> set (decimal i) \<or> c \<in> set (decimal j) \<or> c \<in> set (decimal k) \<or> c \<in> set (decimal l) \<or> c = CHR ''.''"
    by auto
  then show ?thesis using decimal_digits by blast
qed

lemma hextets_numeral:
  "hextets (numeral k) n = hextets (pred_numeral k) (n div 65536) @ [nat (n mod 65536)]"
  by (simp add: numeral_eq_Suc)

lemma hex_digits_numeral:
  "hex_digits (numeral k) n = hex_digits (pred_numeral k) (n div 16) @ [digit_char (n mod 16)]"
  by (simp only: numeral_eq_Suc [of k] hex_digits.simps)

lemma hextet_ffff: "hextet_text 65535 = ''ffff''"
proof -
  have "digit_char 15 = CHR ''f''" by (simp add: digit_char_def)
  moreover have "hex_digits 4 65535 = [digit_char 15, digit_char 15, digit_char 15, digit_char 15]"
    by (simp add: hex_digits_numeral)
  ultimately show ?thesis by (simp add: hextet_text_def)
qed

lemma mapped_prefix: "compressed_text (hextets 8 65535) = ''::ffff''"
  by (simp add: compressed_text_def hextets_numeral hextet_ffff Let_def)

lemma length_ipv4_text: "length (ipv4_text n) \<le> 15"
proof -
  have "length (decimal (nat (m mod 256))) \<le> 3" for m :: int
  proof -
    have "nat (m mod 256) < 256" by (simp add: nat_less_iff)
    then have "nat (m mod 256) < 10 ^ 3" by simp
    then show ?thesis by (intro length_decimal) auto
  qed
  note d = this
  define a b c e where "a = decimal (nat (n div 16777216 mod 256))" and "b = decimal (nat (n div 65536 mod 256))"
    and "c = decimal (nat (n div 256 mod 256))" and "e = decimal (nat (n mod 256))"
  then have "length a \<le> 3" "length b \<le> 3" "length c \<le> 3" "length e \<le> 3" using d by simp_all
  moreover have "ipv4_text n = a @ ''.'' @ b @ ''.'' @ c @ ''.'' @ e"
    unfolding ipv4_text_def a_def b_def c_def e_def by (rule refl)
  ultimately show ?thesis by simp
qed

lemma parse_mapped:
  assumes m: "0 \<le> m" "m < 4294967296"
  shows "parse_ipv6 (''::ffff:'' @ ipv4_text m) = Some (65535 * 4294967296 + m)"
proof -
  let ?s = "''::ffff:'' @ ipv4_text m"
  have "CHR '':'' \<notin> set (ipv4_text m)"
    using ipv4_text_chars [of "CHR '':''" m] digit_plain [of "CHR '':''"] by auto
  then have split: "split_on CHR '':'' ?s = [[], [], ''ffff'', ipv4_text m]"
    by (simp add: split_on_fresh)
  have dot: "CHR ''.'' \<in> set (ipv4_text m)" by (simp add: ipv4_text_def)
  let ?B = "map hextet_text (65535 # hextets 2 m)"
  have "expand_dotted (split_on CHR '':'' ?s) = Some ([[]] @ [] # ?B)"
    unfolding split using dot by (simp add: expand_dotted_def parse_ipv4_text [OF m] hextet_ffff)
  moreover have "ipv6_groups ([[]] @ [] # ?B) = Some ([], ?B)"
    using ipv6_groups_compressed [of "[]" ?B] by (simp del: append.simps)
  moreover have B: "all_some (map parse_hextet ?B) = Some (65535 # hextets 2 m)"
    by (rule parse_hextets) (use hextets_bound in auto)
  moreover have "?s \<noteq> []" "length ?s \<le> 45" "3 \<le> length (split_on CHR '':'' ?s)"
    using length_ipv4_text [of m] by (simp, simp, simp add: split)
  moreover have "all_some (map parse_hextet []) = Some []" by simp
  ultimately have "parse_ipv6 ?s = Some (from_digits 65536 ([] @ replicate (8 - (length ([] :: nat list) + length (65535 # hextets 2 m))) 0 @ 65535 # hextets 2 m))"
    by (intro parse_ipv6_groups) assumption+
  also have "\<dots> = Some (from_digits 65536 (65535 # hextets 2 m))"
    by (simp only: append.simps from_digits_zeros)
  also have "from_digits 65536 (65535 # hextets 2 m) = 65535 * 4294967296 + m"
    using m by (simp add: from_digits_def hextets_numeral pos_imp_zdiv_nonneg_iff)
  finally show ?thesis .
qed

text \<open>Every address reads back from the text it prints as.\<close>

lemma parse_ip_text: "ip_ok a \<Longrightarrow> parse_ip_address (ip_text a) = Some a"
proof (cases a)
  case (IPv4Address n)
  assume "ip_ok a"
  with IPv4Address show ?thesis by (simp add: parse_ip_address_def parse_ipv4_text)
next
  case (IPv6Address n)
  assume ok: "ip_ok a"
  show ?thesis
  proof (cases "n div 4294967296 = 65535")
    case True
    then have "65535 * 4294967296 + n mod 4294967296 = n" by (metis mult.commute mult_div_mod_eq)
    then have "parse_ipv6 (ipv6_text n) = Some n"
      using parse_mapped [of "n mod 4294967296"] True by (simp add: ipv6_text_def mapped_prefix)
    moreover have "parse_ipv4 (ipv6_text n) = None"
      by (rule parse_ipv4_colonless) (simp add: ipv6_text_def True mapped_prefix)
    ultimately show ?thesis by (simp add: parse_ip_address_def IPv6Address)
  next
    case False
    then have t: "ipv6_text n = compressed_text (hextets 8 n)" by (simp add: ipv6_text_def)
    have parsed: "parse_ipv6 (ipv6_text n) = Some n"
      unfolding t using ok by (intro parse_compressed_text) (auto simp: IPv6Address)
    then have "\<not> length (split_on CHR '':'' (ipv6_text n)) < 3" by (auto simp: parse_ipv6_def split: if_splits)
    then have "CHR '':'' \<in> set (ipv6_text n)" using split_on_fresh by force
    with parsed show ?thesis by (simp add: parse_ip_address_def IPv6Address parse_ipv4_colonless)
  qed
qed

end
