(* ===== verification/Json_Text.thy ===== *)
theory Json_Text
  imports Address_Text
begin

text \<open>
  JSON as Python's \<open>json\<close> module prints and reads it: \<open>dumps\<close> with its default separators or
  with an indentation, and \<open>loads\<close>. The scanner takes fuel, one unit per nested call; \<open>loads\<close>
  gives it two units per character of the text and one more than that at the start, which is
  always enough (\<open>loads_returns\<close>), since every second nested call consumes a character.

  Strings hold the code points up to 255; an escape beyond that is outside the model, and the
  scanner says so. A number with a fraction or an exponent is kept as its text. An object is
  the list of its members; where a key occurs twice, reading it means its last value.
\<close>

datatype json =
    JNull
  | JBool bool
  | JInt int
  | JFloat string
  | JStr string
  | JList "json list"
  | JObj "(string \<times> json) list"

subsection \<open>Printing\<close>

abbreviation QUOTE :: char where "QUOTE \<equiv> CHR 0x22"
abbreviation BACKSLASH :: char where "BACKSLASH \<equiv> CHR 0x5C"

definition json_escape :: "char \<Rightarrow> string" where
  "json_escape c =
     (if c = QUOTE then [BACKSLASH, QUOTE]
      else if c = BACKSLASH then [BACKSLASH, BACKSLASH]
      else if c = CHR 0x0A then [BACKSLASH, CHR ''n'']
      else if c = CHR 0x0D then [BACKSLASH, CHR ''r'']
      else if c = CHR 0x09 then [BACKSLASH, CHR ''t'']
      else if c = CHR 0x08 then [BACKSLASH, CHR ''b'']
      else if c = CHR 0x0C then [BACKSLASH, CHR ''f'']
      else if (of_char c :: nat) < 32 \<or> 126 < (of_char c :: nat) then [BACKSLASH, CHR ''u''] @ hex_digits 4 (of_char c)
      else [c])"

definition json_string :: "string \<Rightarrow> string" where
  "json_string s = [QUOTE] @ concat (map json_escape s) @ [QUOTE]"

definition line_gap :: "nat option \<Rightarrow> nat \<Rightarrow> string" where
  "line_gap indent level = (case indent of None \<Rightarrow> [] | Some k \<Rightarrow> NL # replicate (k * level) CHR '' '')"

definition item_sep :: "nat option \<Rightarrow> nat \<Rightarrow> string" where
  "item_sep indent level = (case indent of None \<Rightarrow> '', '' | Some k \<Rightarrow> '','' @ line_gap indent level)"

fun dumps_at :: "nat option \<Rightarrow> nat \<Rightarrow> json \<Rightarrow> string"
and dumps_items :: "nat option \<Rightarrow> nat \<Rightarrow> json list \<Rightarrow> string list"
and dumps_members :: "nat option \<Rightarrow> nat \<Rightarrow> (string \<times> json) list \<Rightarrow> string list" where
  "dumps_at ind lvl JNull = ''null''"
| "dumps_at ind lvl (JBool b) = (if b then ''true'' else ''false'')"
| "dumps_at ind lvl (JInt i) = int_text i"
| "dumps_at ind lvl (JFloat f) = f"
| "dumps_at ind lvl (JStr s) = json_string s"
| "dumps_at ind lvl (JList xs) =
     (if xs = [] then ''[]''
      else ''['' @ line_gap ind (Suc lvl) @ join_text (item_sep ind (Suc lvl)) (dumps_items ind (Suc lvl) xs) @
           line_gap ind lvl @ '']'')"
| "dumps_at ind lvl (JObj ms) =
     (if ms = [] then ''{}''
      else ''{'' @ line_gap ind (Suc lvl) @ join_text (item_sep ind (Suc lvl)) (dumps_members ind (Suc lvl) ms) @
           line_gap ind lvl @ ''}'')"
| "dumps_items ind lvl [] = []"
| "dumps_items ind lvl (x # xs) = dumps_at ind lvl x # dumps_items ind lvl xs"
| "dumps_members ind lvl [] = []"
| "dumps_members ind lvl ((k, v) # ms) = (json_string k @ '': '' @ dumps_at ind lvl v) # dumps_members ind lvl ms"

definition dumps :: "json \<Rightarrow> string" where
  "dumps j = dumps_at None 0 j"

definition dumps_indent :: "nat \<Rightarrow> json \<Rightarrow> string" where
  "dumps_indent k j = dumps_at (Some k) 0 j"

text \<open>\<open>d[key]\<close> and \<open>d.get(key)\<close> of an object.\<close>

definition member :: "string \<Rightarrow> (string \<times> json) list \<Rightarrow> json option" where
  "member key ms = map_of (rev ms) key"

subsection \<open>Reading\<close>

datatype scan_error = JSONDecodeError | OutOfFuel | CharacterOutOfRange

definition json_space :: "char \<Rightarrow> bool" where
  "json_space c \<longleftrightarrow> c = CHR '' '' \<or> c = CHR 0x09 \<or> c = CHR 0x0A \<or> c = CHR 0x0D"

definition skip_ws :: "string \<Rightarrow> string" where
  "skip_ws s = dropWhile json_space s"

definition scan_map :: "('a \<Rightarrow> 'b) \<Rightarrow> (scan_error, 'a \<times> string) result \<Rightarrow> (scan_error, 'b \<times> string) result" where
  "scan_map f r = (case r of Inl e \<Rightarrow> Inl e | Inr (a, rest) \<Rightarrow> Inr (f a, rest))"

definition simple_escape :: "char \<Rightarrow> char option" where
  "simple_escape c =
     (if c = QUOTE then Some QUOTE else if c = BACKSLASH then Some BACKSLASH else if c = CHR ''/'' then Some CHR ''/''
      else if c = CHR ''n'' then Some CHR 0x0A else if c = CHR ''r'' then Some CHR 0x0D
      else if c = CHR ''t'' then Some CHR 0x09 else if c = CHR ''b'' then Some CHR 0x08
      else if c = CHR ''f'' then Some CHR 0x0C else None)"

definition hex_number :: "string \<Rightarrow> nat option" where
  "hex_number s = (if length s \<noteq> 4 then None else map_option (foldl (\<lambda>a d. 16 * a + d) 0) (all_some (map hex_value s)))"

function scan_chars :: "string \<Rightarrow> (scan_error, string \<times> string) result" where
  "scan_chars [] = Inl JSONDecodeError"
| "scan_chars (c # cs) =
     (if c = QUOTE then Inr ([], cs)
      else if c = BACKSLASH then
        (case cs of
           [] \<Rightarrow> Inl JSONDecodeError
         | e # es \<Rightarrow>
             if e = CHR ''u'' then
               (case hex_number (take 4 es) of
                  None \<Rightarrow> Inl JSONDecodeError
                | Some n \<Rightarrow> if 255 < n then Inl CharacterOutOfRange
                            else scan_map (\<lambda>s. char_of n # s) (scan_chars (drop 4 es)))
             else (case simple_escape e of
                     None \<Rightarrow> Inl JSONDecodeError
                   | Some x \<Rightarrow> scan_map (\<lambda>s. x # s) (scan_chars es)))
      else if (of_char c :: nat) < 32 then Inl JSONDecodeError
      else scan_map (\<lambda>s. c # s) (scan_chars cs))"
  by pat_completeness auto
termination by (relation "measure length") auto

definition scan_int_part :: "string \<Rightarrow> (string \<times> string) option" where
  "scan_int_part s =
     (case s of
        [] \<Rightarrow> None
      | c # cs \<Rightarrow>
          if c = CHR ''0'' then Some (''0'', cs)
          else if is_digit c then Some (takeWhile is_digit s, dropWhile is_digit s)
          else None)"

definition scan_frac :: "string \<Rightarrow> string \<times> string" where
  "scan_frac s =
     (case s of
        c # d # ds \<Rightarrow>
          if c = CHR ''.'' \<and> is_digit d then (c # takeWhile is_digit (d # ds), dropWhile is_digit (d # ds))
          else ([], s)
      | _ \<Rightarrow> ([], s))"

definition scan_exp :: "string \<Rightarrow> string \<times> string" where
  "scan_exp s =
     (case s of
        [] \<Rightarrow> ([], s)
      | e # cs \<Rightarrow>
          if e = CHR ''e'' \<or> e = CHR ''E'' then
            (let signed = (cs \<noteq> [] \<and> (hd cs = CHR ''+'' \<or> hd cs = CHR ''-''));
                 ds = (if signed then tl cs else cs)
             in if ds \<noteq> [] \<and> is_digit (hd ds)
                then (e # (if signed then [hd cs] else []) @ takeWhile is_digit ds, dropWhile is_digit ds)
                else ([], s))
          else ([], s))"

definition scan_number :: "string \<Rightarrow> (scan_error, json \<times> string) result" where
  "scan_number s =
     (let negative = (s \<noteq> [] \<and> hd s = CHR ''-''); s1 = (if negative then tl s else s) in
      (case scan_int_part s1 of
         None \<Rightarrow>
           if starts_with ''NaN'' s then Inr (JFloat ''NaN'', drop 3 s)
           else if starts_with ''Infinity'' s then Inr (JFloat ''Infinity'', drop 8 s)
           else if starts_with ''-Infinity'' s then Inr (JFloat ''-Infinity'', drop 9 s)
           else Inl JSONDecodeError
       | Some (ds, s2) \<Rightarrow>
           (let (frac, s3) = scan_frac s2; (ex, s4) = scan_exp s3 in
            if frac = [] \<and> ex = []
            then Inr (JInt (if negative then - int (decimal_value ds) else int (decimal_value ds)), s4)
            else Inr (JFloat ((if negative then ''-'' else []) @ ds @ frac @ ex), s4))))"

fun scan_value :: "nat \<Rightarrow> string \<Rightarrow> (scan_error, json \<times> string) result"
and scan_items :: "nat \<Rightarrow> string \<Rightarrow> (scan_error, json list \<times> string) result"
and scan_members :: "nat \<Rightarrow> string \<Rightarrow> (scan_error, (string \<times> json) list \<times> string) result" where
  "scan_value 0 s = Inl OutOfFuel"
| "scan_value (Suc n) s =
     (case s of
        [] \<Rightarrow> Inl JSONDecodeError
      | c # cs \<Rightarrow>
          if c = QUOTE then scan_map JStr (scan_chars cs)
          else if c = CHR ''{'' then
            (case skip_ws cs of
               [] \<Rightarrow> Inl JSONDecodeError
             | d # ds \<Rightarrow>
                 if d = CHR ''}'' then Inr (JObj [], ds)
                 else if d = QUOTE then scan_map JObj (scan_members n ds)
                 else Inl JSONDecodeError)
          else if c = CHR ''['' then
            (case skip_ws cs of
               [] \<Rightarrow> Inl JSONDecodeError
             | d # ds \<Rightarrow>
                 if d = CHR '']'' then Inr (JList [], ds)
                 else scan_map JList (scan_items n (d # ds)))
          else if starts_with ''null'' s then Inr (JNull, drop 4 s)
          else if starts_with ''true'' s then Inr (JBool True, drop 4 s)
          else if starts_with ''false'' s then Inr (JBool False, drop 5 s)
          else scan_number s)"
| "scan_items 0 s = Inl OutOfFuel"
| "scan_items (Suc n) s =
     (case scan_value n s of
        Inl e \<Rightarrow> Inl e
      | Inr (x, r) \<Rightarrow>
          (case skip_ws r of
             [] \<Rightarrow> Inl JSONDecodeError
           | d # ds \<Rightarrow>
               if d = CHR '']'' then Inr ([x], ds)
               else if d = CHR '','' then scan_map (\<lambda>xs. x # xs) (scan_items n (skip_ws ds))
               else Inl JSONDecodeError))"
| "scan_members 0 s = Inl OutOfFuel"
| "scan_members (Suc n) s =
     (case scan_chars s of
        Inl e \<Rightarrow> Inl e
      | Inr (key, r) \<Rightarrow>
          (case skip_ws r of
             [] \<Rightarrow> Inl JSONDecodeError
           | d # ds \<Rightarrow>
               if d \<noteq> CHR '':'' then Inl JSONDecodeError
               else
                 (case scan_value n (skip_ws ds) of
                    Inl e \<Rightarrow> Inl e
                  | Inr (v, r2) \<Rightarrow>
                      (case skip_ws r2 of
                         [] \<Rightarrow> Inl JSONDecodeError
                       | e # es \<Rightarrow>
                           if e = CHR ''}'' then Inr ([(key, v)], es)
                           else if e = CHR '','' then
                             (case skip_ws es of
                                [] \<Rightarrow> Inl JSONDecodeError
                              | q # qs \<Rightarrow>
                                  if q = QUOTE then scan_map (\<lambda>ms. (key, v) # ms) (scan_members n qs)
                                  else Inl JSONDecodeError)
                           else Inl JSONDecodeError))))"

definition loads :: "string \<Rightarrow> (scan_error, json) result" where
  "loads s =
     (case scan_value (2 * length s + 1) (skip_ws s) of
        Inl e \<Rightarrow> Inl e
      | Inr (j, rest) \<Rightarrow> if skip_ws rest = [] then Inr j else Inl JSONDecodeError)"

subsection \<open>The scanner consumes text, and its fuel suffices\<close>

lemma scan_map_simps [simp]:
  "scan_map f (Inl e) = Inl e" "scan_map f (Inr (a, r)) = Inr (f a, r)"
  "scan_map f x = Inl e \<longleftrightarrow> x = Inl e"
  "scan_map f x = Inr (b, r) \<longleftrightarrow> (\<exists>a. x = Inr (a, r) \<and> b = f a)"
  "Inl e = scan_map f x \<longleftrightarrow> x = Inl e"
  "Inr (b, r) = scan_map f x \<longleftrightarrow> (\<exists>a. x = Inr (a, r) \<and> b = f a)"
  by (auto simp: scan_map_def split: sum.splits)

lemma length_skip_ws: "length (skip_ws s) \<le> length s"
  by (simp add: skip_ws_def length_dropWhile_le)

lemma skip_ws_Cons: "skip_ws s = d # ds \<Longrightarrow> Suc (length ds) \<le> length s"
  using length_skip_ws [of s] by simp

lemma scan_chars_shorter: "scan_chars s = Inr (x, r) \<Longrightarrow> length r < length s"
proof (induction s arbitrary: x rule: scan_chars.induct)
  case (2 c cs)
  consider "c = QUOTE" | "c = BACKSLASH" | "c \<noteq> QUOTE" "c \<noteq> BACKSLASH" by blast
  then show ?case
  proof cases
    case 2
    then obtain e es where cs: "cs = e # es" using "2.prems" by (cases cs) auto
    show ?thesis
    proof (cases "e = CHR ''u''")
      case True
      with 2 cs "2.prems" obtain n y where n: "hex_number (take 4 es) = Some n" "\<not> 255 < n" "scan_chars (drop 4 es) = Inr (y, r)"
        by (auto split: option.splits if_splits)
      then have "length r < length (drop 4 es)" using "2.IH"(1) [OF _ _ cs True n(1,2)] 2 by simp
      then show ?thesis by (simp add: cs)
    next
      case False
      with 2 cs "2.prems" obtain z y where z: "simple_escape e = Some z" "scan_chars es = Inr (y, r)"
        by (auto split: option.splits)
      then have "length r < length es" using "2.IH"(2) [OF _ _ cs False z(1)] 2 by simp
      then show ?thesis by (simp add: cs)
    qed
  next
    case 3
    with "2.prems" obtain y where "\<not> (of_char c :: nat) < 32" "scan_chars cs = Inr (y, r)" by (auto split: if_splits)
    with 3 "2.IH"(3) have "length r < length cs" by simp
    then show ?thesis by simp
  qed (use "2.prems" in auto)
qed simp

lemma scan_frac_shorter: "length (snd (scan_frac s)) \<le> length s"
  by (auto simp: scan_frac_def length_dropWhile_le le_SucI split: list.splits)

lemma scan_exp_shorter: "length (snd (scan_exp s)) \<le> length s"
proof -
  have "length (dropWhile is_digit (tl t)) \<le> Suc (length t)" "length (dropWhile is_digit t) \<le> Suc (length t)" for t
    by (auto intro: order_trans [OF length_dropWhile_le])
  then show ?thesis by (auto simp: scan_exp_def Let_def split: list.splits)
qed

lemma scan_int_part_shorter: "scan_int_part s = Some (ds, r) \<Longrightarrow> length r < length s"
  by (auto simp: scan_int_part_def less_Suc_eq_le length_dropWhile_le split: list.splits if_splits)

lemma starts_with_length: "starts_with p s \<Longrightarrow> length p \<le> length s"
  by (metis length_take min.cobounded1 starts_with_def)

lemma scan_number_shorter:
  assumes "scan_number s = Inr (j, r)"
  shows "length r < length s"
proof -
  define s1 where "s1 = (if s \<noteq> [] \<and> hd s = CHR ''-'' then tl s else s)"
  have s1: "length s1 \<le> length s" by (simp add: s1_def)
  show ?thesis
  proof (cases "scan_int_part s1")
    case None
    then consider "starts_with ''NaN'' s" "r = drop 3 s" | "starts_with ''Infinity'' s" "r = drop 8 s"
      | "starts_with ''-Infinity'' s" "r = drop 9 s"
      using assms by (auto simp: scan_number_def Let_def s1_def [symmetric] split: if_splits)
    then show ?thesis by cases (auto dest: starts_with_length)
  next
    case (Some p)
    obtain ds s2 where p: "p = (ds, s2)" by (cases p)
    obtain frac s3 where f: "scan_frac s2 = (frac, s3)" by fastforce
    obtain ex s4 where x: "scan_exp s3 = (ex, s4)" by fastforce
    have "r = s4" using assms Some p f x by (auto simp: scan_number_def Let_def s1_def [symmetric] split: if_splits)
    then show ?thesis
      using s1 scan_int_part_shorter [of s1 ds s2] Some p scan_frac_shorter [of s2] scan_exp_shorter [of s3] f x by simp
  qed
qed

lemma scan_value_cases:
  assumes "scan_value (Suc n) s = r"
  obtains (str) cs where "s = QUOTE # cs" "r = scan_map JStr (scan_chars cs)"
    | (obj) cs ds where "s = CHR ''{'' # cs" "skip_ws cs = QUOTE # ds" "r = scan_map JObj (scan_members n ds)"
    | (arr) cs d ds where "s = CHR ''['' # cs" "skip_ws cs = d # ds" "r = scan_map JList (scan_items n (d # ds))"
    | (bad) "r = Inl JSONDecodeError"
    | (rest) j t where "r = Inr (j, t)" "length t < length s"
    | (num) "r = scan_number s"
proof (cases s)
  case Nil
  then show ?thesis using assms bad by simp
next
  case (Cons c cs)
  consider "c = QUOTE" | "c = CHR ''{''" | "c = CHR ''[''" | "c \<noteq> QUOTE" "c \<noteq> CHR ''{''" "c \<noteq> CHR ''[''" by blast
  then show ?thesis
  proof cases
    case 1
    then show ?thesis using assms Cons str by simp
  next
    case 2
    show ?thesis
    proof (cases "skip_ws cs")
      case Nil
      then show ?thesis using assms Cons 2 bad by simp
    next
      case (Cons d ds)
      then have "length ds < length s" using skip_ws_Cons [OF Cons] \<open>s = c # cs\<close> by simp
      then show ?thesis
        using assms \<open>s = c # cs\<close> 2 Cons bad obj [of cs ds] rest [of "JObj []" ds] by (cases "d = CHR ''}''"; cases "d = QUOTE") simp_all
    qed
  next
    case 3
    show ?thesis
    proof (cases "skip_ws cs")
      case Nil
      then show ?thesis using assms Cons 3 bad by simp
    next
      case (Cons d ds)
      then have "length ds < length s" using skip_ws_Cons [OF Cons] \<open>s = c # cs\<close> by simp
      then show ?thesis
        using assms \<open>s = c # cs\<close> 3 Cons arr [of cs d ds] rest [of "JList []" ds] by (cases "d = CHR '']''") simp_all
    qed
  next
    case 4
    have r: "r = (if starts_with ''null'' s then Inr (JNull, drop 4 s)
          else if starts_with ''true'' s then Inr (JBool True, drop 4 s)
          else if starts_with ''false'' s then Inr (JBool False, drop 5 s) else scan_number s)"
      unfolding assms [symmetric] Cons scan_value.simps list.case using 4 by simp
    show ?thesis
      using r num rest [of JNull "drop 4 s"] rest [of "JBool True" "drop 4 s"] rest [of "JBool False" "drop 5 s"] Cons
      by (cases "starts_with ''null'' s"; cases "starts_with ''true'' s"; cases "starts_with ''false'' s") simp_all
  qed
qed

lemma scan_items_cases:
  assumes "scan_items (Suc n) s = r"
  obtains (value_err) e where "scan_value n s = Inl e" "r = Inl e"
    | (bad) x t where "scan_value n s = Inr (x, t)" "r = Inl JSONDecodeError"
    | (last) x t ds where "scan_value n s = Inr (x, t)" "skip_ws t = CHR '']'' # ds" "r = Inr ([x], ds)"
    | (more) x t ds where "scan_value n s = Inr (x, t)" "skip_ws t = CHR '','' # ds"
        "r = scan_map (\<lambda>xs. x # xs) (scan_items n (skip_ws ds))"
proof (cases "scan_value n s")
  case (Inl e)
  then show ?thesis using assms value_err by simp
next
  case (Inr p)
  obtain x t where p: "p = (x, t)" by (cases p)
  show ?thesis
  proof (cases "skip_ws t")
    case Nil
    then show ?thesis using assms Inr p bad by simp
  next
    case (Cons d ds)
    then show ?thesis
      using assms Inr p bad last more by (cases "d = CHR '']''"; cases "d = CHR '',''") simp_all
  qed
qed

lemma scan_members_cases:
  assumes "scan_members (Suc n) s = r"
  obtains (key_err) e where "scan_chars s = Inl e" "r = Inl e"
    | (bad) "r = Inl JSONDecodeError"
    | (value_err) k t ds e where "scan_chars s = Inr (k, t)" "skip_ws t = CHR '':'' # ds"
        "scan_value n (skip_ws ds) = Inl e" "r = Inl e"
    | (last) k t ds v u es where "scan_chars s = Inr (k, t)" "skip_ws t = CHR '':'' # ds"
        "scan_value n (skip_ws ds) = Inr (v, u)" "skip_ws u = CHR ''}'' # es" "r = Inr ([(k, v)], es)"
    | (more) k t ds v u es qs where "scan_chars s = Inr (k, t)" "skip_ws t = CHR '':'' # ds"
        "scan_value n (skip_ws ds) = Inr (v, u)" "skip_ws u = CHR '','' # es" "skip_ws es = QUOTE # qs"
        "r = scan_map (\<lambda>ms. (k, v) # ms) (scan_members n qs)"
proof (cases "scan_chars s")
  case (Inl e)
  then show ?thesis using assms key_err by simp
next
  case (Inr p)
  obtain k t where p: "p = (k, t)" by (cases p)
  consider "skip_ws t = [] \<or> hd (skip_ws t) \<noteq> CHR '':''" | ds where "skip_ws t = CHR '':'' # ds"
    by (cases "skip_ws t") auto
  then show ?thesis
  proof cases
    case 1
    then have "r = Inl JSONDecodeError" using assms Inr p by (cases "skip_ws t") auto
    then show ?thesis by (rule bad)
  next
    case (2 ds)
    show ?thesis
    proof (cases "scan_value n (skip_ws ds)")
      case Inl': (Inl e)
      then show ?thesis using assms Inr p 2 value_err by simp
    next
      case Inr': (Inr q)
      obtain v u where q: "q = (v, u)" by (cases q)
      show ?thesis
      proof (cases "skip_ws u")
        case Nil
        then show ?thesis using assms Inr p 2 Inr' q bad by simp
      next
        case (Cons e es)
        have r: "r = (if e = CHR ''}'' then Inr ([(k, v)], es)
             else if e = CHR '','' then
               (case skip_ws es of [] \<Rightarrow> Inl JSONDecodeError
                | q # qs \<Rightarrow> if q = QUOTE then scan_map (\<lambda>ms. (k, v) # ms) (scan_members n qs) else Inl JSONDecodeError)
             else Inl JSONDecodeError)"
          using assms Inr p 2 Inr' q Cons by simp
        consider "e = CHR ''}''" | "e = CHR '',''" | "e \<noteq> CHR ''}''" "e \<noteq> CHR '',''" by blast
        then show ?thesis
        proof cases
          case 1
          then show ?thesis using r Inr p 2 Inr' q Cons last by simp
        next
          case c: 2
          show ?thesis
          proof (cases "\<exists>qs. skip_ws es = QUOTE # qs")
            case True
            then show ?thesis using r Inr p 2 Inr' q Cons c more by auto
          next
            case False
            then have "r = Inl JSONDecodeError" using r c by (cases "skip_ws es") auto
            then show ?thesis by (rule bad)
          qed
        next
          case 3
          then show ?thesis using r bad by simp
        qed
      qed
    qed
  qed
qed

text \<open>Every part that is read is shorter than the text before it.\<close>

lemma scan_shorter:
  "(\<forall>s j r. scan_value n s = Inr (j, r) \<longrightarrow> length r < length s) \<and>
   (\<forall>s xs r. scan_items n s = Inr (xs, r) \<longrightarrow> length r < length s) \<and>
   (\<forall>s ms r. scan_members n s = Inr (ms, r) \<longrightarrow> length r < length s)"
proof (induction n)
  case (Suc n)
  have "length r < length s" if "scan_value (Suc n) s = Inr (j, r)" for s j r
    using that
  proof (cases rule: scan_value_cases)
    case (str cs)
    then show ?thesis by (auto dest: scan_chars_shorter)
  next
    case (obj cs ds)
    then obtain ms where "scan_members n ds = Inr (ms, r)" by auto
    then have "length r < length ds" using Suc by blast
    then show ?thesis using obj skip_ws_Cons [of cs] by simp
  next
    case (arr cs d ds)
    then obtain xs where "scan_items n (d # ds) = Inr (xs, r)" by auto
    then have "length r < length (d # ds)" using Suc by blast
    then show ?thesis using arr skip_ws_Cons [of cs] by simp
  next
    case num
    then show ?thesis using scan_number_shorter [of s j r] by simp
  qed auto
  moreover have "length r < length s" if "scan_items (Suc n) s = Inr (xs, r)" for s xs r
    using that
  proof (cases rule: scan_items_cases)
    case (last x t ds)
    then have "length t < length s" using Suc by blast
    then show ?thesis using last skip_ws_Cons [of t] by simp
  next
    case (more x t ds)
    then obtain ys where "scan_items n (skip_ws ds) = Inr (ys, r)" by auto
    with more have "length t < length s" "length r < length (skip_ws ds)" using Suc by blast+
    then show ?thesis using more skip_ws_Cons [of t] length_skip_ws [of ds] by simp
  qed auto
  moreover have "length r < length s" if "scan_members (Suc n) s = Inr (ms, r)" for s ms r
    using that
  proof (cases rule: scan_members_cases)
    case (last k t ds v u es)
    then have "length t < length s" "length u < length (skip_ws ds)" using Suc scan_chars_shorter by blast+
    then show ?thesis using last skip_ws_Cons [of t] skip_ws_Cons [of u] length_skip_ws [of ds] by simp
  next
    case (more k t ds v u es qs)
    then obtain ns where "scan_members n qs = Inr (ns, r)" by auto
    with more have "length t < length s" "length u < length (skip_ws ds)" "length r < length qs"
      using Suc scan_chars_shorter by blast+
    then show ?thesis
      using more skip_ws_Cons [of t] skip_ws_Cons [of u] skip_ws_Cons [of es] length_skip_ws [of ds] by simp
  qed auto
  ultimately show ?case by blast
qed simp

lemmas scan_value_shorter = scan_shorter [THEN conjunct1, rule_format]

lemma scan_chars_no_fuel: "scan_chars s \<noteq> Inl OutOfFuel"
  by (induction s rule: scan_chars.induct) (auto split: list.splits option.splits if_splits)

lemma scan_number_no_fuel: "scan_number s \<noteq> Inl OutOfFuel"
  by (auto simp: scan_number_def Let_def split: option.splits prod.splits)

lemma scan_fuel_suffices:
  "(\<forall>s. 2 * length s < n \<longrightarrow> scan_value n s \<noteq> Inl OutOfFuel) \<and>
   (\<forall>s. 2 * length s + 1 < n \<longrightarrow> scan_items n s \<noteq> Inl OutOfFuel) \<and>
   (\<forall>s. 2 * length s < n \<longrightarrow> scan_members n s \<noteq> Inl OutOfFuel)"
proof (induction n)
  case (Suc n)
  have "scan_value (Suc n) s \<noteq> Inl OutOfFuel" if "2 * length s < Suc n" for s
  proof
    assume "scan_value (Suc n) s = Inl OutOfFuel"
    then show False
    proof (cases rule: scan_value_cases)
      case (obj cs ds)
      then have "2 * length ds < n" using that skip_ws_Cons [of cs QUOTE ds] by simp
      then show False using Suc obj(3) by simp
    next
      case (arr cs d ds)
      then have "2 * length (d # ds) + 1 < n" using that skip_ws_Cons [of cs d ds] by simp
      then show False using Suc arr(3) by simp
    next
      case (str cs)
      then show False using scan_chars_no_fuel [of cs] by simp
    next
      case num
      then show False using scan_number_no_fuel [of s] by simp
    qed auto
  qed
  moreover have "scan_items (Suc n) s \<noteq> Inl OutOfFuel" if "2 * length s + 1 < Suc n" for s
  proof
    assume "scan_items (Suc n) s = Inl OutOfFuel"
    then show False
    proof (cases rule: scan_items_cases)
      case (more x t ds)
      then have "length (skip_ws ds) < length s - 1"
        using scan_value_shorter [of n s x t] skip_ws_Cons [of t] length_skip_ws [of ds] by simp
      then have "2 * length (skip_ws ds) + 1 < n" using that by simp
      then show False using Suc more(3) by simp
    qed (use Suc that in auto)
  qed
  moreover have "scan_members (Suc n) s \<noteq> Inl OutOfFuel" if "2 * length s < Suc n" for s
  proof
    assume "scan_members (Suc n) s = Inl OutOfFuel"
    then show False
    proof (cases rule: scan_members_cases)
      case (value_err k t ds e)
      then have "length (skip_ws ds) < length s"
        using scan_chars_shorter [of s k t] skip_ws_Cons [of t] length_skip_ws [of ds] by simp
      then have "2 * length (skip_ws ds) < n" using that by simp
      then show False using Suc value_err(3,4) by simp
    next
      case (more k t ds v u es qs)
      then have "length qs + 1 < length s"
        using scan_chars_shorter [of s k t] skip_ws_Cons [of t] length_skip_ws [of ds] scan_value_shorter [of n "skip_ws ds" v u]
          skip_ws_Cons [of u] skip_ws_Cons [of es] by simp
      then have "2 * length qs < n" using that by simp
      then show False using Suc more(6) by simp
    qed (use scan_chars_no_fuel [of s] in auto)
  qed
  ultimately show ?case by blast
qed simp

subsection \<open>Reading undoes printing\<close>

fun plain_json :: "json \<Rightarrow> bool" where
  "plain_json (JFloat f) \<longleftrightarrow> False"
| "plain_json (JList xs) \<longleftrightarrow> (\<forall>x\<in>set xs. plain_json x)"
| "plain_json (JObj ms) \<longleftrightarrow> (\<forall>m\<in>set ms. plain_json (snd m))"
| "plain_json _ \<longleftrightarrow> True"

lemma hex_number_digits: "n < 65536 \<Longrightarrow> hex_number (hex_digits 4 n) = Some n"
proof -
  assume n: "n < 65536"
  obtain ds where "all_some (map hex_value (hex_digits 4 n)) = Some ds" "foldl (\<lambda>a d. 16 * a + d) 0 ds = n mod 16 ^ 4"
    using hex_digits_value by blast
  with n show ?thesis by (simp add: hex_number_def)
qed

lemma of_char_bound: "(of_char c :: nat) < 256"
  by (metis of_char_mod_256 mod_less_divisor zero_less_numeral)

lemma scan_simple: "simple_escape e = Some x \<Longrightarrow> scan_chars (BACKSLASH # e # t) = scan_map (\<lambda>s. x # s) (scan_chars t)"
proof -
  assume e: "simple_escape e = Some x"
  then have "e \<noteq> CHR ''u''" by (auto simp: simple_escape_def)
  with e show ?thesis by (simp del: scan_map_simps)
qed

lemma scan_ordinary:
  "c \<noteq> QUOTE \<Longrightarrow> c \<noteq> BACKSLASH \<Longrightarrow> \<not> (of_char c :: nat) < 32 \<Longrightarrow> scan_chars (c # t) = scan_map (\<lambda>s. c # s) (scan_chars t)"
  by (simp del: scan_map_simps)

lemma scan_unicode:
  "scan_chars (BACKSLASH # CHR ''u'' # hex_digits 4 (of_char c) @ t) = scan_map (\<lambda>s. c # s) (scan_chars t)"
proof -
  have "hex_number (hex_digits 4 (of_char c)) = Some (of_char c)"
    by (rule hex_number_digits, rule less_trans [OF of_char_bound]) simp
  moreover have "\<not> 255 < (of_char c :: nat)" using of_char_bound [of c] by linarith
  ultimately show ?thesis by (simp del: scan_map_simps)
qed

lemma scan_escape: "scan_chars (json_escape c @ t) = scan_map (\<lambda>s. c # s) (scan_chars t)"
proof -
  consider (simple) e where "json_escape c = [BACKSLASH, e]" "simple_escape e = Some c"
    | (unicode) "json_escape c = [BACKSLASH, CHR ''u''] @ hex_digits 4 (of_char c)"
    | (ordinary) "json_escape c = [c]" "c \<noteq> QUOTE" "c \<noteq> BACKSLASH" "\<not> (of_char c :: nat) < 32"
  proof (cases "c \<in> {QUOTE, BACKSLASH, CHR 0x0A, CHR 0x0D, CHR 0x09, CHR 0x08, CHR 0x0C}")
    case True
    then have "\<exists>e. json_escape c = [BACKSLASH, e] \<and> simple_escape e = Some c"
      by (elim insertE emptyE) (simp_all add: json_escape_def simple_escape_def)
    then show ?thesis using simple by blast
  next
    case False
    then have "json_escape c = (if (of_char c :: nat) < 32 \<or> 126 < (of_char c :: nat)
        then [BACKSLASH, CHR ''u''] @ hex_digits 4 (of_char c) else [c])"
      by (simp add: json_escape_def)
    with False show ?thesis using unicode ordinary by (auto split: if_splits)
  qed
  then show ?thesis
    by cases (simp_all only: append.simps scan_simple scan_unicode scan_ordinary not_False_eq_True)
qed

lemma scan_escaped: "scan_chars (concat (map json_escape s) @ QUOTE # t) = Inr (s, t)"
  by (induction s) (simp_all add: scan_escape)

lemma scan_json_string: "scan_value (Suc n) (json_string s @ t) = Inr (JStr s, t)"
  by (simp add: json_string_def scan_escaped)

definition delimited :: "string \<Rightarrow> bool" where
  "delimited t \<longleftrightarrow> t = [] \<or> \<not> is_digit (hd t) \<and> hd t \<noteq> CHR ''.'' \<and> hd t \<noteq> CHR ''e'' \<and> hd t \<noteq> CHR ''E''"

lemma scan_int_part_decimal: "delimited t \<Longrightarrow> scan_int_part (decimal n @ t) = Some (decimal n, t)"
proof -
  assume t: "delimited t"
  have digits: "\<forall>c\<in>set (decimal n). is_digit c" by (rule decimal_digits)
  obtain c cs where d: "decimal n = c # cs" by (cases "decimal n") auto
  show ?thesis
  proof (cases "n = 0")
    case True
    then show ?thesis by (simp add: decimal_0 scan_int_part_def)
  next
    case False
    then have "c \<noteq> CHR ''0''" using hd_decimal [of n] d by simp
    moreover have "takeWhile is_digit (decimal n @ t) = decimal n" "dropWhile is_digit (decimal n @ t) = t"
      using digits t by (cases t; simp add: delimited_def takeWhile_append dropWhile_append)+
    moreover have "is_digit c" using digits d by simp
    ultimately show ?thesis by (simp add: scan_int_part_def d)
  qed
qed

lemma scan_int_text:
  assumes "delimited t"
  shows "scan_number (int_text i @ t) = Inr (JInt i, t)"
proof -
  have none: "scan_frac t = ([], t)" "scan_exp t = ([], t)"
    using assms by (auto simp: delimited_def scan_frac_def scan_exp_def split: list.splits)
  show ?thesis
  proof (cases "i < 0")
    case True
    then show ?thesis
      using assms none
      by (simp add: int_text_def scan_number_def scan_int_part_decimal decimal_value_decimal)
  next
    case False
    obtain c cs where d: "decimal (nat i) = c # cs" by (cases "decimal (nat i)") auto
    then have "c \<noteq> CHR ''-''" using decimal_digits [of "nat i"] digit_plain by auto
    then show ?thesis
      using assms none False scan_int_part_decimal [OF assms, of "nat i"] decimal_value_decimal [of "nat i"]
      by (simp add: int_text_def scan_number_def d)
  qed
qed

lemma int_text_head: "\<exists>c cs. int_text i = c # cs \<and> (is_digit c \<or> c = CHR ''-'')"
proof (cases "i < 0")
  case True
  then show ?thesis by (simp add: int_text_def)
next
  case False
  obtain c cs where "decimal (nat i) = c # cs" by (cases "decimal (nat i)") auto
  moreover from this have "is_digit c" using decimal_digits [of "nat i"] by simp
  ultimately show ?thesis using False by (simp add: int_text_def)
qed

lemma scan_value_int:
  assumes "delimited t"
  shows "scan_value (Suc n) (int_text i @ t) = Inr (JInt i, t)"
proof -
  obtain c cs where d: "int_text i = c # cs" and c: "is_digit c \<or> c = CHR ''-''" using int_text_head by blast
  from c have "c \<noteq> QUOTE" "c \<noteq> CHR ''{''" "c \<noteq> CHR ''[''" "c \<noteq> CHR ''n''" "c \<noteq> CHR ''t''" "c \<noteq> CHR ''f''"
    by (auto simp: is_digit_def)
  then show ?thesis
    using scan_int_text [OF assms, of i] by (simp add: d starts_with_def)
qed

lemma json_space_gap: "\<forall>c\<in>set (line_gap ind lvl). json_space c"
  by (auto simp: line_gap_def json_space_def split: option.splits)

lemma skip_gap: "skip_ws (line_gap ind lvl @ s) = skip_ws s"
  using json_space_gap by (simp add: skip_ws_def dropWhile_append)

lemma skip_visible: "s \<noteq> [] \<Longrightarrow> \<not> json_space (hd s) \<Longrightarrow> skip_ws s = s"
  by (cases s) (auto simp: skip_ws_def)

lemma dumps_visible:
  "plain_json j \<Longrightarrow> dumps_at ind lvl j \<noteq> [] \<and> \<not> json_space (hd (dumps_at ind lvl j)) \<and> hd (dumps_at ind lvl j) \<noteq> CHR '']''"
proof (cases j)
  case (JInt i)
  obtain c cs where "int_text i = c # cs" "is_digit c \<or> c = CHR ''-''" using int_text_head by blast
  then show ?thesis by (auto simp: JInt is_digit_def json_space_def)
qed (auto simp: json_string_def json_space_def)

lemma delimited_sep: "delimited (item_sep ind lvl @ t)" "delimited (line_gap ind lvl @ CHR '']'' # t)"
  "delimited (line_gap ind lvl @ CHR ''}'' # t)"
  by (simp_all add: delimited_def item_sep_def line_gap_def is_digit_def split: option.splits)

lemma skip_sep: "skip_ws (item_sep ind lvl @ t) = CHR '','' # tl (item_sep ind lvl) @ t"
  "skip_ws (tl (item_sep ind lvl) @ t) = skip_ws t"
  using skip_gap [of ind lvl t]
  by (auto simp: item_sep_def skip_ws_def json_space_def line_gap_def split: option.splits)

lemma item_sep_length: "2 \<le> length (item_sep ind lvl)"
  by (simp add: item_sep_def line_gap_def split: option.splits)

lemma join_items_visible:
  assumes "\<forall>x\<in>set xs. plain_json x" and "xs \<noteq> []"
  shows "skip_ws (join_text sep (dumps_items ind lvl xs) @ t) = join_text sep (dumps_items ind lvl xs) @ t"
proof -
  obtain y ys where "xs = y # ys" using assms(2) by (cases xs) auto
  with assms(1) dumps_visible [of y ind lvl] show ?thesis
    by (intro skip_visible) (cases ys; simp)+
qed

lemma join_items_head:
  assumes "\<forall>x\<in>set xs. plain_json x" and "xs \<noteq> []"
  shows "\<exists>d ds. join_text sep (dumps_items ind lvl xs) @ t = d # ds \<and> d \<noteq> CHR '']''"
proof -
  obtain y ys where xs: "xs = y # ys" using assms(2) by (cases xs) auto
  then obtain d ds where "dumps_at ind lvl y = d # ds" "d \<noteq> CHR '']''"
    using dumps_visible [of y ind lvl] assms(1) by (cases "dumps_at ind lvl y") auto
  then show ?thesis by (cases ys) (simp_all add: xs)
qed

lemma join_members_head:
  "ms \<noteq> [] \<Longrightarrow> \<exists>u. join_text sep (dumps_members ind lvl ms) = QUOTE # u"
  by (induction ms rule: induct_list012) (auto simp: json_string_def)

text \<open>One item or member read, and what follows it.\<close>

lemma scan_items_last:
  "scan_value n (d @ line_gap ind lvl @ CHR '']'' # t) = Inr (x, line_gap ind lvl @ CHR '']'' # t) \<Longrightarrow>
     scan_items (Suc n) (d @ line_gap ind lvl @ CHR '']'' # t) = Inr ([x], t)"
  by (simp add: skip_gap skip_visible json_space_def)

lemma scan_items_more:
  assumes "scan_value n (d @ item_sep ind lvl @ u) = Inr (x, item_sep ind lvl @ u)"
    and "skip_ws u = u" and "scan_items n u = Inr (xs, t)"
  shows "scan_items (Suc n) (d @ item_sep ind lvl @ u) = Inr (x # xs, t)"
  using assms by (simp add: skip_sep(1,2))

lemma skip_colon: "skip_ws (CHR '':'' # s) = CHR '':'' # s"
  by (simp add: skip_ws_def json_space_def)

lemma skip_blank_visible: "d \<noteq> [] \<Longrightarrow> \<not> json_space (hd d) \<Longrightarrow> skip_ws (CHR '' '' # d @ s) = d @ s"
  using skip_visible [of "d @ s"] by (simp add: skip_ws_def json_space_def)

lemma skip_gap_brace: "skip_ws (line_gap ind lvl @ CHR ''}'' # t) = CHR ''}'' # t"
  unfolding skip_gap by (simp add: skip_ws_def json_space_def)

lemma skip_quote: "skip_ws (QUOTE # t) = QUOTE # t"
  by (simp add: skip_ws_def json_space_def)

lemma scan_members_last:
  assumes "scan_value n (d @ line_gap ind lvl @ CHR ''}'' # t) = Inr (v, line_gap ind lvl @ CHR ''}'' # t)"
    and "d \<noteq> []" "\<not> json_space (hd d)"
  shows "scan_members (Suc n) (concat (map json_escape k) @ QUOTE # CHR '':'' # CHR '' '' # d @ line_gap ind lvl @ CHR ''}'' # t) = Inr ([(k, v)], t)"
  unfolding scan_members.simps scan_escaped
  by (simp add: skip_colon skip_blank_visible [OF assms(2,3)] assms(1) skip_gap_brace)

lemma scan_members_more:
  assumes "scan_value n (d @ item_sep ind lvl @ QUOTE # u) = Inr (v, item_sep ind lvl @ QUOTE # u)"
    and "d \<noteq> []" "\<not> json_space (hd d)" and "scan_members n u = Inr (ms, t)"
  shows "scan_members (Suc n) (concat (map json_escape k) @ QUOTE # CHR '':'' # CHR '' '' # d @ item_sep ind lvl @ QUOTE # u) = Inr ((k, v) # ms, t)"
  unfolding scan_members.simps scan_escaped
  by (simp add: skip_colon skip_blank_visible [OF assms(2,3)] assms(1,4) skip_sep(1) skip_sep(2) skip_quote)

lemma scan_dumps:
  shows "plain_json j \<Longrightarrow> delimited t \<Longrightarrow> 2 * length (dumps_at ind lvl j) < n \<Longrightarrow>
      scan_value n (dumps_at ind lvl j @ t) = Inr (j, t)"
    and "\<forall>x\<in>set xs. plain_json x \<Longrightarrow> xs \<noteq> [] \<Longrightarrow> 2 * length (join_text (item_sep ind lvl) (dumps_items ind lvl xs)) + 1 < n \<Longrightarrow>
      scan_items n (join_text (item_sep ind lvl) (dumps_items ind lvl xs) @ line_gap ind lvl' @ CHR '']'' # t) = Inr (xs, t)"
    and "\<forall>m\<in>set ms. plain_json (snd m) \<Longrightarrow> ms \<noteq> [] \<Longrightarrow> 2 * length (join_text (item_sep ind lvl) (dumps_members ind lvl ms)) < n \<Longrightarrow>
      scan_members n (tl (join_text (item_sep ind lvl) (dumps_members ind lvl ms)) @ line_gap ind lvl' @ CHR ''}'' # t) = Inr (ms, t)"
proof (induction ind lvl j and ind lvl xs and ind lvl ms arbitrary: n t and n t lvl' and n t lvl'
    rule: dumps_at_dumps_items_dumps_members.induct)
  case (1 ind lvl)
  then obtain m where "n = Suc m" by (cases n) auto
  then show ?case by (simp add: starts_with_def)
next
  case (2 ind lvl b)
  then obtain m where "n = Suc m" by (cases n) auto
  then show ?case by (cases b) (simp_all add: starts_with_def)
next
  case (3 ind lvl i)
  then obtain m where "n = Suc m" by (cases n) auto
  with 3 show ?case by (simp add: scan_value_int del: scan_value.simps)
next
  case (5 ind lvl s)
  then obtain m where "n = Suc m" by (cases n) auto
  then show ?case by (simp add: scan_json_string del: scan_value.simps)
next
  case (6 ind lvl xs)
  then obtain m where n: "n = Suc m" by (cases n) auto
  show ?case
  proof (cases "xs = []")
    case True
    then show ?thesis by (simp add: n skip_ws_def json_space_def)
  next
    case False
    let ?body = "join_text (item_sep ind (Suc lvl)) (dumps_items ind (Suc lvl) xs)"
    let ?u = "?body @ line_gap ind lvl @ CHR '']'' # t"
    have xs: "\<forall>x\<in>set xs. plain_json x" using 6 by simp
    have skip: "skip_ws (line_gap ind (Suc lvl) @ ?u) = ?u"
      unfolding skip_gap by (rule join_items_visible [OF xs False])
    obtain d ds where d: "?u = d # ds" "d \<noteq> CHR '']''" using join_items_head [OF xs False] by force
    have "scan_items m ?u = Inr (xs, t)" using 6 False n by simp
    then have "scan_value n (CHR ''['' # line_gap ind (Suc lvl) @ ?u) = Inr (JList xs, t)"
      using skip d by (simp add: n)
    then show ?thesis using False by simp
  qed
next
  case (7 ind lvl ms)
  then obtain m where n: "n = Suc m" by (cases n) auto
  show ?case
  proof (cases "ms = []")
    case True
    then show ?thesis by (simp add: n skip_ws_def json_space_def)
  next
    case False
    let ?body = "join_text (item_sep ind (Suc lvl)) (dumps_members ind (Suc lvl) ms)"
    let ?v = "line_gap ind lvl @ CHR ''}'' # t"
    obtain u where u: "?body = QUOTE # u" using join_members_head [OF False] by blast
    have "skip_ws (line_gap ind (Suc lvl) @ ?body @ ?v) = QUOTE # u @ ?v"
      unfolding skip_gap u by (simp add: skip_ws_def json_space_def)
    moreover have "scan_members m (tl ?body @ ?v) = Inr (ms, t)" using 7 False n by simp
    ultimately have "scan_value n (CHR ''{'' # line_gap ind (Suc lvl) @ ?body @ ?v) = Inr (JObj ms, t)"
      using u by (simp add: n)
    then show ?thesis using False by simp
  qed
next
  case (9 ind lvl x xs)
  then obtain m where n: "n = Suc m" by (cases n) auto
  let ?d = "dumps_at ind lvl x"
  show ?case
  proof (cases "xs = []")
    case True
    have "scan_value m (?d @ line_gap ind lvl' @ CHR '']'' # t) = Inr (x, line_gap ind lvl' @ CHR '']'' # t)"
      using 9 n True by (intro "9.IH"(1)) (simp_all add: delimited_sep)
    from scan_items_last [OF this] show ?thesis using True n by simp
  next
    case False
    let ?u = "join_text (item_sep ind lvl) (dumps_items ind lvl xs) @ line_gap ind lvl' @ CHR '']'' # t"
    have join: "join_text (item_sep ind lvl) (dumps_items ind lvl (x # xs)) =
        ?d @ item_sep ind lvl @ join_text (item_sep ind lvl) (dumps_items ind lvl xs)"
      using False by (cases xs) simp_all
    have len: "2 * length ?d < m" "2 * length (join_text (item_sep ind lvl) (dumps_items ind lvl xs)) + 1 < m"
      using "9.prems"(3) item_sep_length [of ind lvl] unfolding join n by simp_all
    have "scan_value m (?d @ item_sep ind lvl @ ?u) = Inr (x, item_sep ind lvl @ ?u)"
      using "9.prems"(1) len(1) by (intro "9.IH"(1)) (simp_all add: delimited_sep)
    moreover have "skip_ws ?u = ?u" using 9 False by (intro join_items_visible) simp_all
    moreover have "scan_items m ?u = Inr (xs, t)"
      using "9.prems"(1) False len(2) by (intro "9.IH"(2)) simp_all
    ultimately show ?thesis unfolding join n append_assoc by (rule scan_items_more)
  qed
next
  case (11 ind lvl k v ms)
  then obtain m where n: "n = Suc m" by (cases n) auto
  let ?d = "dumps_at ind lvl v"
  have vis: "?d \<noteq> []" "\<not> json_space (hd ?d)" using dumps_visible [of v ind lvl] 11 by auto
  show ?case
  proof (cases "ms = []")
    case True
    have "scan_value m (?d @ line_gap ind lvl' @ CHR ''}'' # t) = Inr (v, line_gap ind lvl' @ CHR ''}'' # t)"
      using 11 n True by (intro "11.IH"(1)) (simp_all add: delimited_sep)
    from scan_members_last [OF this vis, of k] show ?thesis using True n by (simp add: json_string_def)
  next
    case False
    let ?body = "join_text (item_sep ind lvl) (dumps_members ind lvl ms)"
    obtain u where u: "?body = QUOTE # u" using join_members_head [OF False] by blast
    let ?u = "u @ line_gap ind lvl' @ CHR ''}'' # t"
    have join: "join_text (item_sep ind lvl) (dumps_members ind lvl ((k, v) # ms)) =
        QUOTE # concat (map json_escape k) @ QUOTE # CHR '':'' # CHR '' '' # ?d @ item_sep ind lvl @ QUOTE # u"
      using False u by (cases ms; cases "hd ms") (simp_all add: json_string_def)
    have len: "2 * length ?d < m" "2 * length ?body < m"
      using "11.prems"(3) unfolding join n u by simp_all
    have "scan_value m (?d @ item_sep ind lvl @ QUOTE # ?u) = Inr (v, item_sep ind lvl @ QUOTE # ?u)"
      using "11.prems"(1) len(1) by (intro "11.IH"(1)) (simp_all add: delimited_sep)
    moreover have "scan_members m (tl ?body @ line_gap ind lvl' @ CHR ''}'' # t) = Inr (ms, t)"
      using "11.prems"(1) False len(2) by (intro "11.IH"(2)) simp_all
    then have "scan_members m ?u = Inr (ms, t)" by (simp add: u)
    ultimately show ?thesis
      using scan_members_more [OF _ vis, of m ind lvl ?u v ms t k] unfolding join n by simp
  qed
qed simp_all

text \<open>Whatever was printed, compactly or indented, reads back as it was.\<close>

lemma loads_dumps_at: "plain_json j \<Longrightarrow> loads (dumps_at ind lvl j) = Inr j"
proof -
  assume j: "plain_json j"
  have "skip_ws (dumps_at ind lvl j) = dumps_at ind lvl j"
    using dumps_visible [OF j] by (intro skip_visible) auto
  moreover have "scan_value (2 * length (dumps_at ind lvl j) + 1) (dumps_at ind lvl j @ []) = Inr (j, [])"
    by (rule scan_dumps(1) [OF j]) (simp_all add: delimited_def)
  ultimately show ?thesis by (simp add: loads_def skip_ws_def del: scan_value.simps)
qed

text \<open>The bound on the scanner's recursion is never what stops it.\<close>

lemma loads_returns: "loads s \<noteq> Inl OutOfFuel"
proof -
  have "length (skip_ws s) \<le> length s" by (simp add: skip_ws_def length_dropWhile_le)
  then have "scan_value (2 * length s + 1) (skip_ws s) \<noteq> Inl OutOfFuel"
    using conjunct1 [OF scan_fuel_suffices [of "2 * length s + 1"], rule_format, of "skip_ws s"] by linarith
  then show ?thesis
    by (auto simp: loads_def simp del: scan_value.simps split: sum.splits prod.splits if_splits)
qed

subsection \<open>The characters of a printed text\<close>

definition printable :: "char \<Rightarrow> bool" where
  "printable c \<longleftrightarrow> 32 \<le> (of_char c :: nat) \<and> (of_char c :: nat) \<le> 126"

lemma is_hex_printable: "is_hex c \<Longrightarrow> printable c"
  by (auto simp: is_hex_def printable_def)

lemma escape_printable: "c \<in> set (json_escape d) \<Longrightarrow> printable c"
  using hex_digits_hex [THEN is_hex_printable]
  by (auto simp: json_escape_def printable_def not_less split: if_splits)

lemma json_string_printable: "c \<in> set (json_string s) \<Longrightarrow> printable c"
  using escape_printable by (auto simp: json_string_def printable_def)

lemma int_text_printable: "c \<in> set (int_text i) \<Longrightarrow> printable c"
  using decimal_digits [of "nat i"] decimal_digits [of "nat (- i)"]
  by (auto simp: int_text_def printable_def is_digit_def Let_def split: if_splits)

lemma gap_chars:
  "c \<in> set (line_gap ind lvl) \<Longrightarrow> printable c \<or> c = NL \<and> ind \<noteq> None"
  "c \<in> set (item_sep ind lvl) \<Longrightarrow> printable c \<or> c = NL \<and> ind \<noteq> None"
  by (auto simp: line_gap_def item_sep_def printable_def split: option.splits)

lemma dumps_chars:
  "plain_json j \<Longrightarrow> c \<in> set (dumps_at ind lvl j) \<Longrightarrow> printable c \<or> c = NL \<and> ind \<noteq> None"
  "\<forall>x\<in>set xs. plain_json x \<Longrightarrow> t \<in> set (dumps_items ind lvl xs) \<Longrightarrow> c \<in> set t \<Longrightarrow> printable c \<or> c = NL \<and> ind \<noteq> None"
  "\<forall>m\<in>set ms. plain_json (snd m) \<Longrightarrow> t \<in> set (dumps_members ind lvl ms) \<Longrightarrow> c \<in> set t \<Longrightarrow> printable c \<or> c = NL \<and> ind \<noteq> None"
proof (induction ind lvl j and ind lvl xs and ind lvl ms
    arbitrary: c and c t and c t rule: dumps_at_dumps_items_dumps_members.induct)
  case (6 ind lvl xs)
  have "printable c \<or> c = NL \<and> ind \<noteq> None" if "c \<in> set (join_text (item_sep ind (Suc lvl)) (dumps_items ind (Suc lvl) xs))"
    using subsetD [OF join_set that] 6 by (auto dest: gap_chars split: if_splits)
  then show ?case using "6.prems" by (auto dest: gap_chars split: if_splits) (auto simp: printable_def)
next
  case (7 ind lvl ms)
  have "printable c \<or> c = NL \<and> ind \<noteq> None" if "c \<in> set (join_text (item_sep ind (Suc lvl)) (dumps_members ind (Suc lvl) ms))"
    using subsetD [OF join_set that] 7 by (auto dest: gap_chars split: if_splits)
  then show ?case using "7.prems" by (auto dest: gap_chars split: if_splits) (auto simp: printable_def)
next
  case (11 ind lvl k v ms)
  have "printable CHR '':''" "printable CHR '' ''" by (simp_all add: printable_def)
  moreover have "c \<in> set (dumps_at ind lvl v) \<Longrightarrow> printable c \<or> c = NL \<and> ind \<noteq> None"
    using "11.IH"(1) "11.prems"(1) by simp
  moreover have "t \<in> set (dumps_members ind lvl ms) \<Longrightarrow> printable c \<or> c = NL \<and> ind \<noteq> None"
    using "11.IH"(2) "11.prems" by simp
  ultimately show ?case using "11.prems" json_string_printable [of c k] by (simp only: dumps_members.simps list.set set_append Un_iff insert_iff) auto
qed (auto dest!: int_text_printable json_string_printable split: if_splits, auto simp: printable_def)

lemma dumps_printable: "plain_json j \<Longrightarrow> c \<in> set (dumps_at None lvl j) \<Longrightarrow> printable c"
  using dumps_chars(1) [of j c None lvl] by simp

lemma dumps_newlines:
  assumes "plain_json j"
  shows "universal_newlines (dumps_at ind lvl j) = dumps_at ind lvl j"
proof (rule universal_newlines_id)
  show "CHR 0x0D \<notin> set (dumps_at ind lvl j)"
    using dumps_chars(1) [OF assms, of "CHR 0x0D" ind lvl] by (auto simp: printable_def)
qed

lemma printable_plain: "printable c \<Longrightarrow> \<not> line_break c \<and> c \<noteq> CHR 0x0D"
  by (auto simp: printable_def line_break_def)

end
