(* ===== verification/Agent_Client.thy ===== *)
theory Agent_Client
  imports Nebula_Prelude Json_Text
begin

text \<open>
  The control plane's client for one VPN agent (\<open>agent_client/client.py\<close>): how the outcome
  of an HTTP exchange becomes a typed answer or one of the client's errors. The transport
  (httpx) is a parameter: a function from path and payload to an outcome. So is the
  validation of an answer's body against its response model (pydantic).

  The callers decide what to do with a credential from the class of the error, so what
  matters is what each class implies about the agent: \<open>AgentUnreachable\<close> is only raised
  when nothing was sent, \<open>AgentRejected\<close> only for an answer of status 400 or more, and an
  outcome that leaves the question open is \<open>AgentResponseAmbiguous\<close>.
\<close>

text \<open>The exceptions of httpx the client tells apart, and an answer that was read.\<close>

datatype http_outcome =
    ConnectError string
  | ConnectTimeout string
  | PoolTimeout string
  | ReadTimeout string
  | WriteTimeout string
  | WriteError string
  | RemoteProtocolError string
  | RequestError string
  | Response int "json option"

datatype agent_error =
    AgentClientError string
  | AgentUnreachable string
  | AgentResponseAmbiguous string
  | AgentRejected int string
  | AgentResponseInvalid string

text \<open>The operations of the client, and the path each is posted to.\<close>

datatype agent_operation =
    OpProvisionDevice
  | OpRevokeDevice
  | OpEnableDevice
  | OpDisableDevice
  | OpHealth
  | OpReconcile
  | OpCollectUsage
  | OpProvisionXrayClient
  | OpRevokeXrayClient
  | OpReconcileXrayClient
  | OpPruneXrayClients
  | OpXrayHealth

fun agent_path :: "agent_operation \<Rightarrow> string" where
  "agent_path OpProvisionDevice = ''/v1/operations/provision-device''"
| "agent_path OpRevokeDevice = ''/v1/operations/revoke-device''"
| "agent_path OpEnableDevice = ''/v1/operations/enable-device''"
| "agent_path OpDisableDevice = ''/v1/operations/disable-device''"
| "agent_path OpHealth = ''/v1/operations/health''"
| "agent_path OpReconcile = ''/v1/operations/reconcile''"
| "agent_path OpCollectUsage = ''/v1/usage/collect''"
| "agent_path OpProvisionXrayClient = ''/v1/xray-operations/provision-client''"
| "agent_path OpRevokeXrayClient = ''/v1/xray-operations/revoke-client''"
| "agent_path OpReconcileXrayClient = ''/v1/xray-operations/reconcile-client''"
| "agent_path OpPruneXrayClients = ''/v1/xray-operations/prune-clients''"
| "agent_path OpXrayHealth = ''/v1/xray-operations/health''"

definition generic_detail :: string where
  "generic_detail = ''Request was not accepted''"

text \<open>A JSON object keeps the last value given for a key.\<close>

definition extract_detail :: "json option \<Rightarrow> string" where
  "extract_detail body =
     (case body of
        Some (JObj fields) \<Rightarrow>
          (case map_of (rev fields) ''detail'' of
             Some (JStr detail) \<Rightarrow> detail
           | _ \<Rightarrow> generic_detail)
      | _ \<Rightarrow> generic_detail)"

text \<open>
  \<open>_post\<close>. The client is absent outside its context manager; a present client is the
  transport itself.
\<close>

fun post_outcome :: "http_outcome \<Rightarrow> (agent_error, int \<times> json option) result" where
  "post_outcome (ConnectError e) = Inl (AgentUnreachable e)"
| "post_outcome (ConnectTimeout e) = Inl (AgentUnreachable e)"
| "post_outcome (PoolTimeout e) = Inl (AgentUnreachable e)"
| "post_outcome (ReadTimeout e) = Inl (AgentResponseAmbiguous e)"
| "post_outcome (WriteTimeout e) = Inl (AgentResponseAmbiguous e)"
| "post_outcome (WriteError e) = Inl (AgentResponseAmbiguous e)"
| "post_outcome (RemoteProtocolError e) = Inl (AgentResponseAmbiguous e)"
| "post_outcome (RequestError e) = Inl (AgentResponseAmbiguous e)"
| "post_outcome (Response status body) = Inr (status, body)"

definition agent_post ::
  "(string \<Rightarrow> json \<Rightarrow> 'w \<Rightarrow> http_outcome \<times> 'w) option \<Rightarrow> string \<Rightarrow> json \<Rightarrow> 'w \<Rightarrow>
   (agent_error, int \<times> json option) result \<times> 'w" where
  "agent_post client path payload w =
     (case client of
        None \<Rightarrow> (Inl (AgentClientError ''AgentClient must be used as an async context manager''), w)
      | Some post \<Rightarrow> (let (out, w') = post path payload w in (post_outcome out, w')))"

text \<open>
  \<open>_call\<close>. \<open>validate\<close> is the response model: it gives the typed answer or the message of the
  error it raises; a body that is not JSON raises while it is decoded.
\<close>

definition agent_call ::
  "(string \<Rightarrow> json \<Rightarrow> 'w \<Rightarrow> http_outcome \<times> 'w) option \<Rightarrow> (json \<Rightarrow> (string, 'r) result) \<Rightarrow>
   agent_operation \<Rightarrow> json \<Rightarrow> 'w \<Rightarrow> (agent_error, 'r) result \<times> 'w" where
  "agent_call client validate op payload w =
     (let (out, w') = agent_post client (agent_path op) payload w in
      (case out of
         Inl e \<Rightarrow> (Inl e, w')
       | Inr (status, body) \<Rightarrow>
           if status \<ge> 400 then (Inl (AgentRejected status (extract_detail body)), w')
           else (case body of
                   None \<Rightarrow> (Inl (AgentResponseInvalid ''not JSON''), w')
                 | Some doc \<Rightarrow>
                     (case validate doc of
                        Inl e \<Rightarrow> (Inl (AgentResponseInvalid e), w')
                      | Inr answer \<Rightarrow> (Inr answer, w')))))"

subsection \<open>What an outcome implies\<close>

fun never_sent :: "http_outcome \<Rightarrow> bool" where
  "never_sent (ConnectError _) = True"
| "never_sent (ConnectTimeout _) = True"
| "never_sent (PoolTimeout _) = True"
| "never_sent _ = False"

lemma post_outcome_unreachable: "post_outcome out = Inl (AgentUnreachable e) \<Longrightarrow> never_sent out"
  by (cases out) auto

lemma agent_path_inj: "agent_path a = agent_path b \<Longrightarrow> a = b"
  by (cases a; cases b; simp)

text \<open>
  The class of the error says what is known about the agent. The client answers with a
  value only for an answer below 400 whose body the response model accepts; it raises
  \<open>AgentUnreachable\<close> exactly when the request was never sent, \<open>AgentRejected\<close> exactly for an
  answer of 400 or more, with that status, \<open>AgentResponseInvalid\<close> exactly for an answer below
  400 with a body the model refuses, and \<open>AgentResponseAmbiguous\<close> in every other case.
\<close>

lemma agent_error_classes:
  assumes "post (agent_path op) payload w = (out, w')"
    and "r = fst (agent_call (Some post) validate op payload w)"
  shows "((\<exists>e. r = Inl (AgentUnreachable e)) \<longleftrightarrow> never_sent out) \<and>
    ((\<exists>d. r = Inl (AgentRejected s d)) \<longleftrightarrow> (\<exists>body. out = Response s body) \<and> 400 \<le> s) \<and>
    (r = Inr a \<longleftrightarrow> (\<exists>n doc. out = Response n (Some doc) \<and> n < 400 \<and> validate doc = Inr a)) \<and>
    ((\<exists>e. r = Inl (AgentResponseInvalid e)) \<longleftrightarrow>
       (\<exists>n body. out = Response n body \<and> n < 400 \<and>
          (body = None \<or> (\<exists>doc e. body = Some doc \<and> validate doc = Inl e)))) \<and>
    ((\<exists>e. r = Inl (AgentResponseAmbiguous e)) \<longleftrightarrow>
       \<not> never_sent out \<and> \<not> (\<exists>n body. out = Response n body))"
proof (cases out)
  case (Response n body)
  then show ?thesis
    using assms by (auto simp: agent_call_def agent_post_def split: option.splits sum.splits)
qed (use assms in \<open>auto simp: agent_call_def agent_post_def\<close>)

end
