(* ===== verification/Usage_Metering.thy ===== *)
theory Usage_Metering
  imports Usage_Ledger
begin

text \<open>
  What the totals of the usage ledger mean, stated against the bytes a server really
  served. One credential is followed on the one server that serves it. The server counts
  bytes since its process started; the control plane asks for readings, and readings may
  be recorded late, out of order, or twice. A process may restart on its own (its unread
  bytes are lost) or because the control plane asked for a change, which
  \<open>usage/counters.py\<close> brackets: read and record, change, read again and forget the
  counters that are gone.

  \<open>metered_reach\<close> is the set of reachable worlds. The client lemmas are proved once in the
  locale \<open>counter_ledger\<close>, from its laws alone: the total never exceeds what was served, and
  it is exact up to the last accepted reading as long as every restart was bracketed.
\<close>

text \<open>
  A moment of the server: the stamp it was asked at, the counters it reports, the bytes
  served over its whole life, and how many times its process has restarted.
\<close>

record reading_point =
  rp_stamp :: time
  rp_rx :: int
  rp_tx :: int
  rp_life_rx :: int
  rp_life_tx :: int
  rp_epoch :: nat

record 'l metered =
  mw_ledger :: 'l
  mw_now :: reading_point
  mw_inflight :: "reading_point list"
  mw_seen :: reading_point
  mw_lost :: bool

definition sample_of :: "usage_key \<Rightarrow> time \<Rightarrow> reading_point \<Rightarrow> usage_sample" where
  "sample_of k at p =
     \<lparr>us_protocol = fst k, us_identity = snd k, us_rx_bytes = rp_rx p, us_tx_bytes = rp_tx p,
      us_sampled_at = at, us_collected_at = rp_stamp p\<rparr>"

definition restarted :: "reading_point \<Rightarrow> reading_point" where
  "restarted p = p\<lparr>rp_rx := 0, rp_tx := 0, rp_epoch := Suc (rp_epoch p)\<rparr>"

definition served :: "int \<Rightarrow> int \<Rightarrow> reading_point \<Rightarrow> reading_point" where
  "served a b p = p\<lparr>rp_rx := rp_rx p + a, rp_tx := rp_tx p + b,
     rp_life_rx := rp_life_rx p + a, rp_life_tx := rp_life_tx p + b\<rparr>"

definition first_point :: "time \<Rightarrow> reading_point" where
  "first_point c = \<lparr>rp_stamp = c, rp_rx = 0, rp_tx = 0, rp_life_rx = 0, rp_life_tx = 0, rp_epoch = 0\<rparr>"

inductive metered_reach ::
  "(time \<Rightarrow> usage_sample list \<Rightarrow> 'l \<Rightarrow> (db_error, int) result \<times> 'l) \<Rightarrow>
   (time \<Rightarrow> usage_key list \<Rightarrow> time \<Rightarrow> 'l \<Rightarrow> (db_error, int) result \<times> 'l) \<Rightarrow>
   ('l \<Rightarrow> usage_key \<Rightarrow> meter) \<Rightarrow> ('l \<Rightarrow> usage_key \<Rightarrow> bool) \<Rightarrow> usage_key \<Rightarrow> 'l metered \<Rightarrow> bool"
  for rec fgt mt kn k
where
  start: "mt l k = empty_meter \<Longrightarrow>
    metered_reach rec fgt mt kn k
      \<lparr>mw_ledger = l, mw_now = first_point c, mw_inflight = [], mw_seen = first_point c,
       mw_lost = False\<rparr>"
| serve: "metered_reach rec fgt mt kn k w \<Longrightarrow> 0 \<le> a \<Longrightarrow> 0 \<le> b \<Longrightarrow>
    metered_reach rec fgt mt kn k (w\<lparr>mw_now := served a b (mw_now w)\<rparr>)"
| ask: "metered_reach rec fgt mt kn k w \<Longrightarrow> rp_stamp (mw_now w) < c \<Longrightarrow>
    p = (mw_now w)\<lparr>rp_stamp := c\<rparr> \<Longrightarrow>
    metered_reach rec fgt mt kn k (w\<lparr>mw_now := p, mw_inflight := p # mw_inflight w\<rparr>)"
| deliver: "metered_reach rec fgt mt kn k w \<Longrightarrow> p \<in> set (mw_inflight w) \<Longrightarrow>
    filter (\<lambda>s. us_key s = k) ss = [sample_of k at p] \<Longrightarrow>
    rec d ss (mw_ledger w) = (Inr n, l') \<Longrightarrow>
    metered_reach rec fgt mt kn k
      (w\<lparr>mw_ledger := l',
         mw_seen := (if older (rp_stamp p) (m_stamp (mt (mw_ledger w) k)) then mw_seen w else p)\<rparr>)"
| refused: "metered_reach rec fgt mt kn k w \<Longrightarrow> rec d ss (mw_ledger w) = (Inl e, l') \<Longrightarrow>
    metered_reach rec fgt mt kn k (w\<lparr>mw_ledger := l'\<rparr>)"
| others: "metered_reach rec fgt mt kn k w \<Longrightarrow> filter (\<lambda>s. us_key s = k) ss = [] \<Longrightarrow>
    rec d ss (mw_ledger w) = (Inr n, l') \<Longrightarrow>
    metered_reach rec fgt mt kn k (w\<lparr>mw_ledger := l'\<rparr>)"
| crash: "metered_reach rec fgt mt kn k w \<Longrightarrow>
    metered_reach rec fgt mt kn k (w\<lparr>mw_now := restarted (mw_now w), mw_lost := True\<rparr>)"
| bracket: "metered_reach rec fgt mt kn k w \<Longrightarrow>
    rp_stamp (mw_now w) < c1 \<Longrightarrow> c1 < c2 \<Longrightarrow>
    filter (\<lambda>s. us_key s = k) ss1 = [sample_of k at ((mw_now w)\<lparr>rp_stamp := c1\<rparr>)] \<Longrightarrow>
    rec d1 ss1 (mw_ledger w) = (Inr n1, l1) \<Longrightarrow>
    filter (\<lambda>s. us_key s = k) ss2 = [] \<Longrightarrow>
    rec d2 ss2 l1 = (Inr n2, l2) \<Longrightarrow>
    k \<in> set gone \<Longrightarrow>
    fgt d3 gone c2 l2 = (Inr n3, l3) \<Longrightarrow>
    p = (restarted (mw_now w))\<lparr>rp_stamp := c2\<rparr> \<Longrightarrow>
    metered_reach rec fgt mt kn k (w\<lparr>mw_ledger := l3, mw_now := p, mw_seen := p\<rparr>)"

text \<open>How two moments of the same server compare, the first asked no later than the second.\<close>

definition follows :: "reading_point \<Rightarrow> reading_point \<Rightarrow> bool" where
  "follows p q \<longleftrightarrow>
     0 \<le> rp_rx p \<and> 0 \<le> rp_tx p \<and> 0 \<le> rp_rx q \<and> 0 \<le> rp_tx q \<and>
     rp_life_rx p \<le> rp_life_rx q \<and> rp_life_tx p \<le> rp_life_tx q \<and> rp_epoch p \<le> rp_epoch q \<and>
     (rp_epoch p = rp_epoch q \<longrightarrow>
        rp_life_rx q - rp_life_rx p = rp_rx q - rp_rx p \<and>
        rp_life_tx q - rp_life_tx p = rp_tx q - rp_tx p) \<and>
     (rp_epoch p < rp_epoch q \<longrightarrow>
        rp_rx q \<le> rp_life_rx q - rp_life_rx p \<and> rp_tx q \<le> rp_life_tx q - rp_life_tx p)"

definition points :: "'l metered \<Rightarrow> reading_point set" where
  "points w = insert (mw_seen w) (set (mw_inflight w))"

definition metered_inv :: "('l \<Rightarrow> usage_key \<Rightarrow> meter) \<Rightarrow> usage_key \<Rightarrow> 'l metered \<Rightarrow> bool" where
  "metered_inv mt k w \<longleftrightarrow>
     (let m = mt (mw_ledger w) k; s = mw_seen w in
       m_rx_last m = rp_rx s \<and> m_tx_last m = rp_tx s \<and>
       (m_stamp m = Some (rp_stamp s) \<or>
        m_stamp m = None \<and> (\<forall>p\<in>set (mw_inflight w). rp_stamp s \<le> rp_stamp p)) \<and>
       m_rx_total m \<le> rp_life_rx s \<and> m_tx_total m \<le> rp_life_tx s \<and>
       (\<not> mw_lost w \<longrightarrow> m_rx_total m = rp_life_rx s \<and> m_tx_total m = rp_life_tx s
                       \<and> rp_epoch s = rp_epoch (mw_now w))) \<and>
     (\<forall>p\<in>points w. follows p (mw_now w) \<and> rp_stamp p \<le> rp_stamp (mw_now w)) \<and>
     (\<forall>p\<in>points w. \<forall>q\<in>points w. rp_stamp p \<le> rp_stamp q \<longrightarrow> follows p q)"

lemma follows_refl: "follows p q \<Longrightarrow> follows p p"
  by (simp add: follows_def)

lemma follows_stamp [simp]:
  "follows p (q\<lparr>rp_stamp := c\<rparr>) \<longleftrightarrow> follows p q"
  "follows (p\<lparr>rp_stamp := c\<rparr>) q \<longleftrightarrow> follows p q"
  by (simp_all add: follows_def)

lemma follows_served: "follows p q \<Longrightarrow> 0 \<le> a \<Longrightarrow> 0 \<le> b \<Longrightarrow> follows p (served a b q)"
  by (auto simp: follows_def served_def)

lemma follows_restarted: "follows p q \<Longrightarrow> follows p (restarted q)"
  by (auto simp: follows_def restarted_def)

text \<open>What one accepted reading adds is bounded by what was served since the last one.\<close>

lemma follows_delta:
  assumes "follows p q"
  shows "delta (rp_rx q) (rp_rx p) \<le> rp_life_rx q - rp_life_rx p"
    and "delta (rp_tx q) (rp_tx p) \<le> rp_life_tx q - rp_life_tx p"
  using assms by (auto simp: follows_def delta_def)

lemma follows_delta_exact:
  assumes "follows p q" and "rp_epoch p = rp_epoch q"
  shows "delta (rp_rx q) (rp_rx p) = rp_life_rx q - rp_life_rx p"
    and "delta (rp_tx q) (rp_tx p) = rp_life_tx q - rp_life_tx p"
  using assms by (auto simp: follows_def delta_def)

subsection \<open>Each step keeps the invariant\<close>

lemma meter_step_sample [simp]:
  "meter_step (sample_of k at p) m =
     (if older (rp_stamp p) (m_stamp m) then m
      else \<lparr>m_rx_total = m_rx_total m + delta (rp_rx p) (m_rx_last m),
            m_tx_total = m_tx_total m + delta (rp_tx p) (m_tx_last m),
            m_rx_last = rp_rx p, m_tx_last = rp_tx p, m_stamp = Some (rp_stamp p)\<rparr>)"
  by (simp add: meter_step_def sample_of_def)

lemma metered_inv_start:
  "mt l k = empty_meter \<Longrightarrow>
   metered_inv mt k \<lparr>mw_ledger = l, mw_now = first_point c, mw_inflight = [],
     mw_seen = first_point c, mw_lost = False\<rparr>"
  by (simp add: metered_inv_def empty_meter_def first_point_def points_def follows_def)

lemma metered_inv_ledger:
  assumes "metered_inv mt k w" and "mt l' k = mt (mw_ledger w) k"
  shows "metered_inv mt k (w\<lparr>mw_ledger := l'\<rparr>)"
  using assms by (simp add: metered_inv_def points_def Let_def)

lemma metered_inv_serve:
  assumes "metered_inv mt k w" and "0 \<le> a" and "0 \<le> b"
  shows "metered_inv mt k (w\<lparr>mw_now := served a b (mw_now w)\<rparr>)"
  using assms
  by (auto simp: metered_inv_def points_def Let_def follows_served) (auto simp: served_def)

lemma metered_inv_crash:
  assumes "metered_inv mt k w"
  shows "metered_inv mt k (w\<lparr>mw_now := restarted (mw_now w), mw_lost := True\<rparr>)"
  using assms
  by (auto simp: metered_inv_def points_def Let_def follows_restarted) (auto simp: restarted_def)

lemma metered_inv_ask:
  assumes inv: "metered_inv mt k w" and later: "rp_stamp (mw_now w) < c"
    and p: "p = (mw_now w)\<lparr>rp_stamp := c\<rparr>"
  shows "metered_inv mt k (w\<lparr>mw_now := p, mw_inflight := p # mw_inflight w\<rparr>)"
proof -
  from inv have now: "\<And>q. q \<in> points w \<Longrightarrow> follows q (mw_now w) \<and> rp_stamp q \<le> rp_stamp (mw_now w)"
    and pairs: "\<And>q r. q \<in> points w \<Longrightarrow> r \<in> points w \<Longrightarrow> rp_stamp q \<le> rp_stamp r \<Longrightarrow> follows q r"
    by (auto simp: metered_inv_def)
  have self: "follows p p"
    using now [of "mw_seen w"] by (simp add: p points_def follows_def)
  have pts: "points (w\<lparr>mw_now := p, mw_inflight := p # mw_inflight w\<rparr>) = insert p (points w)"
    by (auto simp: points_def)
  have "rp_stamp (mw_seen w) \<le> c"
    using now [of "mw_seen w"] later by (simp add: points_def)
  moreover have "\<And>q. q \<in> points w \<Longrightarrow> follows q p \<and> rp_stamp q \<le> rp_stamp p \<and> \<not> rp_stamp p \<le> rp_stamp q"
    using now later by (fastforce simp: p)
  ultimately show ?thesis
    using inv self pairs unfolding metered_inv_def pts
    by (auto simp: Let_def p dest: leD)
qed

lemma metered_inv_accept:
  assumes inv: "metered_inv mt k w" and q: "q \<in> set (mw_inflight w)"
    and step: "mt l' k = meter_step (sample_of k at q) (mt (mw_ledger w) k)"
  shows "metered_inv mt k
    (w\<lparr>mw_ledger := l',
       mw_seen := (if older (rp_stamp q) (m_stamp (mt (mw_ledger w) k)) then mw_seen w else q)\<rparr>)"
proof (cases "older (rp_stamp q) (m_stamp (mt (mw_ledger w) k))")
  case True
  with metered_inv_ledger [OF inv, of l'] step show ?thesis by simp
next
  case False
  let ?m = "mt (mw_ledger w) k"
  from inv q False have le: "rp_stamp (mw_seen w) \<le> rp_stamp q"
    by (auto simp: metered_inv_def Let_def older_def)
  with inv q have fol: "follows (mw_seen w) q"
    by (auto simp: metered_inv_def points_def)
  from inv q have qnow: "follows q (mw_now w)" by (auto simp: metered_inv_def points_def)
  have epoch: "rp_epoch (mw_seen w) = rp_epoch q \<and> rp_epoch q = rp_epoch (mw_now w)"
    if "\<not> mw_lost w"
    using inv fol qnow that by (auto simp: metered_inv_def Let_def follows_def)
  have last: "m_rx_last ?m = rp_rx (mw_seen w)" "m_tx_last ?m = rp_tx (mw_seen w)"
    using inv by (auto simp: metered_inv_def Let_def)
  show ?thesis
    using inv q False step follows_delta [OF fol] follows_delta_exact [OF fol] epoch last
    by (auto simp: metered_inv_def points_def Let_def)
qed

lemma metered_inv_bracket:
  assumes inv: "metered_inv mt k w"
    and clock: "rp_stamp (mw_now w) < c1" "c1 < c2"
    and m1: "mt l1 k = meter_step (sample_of k at ((mw_now w)\<lparr>rp_stamp := c1\<rparr>)) (mt (mw_ledger w) k)"
    and m2: "mt l3 k = meter_forget c2 (mt l1 k)"
    and p: "p = (restarted (mw_now w))\<lparr>rp_stamp := c2\<rparr>"
  shows "metered_inv mt k (w\<lparr>mw_ledger := l3, mw_now := p, mw_seen := p\<rparr>)"
proof -
  let ?q = "(mw_now w)\<lparr>rp_stamp := c1\<rparr>"
  let ?w1 = "w\<lparr>mw_now := ?q, mw_inflight := ?q # mw_inflight w\<rparr>"
  have inv1: "metered_inv mt k ?w1"
    using inv clock(1) by (intro metered_inv_ask) auto
  have fresh: "\<not> older c1 (m_stamp (mt (mw_ledger w) k))"
    using inv clock(1) by (auto simp: metered_inv_def Let_def older_def points_def)
  have inv2: "metered_inv mt k (?w1\<lparr>mw_ledger := l1, mw_seen := ?q\<rparr>)"
    using metered_inv_accept [OF inv1, of ?q l1 at] m1 fresh by simp
  have pnow: "follows q p \<and> rp_stamp q \<le> c2 \<and> \<not> c2 \<le> rp_stamp q" if "q \<in> insert ?q (set (mw_inflight w))" for q
  proof -
    from inv2 that have "follows q ?q \<and> rp_stamp q \<le> c1"
      by (auto simp: metered_inv_def points_def)
    then show ?thesis using clock(2) by (auto simp: p intro: follows_restarted)
  qed
  have self: "follows p p"
    using pnow [of ?q] by (auto simp: follows_def p restarted_def)
  have tot: "m_rx_total (mt l1 k) \<le> rp_life_rx (mw_now w)" "m_tx_total (mt l1 k) \<le> rp_life_tx (mw_now w)"
    and exact: "\<not> mw_lost w \<Longrightarrow> m_rx_total (mt l1 k) = rp_life_rx (mw_now w) \<and>
      m_tx_total (mt l1 k) = rp_life_tx (mw_now w)"
    and stamp: "m_stamp (mt l1 k) = Some c1"
    using inv2 fresh m1 by (auto simp: metered_inv_def Let_def)
  have m3: "mt l3 k = (mt l1 k)\<lparr>m_rx_last := 0, m_tx_last := 0, m_stamp := Some c2\<rparr>"
    using m2 stamp clock(2) by (simp add: meter_forget_def older_def)
  have pairs: "\<And>q r. q \<in> set (mw_inflight w) \<Longrightarrow> r \<in> set (mw_inflight w) \<Longrightarrow>
      rp_stamp q \<le> rp_stamp r \<Longrightarrow> follows q r"
    using inv by (auto simp: metered_inv_def points_def)
  show ?thesis
    using tot exact m3 pnow self pairs
    by (auto simp: metered_inv_def points_def Let_def p restarted_def dest: leD)
qed

context counter_ledger
begin

text \<open>The client of the interface: every reachable world keeps the invariant.\<close>

lemma metered_reach_inv:
  "metered_reach record_samples forget meter_of known k w \<Longrightarrow> metered_inv meter_of k w"
proof (induction rule: metered_reach.induct)
  case (start l c)
  then show ?case by (rule metered_inv_start)
next
  case (serve w a b)
  then show ?case by (intro metered_inv_serve)
next
  case (ask w c p)
  then show ?case by (intro metered_inv_ask)
next
  case (deliver w p ss at d n l')
  from record_meter [OF deliver.hyps(4), of k] deliver.hyps(3)
  have "meter_of l' k = meter_step (sample_of k at p) (meter_of (mw_ledger w) k)"
    by (simp del: meter_step_sample)
  with deliver.IH deliver.hyps(2) show ?case by (intro metered_inv_accept)
next
  case (refused w d ss e l')
  from record_refused [OF refused.hyps(2)] refused.IH show ?case
    by (intro metered_inv_ledger) auto
next
  case (others w ss d n l')
  from record_meter [OF others.hyps(3), of k] others.hyps(2) others.IH show ?case
    by (intro metered_inv_ledger) auto
next
  case (crash w)
  then show ?case by (intro metered_inv_crash)
next
  case (bracket w c1 c2 ss1 at d1 n1 l1 ss2 d2 n2 l2 gone d3 n3 l3 p)
  let ?s = "sample_of k at ((mw_now w)\<lparr>rp_stamp := c1\<rparr>)"
  have m1: "meter_of l1 k = meter_step ?s (meter_of (mw_ledger w) k)"
    using record_meter [OF bracket.hyps(5), of k] bracket.hyps(4) by (simp del: meter_step_sample)
  have "us_key ?s = k" by (simp add: us_key_def sample_of_def)
  moreover have "?s \<in> set (filter (\<lambda>s. us_key s = k) ss1)"
    by (subst bracket.hyps(4)) simp
  then have "?s \<in> set ss1" by simp
  ultimately have "known l1 k"
    using record_known [OF bracket.hyps(5), of k] by (metis imageI)
  then have kn: "known l2 k" using record_known [OF bracket.hyps(7), of k] by simp
  have "meter_of l2 k = meter_of l1 k"
    using record_meter [OF bracket.hyps(7), of k] bracket.hyps(6) by simp
  with forget_meter [OF bracket.hyps(9), of k] kn bracket.hyps(8)
  have m2: "meter_of l3 k = meter_forget c2 (meter_of l1 k)" by simp
  from metered_inv_bracket [OF bracket.IH bracket.hyps(2,3) m1 m2 bracket.hyps(10)]
  show ?case .
qed

end

subsection \<open>What the recorded totals mean\<close>

text \<open>A short history for the witnesses: traffic, a poll, more traffic, a bracketed restart.\<close>

definition demo_key :: usage_key where
  "demo_key = (''xray'', ''a'')"

definition demo_now :: reading_point where
  "demo_now = \<lparr>rp_stamp = 3, rp_rx = 0, rp_tx = 0, rp_life_rx = 105, rp_life_tx = 42, rp_epoch = 1\<rparr>"

definition demo_point :: reading_point where
  "demo_point = \<lparr>rp_stamp = 1, rp_rx = 100, rp_tx = 40, rp_life_rx = 100, rp_life_tx = 40, rp_epoch = 0\<rparr>"

definition demo_point2 :: reading_point where
  "demo_point2 = \<lparr>rp_stamp = 2, rp_rx = 105, rp_tx = 42, rp_life_rx = 105, rp_life_tx = 42, rp_epoch = 0\<rparr>"

definition demo_table1 :: usage_table where
  "demo_table1 = snd (ledger_record 0 [sample_of demo_key 0 demo_point] [])"

definition demo_table2 :: usage_table where
  "demo_table2 = snd (ledger_record 0 [sample_of demo_key 0 demo_point2] demo_table1)"

definition demo_table3 :: usage_table where
  "demo_table3 = snd (forget_readings 0 [demo_key] 3 demo_table2)"

definition demo_world :: "usage_table metered" where
  "demo_world = \<lparr>mw_ledger = demo_table3, mw_now = demo_now, mw_inflight = [demo_point],
     mw_seen = demo_now, mw_lost = False\<rparr>"

lemma demo_records:
  "ledger_record 0 [sample_of demo_key 0 demo_point] [] = (Inr 1, demo_table1)"
  "ledger_record 0 [sample_of demo_key 0 demo_point2] demo_table1 = (Inr 1, demo_table2)"
  "ledger_record 0 [] demo_table2 = (Inr 0, demo_table2)"
  "forget_readings 0 [demo_key] 3 demo_table2 = (Inr 1, demo_table3)"
  by code_simp+

definition demo_running :: "usage_table metered" where
  "demo_running = \<lparr>mw_ledger = demo_table1, mw_now = served 5 2 demo_point,
     mw_inflight = [demo_point], mw_seen = demo_point, mw_lost = False\<rparr>"

lemma demo_running_reach:
  "metered_reach ledger_record forget_readings usage_meter usage_known demo_key demo_running"
proof -
  let ?R = "metered_reach ledger_record forget_readings usage_meter usage_known demo_key"
  have r0: "?R \<lparr>mw_ledger = [], mw_now = first_point 0, mw_inflight = [], mw_seen = first_point 0,
       mw_lost = False\<rparr>"
    by (rule metered_reach.start) (simp add: usage_meter_def usage_at_def)
  from metered_reach.serve [OF r0, of 100 40]
  have r1: "?R \<lparr>mw_ledger = [], mw_now = served 100 40 (first_point 0), mw_inflight = [],
       mw_seen = first_point 0, mw_lost = False\<rparr>" by simp
  from metered_reach.ask [OF r1, of 1 demo_point]
  have r2: "?R \<lparr>mw_ledger = [], mw_now = demo_point, mw_inflight = [demo_point],
       mw_seen = first_point 0, mw_lost = False\<rparr>"
    by (simp add: served_def first_point_def demo_point_def)
  from metered_reach.deliver [OF r2, of demo_point "[sample_of demo_key 0 demo_point]" 0 0 1 demo_table1]
  have r3: "?R \<lparr>mw_ledger = demo_table1, mw_now = demo_point, mw_inflight = [demo_point],
       mw_seen = demo_point, mw_lost = False\<rparr>"
    by (simp add: demo_records sample_of_def us_key_def usage_meter_def usage_at_def
        empty_meter_def older_def) (simp add: demo_records(1) [unfolded sample_of_def])
  from metered_reach.serve [OF r3, of 5 2] show ?thesis by (simp add: demo_running_def)
qed

lemma demo_running_now: "(mw_now demo_running)\<lparr>rp_stamp := 2\<rparr> = demo_point2"
  by (simp add: demo_running_def served_def demo_point_def demo_point2_def)

lemma demo_running_ledger [simp]: "mw_ledger demo_running = demo_table1"
  by (simp add: demo_running_def)

lemma demo_reach:
  "metered_reach ledger_record forget_readings usage_meter usage_known demo_key demo_world"
proof -
  have "demo_world = demo_running\<lparr>mw_ledger := demo_table3, mw_now := demo_now, mw_seen := demo_now\<rparr>"
    by (simp add: demo_world_def demo_running_def)
  moreover have "demo_now = (restarted (mw_now demo_running))\<lparr>rp_stamp := 3\<rparr>"
    by (simp add: demo_running_def served_def demo_point_def demo_now_def restarted_def)
  moreover have "rp_stamp (mw_now demo_running) = 1"
    by (simp add: demo_running_def served_def demo_point_def)
  ultimately show ?thesis
    using metered_reach.bracket [OF demo_running_reach, of 2 3 "[sample_of demo_key 0 demo_point2]" 0 0 1
        demo_table2 "[]" 0 0 demo_table2 "[demo_key]" 0 1 demo_table3 demo_now] demo_records
    by (simp add: demo_running_now) (simp add: sample_of_def us_key_def)
qed





end
