(* ===== verification/Usage_Counters.thy ===== *)
theory Usage_Counters
  imports Usage_Metering Agent_Client
begin

text \<open>
  Keeping a server's counters across a change that resets them (\<open>usage/counters.py\<close>).

  The agent, the network and the clocks are one world of type \<open>'w\<close> that every call is
  handed and returns: \<open>read\<close> asks the agent for its counters, \<open>change\<close> is the call being
  bracketed, \<open>sleep\<close> waits and \<open>dbnow\<close> is the database's clock. The ledger is the interface
  \<open>counter_ledger\<close>: two operations on a state of type \<open>'l\<close>.

  The lemmas show that the bracket never changes what the change does or answers, however
  the reads and writes around it fail, and that a bracket whose reads and writes succeed is
  the step \<open>bracket\<close> of the metered worlds, the one that loses no traffic.
\<close>

subsection \<open>Reading\<close>

text \<open>
  What a call may raise: one of the client's errors, an \<open>OSError\<close> (a missing certificate
  file), or anything else, which nothing here catches.
\<close>

datatype call_error = AgentFailure agent_error | OSError | Uncaught

record usage_sample_item =
  si_protocol :: string
  si_identity :: string
  si_rx_bytes :: int
  si_tx_bytes :: int
  si_sampled_at :: time

record collect_usage_response =
  cur_samples :: "usage_sample_item list"
  cur_sources_read :: "string list"
  cur_sources_failed :: "string list"

record counter_reading =
  cr_samples :: "usage_sample list"
  cr_sources_read :: "string set"
  cr_sources_failed :: "string list"
  cr_collected_at :: time

definition stamped_sample :: "time \<Rightarrow> usage_sample_item \<Rightarrow> usage_sample" where
  "stamped_sample collected_at s =
     \<lparr>us_protocol = si_protocol s, us_identity = si_identity s, us_rx_bytes = si_rx_bytes s,
      us_tx_bytes = si_tx_bytes s, us_sampled_at = si_sampled_at s,
      us_collected_at = collected_at\<rparr>"

definition read_counters ::
  "('w \<Rightarrow> (call_error, collect_usage_response) result \<times> 'w) \<Rightarrow> ('w \<Rightarrow> time) \<Rightarrow> 'w \<Rightarrow>
   (call_error, counter_reading) result \<times> 'w" where
  "read_counters collect_usage clock w =
     (let collected_at = clock w; (out, w') = collect_usage w in
      (case out of
         Inl e \<Rightarrow> (Inl e, w')
       | Inr response \<Rightarrow>
           (Inr \<lparr>cr_samples = map (stamped_sample collected_at) (cur_samples response),
                 cr_sources_read = set (cur_sources_read response),
                 cr_sources_failed = cur_sources_failed response,
                 cr_collected_at = collected_at\<rparr>, w')))"

text \<open>\<open>_read\<close>: a failure of the agent or the system is a missing reading.\<close>

definition safe_read ::
  "('w \<Rightarrow> (call_error, counter_reading) result \<times> 'w) \<Rightarrow> 'w \<Rightarrow>
   (call_error, counter_reading option) result \<times> 'w" where
  "safe_read read w =
     (case read w of
        (Inr r, w') \<Rightarrow> (Inr (Some r), w')
      | (Inl (AgentFailure _), w') \<Rightarrow> (Inr None, w')
      | (Inl OSError, w') \<Rightarrow> (Inr None, w')
      | (Inl Uncaught, w') \<Rightarrow> (Inl Uncaught, w'))"

text \<open>\<open>_write\<close>: a write the database refuses is logged and left.\<close>

definition safe_write :: "(db_error, int) result \<times> 'l \<Rightarrow> 'l" where
  "safe_write write = snd write"

subsection \<open>The bracket\<close>

definition AFTER_CHANGE_READ_ATTEMPTS :: nat where
  "AFTER_CHANGE_READ_ATTEMPTS = 6"

text \<open>
  The loop of \<open>_after_change\<close>. The counter is the number of attempts left, so the loop ends
  by recursion on it.
\<close>

fun after_reads ::
  "nat \<Rightarrow> ('w \<Rightarrow> (call_error, counter_reading) result \<times> 'w) \<Rightarrow> ('w \<Rightarrow> 'w) \<Rightarrow> counter_reading \<Rightarrow>
   counter_reading option \<Rightarrow> 'w \<Rightarrow> (call_error, counter_reading option) result \<times> 'w" where
  "after_reads 0 read sleep before after w = (Inr after, w)"
| "after_reads (Suc left) read sleep before after w =
     (case after of
        None \<Rightarrow> (Inr None, w)
      | Some a \<Rightarrow>
          if cr_sources_read before \<subseteq> cr_sources_read a then (Inr after, w)
          else (case safe_read read (sleep w) of
                  (Inl e, w') \<Rightarrow> (Inl e, w')
                | (Inr after', w') \<Rightarrow> after_reads left read sleep before after' w'))"

definition gone_counters :: "counter_reading \<Rightarrow> counter_reading \<Rightarrow> usage_key list" where
  "gone_counters before after =
     map us_key (filter (\<lambda>s. us_protocol s \<in> cr_sources_read after \<and>
                             us_key s \<notin> us_key ` set (cr_samples after)) (cr_samples before))"

definition after_change ::
  "(time \<Rightarrow> usage_sample list \<Rightarrow> 'l \<Rightarrow> (db_error, int) result \<times> 'l) \<Rightarrow>
   (time \<Rightarrow> usage_key list \<Rightarrow> time \<Rightarrow> 'l \<Rightarrow> (db_error, int) result \<times> 'l) \<Rightarrow>
   ('w \<Rightarrow> (call_error, counter_reading) result \<times> 'w) \<Rightarrow> ('w \<Rightarrow> 'w) \<Rightarrow> ('w \<Rightarrow> time) \<Rightarrow>
   counter_reading \<Rightarrow> 'w \<Rightarrow> 'l \<Rightarrow> (call_error, unit) result \<times> 'w \<times> 'l" where
  "after_change rec fgt read sleep dbnow before w l =
     (case safe_read read w of
        (Inl e, w1) \<Rightarrow> (Inl e, w1, l)
      | (Inr after0, w1) \<Rightarrow>
          (case after_reads (AFTER_CHANGE_READ_ATTEMPTS - 1) read sleep before after0 w1 of
             (Inl e, w2) \<Rightarrow> (Inl e, w2, l)
           | (Inr None, w2) \<Rightarrow> (Inr (), w2, l)
           | (Inr (Some after), w2) \<Rightarrow>
               let gone = gone_counters before after;
                   l1 = safe_write (rec (dbnow w2) (cr_samples after) l);
                   l2 = safe_write (fgt (dbnow w2) gone (cr_collected_at after) l1)
               in (Inr (), w2, l2)))"

definition keep_counters_across ::
  "(time \<Rightarrow> usage_sample list \<Rightarrow> 'l \<Rightarrow> (db_error, int) result \<times> 'l) \<Rightarrow>
   (time \<Rightarrow> usage_key list \<Rightarrow> time \<Rightarrow> 'l \<Rightarrow> (db_error, int) result \<times> 'l) \<Rightarrow>
   ('w \<Rightarrow> (call_error, counter_reading) result \<times> 'w) \<Rightarrow> ('w \<Rightarrow> 'w) \<Rightarrow> ('w \<Rightarrow> time) \<Rightarrow>
   ('w \<Rightarrow> (call_error, 'r) result \<times> 'w) \<Rightarrow> 'w \<Rightarrow> 'l \<Rightarrow> (call_error, 'r) result \<times> 'w \<times> 'l" where
  "keep_counters_across rec fgt read sleep dbnow change w l =
     (case safe_read read w of
        (Inl e, w1) \<Rightarrow> (Inl e, w1, l)
      | (Inr before, w1) \<Rightarrow>
          let l1 = (case before of None \<Rightarrow> l
                    | Some b \<Rightarrow> safe_write (rec (dbnow w1) (cr_samples b) l));
              (out, w2) = change w1;
              skip_after = (case out of
                              Inl (AgentFailure (AgentUnreachable _)) \<Rightarrow> True
                            | Inl (AgentFailure _) \<Rightarrow> False
                            | Inl _ \<Rightarrow> True
                            | Inr _ \<Rightarrow> False)
          in (case before of
                None \<Rightarrow> (out, w2, l1)
              | Some b \<Rightarrow>
                  if skip_after then (out, w2, l1)
                  else (case after_change rec fgt read sleep dbnow b w2 l1 of
                          (Inl e, w3, l2) \<Rightarrow> (Inl e, w3, l2)
                        | (Inr _, w3, l2) \<Rightarrow> (out, w3, l2))))"

text \<open>Which operations of \<open>CounterKeepingAgentClient\<close> are bracketed.\<close>

fun changes_server :: "agent_operation \<Rightarrow> bool" where
  "changes_server OpProvisionDevice = True"
| "changes_server OpRevokeDevice = True"
| "changes_server OpEnableDevice = True"
| "changes_server OpDisableDevice = True"
| "changes_server OpProvisionXrayClient = True"
| "changes_server OpRevokeXrayClient = True"
| "changes_server OpPruneXrayClients = True"
| "changes_server _ = False"

definition keeping_call ::
  "(time \<Rightarrow> usage_sample list \<Rightarrow> 'l \<Rightarrow> (db_error, int) result \<times> 'l) \<Rightarrow>
   (time \<Rightarrow> usage_key list \<Rightarrow> time \<Rightarrow> 'l \<Rightarrow> (db_error, int) result \<times> 'l) \<Rightarrow>
   ('w \<Rightarrow> (call_error, collect_usage_response) result \<times> 'w) \<Rightarrow> ('w \<Rightarrow> time) \<Rightarrow> ('w \<Rightarrow> 'w) \<Rightarrow>
   ('w \<Rightarrow> time) \<Rightarrow> (agent_operation \<Rightarrow> 'q \<Rightarrow> 'w \<Rightarrow> (call_error, 'r) result \<times> 'w) \<Rightarrow>
   agent_operation \<Rightarrow> 'q \<Rightarrow> 'w \<Rightarrow> 'l \<Rightarrow> (call_error, 'r) result \<times> 'w \<times> 'l" where
  "keeping_call rec fgt collect clock sleep dbnow call op request w l =
     (if changes_server op
      then keep_counters_across rec fgt (read_counters collect clock) sleep dbnow (call op request) w l
      else (let (out, w') = call op request w in (out, w', l)))"

subsection \<open>The bracket does not disturb the change\<close>

definition read_tame :: "('w \<Rightarrow> (call_error, counter_reading) result \<times> 'w) \<Rightarrow> bool" where
  "read_tame read \<longleftrightarrow> (\<forall>w. fst (read w) \<noteq> Inl Uncaught)"

lemma safe_read_tame: "read_tame read \<Longrightarrow> \<exists>r. safe_read read w = (Inr r, snd (read w))"
  unfolding read_tame_def safe_read_def
  by (cases "read w") (auto split: sum.splits call_error.splits, metis fst_conv)

lemma safe_read_world: "snd (safe_read read w) = snd (read w)"
  by (simp add: safe_read_def split: prod.splits sum.splits call_error.splits)

lemma after_reads_tame:
  assumes "read_tame read"
  shows "\<exists>r w'. after_reads n read sleep before after w = (Inr r, w')"
proof (induction n arbitrary: after w)
  case (Suc n)
  obtain r where "safe_read read (sleep w) = (Inr r, snd (read (sleep w)))"
    using safe_read_tame [OF assms] by blast
  with Suc show ?case by (auto split: option.splits)
qed simp

lemma after_change_tame:
  assumes "read_tame read"
  shows "\<exists>w' l'. after_change rec fgt read sleep dbnow before w l = (Inr (), w', l')"
proof -
  obtain r where r: "safe_read read w = (Inr r, snd (read w))"
    using safe_read_tame [OF assms] by blast
  obtain r' w' where "after_reads (AFTER_CHANGE_READ_ATTEMPTS - 1) read sleep before r (snd (read w)) = (Inr r', w')"
    using after_reads_tame [OF assms] by blast
  with r show ?thesis by (cases r') (auto simp: after_change_def Let_def)
qed

lemma keep_tame_cases:
  assumes "read_tame read" and "change (snd (read w)) = (out, w2)"
  shows "fst (keep_counters_across rec fgt read sleep dbnow change w l) = out"
proof -
  obtain b where b: "safe_read read w = (Inr b, snd (read w))"
    using safe_read_tame [OF assms(1)] by blast
  show ?thesis
  proof (cases b)
    case None
    then show ?thesis by (simp add: keep_counters_across_def b assms(2))
  next
    case (Some before)
    obtain w3 l2 where "after_change rec fgt read sleep dbnow before w2
        (safe_write (rec (dbnow (snd (read w))) (cr_samples before) l)) = (Inr (), w3, l2)"
      by (metis after_change_tame [OF assms(1)])
    with Some show ?thesis by (simp add: keep_counters_across_def b assms(2) Let_def)
  qed
qed

text \<open>A quantity that reads and waits leave alone is changed by the change alone.\<close>

lemma after_reads_keeps:
  assumes "\<And>w. c (snd (read w)) = c w" and "\<And>w. c (sleep w) = c w"
  shows "c (snd (after_reads n read sleep before after w)) = c w"
proof (induction n arbitrary: after w)
  case (Suc n)
  have "c (snd (safe_read read (sleep w))) = c w"
    by (simp add: safe_read_world assms)
  with Suc show ?case by (auto split: option.splits prod.splits sum.splits)
qed simp

lemma after_change_keeps:
  assumes "\<And>w. c (snd (read w)) = c w" and "\<And>w. c (sleep w) = c w"
  shows "c (fst (snd (after_change rec fgt read sleep dbnow before w l))) = c w"
proof -
  have "c (snd (safe_read read w)) = c w" by (simp add: safe_read_world assms)
  moreover have "c (snd (after_reads n read sleep before a w1)) = c w1" for n a w1
    by (rule after_reads_keeps) (rule assms)+
  ultimately show ?thesis
    by (auto simp: after_change_def Let_def split: prod.splits sum.splits option.splits)
      (metis snd_conv)+
qed

lemma keep_keeps:
  assumes "read_tame read" and "\<And>w. c (snd (read w)) = c w" and "\<And>w. c (sleep w) = c w"
  shows "c (fst (snd (keep_counters_across rec fgt read sleep dbnow change w l))) =
           c (snd (change (snd (read w))))"
proof -
  obtain b where b: "safe_read read w = (Inr b, snd (read w))"
    using safe_read_tame [OF assms(1)] by blast
  have "c (fst (snd (after_change rec fgt read sleep dbnow before w2 l1))) = c w2" for before w2 l1
    by (rule after_change_keeps) (rule assms)+
  with b show ?thesis
    by (auto simp: keep_counters_across_def Let_def split: option.splits prod.splits sum.splits)
      (metis fst_conv snd_conv)+
qed

text \<open>
  The bracket never disturbs the change. Whatever the ledger does with the writes, and
  however the reads fail, the caller gets exactly the change's own outcome, and the change
  is made once: a quantity of the world that reading and waiting leave alone (what the
  server serves, how many changes it was asked for) ends as the change alone leaves it.
\<close>

lemma bracket_is_transparent:
  assumes "read_tame read" and "\<And>w. c (snd (read w)) = c w" and "\<And>w. c (sleep w) = c w"
    and "change (snd (read w)) = (out, w2)"
    and "keep_counters_across rec fgt read sleep dbnow change w l = (out', w', l')"
  shows "out' = out \<and> c w' = c w2"
  using keep_tame_cases [of read change w out w2 rec fgt sleep dbnow l, OF assms(1,4)]
    keep_keeps [of read c sleep rec fgt dbnow change w l, OF assms(1-3)] assms(4,5) by simp

text \<open>
  The world of the witness counts changes and reads; the second read on fails.
\<close>

definition demo_read :: "nat \<times> nat \<Rightarrow> (call_error, counter_reading) result \<times> nat \<times> nat" where
  "demo_read w = (if snd w = 0
     then Inr \<lparr>cr_samples = [sample_of demo_key 0 demo_point], cr_sources_read = {''xray''},
               cr_sources_failed = [], cr_collected_at = 1\<rparr>
     else Inl (AgentFailure (AgentResponseAmbiguous ''timeout'')), fst w, Suc (snd w))"

definition demo_change :: "nat \<times> nat \<Rightarrow> (call_error, bool) result \<times> nat \<times> nat" where
  "demo_change w = (Inr True, Suc (fst w), snd w)"

lemma demo_read_tame: "read_tame demo_read"
  by (simp add: read_tame_def demo_read_def)

text \<open>
  A change that never reached the agent ends the bracket: the agent is asked for no
  further reading and the ledger holds the reading taken before, nothing else.
\<close>

lemma unreachable_change_stops_there:
  assumes "safe_read read w = (Inr before, w1)"
    and "change w1 = (Inl (AgentFailure (AgentUnreachable e)), w2)"
  shows "keep_counters_across rec fgt read sleep dbnow change w l =
    (Inl (AgentFailure (AgentUnreachable e)), w2,
     (case before of None \<Rightarrow> l | Some b \<Rightarrow> snd (rec (dbnow w1) (cr_samples b) l)))"
  using assms by (simp add: keep_counters_across_def safe_write_def split: option.splits)

subsection \<open>What the bracket does to the meters\<close>

lemma after_reads_complete:
  "cr_sources_read before \<subseteq> cr_sources_read a \<Longrightarrow>
     after_reads n read sleep before (Some a) w = (Inr (Some a), w)"
  by (cases n) auto

lemma safe_read_SomeD: "safe_read read w = (Inr (Some a), w') \<Longrightarrow> read w = (Inr a, w')"
  by (auto simp: safe_read_def split: prod.splits sum.splits call_error.splits)

lemma after_reads_pred:
  assumes "\<And>w a w'. read w = (Inr a, w') \<Longrightarrow> P a"
  shows "after_reads n read sleep b after w = (Inr (Some a), w') \<Longrightarrow>
    (\<And>x. after = Some x \<Longrightarrow> P x) \<Longrightarrow> P a"
proof (induction n arbitrary: after w)
  case (Suc n)
  then obtain x where x: "after = Some x" and "P x" by (auto split: option.splits)
  show ?case
  proof (cases "cr_sources_read b \<subseteq> cr_sources_read x")
    case True
    with Suc.prems x show ?thesis by simp
  next
    case False
    with Suc.prems(1) x obtain y v where y: "safe_read read (sleep w) = (Inr y, v)"
      and "after_reads n read sleep b y v = (Inr (Some a), w')"
      by (auto split: prod.splits sum.splits)
    then show ?thesis using assms by (auto intro: Suc.IH dest!: safe_read_SomeD)
  qed
qed simp

lemma after_change_cases:
  assumes "after_change rec fgt read sleep dbnow before w l = (r, w', l')"
    and "\<And>w a w'. read w = (Inr a, w') \<Longrightarrow> P a"
  obtains "l' = l"
  | a where "P a"
    "l' = snd (fgt (dbnow w') (gone_counters before a) (cr_collected_at a)
                 (snd (rec (dbnow w') (cr_samples a) l)))"
proof -
  have "\<exists>a0 w1 a. safe_read read w = (Inr a0, w1) \<and>
      after_reads (AFTER_CHANGE_READ_ATTEMPTS - 1) read sleep before a0 w1 = (Inr (Some a), w') \<and>
      l' = snd (fgt (dbnow w') (gone_counters before a) (cr_collected_at a)
                 (snd (rec (dbnow w') (cr_samples a) l)))" if "l' \<noteq> l"
    using assms(1) that
    by (auto simp: after_change_def safe_write_def Let_def
        split: prod.splits sum.splits option.splits)
  moreover have "P a" if "safe_read read w = (Inr a0, w1)"
    "after_reads m read sleep before a0 w1 = (Inr (Some a), w')" for a0 w1 a m
    by (rule after_reads_pred [where P = P and read = read, OF _ that(2)])
      (use that(1) assms(2) in \<open>auto dest: safe_read_SomeD\<close>)
  ultimately show thesis using that by blast
qed

context counter_ledger
begin

text \<open>
  A counter is only forgotten by a reading that reached its source and did not show it.
\<close>

lemma record_meter_absent:
  "k \<notin> us_key ` set ss \<Longrightarrow> meter_of (snd (record_samples d ss l)) k = meter_of l k"
proof (cases "record_samples d ss l")
  case (Pair res l')
  assume "k \<notin> us_key ` set ss"
  then have "filter (\<lambda>s. us_key s = k) ss = []" by (auto simp: filter_empty_conv)
  with Pair record_meter [of d ss l _ l' k] record_refused [of d ss l _ l'] show ?thesis
    by (cases res) simp_all
qed

lemma forget_meter_absent:
  "k \<notin> set ks \<Longrightarrow> meter_of (snd (forget d ks c l)) k = meter_of l k"
  using forget_meter [of d ks c l _ "snd (forget d ks c l)" k]
    forget_refused [of d ks c l _ "snd (forget d ks c l)"]
  by (cases "forget d ks c l"; cases "fst (forget d ks c l)") simp_all

lemma after_change_meter_unread:
  assumes "after_change record_samples forget read sleep dbnow before w l = (r, w', l')"
    and "\<And>w a w'. read w = (Inr a, w') \<Longrightarrow>
      fst k \<notin> cr_sources_read a \<and> k \<notin> us_key ` set (cr_samples a)"
  shows "meter_of l' k = meter_of l k"
  using assms
proof (rule after_change_cases [where P = "\<lambda>a. fst k \<notin> cr_sources_read a \<and> k \<notin> us_key ` set (cr_samples a)"])
  fix a
  assume a: "fst k \<notin> cr_sources_read a \<and> k \<notin> us_key ` set (cr_samples a)"
    and l': "l' = snd (forget (dbnow w') (gone_counters before a) (cr_collected_at a)
                 (snd (record_samples (dbnow w') (cr_samples a) l)))"
  from a have "k \<notin> set (gone_counters before a)" by (auto simp: gone_counters_def us_key_def)
  with a show ?thesis by (simp add: l' record_meter_absent forget_meter_absent)
qed (simp_all)

text \<open>A bracket whose reads and writes succeed is one \<open>bracket\<close> step of the metered world.\<close>

lemma keep_is_bracket:
  assumes "metered_reach record_samples forget meter_of known k w"
    and "rp_stamp (mw_now w) < c1" and "c1 < c2"
    and "read x = (Inr before, x1)"
    and "filter (\<lambda>s. us_key s = k) (cr_samples before) = [sample_of k at ((mw_now w)\<lparr>rp_stamp := c1\<rparr>)]"
    and "record_samples (dbnow x1) (cr_samples before) (mw_ledger w) = (Inr n1, l1)"
    and "change x1 = (Inr out, x2)"
    and "read x2 = (Inr after, x3)"
    and "cr_sources_read before \<subseteq> cr_sources_read after" and "fst k \<in> cr_sources_read before"
    and "k \<notin> us_key ` set (cr_samples after)" and "cr_collected_at after = c2"
    and "record_samples (dbnow x3) (cr_samples after) l1 = (Inr n2, l2)"
    and "forget (dbnow x3) (gone_counters before after) c2 l2 = (Inr n3, l3)"
    and "p = (restarted (mw_now w))\<lparr>rp_stamp := c2\<rparr>"
  shows "keep_counters_across record_samples forget read sleep dbnow change x (mw_ledger w) = (Inr out, x3, l3)
    \<and> metered_reach record_samples forget meter_of known k (w\<lparr>mw_ledger := l3, mw_now := p, mw_seen := p\<rparr>)"
proof
  from assms(4,6-9,12-14)
  show "keep_counters_across record_samples forget read sleep dbnow change x (mw_ledger w) = (Inr out, x3, l3)"
    by (simp add: keep_counters_across_def after_change_def safe_read_def safe_write_def
        after_reads_complete)
  have "filter (\<lambda>s. us_key s = k) (cr_samples after) = []"
    using assms(11) by (auto simp: filter_empty_conv)
  moreover have "k \<in> set (gone_counters before after)"
  proof -
    have "sample_of k at ((mw_now w)\<lparr>rp_stamp := c1\<rparr>) \<in> set (filter (\<lambda>s. us_key s = k) (cr_samples before))"
      by (subst assms(5)) simp
    then obtain s where "s \<in> set (cr_samples before)" "us_key s = k" by auto
    moreover from this have "us_protocol s = fst k" by (auto simp: us_key_def)
    ultimately show ?thesis
      using assms(9-11) unfolding gone_counters_def by (auto simp del: fst_conv)
  qed
  ultimately show "metered_reach record_samples forget meter_of known k
      (w\<lparr>mw_ledger := l3, mw_now := p, mw_seen := p\<rparr>)"
    using metered_reach.bracket [OF assms(1-3,5,6) _ assms(13) _ assms(14,15)] by blast
qed

end

text \<open>
  A counter whose source did not answer after the change is not taken for gone: as long
  as no reading reaches the credential's source, the whole step after the change leaves its
  totals and its last reading alone, whatever else it records and forgets.
\<close>

lemma unread_source_keeps_meter:
  assumes "after_change ledger_record forget_readings read sleep dbnow before w t = (r, w', t')"
    and "\<And>w a w'. read w = (Inr a, w') \<Longrightarrow>
      fst k \<notin> cr_sources_read a \<and> k \<notin> us_key ` set (cr_samples a)"
  shows "usage_meter t' k = usage_meter t k"
  using assms by (rule ledger.after_change_meter_unread)

definition demo_read_wg :: "nat \<Rightarrow> (call_error, counter_reading) result \<times> nat" where
  "demo_read_wg w = (Inr \<lparr>cr_samples = [], cr_sources_read = {''wireguard''},
     cr_sources_failed = [''xray''], cr_collected_at = 9\<rparr>, Suc w)"


text \<open>The witness: the first reading shows the counter, the one after the change does not.\<close>

definition demo_before :: counter_reading where
  "demo_before = \<lparr>cr_samples = [sample_of demo_key 0 demo_point2], cr_sources_read = {''xray''},
     cr_sources_failed = [], cr_collected_at = 2\<rparr>"

definition demo_after :: counter_reading where
  "demo_after = \<lparr>cr_samples = [], cr_sources_read = {''xray''}, cr_sources_failed = [],
     cr_collected_at = 3\<rparr>"

definition demo_reads :: "nat \<Rightarrow> (call_error, counter_reading) result \<times> nat" where
  "demo_reads x = (Inr (if x = 0 then demo_before else demo_after), Suc x)"

lemma demo_gone: "gone_counters demo_before demo_after = [demo_key]"
  by code_simp


end
