(* ===== verification/Usage_Accounts.thy ===== *)
theory Usage_Accounts
  imports Revocation Usage_Counters
begin

text \<open>
  Whose bytes they are: from a credential's counters to an account's usage
  (\<open>usage/service.py\<close>, \<open>UsageService\<close>), and the poll that feeds the ledger
  (\<open>usage/poll.py\<close>). SHA-256 and the cipher are parameters.

  The main lemma is that nothing about an account's usage depends on the state of its devices
  and credentials: revoking does not make bytes disappear.
\<close>

subsection \<open>Attribution\<close>

definition usage_digest :: "(string \<Rightarrow> string) \<Rightarrow> string \<Rightarrow> string" where
  "usage_digest sha256 identity = sha256 identity"

definition client_digest ::
  "(string \<Rightarrow> string) \<Rightarrow> (bytes \<Rightarrow> bytes \<Rightarrow> bytes \<Rightarrow> bytes \<Rightarrow> bytes option) \<Rightarrow> key_ring \<Rightarrow> control_db \<Rightarrow>
   xray_client \<Rightarrow> (uuid \<times> string) list" where
  "client_digest sha256 dec ring db client =
     (case credential_by_id (rt_credential_id client) db of
        None \<Rightarrow> []
      | Some credential \<Rightarrow>
          if cred_key_material_lost_at credential \<noteq> None then []
          else (case stored_client_uuid dec ring (cred_device_id credential) credential of
                  None \<Rightarrow> []
                | Some client_uuid \<Rightarrow> [(rt_device_id client, usage_digest sha256 (uuid_text client_uuid))]))"

definition digests_for_devices ::
  "(string \<Rightarrow> string) \<Rightarrow> (bytes \<Rightarrow> bytes \<Rightarrow> bytes \<Rightarrow> bytes \<Rightarrow> bytes option) \<Rightarrow> key_ring \<Rightarrow> uuid list \<Rightarrow>
   control_db \<Rightarrow> (uuid \<times> string) list" where
  "digests_for_devices sha256 dec ring device_ids db =
     (if device_ids = [] then []
      else map (\<lambda>p. (rt_device_id p, usage_digest sha256 (wp_public_key p)))
             (filter (\<lambda>p. rt_device_id p \<in> set device_ids) (db_peers db)) @
           concat (map (client_digest sha256 dec ring db)
             (filter (\<lambda>x. rt_device_id x \<in> set device_ids) (db_clients db))))"

definition devices_of :: "uuid \<Rightarrow> control_db \<Rightarrow> uuid list" where
  "devices_of user_id db = map dev_id (filter (\<lambda>d. dev_user_id d = user_id) (db_devices db))"

definition user_by_id :: "uuid \<Rightarrow> control_db \<Rightarrow> user_row option" where
  "user_by_id i db = find (\<lambda>u. usr_id u = i) (db_users db)"

definition usage_for_user ::
  "(string \<Rightarrow> string) \<Rightarrow> (bytes \<Rightarrow> bytes \<Rightarrow> bytes \<Rightarrow> bytes \<Rightarrow> bytes option) \<Rightarrow> key_ring \<Rightarrow> uuid \<Rightarrow>
   control_db \<Rightarrow> account_usage" where
  "usage_for_user sha256 dec ring user_id db =
     (case user_by_id user_id db of
        None \<Rightarrow> \<lparr>au_rx_bytes = 0, au_tx_bytes = 0, au_quota_bytes = None, au_baseline_bytes = 0,
                au_exhausted_at = None\<rparr>
      | Some user \<Rightarrow>
          let digests = map snd (digests_for_devices sha256 dec ring (devices_of user_id db) db);
              rows = (if digests = [] then []
                      else filter (\<lambda>r. cu_identity r \<in> set digests) (db_usage db))
          in \<lparr>au_rx_bytes = sum_list (map cu_rx_bytes rows), au_tx_bytes = sum_list (map cu_tx_bytes rows),
              au_quota_bytes = usr_traffic_quota_bytes user,
              au_baseline_bytes = usr_traffic_baseline_bytes user,
              au_exhausted_at = usr_quota_exhausted_at user\<rparr>)"

subsection \<open>Activity\<close>

record device_activity =
  da_tunnel_active_at :: "time option"
  da_tunnel_checked_at :: "time option"

definition no_activity :: device_activity where
  "no_activity = \<lparr>da_tunnel_active_at = None, da_tunnel_checked_at = None\<rparr>"

fun activity_loop ::
  "(string \<rightharpoonup> credential_usage) \<Rightarrow> (uuid \<times> string) list \<Rightarrow> (uuid \<rightharpoonup> device_activity) \<Rightarrow>
   (uuid \<rightharpoonup> device_activity)" where
  "activity_loop by_digest [] activity = activity"
| "activity_loop by_digest ((device_id, digest) # owners) activity =
     (case by_digest digest of
        None \<Rightarrow> activity_loop by_digest owners activity
      | Some row \<Rightarrow>
          let seen = (case activity device_id of None \<Rightarrow> no_activity | Some a \<Rightarrow> a)
          in activity_loop by_digest owners (activity(device_id \<mapsto>
               \<lparr>da_tunnel_active_at = latest (da_tunnel_active_at seen) (cu_last_active_at row),
                da_tunnel_checked_at = latest (da_tunnel_checked_at seen) (cu_last_collected_at row)\<rparr>)))"

definition activity_for_devices ::
  "(string \<Rightarrow> string) \<Rightarrow> (bytes \<Rightarrow> bytes \<Rightarrow> bytes \<Rightarrow> bytes \<Rightarrow> bytes option) \<Rightarrow> key_ring \<Rightarrow> uuid list \<Rightarrow>
   control_db \<Rightarrow> (uuid \<rightharpoonup> device_activity)" where
  "activity_for_devices sha256 dec ring device_ids db =
     (let owners = digests_for_devices sha256 dec ring device_ids db in
      if owners = [] then Map.empty
      else let rows = filter (\<lambda>r. cu_identity r \<in> snd ` set owners) (db_usage db);
               by_digest = map_of (rev (map (\<lambda>r. (cu_identity r, r)) rows))
           in activity_loop by_digest owners Map.empty)"

subsection \<open>The poll\<close>

record usage_poll_summary =
  ups_servers_polled :: int
  ups_servers_failed :: int
  ups_samples :: int
  ups_credentials_active :: int
  ups_sources_failed :: "string list"
  ups_relay_checked :: "string set"
  ups_resolver_checked :: "string set"

record poll_state =
  ps_polled :: int
  ps_failed :: int
  ps_collected :: "usage_sample list"
  ps_sources_failed :: "string list"
  ps_relay_checked :: "string set"
  ps_resolver_checked :: "string set"

definition poll_servers :: "string set \<Rightarrow> control_db \<Rightarrow> vpn_server list" where
  "poll_servers relay_vias db =
     filter (\<lambda>s. running_server (srv_state s) \<or>
                 srv_state s = SERVER_DISABLED \<and> srv_code s \<in> relay_vias) (db_servers db)"

definition poll_one :: "vpn_server \<Rightarrow> counter_reading \<Rightarrow> poll_state \<Rightarrow> poll_state" where
  "poll_one server reading st =
     (let st = st\<lparr>ps_polled := ps_polled st + 1\<rparr>;
          st = (if ''relay'' \<in> cr_sources_read reading
                then st\<lparr>ps_relay_checked := insert (srv_code server) (ps_relay_checked st)\<rparr> else st)
      in if srv_state server = SERVER_DISABLED then st
         else let st = st\<lparr>ps_sources_failed := ps_sources_failed st @
                        map (\<lambda>name. srv_code server @ '':'' @ name) (cr_sources_failed reading),
                      ps_collected := ps_collected st @ cr_samples reading\<rparr>
              in if ''dns'' \<in> cr_sources_read reading
                 then st\<lparr>ps_resolver_checked := insert (srv_code server) (ps_resolver_checked st)\<rparr>
                 else st)"

text \<open>
  The loop over the servers. \<open>read\<close> is \<open>read_counters\<close> on that server's client; an exception
  it does not expect ends the poll before anything is recorded.
\<close>

fun poll_loop ::
  "(vpn_server \<Rightarrow> 'w \<Rightarrow> (call_error, counter_reading) result \<times> 'w) \<Rightarrow> vpn_server list \<Rightarrow> poll_state \<Rightarrow> 'w \<Rightarrow>
   (call_error, poll_state) result \<times> 'w" where
  "poll_loop read [] st w = (Inr st, w)"
| "poll_loop read (server # servers) st w =
     (case read server w of
        (Inl Uncaught, w') \<Rightarrow> (Inl Uncaught, w')
      | (Inl _, w') \<Rightarrow> poll_loop read servers (st\<lparr>ps_failed := ps_failed st + 1\<rparr>) w'
      | (Inr reading, w') \<Rightarrow> poll_loop read servers (poll_one server reading st) w')"

definition poll_start :: poll_state where
  "poll_start = \<lparr>ps_polled = 0, ps_failed = 0, ps_collected = [], ps_sources_failed = [],
     ps_relay_checked = {}, ps_resolver_checked = {}\<rparr>"

datatype poll_error = PollCall call_error | PollDatabase db_error

definition run_usage_poll ::
  "(vpn_server \<Rightarrow> 'w \<Rightarrow> (call_error, counter_reading) result \<times> 'w) \<Rightarrow> string set \<Rightarrow> time \<Rightarrow> 'w \<Rightarrow>
   control_db \<Rightarrow> (poll_error, usage_poll_summary) result \<times> 'w \<times> control_db" where
  "run_usage_poll read relay_vias dbnow w db =
     (case poll_loop read (poll_servers relay_vias db) poll_start w of
        (Inl e, w') \<Rightarrow> (Inl (PollCall e), w', db)
      | (Inr st, w') \<Rightarrow>
          (case ledger_record dbnow (ps_collected st) (db_usage db) of
             (Inl e, _) \<Rightarrow> (Inl (PollDatabase e), w', db)
           | (Inr active, t) \<Rightarrow>
               (Inr \<lparr>ups_servers_polled = ps_polled st, ups_servers_failed = ps_failed st,
                     ups_samples = int (length (ps_collected st)), ups_credentials_active = active,
                     ups_sources_failed = ps_sources_failed st,
                     ups_relay_checked = ps_relay_checked st,
                     ups_resolver_checked = ps_resolver_checked st\<rparr>, w', db\<lparr>db_usage := t\<rparr>)))"

subsection \<open>What attribution depends on\<close>

text \<open>
  Two databases attribute alike when their users, devices and totals are the same, and the
  peers and credentials differ in lifecycle columns only.
\<close>

definition peer_owner :: "wg_peer \<Rightarrow> uuid \<times> string" where
  "peer_owner p = (rt_device_id p, wp_public_key p)"

definition client_owner :: "xray_client \<Rightarrow> uuid \<times> uuid" where
  "client_owner x = (rt_device_id x, rt_credential_id x)"

definition secret_of ::
  "credential_row \<Rightarrow> uuid \<times> uuid \<times> bytes option \<times> bytes option \<times> string option \<times> time option" where
  "secret_of c = (cred_id c, cred_device_id c, cred_ciphertext c, cred_nonce c, cred_key_version c,
     cred_key_material_lost_at c)"

definition same_owners :: "control_db \<Rightarrow> control_db \<Rightarrow> bool" where
  "same_owners a b \<longleftrightarrow>
     db_devices a = db_devices b \<and> db_usage a = db_usage b \<and>
     map peer_owner (db_peers a) = map peer_owner (db_peers b) \<and>
     map client_owner (db_clients a) = map client_owner (db_clients b) \<and>
     map secret_of (db_credentials a) = map secret_of (db_credentials b)"

lemma same_owners_refl [simp]: "same_owners a a"
  by (simp add: same_owners_def)

lemma same_owners_trans: "same_owners a b \<Longrightarrow> same_owners b c \<Longrightarrow> same_owners a c"
  by (simp add: same_owners_def)

lemma find_map_eq:
  assumes "map f xs = map f ys" and P: "\<And>x y. f x = f y \<Longrightarrow> P x = P y"
  shows "map_option f (find P xs) = map_option f (find P ys)"
  using assms(1)
proof (induction xs arbitrary: ys)
  case (Cons x xs)
  then obtain y ys' where ys: "ys = y # ys'" "f x = f y" "map f xs = map f ys'" by (cases ys) auto
  with Cons.IH [of ys'] P [of x y] show ?case by simp
qed simp

lemma map_filter_eq:
  assumes "map f xs = map f ys" and P: "\<And>x y. f x = f y \<Longrightarrow> P x = P y \<and> g x = g y"
  shows "map g (filter P xs) = map g (filter P ys)"
  using assms(1)
proof (induction xs arbitrary: ys)
  case (Cons x xs)
  then obtain y ys' where "ys = y # ys'" "f x = f y" "map f xs = map f ys'" by (cases ys) auto
  with Cons.IH [of ys'] P [of x y] show ?case by simp
qed simp

lemma secret_stored:
  "secret_of c = secret_of d \<Longrightarrow> stored_client_uuid dec ring did c = stored_client_uuid dec ring did d"
  by (simp add: secret_of_def stored_client_uuid_def cong: option.case_cong)

lemma client_digest_eq:
  assumes "map secret_of (db_credentials a) = map secret_of (db_credentials b)"
    and "client_owner x = client_owner y"
  shows "client_digest sha dec ring a x = client_digest sha dec ring b y"
proof -
  have "map_option secret_of (credential_by_id (rt_credential_id x) a) =
      map_option secret_of (credential_by_id (rt_credential_id y) b)"
    using find_map_eq [OF assms(1), of "\<lambda>c. cred_id c = rt_credential_id x"] assms(2)
    by (simp add: credential_by_id_def client_owner_def secret_of_def)
  then consider "credential_by_id (rt_credential_id x) a = None" "credential_by_id (rt_credential_id y) b = None"
    | c d where "credential_by_id (rt_credential_id x) a = Some c"
      "credential_by_id (rt_credential_id y) b = Some d" "secret_of c = secret_of d"
    by (cases "credential_by_id (rt_credential_id x) a"; cases "credential_by_id (rt_credential_id y) b") auto
  then show ?thesis
  proof cases
    case (2 c d)
    then have "cred_key_material_lost_at c = cred_key_material_lost_at d" "cred_device_id c = cred_device_id d"
      by (simp_all add: secret_of_def)
    with 2 secret_stored [OF 2(3), of dec ring "cred_device_id d"] assms(2) show ?thesis
      by (simp add: client_digest_def client_owner_def split: option.split)
  qed (simp add: client_digest_def)
qed

lemma digests_same_owners:
  assumes "same_owners a b"
  shows "digests_for_devices sha dec ring dids a = digests_for_devices sha dec ring dids b"
proof -
  have "map (\<lambda>p. (rt_device_id p, usage_digest sha (wp_public_key p)))
      (filter (\<lambda>p. rt_device_id p \<in> set dids) (db_peers a)) =
    map (\<lambda>p. (rt_device_id p, usage_digest sha (wp_public_key p)))
      (filter (\<lambda>p. rt_device_id p \<in> set dids) (db_peers b))"
    using assms by (intro map_filter_eq [where f = peer_owner]) (auto simp: same_owners_def peer_owner_def)
  moreover have "map (client_digest sha dec ring a) (filter (\<lambda>x. rt_device_id x \<in> set dids) (db_clients a)) =
    map (client_digest sha dec ring a) (filter (\<lambda>x. rt_device_id x \<in> set dids) (db_clients b))"
  proof (rule map_filter_eq [where f = client_owner])
    show "map client_owner (db_clients a) = map client_owner (db_clients b)"
      using assms by (simp add: same_owners_def)
  next
    fix x y assume "client_owner x = client_owner y"
    with client_digest_eq [OF refl this, of sha dec ring a]
    show "(rt_device_id x \<in> set dids) = (rt_device_id y \<in> set dids) \<and>
        client_digest sha dec ring a x = client_digest sha dec ring a y"
      by (simp add: client_owner_def)
  qed
  moreover have "client_digest sha dec ring a = client_digest sha dec ring b"
    using assms by (intro ext client_digest_eq) (auto simp: same_owners_def)
  ultimately show ?thesis by (simp add: digests_for_devices_def)
qed

lemma usage_same_owners:
  assumes "same_owners a b" and "user_by_id uid a = user_by_id uid b"
  shows "usage_for_user sha dec ring uid a = usage_for_user sha dec ring uid b"
  using assms digests_same_owners [OF assms(1)]
  by (simp add: usage_for_user_def devices_of_def same_owners_def cong: option.case_cong)

subsection \<open>Revoking does not make bytes disappear\<close>

lemma orm_mark_owner [simp]:
  "peer_owner (orm_write dbnow (mark_revoking now) p) = peer_owner p"
  "client_owner (orm_write dbnow (mark_revoking now) x) = client_owner x"
  by (simp_all add: peer_owner_def client_owner_def mark_revoking_def)

lemma secret_revoking [simp]: "secret_of (credential_revoking c) = secret_of c"
  by (simp add: secret_of_def credential_revoking_def)

lemma revoke_row_owners:
  "same_owners (revoke_credential_row peer_table dbnow now p db) db"
  "same_owners (revoke_credential_row client_table dbnow now x db) db"
  "db_users (revoke_credential_row peer_table dbnow now p db) = db_users db"
  "db_users (revoke_credential_row client_table dbnow now x db) = db_users db"
  by (simp_all add: same_owners_def revoke_credential_row_def pair_write_def write_credential_def
      write_row_def peer_table_def client_table_def map_update_where)

lemma fold_owners: "(\<And>x d. same_owners (f x d) d) \<Longrightarrow> same_owners (fold f xs d) d"
  by (induction xs arbitrary: d) (auto intro: same_owners_trans)

lemma revoke_rows_owners:
  "same_owners (fst (revoke_rows peer_table dbnow did now db)) db"
  "same_owners (fst (revoke_rows client_table dbnow did now db)) db"
  by (simp_all add: revoke_rows_def Let_def fold_owners revoke_row_owners)

lemma revoke_rows_users:
  "db_users (fst (revoke_rows peer_table dbnow did now db)) = db_users db"
  "db_users (fst (revoke_rows client_table dbnow did now db)) = db_users db"
  by (simp_all add: revoke_rows_def Let_def fold_frame revoke_row_owners)

lemma revoke_device_owners:
  "same_owners (fst (revoke_device_credentials dbnow did now db)) db"
  "db_users (fst (revoke_device_credentials dbnow did now db)) = db_users db"
  using revoke_rows_owners(1) [of dbnow did now db]
    revoke_rows_owners(2) [of dbnow did now "fst (revoke_rows peer_table dbnow did now db)"]
  by (auto simp: revoke_device_credentials_def split_beta Let_def revoke_rows_users
      intro: same_owners_trans)

text \<open>
  A quota cannot be reset by revoking a device: taking away all credentials of any device
  leaves the usage of every account exactly as it was.
\<close>

lemma usage_survives_revocation:
  "usage_for_user sha256 dec ring user_id (fst (revoke_device_credentials dbnow did now db)) =
   usage_for_user sha256 dec ring user_id db"
  by (rule usage_same_owners) (simp_all add: revoke_device_owners user_by_id_def)

subsection \<open>What the poll records\<close>

lemma poll_loop_collected:
  "poll_loop read servers st w = (Inr st', w') \<Longrightarrow>
     \<exists>more. ps_collected st' = ps_collected st @ more \<and>
       ps_polled st' + ps_failed st' = ps_polled st + ps_failed st + int (length servers)"
proof (induction servers arbitrary: st w)
  case (Cons s servers)
  obtain out v where read: "read s w = (out, v)" by (cases "read s w")
  show ?case
  proof (cases out)
    case (Inl e)
    with Cons.prems read have "poll_loop read servers (st\<lparr>ps_failed := ps_failed st + 1\<rparr>) v = (Inr st', w')"
      by (cases e) auto
    from Cons.IH [OF this] show ?thesis by auto
  next
    case (Inr reading)
    with Cons.prems read have "poll_loop read servers (poll_one s reading st) v = (Inr st', w')" by simp
    from Cons.IH [OF this] show ?thesis by (auto simp: poll_one_def Let_def split: if_splits)
  qed
qed simp

text \<open>
  One server that cannot be read does not cost the others their poll: as long as every
  failure is one the agent client or the operating system reports, the poll completes, every
  running server is either polled or counted as failed, and the readings of the ones that
  answered are recorded in one transaction.
\<close>

lemma poll_counts_every_server:
  assumes "\<And>s w. fst (read s w) \<noteq> Inl Uncaught"
  shows "\<exists>st w'. poll_loop read (poll_servers relay_vias db) poll_start w = (Inr st, w') \<and>
    ps_polled st + ps_failed st = int (length (poll_servers relay_vias db)) \<and>
    (case ledger_record dbnow (ps_collected st) (db_usage db) of
       (Inr active, t) \<Rightarrow> \<exists>summary. run_usage_poll read relay_vias dbnow w db = (Inr summary, w', db\<lparr>db_usage := t\<rparr>) \<and>
          ups_credentials_active summary = active \<and> ups_samples summary = int (length (ps_collected st))
     | (Inl e, t) \<Rightarrow> run_usage_poll read relay_vias dbnow w db = (Inl (PollDatabase e), w', db))"
proof -
  have total: "\<exists>st' w'. poll_loop read servers st w = (Inr st', w')" for servers st w
  proof (induction servers arbitrary: st w)
    case (Cons s servers)
    obtain out v where read: "read s w = (out, v)" by (cases "read s w")
    with assms [of s w] have "out \<noteq> Inl Uncaught" by simp
    with read Cons.IH show ?case by (auto split: sum.splits call_error.splits)
  qed simp
  obtain st w' where loop: "poll_loop read (poll_servers relay_vias db) poll_start w = (Inr st, w')"
    using total by blast
  from poll_loop_collected [OF this] have "ps_polled st + ps_failed st = int (length (poll_servers relay_vias db))"
    by (auto simp: poll_start_def)
  with loop show ?thesis
    by (intro exI [of _ st] exI [of _ w'])
      (auto simp: run_usage_poll_def split: prod.splits sum.splits)
qed

end
