(* ===== verification/Provisioning_Guards.thy ===== *)
theory Provisioning_Guards
  imports Revocation Agent_Client Usage_Accounts
begin

text \<open>
  The refusals of \<open>provisioning/service.py\<close>: every condition \<open>ProvisioningService\<close> checks
  before it lets a device connect, as a function from the database to a reason or a row. The
  two request handlers start with the same chain of them, \<open>authorize\<close> here.
\<close>

subsection \<open>Errors\<close>

datatype prov_error =
    ServerUnderMaintenance
  | ProvisioningRejected
  | TrafficQuotaExhausted
  | ProvisioningRateLimited int
  | OperationInProgress
  | XrayOperationInProgress
  | ProvisioningAmbiguous
  | ProvisioningError
  | ProvDatabase db_error
  | ProvEncryption
  | ProvAgent agent_error
  | InvalidAgentRequest

text \<open>A step that may raise, then the rest.\<close>

definition andthen :: "('e, 'a) result \<Rightarrow> ('a \<Rightarrow> ('e, 'b) result) \<Rightarrow> ('e, 'b) result" where
  "andthen r f = (case r of Inl e \<Rightarrow> Inl e | Inr x \<Rightarrow> f x)"

lemma andthen_simps [simp]: "andthen (Inl e) f = Inl e" "andthen (Inr x) f = f x"
  by (simp_all add: andthen_def)

lemma andthen_Inr: "andthen r f = Inr y \<longleftrightarrow> (\<exists>x. r = Inr x \<and> f x = Inr y)"
  by (cases r) auto

subsection \<open>The guards\<close>

definition unexpired :: "time option \<Rightarrow> time \<Rightarrow> bool" where
  "unexpired expires_at now \<longleftrightarrow> \<not> (\<exists>t. expires_at = Some t \<and> t \<le> now)"

lemma unexpired_code [code]:
  "unexpired expires_at now = (case expires_at of None \<Rightarrow> True | Some t \<Rightarrow> now < t)"
  by (auto simp: unexpired_def split: option.split)

definition owned_device :: "uuid \<Rightarrow> uuid \<Rightarrow> control_db \<Rightarrow> device_row option" where
  "owned_device device_id user_id db =
     find (\<lambda>d. dev_id d = device_id \<and> dev_user_id d = user_id) (db_devices db)"

definition require_active_device :: "uuid \<Rightarrow> uuid \<Rightarrow> control_db \<Rightarrow> (prov_error, device_row) result" where
  "require_active_device device_id user_id db =
     (case owned_device device_id user_id db of
        None \<Rightarrow> Inl ProvisioningRejected
      | Some device \<Rightarrow>
          if dev_state device \<noteq> LIFE_ACTIVE then Inl ProvisioningRejected else Inr device)"

definition require_traffic_allowance :: "uuid \<Rightarrow> control_db \<Rightarrow> (prov_error, unit) result" where
  "require_traffic_allowance user_id db =
     (case user_by_id user_id db of
        None \<Rightarrow> Inr ()
      | Some u \<Rightarrow> if usr_quota_exhausted_at u \<noteq> None then Inl TrafficQuotaExhausted else Inr ())"

definition require_profile :: "string \<Rightarrow> control_db \<Rightarrow> (prov_error, protocol_profile) result" where
  "require_profile protocol_profile_code db =
     (case find (\<lambda>p. pp_code p = protocol_profile_code \<and> pp_state p = IMPLEMENTED) (db_profiles db) of
        None \<Rightarrow> Inl ProvisioningRejected
      | Some profile \<Rightarrow> Inr profile)"

definition server_by_code :: "string \<Rightarrow> control_db \<Rightarrow> vpn_server option" where
  "server_by_code server_code db = find (\<lambda>s. srv_code s = server_code) (db_servers db)"

definition require_active_server ::
  "string \<Rightarrow> uuid \<Rightarrow> control_db \<Rightarrow> (prov_error, vpn_server \<times> capability_row) result" where
  "require_active_server server_code profile_id db =
     (case server_by_code server_code db of
        None \<Rightarrow> Inl ProvisioningRejected
      | Some server \<Rightarrow>
          if srv_state server = MAINTENANCE then Inl ServerUnderMaintenance
          else if srv_state server \<noteq> SERVER_ACTIVE then Inl ProvisioningRejected
          else (case find (\<lambda>c. cap_server_id c = srv_id server \<and> cap_profile_id c = profile_id)
                      (db_capabilities db) of
                  None \<Rightarrow> Inl ProvisioningRejected
                | Some capability \<Rightarrow>
                    if cap_state capability \<noteq> CAP_ENABLED then Inl ProvisioningRejected
                    else Inr (server, capability)))"

definition require_permission :: "uuid \<Rightarrow> uuid \<Rightarrow> time \<Rightarrow> control_db \<Rightarrow> (prov_error, unit) result" where
  "require_permission user_id profile_id now db =
     (case find (\<lambda>p. perm_user_id p = user_id \<and> perm_profile_id p = profile_id) (db_permissions db) of
        None \<Rightarrow> Inl ProvisioningRejected
      | Some permission \<Rightarrow>
          if perm_state permission \<noteq> CAP_ENABLED then Inl ProvisioningRejected
          else if \<not> unexpired (perm_expires_at permission) now then Inl ProvisioningRejected
          else Inr ())"

definition require_assignment :: "uuid \<Rightarrow> uuid \<Rightarrow> time \<Rightarrow> control_db \<Rightarrow> (prov_error, unit) result" where
  "require_assignment user_id server_id now db =
     (case find (\<lambda>a. asg_user_id a = user_id \<and> asg_server_id a = server_id) (db_assignments db) of
        None \<Rightarrow> Inl ProvisioningRejected
      | Some assignment \<Rightarrow>
          if asg_state assignment \<noteq> LIFE_ACTIVE then Inl ProvisioningRejected
          else if \<not> unexpired (asg_expires_at assignment) now then Inl ProvisioningRejected
          else Inr ())"

text \<open>Both counts are of live rows of one table on one server.\<close>

definition live_on :: "uuid \<Rightarrow> 'a cred_row_scheme list \<Rightarrow> 'a cred_row_scheme list" where
  "live_on server_id rows = filter (\<lambda>r. rt_server_id r = server_id \<and> live (rt_state r)) rows"

definition effective_limit :: "vpn_server \<Rightarrow> capability_row \<Rightarrow> int" where
  "effective_limit server capability =
     (case cap_capacity_limit capability of
        None \<Rightarrow> srv_maximum_devices server
      | Some limit \<Rightarrow> min (srv_maximum_devices server) limit)"

definition require_capacity ::
  "vpn_server \<Rightarrow> capability_row \<Rightarrow> control_db \<Rightarrow> (prov_error, unit) result" where
  "require_capacity server capability db =
     (if int (length (live_on (srv_id server) (db_peers db))) \<ge> effective_limit server capability
      then Inl ProvisioningRejected else Inr ())"

definition require_xray_capacity ::
  "vpn_server \<Rightarrow> capability_row \<Rightarrow> control_db \<Rightarrow> (prov_error, unit) result" where
  "require_xray_capacity server capability db =
     (if int (length (live_on (srv_id server) (db_clients db))) \<ge> effective_limit server capability
      then Inl ProvisioningRejected else Inr ())"

definition allocate_address :: "vpn_server \<Rightarrow> control_db \<Rightarrow> (prov_error, ip_address) result" where
  "allocate_address server db =
     (case srv_client_pool server of
        None \<Rightarrow> Inl ProvisioningRejected
      | Some pool \<Rightarrow>
          (case allocate_next_address pool (srv_gateway_address server)
                  (map wp_assigned_address (live_on (srv_id server) (db_peers db))) of
             None \<Rightarrow> Inl ProvisioningRejected
           | Some address \<Rightarrow> Inr address))"

text \<open>
  What both request handlers check first, in this order; the result is what they go on with.
\<close>

definition authorize ::
  "uuid \<Rightarrow> uuid \<Rightarrow> string \<Rightarrow> string \<Rightarrow> time \<Rightarrow> control_db \<Rightarrow>
   (prov_error, device_row \<times> protocol_profile \<times> vpn_server \<times> capability_row) result" where
  "authorize user_id device_id server_code protocol_profile_code now db =
     andthen (require_active_device device_id user_id db) (\<lambda>device.
     andthen (require_traffic_allowance user_id db) (\<lambda>_.
     andthen (require_profile protocol_profile_code db) (\<lambda>profile.
     andthen (require_active_server server_code (pp_id profile) db) (\<lambda>(server, capability).
     andthen (require_permission user_id (pp_id profile) now db) (\<lambda>_.
     andthen (require_assignment user_id (srv_id server) now db) (\<lambda>_.
     Inr (device, profile, server, capability)))))))"

subsection \<open>What they mean\<close>

definition has_permission :: "uuid \<Rightarrow> uuid \<Rightarrow> time \<Rightarrow> control_db \<Rightarrow> bool" where
  "has_permission user_id profile_id now db \<longleftrightarrow>
     list_ex (\<lambda>p. perm_user_id p = user_id \<and> perm_profile_id p = profile_id \<and>
       perm_state p = CAP_ENABLED \<and> unexpired (perm_expires_at p) now) (db_permissions db)"

definition has_assignment :: "uuid \<Rightarrow> uuid \<Rightarrow> time \<Rightarrow> control_db \<Rightarrow> bool" where
  "has_assignment user_id server_id now db \<longleftrightarrow>
     list_ex (\<lambda>a. asg_user_id a = user_id \<and> asg_server_id a = server_id \<and>
       asg_state a = LIFE_ACTIVE \<and> unexpired (asg_expires_at a) now) (db_assignments db)"

lemma require_permission_grants:
  "require_permission u p now db = Inr () \<Longrightarrow> has_permission u p now db"
  by (auto simp: require_permission_def has_permission_def list_ex_iff
      split: option.splits if_splits dest!: find_SomeD)

lemma require_assignment_grants:
  "require_assignment u s now db = Inr () \<Longrightarrow> has_assignment u s now db"
  by (auto simp: require_assignment_def has_assignment_def list_ex_iff
      split: option.splits if_splits dest!: find_SomeD)

lemma authorize_InrD:
  assumes "authorize user_id device_id server_code profile_code now db = Inr (device, profile, server, capability)"
  shows "device \<in> set (db_devices db) \<and> dev_id device = device_id \<and> dev_user_id device = user_id \<and>
      dev_state device = LIFE_ACTIVE"
    and "\<And>u. user_by_id user_id db = Some u \<Longrightarrow> usr_quota_exhausted_at u = None"
    and "profile \<in> set (db_profiles db) \<and> pp_code profile = profile_code \<and> pp_state profile = IMPLEMENTED"
    and "server \<in> set (db_servers db) \<and> srv_code server = server_code \<and> srv_state server = SERVER_ACTIVE"
    and "capability \<in> set (db_capabilities db) \<and> cap_server_id capability = srv_id server \<and>
      cap_profile_id capability = pp_id profile \<and> cap_state capability = CAP_ENABLED"
    and "has_permission user_id (pp_id profile) now db"
    and "has_assignment user_id (srv_id server) now db"
proof -
  from assms have a: "require_active_device device_id user_id db = Inr device"
      "require_traffic_allowance user_id db = Inr ()" "require_profile profile_code db = Inr profile"
      "require_active_server server_code (pp_id profile) db = Inr (server, capability)"
      "require_permission user_id (pp_id profile) now db = Inr ()"
      "require_assignment user_id (srv_id server) now db = Inr ()"
    by (auto simp: authorize_def andthen_Inr split: prod.splits)
  show "device \<in> set (db_devices db) \<and> dev_id device = device_id \<and> dev_user_id device = user_id \<and>
      dev_state device = LIFE_ACTIVE"
    using a(1) by (auto simp: require_active_device_def owned_device_def
        split: option.splits if_splits dest!: find_SomeD)
  show "\<And>u. user_by_id user_id db = Some u \<Longrightarrow> usr_quota_exhausted_at u = None"
    using a(2) by (simp add: require_traffic_allowance_def split: if_splits)
  show "profile \<in> set (db_profiles db) \<and> pp_code profile = profile_code \<and> pp_state profile = IMPLEMENTED"
    using a(3) by (auto simp: require_profile_def split: option.splits dest!: find_SomeD)
  show "server \<in> set (db_servers db) \<and> srv_code server = server_code \<and> srv_state server = SERVER_ACTIVE"
    and "capability \<in> set (db_capabilities db) \<and> cap_server_id capability = srv_id server \<and>
      cap_profile_id capability = pp_id profile \<and> cap_state capability = CAP_ENABLED"
    using a(4) by (auto simp: require_active_server_def server_by_code_def
        split: option.splits if_splits dest!: find_SomeD)
  show "has_permission user_id (pp_id profile) now db" using a(5) by (rule require_permission_grants)
  show "has_assignment user_id (srv_id server) now db" using a(6) by (rule require_assignment_grants)
qed

lemma allocate_address_InrD:
  assumes "allocate_address server db = Inr address"
  shows "\<exists>pool. srv_client_pool server = Some pool \<and> address \<in> pool_hosts pool \<and>
    srv_gateway_address server \<noteq> Some address \<and>
    address \<notin> wp_assigned_address ` set (live_on (srv_id server) (db_peers db))"
proof -
  from assms obtain pool where pool: "srv_client_pool server = Some pool"
    and a: "allocate_next_address pool (srv_gateway_address server)
      (map wp_assigned_address (live_on (srv_id server) (db_peers db))) = Some address"
    by (auto simp: allocate_address_def split: option.splits)
  then show ?thesis using allocate_SomeD [OF a] by auto
qed

text \<open>
  With one row per account and profile (a unique constraint), and one per account and server
  (the access service reuses the row), the first row a guard reads is the only one.
\<close>

definition access_keys :: "control_db \<Rightarrow> bool" where
  "access_keys db \<longleftrightarrow>
     distinct (map (\<lambda>p. (perm_user_id p, perm_profile_id p)) (db_permissions db)) \<and>
     distinct (map (\<lambda>a. (asg_user_id a, asg_server_id a)) (db_assignments db))"

lemma find_unique:
  assumes "distinct (map k xs)" "x \<in> set xs" "P = (\<lambda>y. k y = k x)"
  shows "find P xs = Some x"
  using find_key_distinct [OF assms(1,2)] by (simp add: assms(3))

lemma require_permission_iff:
  assumes "access_keys db"
  shows "require_permission u p now db = Inr () \<longleftrightarrow> has_permission u p now db"
proof
  assume "has_permission u p now db"
  then obtain r where r: "r \<in> set (db_permissions db)" "perm_user_id r = u" "perm_profile_id r = p"
      "perm_state r = CAP_ENABLED" "unexpired (perm_expires_at r) now"
    by (auto simp: has_permission_def list_ex_iff)
  have "find (\<lambda>x. perm_user_id x = u \<and> perm_profile_id x = p) (db_permissions db) = Some r"
    using assms r by (intro find_unique [where k = "\<lambda>p. (perm_user_id p, perm_profile_id p)"])
      (auto simp: access_keys_def)
  with r show "require_permission u p now db = Inr ()" by (simp add: require_permission_def)
qed (rule require_permission_grants)

lemma require_assignment_iff:
  assumes "access_keys db"
  shows "require_assignment u s now db = Inr () \<longleftrightarrow> has_assignment u s now db"
proof
  assume "has_assignment u s now db"
  then obtain r where r: "r \<in> set (db_assignments db)" "asg_user_id r = u" "asg_server_id r = s"
      "asg_state r = LIFE_ACTIVE" "unexpired (asg_expires_at r) now"
    by (auto simp: has_assignment_def list_ex_iff)
  have "find (\<lambda>x. asg_user_id x = u \<and> asg_server_id x = s) (db_assignments db) = Some r"
    using assms r by (intro find_unique [where k = "\<lambda>a. (asg_user_id a, asg_server_id a)"])
      (auto simp: access_keys_def)
  with r show "require_assignment u s now db = Inr ()" by (simp add: require_assignment_def)
qed (rule require_assignment_grants)

end
