(* ===== verification/Provisioning.thy ===== *)
theory Provisioning
  imports Provisioning_Guards
begin

text \<open>
  Connecting and disconnecting a device (\<open>provisioning/service.py\<close>, \<open>ProvisioningService\<close>).
  Each handler has three phases, and so has the model:

  \<^item> phase A, one transaction: the guards, the rows and a running agent operation
    (\<open>request_peer_begin\<close>, \<open>revoke_peer_begin\<close> and their Xray siblings);
  \<^item> phase B, the call of the agent, outside any transaction: a parameter, which also returns
    the database as other transactions left it meanwhile;
  \<^item> phase C, one transaction that records the outcome (\<open>request_peer_end\<close> and so on).

  A transaction that raises leaves the database as it was. Advisory and row locks order
  transactions; a transaction is atomic here, so they have no counterpart.
\<close>

subsection \<open>The agent's answers\<close>

datatype provision_state = PROVISION_ACTIVE | PROVISION_FAILED
datatype revoke_state = REVOKE_REVOKED | REVOKE_FAILED

record provision_device_response =
  pdr_state :: provision_state
  pdr_applied_generation :: int
  pdr_error_code :: "string option"
  pdr_server_public_key :: string
  pdr_listen_port :: int
  pdr_public_endpoint :: string
  pdr_client_dns :: string
  pdr_client_allowed_ips :: string
  pdr_persistent_keepalive_seconds :: int

record revoke_device_response =
  rdr_state :: revoke_state
  rdr_applied_generation :: int
  rdr_error_code :: "string option"
  rdr_revoked_at :: time

record provision_xray_client_response =
  pxr_state :: provision_state
  pxr_applied_generation :: int
  pxr_error_code :: "string option"
  pxr_server_address :: string
  pxr_port :: int
  pxr_sni :: string
  pxr_transport :: string
  pxr_transport_security :: string
  pxr_path :: "string option"
  pxr_service_name :: "string option"
  pxr_obfs_password :: "string option"
  pxr_port_hop :: "string option"
  pxr_protocol :: string
  pxr_method :: "string option"
  pxr_password :: "string option"
  pxr_encryption :: "string option"
  pxr_reality_public_key :: "string option"
  pxr_reality_short_id :: "string option"
  pxr_flow :: "string option"

text \<open>The response models check the error code's format before the service sees it.\<close>

definition validate_error_code :: "string option \<Rightarrow> bool" where
  "validate_error_code value \<longleftrightarrow> optional error_code_format value"

definition profile_code_format :: "string \<Rightarrow> bool" where
  "profile_code_format s \<longleftrightarrow>
     s \<noteq> [] \<and> is_lower_alnum (hd s) \<and>
     list_all (\<lambda>c. is_lower_alnum c \<or> c = CHR ''-'') (tl s) \<and> length s \<le> 64"

subsection \<open>The handlers' results\<close>

record request_peer_result =
  rpr_peer_id :: uuid
  rpr_assigned_address :: string
  rpr_server_public_key :: string
  rpr_listen_port :: int
  rpr_public_endpoint :: string
  rpr_client_dns :: string
  rpr_client_allowed_ips :: string
  rpr_persistent_keepalive_seconds :: int

record revoke_result =
  rv_row_id :: uuid
  rv_revoked_at :: time

record request_xray_client_result =
  rxr_client_id :: uuid
  rxr_uuid :: uuid
  rxr_ad_block :: bool
  rxr_response :: provision_xray_client_response

definition AD_BLOCK_DNS_SERVER :: string where
  "AD_BLOCK_DNS_SERVER = ''94.140.14.14''"

subsection \<open>Statements and operations\<close>

text \<open>The statements of one flush or commit: each is checked as it runs.\<close>

fun statements :: "(control_db \<Rightarrow> control_db) list \<Rightarrow> control_db \<Rightarrow> (db_error, control_db) result" where
  "statements [] db = Inr db"
| "statements (s # ss) db =
     (case constrained (s db) of Inl e \<Rightarrow> Inl e | Inr db' \<Rightarrow> statements ss db')"

definition insert_credential :: "credential_row \<Rightarrow> control_db \<Rightarrow> control_db" where
  "insert_credential c db = db\<lparr>db_credentials := db_credentials db @ [c]\<rparr>"

definition insert_operation :: "agent_operation_row \<Rightarrow> control_db \<Rightarrow> control_db" where
  "insert_operation p db = db\<lparr>db_operations := db_operations db @ [p]\<rparr>"

text \<open>An \<open>Integer\<close> column.\<close>

definition int4_ok :: "int \<Rightarrow> bool" where
  "int4_ok v \<longleftrightarrow> - 2147483648 \<le> v \<and> v \<le> 2147483647"

definition fingerprint :: "(string \<Rightarrow> string) \<Rightarrow> string list \<Rightarrow> string" where
  "fingerprint sha256 parts = sha256 (join_text [CHR 0x00] parts)"

definition running_op ::
  "string \<Rightarrow> string \<Rightarrow> uuid \<Rightarrow> uuid \<Rightarrow> uuid \<Rightarrow> int \<Rightarrow> string \<Rightarrow> time \<Rightarrow> control_db \<Rightarrow>
   agent_operation_row \<times> control_db" where
  "running_op kind target_kind server_id target_id request_id generation fprint now db =
     (let (key, db) = uuid4 db; (i, db) = uuid4 db
      in (\<lparr>op_id = i, op_server_id = server_id, op_idempotency_key = key,
           op_correlation_id = request_id, op_kind = kind, op_target_kind = target_kind,
           op_target_id = target_id, op_state = OP_RUNNING, op_desired_generation = generation,
           op_request_fingerprint = fprint, op_attempt_count = 0, op_requested_at = now,
           op_started_at = Some now, op_finished_at = None, op_error_code = None\<rparr>, db))"

text \<open>What phase A hands to phases B and C.\<close>

record pending_call =
  pc_host :: string
  pc_port :: int
  pc_row_id :: uuid
  pc_credential_id :: uuid
  pc_operation_id :: uuid
  pc_idempotency_key :: uuid
  pc_generation :: int

record peer_call = pending_call +
  pc_public_key :: string
  pc_address :: ip_address
  pc_ad_block :: bool

record peer_removal = pending_call +
  pr_public_key :: string

record client_call = pending_call +
  cc_client_uuid :: uuid
  cc_profile_code :: string
  cc_ad_block :: bool

record client_removal = pending_call +
  cx_client_uuid :: uuid
  cx_profile_code :: string

record connect_request =
  cq_user_id :: uuid
  cq_device_id :: uuid
  cq_server_code :: string
  cq_profile_code :: string
  cq_request_id :: uuid

subsection \<open>Phase A\<close>

text \<open>\<open>_require_rate_limit\<close> when the limiter said no: the denial is recorded and committed.\<close>

definition rate_limited :: "int \<Rightarrow> connect_request \<Rightarrow> control_db \<Rightarrow> prov_error \<times> control_db" where
  "rate_limited window req db =
     (case constrained (add_audit_event ''user'' (Some (cq_user_id req)) ''user'' (cq_user_id req)
             ''auth_rate_limited'' ''denied'' (cq_request_id req) (Some ''rate_limited'') db) of
        Inl e \<Rightarrow> (ProvDatabase e, db)
      | Inr db' \<Rightarrow> (ProvisioningRateLimited window, db'))"

definition new_credential ::
  "uuid \<Rightarrow> string \<Rightarrow> device_row \<Rightarrow> protocol_profile \<Rightarrow> vpn_server \<Rightarrow> time \<Rightarrow> credential_row" where
  "new_credential i kind device profile server now =
     \<lparr>cred_id = i, cred_device_id = dev_id device, cred_profile_id = pp_id profile,
      cred_server_id = srv_id server, cred_kind = kind, cred_state = REQUESTED, cred_generation = 1,
      cred_ciphertext = None, cred_nonce = None, cred_key_version = None,
      cred_key_fingerprint = None, cred_key_material_lost_at = None,
      cred_issued_at = now, cred_expires_at = None, cred_revoked_at = None\<rparr>"

definition new_peer ::
  "uuid \<Rightarrow> uuid \<Rightarrow> device_row \<Rightarrow> protocol_profile \<Rightarrow> vpn_server \<Rightarrow> string \<Rightarrow> ip_address \<Rightarrow> time \<Rightarrow> wg_peer" where
  "new_peer i credential_id device profile server public_key address dbnow =
     \<lparr>rt_id = i, rt_credential_id = credential_id, rt_device_id = dev_id device,
      rt_profile_id = pp_id profile, rt_server_id = srv_id server, rt_state = APPLYING,
      rt_applied_generation = 0, rt_applied_at = None, rt_revoked_at = None, rt_updated_at = dbnow,
      wp_public_key = public_key, wp_assigned_address = address\<rparr>"

definition new_client ::
  "uuid \<Rightarrow> uuid \<Rightarrow> device_row \<Rightarrow> protocol_profile \<Rightarrow> vpn_server \<Rightarrow> string \<Rightarrow> time \<Rightarrow> xray_client" where
  "new_client i credential_id device profile server label dbnow =
     \<lparr>rt_id = i, rt_credential_id = credential_id, rt_device_id = dev_id device,
      rt_profile_id = pp_id profile, rt_server_id = srv_id server, rt_state = APPLYING,
      rt_applied_generation = 0, rt_applied_at = None, rt_revoked_at = None, rt_updated_at = dbnow,
      xc_opaque_label = label\<rparr>"

definition live_peer :: "uuid \<Rightarrow> uuid \<Rightarrow> control_db \<Rightarrow> wg_peer option" where
  "live_peer device_id server_id db =
     find (\<lambda>p. rt_device_id p = device_id \<and> rt_server_id p = server_id \<and> live (rt_state p)) (db_peers db)"

definition live_client :: "uuid \<Rightarrow> uuid \<Rightarrow> uuid \<Rightarrow> control_db \<Rightarrow> xray_client option" where
  "live_client device_id profile_id server_id db =
     find (\<lambda>x. rt_device_id x = device_id \<and> rt_profile_id x = profile_id \<and>
       rt_server_id x = server_id \<and> live (rt_state x)) (db_clients db)"

text \<open>The two branches of \<open>request_peer\<close>: an active peer connects again, or a new one is made.\<close>

definition peer_again ::
  "(string \<Rightarrow> string) \<Rightarrow> connect_request \<Rightarrow> string \<Rightarrow> protocol_profile \<Rightarrow> vpn_server \<Rightarrow> wg_peer \<Rightarrow>
   time \<Rightarrow> time \<Rightarrow> control_db \<Rightarrow> (prov_error, peer_call) result \<times> control_db" where
  "peer_again sha256 req public_key profile server peer dbnow now db =
     (case credential_by_id (rt_credential_id peer) db of
        None \<Rightarrow> (Inl ProvisioningRejected, db)
      | Some credential \<Rightarrow>
          let address = wp_assigned_address peer; generation = rt_applied_generation peer + 1;
              (oper, db1) = running_op ''provision_device'' ''wireguard_peer'' (srv_id server) (rt_id peer)
                (cq_request_id req) generation
                (fingerprint sha256 [''provision_device'', uuid_text (rt_id peer), public_key, ip_text address])
                now db
          in if \<not> int4_ok generation then (Inl (ProvDatabase DataError), db)
             else (case statements
                      [insert_operation oper,
                       write_credential (cred_id credential)
                         (\<lambda>c. c\<lparr>cred_profile_id := pp_id profile, cred_state := APPLYING\<rparr>),
                       write_row peer_table dbnow (rt_id peer)
                         (\<lambda>p. p\<lparr>wp_public_key := public_key, rt_profile_id := pp_id profile,
                                rt_state := APPLYING\<rparr>)] db1 of
                     Inl e \<Rightarrow> (Inl (ProvDatabase e), db)
                   | Inr db2 \<Rightarrow>
                       (Inr \<lparr>pc_host = srv_agent_host server, pc_port = srv_agent_port server,
                             pc_row_id = rt_id peer, pc_credential_id = cred_id credential,
                             pc_operation_id = op_id oper, pc_idempotency_key = op_idempotency_key oper,
                             pc_generation = generation, pc_public_key = public_key,
                             pc_address = address, pc_ad_block = pp_ad_block profile\<rparr>, db2)))"

definition peer_new ::
  "(string \<Rightarrow> string) \<Rightarrow> connect_request \<Rightarrow> string \<Rightarrow> device_row \<Rightarrow> protocol_profile \<Rightarrow> vpn_server \<Rightarrow>
   capability_row \<Rightarrow> time \<Rightarrow> time \<Rightarrow> control_db \<Rightarrow> (prov_error, peer_call) result \<times> control_db" where
  "peer_new sha256 req public_key device profile server capability dbnow now db =
     (case andthen (require_capacity server capability db) (\<lambda>_. allocate_address server db) of
        Inl e \<Rightarrow> (Inl e, db)
      | Inr address \<Rightarrow>
          let (credential_id, db1) = uuid4 db; (peer_id, db2) = uuid4 db1;
              (oper, db3) = running_op ''provision_device'' ''wireguard_peer'' (srv_id server) peer_id
                (cq_request_id req) 1
                (fingerprint sha256 [''provision_device'', uuid_text peer_id, public_key, ip_text address])
                now db2
          in (case statements
                     [insert_credential (new_credential credential_id ''wireguard_public'' device profile server now),
                      insert_row peer_table
                        (new_peer peer_id credential_id device profile server public_key address dbnow),
                      insert_operation oper] db3 of
                Inl e \<Rightarrow> (Inl (ProvDatabase e), db)
              | Inr db4 \<Rightarrow>
                  (Inr \<lparr>pc_host = srv_agent_host server, pc_port = srv_agent_port server,
                        pc_row_id = peer_id, pc_credential_id = credential_id,
                        pc_operation_id = op_id oper, pc_idempotency_key = op_idempotency_key oper,
                        pc_generation = 1, pc_public_key = public_key,
                        pc_address = address, pc_ad_block = pp_ad_block profile\<rparr>, db4)))"

definition request_peer_begin ::
  "(string \<Rightarrow> string) \<Rightarrow> int \<Rightarrow> bool \<Rightarrow> connect_request \<Rightarrow> string \<Rightarrow> time \<Rightarrow> time \<Rightarrow> control_db \<Rightarrow>
   (prov_error, peer_call) result \<times> control_db" where
  "request_peer_begin sha256 window allowed req public_key dbnow now db =
     (if \<not> public_key_canonical public_key then (Inl ProvisioningRejected, db)
      else if \<not> allowed then map_prod Inl id (rate_limited window req db)
      else (case authorize (cq_user_id req) (cq_device_id req) (cq_server_code req)
                   (cq_profile_code req) now db of
              Inl e \<Rightarrow> (Inl e, db)
            | Inr (device, profile, server, capability) \<Rightarrow>
                (case live_peer (dev_id device) (srv_id server) db of
                   Some peer \<Rightarrow>
                     if rt_state peer \<noteq> ACTIVE then (Inl OperationInProgress, db)
                     else peer_again sha256 req public_key profile server peer dbnow now db
                 | None \<Rightarrow> peer_new sha256 req public_key device profile server capability dbnow now db)))"

text \<open>The columns a removal writes first.\<close>

definition row_removing :: "'a cred_row_scheme \<Rightarrow> 'a cred_row_scheme" where
  "row_removing r = r\<lparr>rt_state := REVOKING\<rparr>"

definition revoke_peer_begin ::
  "(string \<Rightarrow> string) \<Rightarrow> int \<Rightarrow> bool \<Rightarrow> connect_request \<Rightarrow> time \<Rightarrow> time \<Rightarrow> control_db \<Rightarrow>
   (prov_error, peer_removal) result \<times> control_db" where
  "revoke_peer_begin sha256 window allowed req dbnow now db =
     (if \<not> allowed then map_prod Inl id (rate_limited window req db)
      else (case (owned_device (cq_device_id req) (cq_user_id req) db, server_by_code (cq_server_code req) db) of
              (Some device, Some server) \<Rightarrow>
                (case live_peer (dev_id device) (srv_id server) db of
                   None \<Rightarrow> (Inl ProvisioningRejected, db)
                 | Some peer \<Rightarrow>
                     if rt_state peer \<noteq> ACTIVE then (Inl OperationInProgress, db)
                     else (case credential_by_id (rt_credential_id peer) db of
                             None \<Rightarrow> (Inl ProvisioningRejected, db)
                           | Some credential \<Rightarrow>
                               let (oper, db1) = running_op ''revoke_device'' ''wireguard_peer'' (srv_id server)
                                     (rt_id peer) (cq_request_id req) (rt_applied_generation peer)
                                     (fingerprint sha256 [''revoke_device'', uuid_text (rt_id peer), wp_public_key peer])
                                     now db
                               in (case statements
                                          [insert_operation oper,
                                           write_credential (cred_id credential) credential_revoking,
                                           write_row peer_table dbnow (rt_id peer) row_removing] db1 of
                                     Inl e \<Rightarrow> (Inl (ProvDatabase e), db)
                                   | Inr db2 \<Rightarrow>
                                       (Inr \<lparr>pc_host = srv_agent_host server, pc_port = srv_agent_port server,
                                             pc_row_id = rt_id peer, pc_credential_id = cred_id credential,
                                             pc_operation_id = op_id oper,
                                             pc_idempotency_key = op_idempotency_key oper,
                                             pc_generation = rt_applied_generation peer,
                                             pr_public_key = wp_public_key peer\<rparr>, db2))))
            | _ \<Rightarrow> (Inl ProvisioningRejected, db)))"

definition agent_profile_code :: "protocol_profile \<Rightarrow> string" where
  "agent_profile_code profile =
     (case pp_agent_profile_code profile of
        Some code \<Rightarrow> if code = [] then pp_code profile else code
      | None \<Rightarrow> pp_code profile)"

text \<open>The two branches of \<open>request_xray_client\<close>.\<close>

definition client_again ::
  "(bytes \<Rightarrow> bytes \<Rightarrow> bytes \<Rightarrow> bytes \<Rightarrow> bytes option) \<Rightarrow> key_ring \<Rightarrow> (string \<Rightarrow> string) \<Rightarrow> connect_request \<Rightarrow>
   device_row \<Rightarrow> protocol_profile \<Rightarrow> vpn_server \<Rightarrow> xray_client \<Rightarrow> time \<Rightarrow> time \<Rightarrow> control_db \<Rightarrow>
   (prov_error, client_call) result \<times> control_db" where
  "client_again dec ring sha256 req device profile server client dbnow now db =
     (case credential_by_id (rt_credential_id client) db of
        None \<Rightarrow> (Inl ProvisioningRejected, db)
      | Some credential \<Rightarrow>
          (case stored_client_uuid dec ring (dev_id device) credential of
             None \<Rightarrow> (Inl ProvisioningRejected, db)
           | Some client_uuid \<Rightarrow>
               let generation = rt_applied_generation client + 1;
                   (oper, db1) = running_op ''provision_device'' ''xray_client'' (srv_id server) (rt_id client)
                     (cq_request_id req) generation
                     (fingerprint sha256 [''provision_device'', uuid_text (rt_id client), xc_opaque_label client])
                     now db
               in if \<not> int4_ok generation then (Inl (ProvDatabase DataError), db)
                  else (case statements
                           [insert_operation oper,
                            write_credential (cred_id credential) (\<lambda>c. c\<lparr>cred_state := APPLYING\<rparr>),
                            write_row client_table dbnow (rt_id client) (\<lambda>x. x\<lparr>rt_state := APPLYING\<rparr>)] db1 of
                          Inl e \<Rightarrow> (Inl (ProvDatabase e), db)
                        | Inr db2 \<Rightarrow>
                            (Inr \<lparr>pc_host = srv_agent_host server, pc_port = srv_agent_port server,
                                  pc_row_id = rt_id client, pc_credential_id = cred_id credential,
                                  pc_operation_id = op_id oper, pc_idempotency_key = op_idempotency_key oper,
                                  pc_generation = generation, cc_client_uuid = client_uuid,
                                  cc_profile_code = agent_profile_code profile,
                                  cc_ad_block = pp_ad_block profile\<rparr>, db2))))"

definition seal_credential ::
  "(bytes \<Rightarrow> string) \<Rightarrow> bytes \<Rightarrow> xray_envelope \<Rightarrow> credential_row \<Rightarrow> credential_row" where
  "seal_credential sha256 key envelope c =
     c\<lparr>cred_ciphertext := Some (env_ciphertext envelope), cred_nonce := Some (env_nonce envelope),
       cred_key_version := Some (decimal (nat (env_key_version envelope))),
       cred_key_fingerprint := Some (key_fingerprint sha256 key)\<rparr>"

definition client_new ::
  "(bytes \<Rightarrow> bytes \<Rightarrow> bytes \<Rightarrow> bytes \<Rightarrow> bytes) \<Rightarrow> key_ring \<Rightarrow> int \<Rightarrow> bytes \<Rightarrow> string \<Rightarrow> (string \<Rightarrow> string) \<Rightarrow>
   connect_request \<Rightarrow> device_row \<Rightarrow> protocol_profile \<Rightarrow> vpn_server \<Rightarrow> capability_row \<Rightarrow> time \<Rightarrow> time \<Rightarrow>
   control_db \<Rightarrow> (prov_error, client_call) result \<times> control_db" where
  "client_new enc ring key_version nonce label sha256 req device profile server capability dbnow now db =
     (case require_xray_capacity server capability db of
        Inl e \<Rightarrow> (Inl e, db)
      | Inr _ \<Rightarrow>
          let (client_uuid, db1) = uuid4 db; (credential_id, db2) = uuid4 db1; (client_id, db3) = uuid4 db2;
              (oper, db4) = running_op ''provision_device'' ''xray_client'' (srv_id server) client_id
                (cq_request_id req) 1
                (fingerprint sha256 [''provision_device'', uuid_text client_id, label]) now db3
          in (case statements
                     [insert_credential (new_credential credential_id ''xray_bearer'' device profile server now)] db4 of
                Inl e \<Rightarrow> (Inl (ProvDatabase e), db)
              | Inr db5 \<Rightarrow>
                  (case (encrypt_xray_credential enc client_uuid (dev_id device) credential_id key_version ring nonce,
                         ring key_version) of
                     (Some envelope, Some key) \<Rightarrow>
                       (case statements
                               [write_credential credential_id (seal_credential sha256 key envelope),
                                insert_row client_table
                                  (new_client client_id credential_id device profile server label dbnow),
                                insert_operation oper] db5 of
                          Inl e \<Rightarrow> (Inl (ProvDatabase e), db)
                        | Inr db6 \<Rightarrow>
                            (Inr \<lparr>pc_host = srv_agent_host server, pc_port = srv_agent_port server,
                                  pc_row_id = client_id, pc_credential_id = credential_id,
                                  pc_operation_id = op_id oper, pc_idempotency_key = op_idempotency_key oper,
                                  pc_generation = 1, cc_client_uuid = client_uuid,
                                  cc_profile_code = agent_profile_code profile,
                                  cc_ad_block = pp_ad_block profile\<rparr>, db6))
                   | _ \<Rightarrow> (Inl ProvEncryption, db))))"

definition request_xray_client_begin ::
  "(bytes \<Rightarrow> bytes \<Rightarrow> bytes \<Rightarrow> bytes \<Rightarrow> bytes) \<Rightarrow> (bytes \<Rightarrow> bytes \<Rightarrow> bytes \<Rightarrow> bytes \<Rightarrow> bytes option) \<Rightarrow> key_ring \<Rightarrow>
   int \<Rightarrow> bytes \<Rightarrow> string \<Rightarrow> (string \<Rightarrow> string) \<Rightarrow> int \<Rightarrow> bool \<Rightarrow> connect_request \<Rightarrow> time \<Rightarrow> time \<Rightarrow> control_db \<Rightarrow>
   (prov_error, client_call) result \<times> control_db" where
  "request_xray_client_begin enc dec ring key_version nonce label sha256 window allowed req dbnow now db =
     (if \<not> allowed then map_prod Inl id (rate_limited window req db)
      else (case authorize (cq_user_id req) (cq_device_id req) (cq_server_code req)
                   (cq_profile_code req) now db of
              Inl e \<Rightarrow> (Inl e, db)
            | Inr (device, profile, server, capability) \<Rightarrow>
                (case live_client (dev_id device) (pp_id profile) (srv_id server) db of
                   Some client \<Rightarrow>
                     if rt_state client \<noteq> ACTIVE then (Inl XrayOperationInProgress, db)
                     else client_again dec ring sha256 req device profile server client dbnow now db
                 | None \<Rightarrow> client_new enc ring key_version nonce label sha256 req device profile server
                              capability dbnow now db)))"

definition revoke_xray_client_begin ::
  "(bytes \<Rightarrow> bytes \<Rightarrow> bytes \<Rightarrow> bytes \<Rightarrow> bytes option) \<Rightarrow> key_ring \<Rightarrow> (string \<Rightarrow> string) \<Rightarrow> int \<Rightarrow> bool \<Rightarrow>
   connect_request \<Rightarrow> time \<Rightarrow> time \<Rightarrow> control_db \<Rightarrow> (prov_error, client_removal) result \<times> control_db" where
  "revoke_xray_client_begin dec ring sha256 window allowed req dbnow now db =
     (if \<not> allowed then map_prod Inl id (rate_limited window req db)
      else (case (owned_device (cq_device_id req) (cq_user_id req) db, server_by_code (cq_server_code req) db,
                  require_profile (cq_profile_code req) db) of
              (Some device, Some server, Inr profile) \<Rightarrow>
                (case live_client (dev_id device) (pp_id profile) (srv_id server) db of
                   None \<Rightarrow> (Inl ProvisioningRejected, db)
                 | Some client \<Rightarrow>
                     if rt_state client \<noteq> ACTIVE then (Inl XrayOperationInProgress, db)
                     else (case credential_by_id (rt_credential_id client) db of
                             None \<Rightarrow> (Inl ProvisioningRejected, db)
                           | Some credential \<Rightarrow>
                               (case stored_client_uuid dec ring (dev_id device) credential of
                                  None \<Rightarrow> (Inl ProvisioningRejected, db)
                                | Some client_uuid \<Rightarrow>
                                    let (oper, db1) = running_op ''revoke_device'' ''xray_client'' (srv_id server)
                                          (rt_id client) (cq_request_id req) (rt_applied_generation client)
                                          (fingerprint sha256 [''revoke_device'', uuid_text (rt_id client),
                                             xc_opaque_label client]) now db
                                    in (case statements
                                               [insert_operation oper,
                                                write_credential (cred_id credential) credential_revoking,
                                                write_row client_table dbnow (rt_id client) row_removing] db1 of
                                          Inl e \<Rightarrow> (Inl (ProvDatabase e), db)
                                        | Inr db2 \<Rightarrow>
                                            (Inr \<lparr>pc_host = srv_agent_host server, pc_port = srv_agent_port server,
                                                  pc_row_id = rt_id client, pc_credential_id = cred_id credential,
                                                  pc_operation_id = op_id oper,
                                                  pc_idempotency_key = op_idempotency_key oper,
                                                  pc_generation = rt_applied_generation client,
                                                  cx_client_uuid = client_uuid,
                                                  cx_profile_code = agent_profile_code profile\<rparr>, db2)))))
            | _ \<Rightarrow> (Inl ProvisioningRejected, db)))"

subsection \<open>Phase C\<close>

definition audit_transition ::
  "uuid \<Rightarrow> uuid \<Rightarrow> uuid \<Rightarrow> uuid \<Rightarrow> uuid \<Rightarrow> string \<Rightarrow> string \<Rightarrow> string \<Rightarrow> control_db \<Rightarrow> control_db" where
  "audit_transition credential_id row_id operation_id user_id request_id outcome reason row_kind db =
     add_audit_event ''user'' (Some user_id) ''agent_operation'' operation_id ''operation_changed''
       outcome request_id (Some outcome)
     (add_audit_event ''user'' (Some user_id) row_kind row_id ''peer_changed''
       outcome request_id (Some reason)
     (add_audit_event ''user'' (Some user_id) ''device_credential'' credential_id ''credential_changed''
       outcome request_id (Some reason) db))"

text \<open>\<open>_lock_triple\<close> and \<open>_lock_xray_triple\<close>.\<close>

definition lock_triple ::
  "'a row_table \<Rightarrow> 'b pending_call_scheme \<Rightarrow> control_db \<Rightarrow>
   ('a cred_row_scheme \<times> credential_row \<times> agent_operation_row) option" where
  "lock_triple T call db =
     (case (row_by_id T (pc_row_id call) db, credential_by_id (pc_credential_id call) db,
            operation_by_id (pc_operation_id call) db) of
        (Some r, Some c, Some p) \<Rightarrow> Some (r, c, p)
      | _ \<Rightarrow> None)"

text \<open>
  The shape all six finalizers share: lock the three rows, write them, record the events,
  commit.
\<close>

definition settle ::
  "'a row_table \<Rightarrow> time \<Rightarrow> 'b pending_call_scheme \<Rightarrow> ('a cred_row_scheme \<Rightarrow> 'a cred_row_scheme) \<Rightarrow>
   (credential_row \<Rightarrow> credential_row) \<Rightarrow> (agent_operation_row \<Rightarrow> agent_operation_row) \<Rightarrow>
   uuid \<Rightarrow> uuid \<Rightarrow> string \<Rightarrow> string \<Rightarrow> control_db \<Rightarrow> (prov_error, unit) result \<times> control_db" where
  "settle T dbnow call f g h user_id request_id outcome reason db =
     (case lock_triple T call db of
        None \<Rightarrow> (Inl ProvisioningError, db)
      | Some (r, c, p) \<Rightarrow>
          (case constrained
                 (audit_transition (pc_credential_id call) (pc_row_id call) (pc_operation_id call)
                    user_id request_id outcome reason (tab_kind T)
                  (write_operation (pc_operation_id call) h
                  (write_credential (pc_credential_id call) g
                  (write_row T dbnow (pc_row_id call) f db)))) of
             Inl e \<Rightarrow> (Inl (ProvDatabase e), db)
           | Inr db' \<Rightarrow> (Inr (), db')))"

definition row_active :: "int \<Rightarrow> time \<Rightarrow> 'a cred_row_scheme \<Rightarrow> 'a cred_row_scheme" where
  "row_active generation now r =
     r\<lparr>rt_state := ACTIVE, rt_applied_generation := generation, rt_applied_at := Some now\<rparr>"

definition row_revoked :: "time \<Rightarrow> 'a cred_row_scheme \<Rightarrow> 'a cred_row_scheme" where
  "row_revoked now r = r\<lparr>rt_state := REVOKED, rt_revoked_at := Some now\<rparr>"

definition row_in :: "provisioning_state \<Rightarrow> 'a cred_row_scheme \<Rightarrow> 'a cred_row_scheme" where
  "row_in s r = r\<lparr>rt_state := s\<rparr>"

definition credential_in :: "provisioning_state \<Rightarrow> credential_row \<Rightarrow> credential_row" where
  "credential_in s c = c\<lparr>cred_state := s\<rparr>"

definition credential_revoked :: "time \<Rightarrow> credential_row \<Rightarrow> credential_row" where
  "credential_revoked now c = c\<lparr>cred_state := REVOKED, cred_revoked_at := Some now\<rparr>"

definition op_succeeded :: "time \<Rightarrow> agent_operation_row \<Rightarrow> agent_operation_row" where
  "op_succeeded now p = p\<lparr>op_state := OP_SUCCEEDED, op_finished_at := Some now\<rparr>"

definition op_failed :: "time \<Rightarrow> string \<Rightarrow> agent_operation_row \<Rightarrow> agent_operation_row" where
  "op_failed now error_code p =
     p\<lparr>op_state := OP_FAILED, op_finished_at := Some now, op_error_code := Some error_code\<rparr>"

definition settle_active ::
  "'a row_table \<Rightarrow> time \<Rightarrow> time \<Rightarrow> connect_request \<Rightarrow> 'b pending_call_scheme \<Rightarrow> int \<Rightarrow> control_db \<Rightarrow>
   (prov_error, unit) result \<times> control_db" where
  "settle_active T dbnow now req call generation db =
     (if lock_triple T call db \<noteq> None \<and> \<not> int4_ok generation then (Inl (ProvDatabase DataError), db)
      else settle T dbnow call (row_active generation now) (credential_in ACTIVE) (op_succeeded now)
             (cq_user_id req) (cq_request_id req) ''succeeded'' ''activated'' db)"

definition settle_revoked ::
  "'a row_table \<Rightarrow> time \<Rightarrow> time \<Rightarrow> connect_request \<Rightarrow> 'b pending_call_scheme \<Rightarrow> control_db \<Rightarrow>
   (prov_error, unit) result \<times> control_db" where
  "settle_revoked T dbnow now req call db =
     settle T dbnow call (row_revoked now) (credential_revoked now) (op_succeeded now)
       (cq_user_id req) (cq_request_id req) ''succeeded'' ''revoked'' db"

definition settle_failed ::
  "'a row_table \<Rightarrow> time \<Rightarrow> time \<Rightarrow> connect_request \<Rightarrow> 'b pending_call_scheme \<Rightarrow> string \<Rightarrow> bool \<Rightarrow> control_db \<Rightarrow>
   (prov_error, unit) result \<times> control_db" where
  "settle_failed T dbnow now req call error_code removal_pending db =
     (let pending_state = (if removal_pending then REVOKING else FAILED)
      in settle T dbnow call (row_in pending_state) (credential_in pending_state) (op_failed now error_code)
           (cq_user_id req) (cq_request_id req) ''failed'' (provisioning_text pending_state) db)"

definition finalize_provision_success ::
  "time \<Rightarrow> time \<Rightarrow> connect_request \<Rightarrow> peer_call \<Rightarrow> provision_device_response \<Rightarrow> control_db \<Rightarrow>
   (prov_error, request_peer_result) result \<times> control_db" where
  "finalize_provision_success dbnow now req call response db =
     (case settle_active peer_table dbnow now req call (pdr_applied_generation response) db of
        (Inl e, db') \<Rightarrow> (Inl e, db')
      | (Inr _, db') \<Rightarrow>
          (Inr \<lparr>rpr_peer_id = pc_row_id call, rpr_assigned_address = ip_text (pc_address call),
                rpr_server_public_key = pdr_server_public_key response,
                rpr_listen_port = pdr_listen_port response,
                rpr_public_endpoint = pdr_public_endpoint response,
                rpr_client_dns =
                  (if pc_ad_block call then AD_BLOCK_DNS_SERVER else pdr_client_dns response),
                rpr_client_allowed_ips = pdr_client_allowed_ips response,
                rpr_persistent_keepalive_seconds = pdr_persistent_keepalive_seconds response\<rparr>, db'))"

definition finalize_revoke_success ::
  "time \<Rightarrow> time \<Rightarrow> connect_request \<Rightarrow> peer_removal \<Rightarrow> control_db \<Rightarrow> (prov_error, revoke_result) result \<times> control_db" where
  "finalize_revoke_success dbnow now req call db =
     (case settle_revoked peer_table dbnow now req call db of
        (Inl e, db') \<Rightarrow> (Inl e, db')
      | (Inr _, db') \<Rightarrow> (Inr \<lparr>rv_row_id = pc_row_id call, rv_revoked_at = now\<rparr>, db'))"

definition finalize_failure ::
  "time \<Rightarrow> time \<Rightarrow> connect_request \<Rightarrow> 'b pending_call_scheme \<Rightarrow> string \<Rightarrow> bool \<Rightarrow> control_db \<Rightarrow>
   (prov_error, unit) result \<times> control_db" where
  "finalize_failure dbnow now req call error_code removal_pending db =
     settle_failed peer_table dbnow now req call error_code removal_pending db"

definition finalize_xray_provision_success ::
  "time \<Rightarrow> time \<Rightarrow> connect_request \<Rightarrow> client_call \<Rightarrow> provision_xray_client_response \<Rightarrow> control_db \<Rightarrow>
   (prov_error, request_xray_client_result) result \<times> control_db" where
  "finalize_xray_provision_success dbnow now req call response db =
     (case settle_active client_table dbnow now req call (pxr_applied_generation response) db of
        (Inl e, db') \<Rightarrow> (Inl e, db')
      | (Inr _, db') \<Rightarrow>
          (Inr \<lparr>rxr_client_id = pc_row_id call, rxr_uuid = cc_client_uuid call,
                rxr_ad_block = cc_ad_block call, rxr_response = response\<rparr>, db'))"

definition finalize_xray_revoke_success ::
  "time \<Rightarrow> time \<Rightarrow> connect_request \<Rightarrow> client_removal \<Rightarrow> control_db \<Rightarrow> (prov_error, revoke_result) result \<times> control_db" where
  "finalize_xray_revoke_success dbnow now req call db =
     (case settle_revoked client_table dbnow now req call db of
        (Inl e, db') \<Rightarrow> (Inl e, db')
      | (Inr _, db') \<Rightarrow> (Inr \<lparr>rv_row_id = pc_row_id call, rv_revoked_at = now\<rparr>, db'))"

definition finalize_xray_failure ::
  "time \<Rightarrow> time \<Rightarrow> connect_request \<Rightarrow> 'b pending_call_scheme \<Rightarrow> string \<Rightarrow> bool \<Rightarrow> control_db \<Rightarrow>
   (prov_error, unit) result \<times> control_db" where
  "finalize_xray_failure dbnow now req call error_code removal_pending db =
     settle_failed client_table dbnow now req call error_code removal_pending db"

subsection \<open>The outcome of the call\<close>

fun agent_error_code :: "agent_error \<Rightarrow> string" where
  "agent_error_code (AgentRejected status detail) = error_slug detail"
| "agent_error_code _ = ''agent_unreachable''"

definition code_or :: "string option \<Rightarrow> string \<Rightarrow> string" where
  "code_or code fallback = (case code of Some c \<Rightarrow> if c = [] then fallback else c | None \<Rightarrow> fallback)"

text \<open>A recorded failure, then \<open>raise ProvisioningRejected()\<close>.\<close>

fun rejected_after :: "(prov_error, unit) result \<times> control_db \<Rightarrow> (prov_error, 'r) result \<times> control_db" where
  "rejected_after (Inl e, db) = (Inl e, db)"
| "rejected_after (Inr _, db) = (Inl ProvisioningRejected, db)"

text \<open>
  The \<open>try\<close> statement of all four handlers: what each outcome of the call leads to, given how
  to record a failure and a success, and what the answer says.
\<close>

definition after_call ::
  "(string \<Rightarrow> control_db \<Rightarrow> (prov_error, unit) result \<times> control_db) \<Rightarrow>
   ('r \<Rightarrow> control_db \<Rightarrow> (prov_error, 's) result \<times> control_db) \<Rightarrow> ('r \<Rightarrow> string option option) \<Rightarrow>
   (agent_error, 'r) result \<Rightarrow> control_db \<Rightarrow> (prov_error, 's) result \<times> control_db" where
  "after_call failure success failed_with outcome db =
     (case outcome of
        Inl (AgentResponseAmbiguous m) \<Rightarrow> (Inl ProvisioningAmbiguous, db)
      | Inl (AgentResponseInvalid m) \<Rightarrow> (Inl ProvisioningAmbiguous, db)
      | Inl (AgentClientError m) \<Rightarrow> (Inl (ProvAgent (AgentClientError m)), db)
      | Inl (AgentUnreachable m) \<Rightarrow> rejected_after (failure (agent_error_code (AgentUnreachable m)) db)
      | Inl (AgentRejected status detail) \<Rightarrow>
          rejected_after (failure (agent_error_code (AgentRejected status detail)) db)
      | Inr response \<Rightarrow>
          (case failed_with response of
             Some code \<Rightarrow> rejected_after (failure (code_or code ''agent_rejected'') db)
           | None \<Rightarrow> success response db))"

definition provision_failed :: "provision_device_response \<Rightarrow> string option option" where
  "provision_failed r = (if pdr_state r = PROVISION_FAILED then Some (pdr_error_code r) else None)"

definition revoke_failed :: "revoke_device_response \<Rightarrow> string option option" where
  "revoke_failed r = (if rdr_state r = REVOKE_FAILED then Some (rdr_error_code r) else None)"

definition provision_xray_failed :: "provision_xray_client_response \<Rightarrow> string option option" where
  "provision_xray_failed r = (if pxr_state r = PROVISION_FAILED then Some (pxr_error_code r) else None)"

definition request_peer_end ::
  "time \<Rightarrow> time \<Rightarrow> connect_request \<Rightarrow> peer_call \<Rightarrow> (agent_error, provision_device_response) result \<Rightarrow>
   control_db \<Rightarrow> (prov_error, request_peer_result) result \<times> control_db" where
  "request_peer_end dbnow now req call =
     after_call (\<lambda>code. finalize_failure dbnow now req call code False)
       (finalize_provision_success dbnow now req call) provision_failed"

definition revoke_peer_end ::
  "time \<Rightarrow> time \<Rightarrow> connect_request \<Rightarrow> peer_removal \<Rightarrow> (agent_error, revoke_device_response) result \<Rightarrow>
   control_db \<Rightarrow> (prov_error, revoke_result) result \<times> control_db" where
  "revoke_peer_end dbnow now req call =
     after_call (\<lambda>code. finalize_failure dbnow now req call code True)
       (\<lambda>_. finalize_revoke_success dbnow now req call) revoke_failed"

definition request_xray_client_end ::
  "time \<Rightarrow> time \<Rightarrow> connect_request \<Rightarrow> client_call \<Rightarrow> (agent_error, provision_xray_client_response) result \<Rightarrow>
   control_db \<Rightarrow> (prov_error, request_xray_client_result) result \<times> control_db" where
  "request_xray_client_end dbnow now req call =
     after_call (\<lambda>code. finalize_xray_failure dbnow now req call code False)
       (finalize_xray_provision_success dbnow now req call) provision_xray_failed"

definition revoke_xray_client_end ::
  "time \<Rightarrow> time \<Rightarrow> connect_request \<Rightarrow> client_removal \<Rightarrow> (agent_error, revoke_device_response) result \<Rightarrow>
   control_db \<Rightarrow> (prov_error, revoke_result) result \<times> control_db" where
  "revoke_xray_client_end dbnow now req call =
     after_call (\<lambda>code. finalize_xray_failure dbnow now req call code True)
       (\<lambda>_. finalize_xray_revoke_success dbnow now req call) revoke_failed"

subsection \<open>The handlers\<close>

text \<open>
  \<open>agent\<close> is the call of the agent and whatever other transactions do while it is under way:
  it takes the call and the database and returns the outcome and the database. The first pair
  of times is phase A's, the second phase C's.
\<close>

definition three_phases ::
  "('c \<Rightarrow> bool) \<Rightarrow> (control_db \<Rightarrow> (prov_error, 'c) result \<times> control_db) \<Rightarrow>
   ('c \<Rightarrow> control_db \<Rightarrow> (agent_error, 'r) result \<times> control_db) \<Rightarrow>
   ('c \<Rightarrow> (agent_error, 'r) result \<Rightarrow> control_db \<Rightarrow> (prov_error, 's) result \<times> control_db) \<Rightarrow>
   control_db \<Rightarrow> (prov_error, 's) result \<times> control_db" where
  "three_phases valid first agent last_phase db =
     (case first db of
        (Inl e, db1) \<Rightarrow> (Inl e, db1)
      | (Inr call, db1) \<Rightarrow>
          if \<not> valid call then (Inl InvalidAgentRequest, db1)
          else (let (outcome, db2) = agent call db1 in last_phase call outcome db2))"

text \<open>
  The request models check their own fields when they are built, after phase A committed. A
  peer's key was checked before or comes from a row the constraints checked; a profile's code
  is only checked here.
\<close>

definition request_peer where
  "request_peer sha256 window allowed req public_key t1 t2 agent =
     three_phases (\<lambda>call. public_key_canonical (pc_public_key call))
       (request_peer_begin sha256 window allowed req public_key (fst t1) (snd t1)) agent
       (request_peer_end (fst t2) (snd t2) req)"

definition revoke_peer where
  "revoke_peer sha256 window allowed req t1 t2 agent =
     three_phases (\<lambda>call. public_key_canonical (pr_public_key call))
       (revoke_peer_begin sha256 window allowed req (fst t1) (snd t1)) agent
       (revoke_peer_end (fst t2) (snd t2) req)"

definition request_xray_client where
  "request_xray_client enc dec ring key_version nonce label sha256 window allowed req t1 t2 agent =
     three_phases (\<lambda>call. profile_code_format (cc_profile_code call))
       (request_xray_client_begin enc dec ring key_version nonce label sha256 window allowed req
          (fst t1) (snd t1)) agent
       (request_xray_client_end (fst t2) (snd t2) req)"

definition revoke_xray_client where
  "revoke_xray_client dec ring sha256 window allowed req t1 t2 agent =
     three_phases (\<lambda>call. profile_code_format (cx_profile_code call))
       (revoke_xray_client_begin dec ring sha256 window allowed req (fst t1) (snd t1)) agent
       (revoke_xray_client_end (fst t2) (snd t2) req)"

subsection \<open>DNS profiles\<close>

definition effective_profile :: "string \<Rightarrow> string option \<Rightarrow> string" where
  "effective_profile user_profile device_profile =
     (case device_profile of Some p \<Rightarrow> if p = [] then user_profile else p | None \<Rightarrow> user_profile)"

definition resolvers_for :: "string \<Rightarrow> string \<Rightarrow> string list" where
  "resolvers_for profile deployment_dns =
     (if profile = ''ads'' then [''94.140.14.14'', ''94.140.15.15'']
      else if profile = ''family'' then [''94.140.14.15'', ''94.140.15.16'']
      else if deployment_dns \<noteq> [] then [deployment_dns] else [])"

definition dns_profile_for :: "uuid \<Rightarrow> uuid \<Rightarrow> control_db \<Rightarrow> string" where
  "dns_profile_for user_id device_id db =
     (case (user_by_id user_id db, owned_device device_id user_id db) of
        (Some u, Some d) \<Rightarrow> effective_profile (usr_dns_profile u) (dev_dns_profile d)
      | _ \<Rightarrow> ''default'')"

end
