(* ===== verification/Traffic_Quota.thy ===== *)
theory Traffic_Quota
  imports Usage_Accounts
begin

text \<open>
  Traffic allowances: granting one (\<open>usage/quota.py\<close>) and taking access away when it is spent
  (\<open>usage/enforcement.py\<close>). The sweep measures every metered account that is not marked yet,
  and cuts an exhausted one off: all devices' credentials go to \<open>REVOKING\<close> and the account is
  marked, in one transaction.
\<close>

subsection \<open>Granting an allowance\<close>

definition write_user :: "uuid \<Rightarrow> (user_row \<Rightarrow> user_row) \<Rightarrow> control_db \<Rightarrow> control_db" where
  "write_user i f db = db\<lparr>db_users := update_where (\<lambda>u. usr_id u = i) f (db_users db)\<rparr>"

datatype quota_error = UserNotFound | QuotaDatabase db_error

record quota_change =
  qc_user_id :: uuid
  qc_previous_bytes :: "int option"
  qc_quota_bytes :: "int option"
  qc_previous_used_bytes :: int
  qc_restored_access :: bool

definition grant_traffic_quota ::
  "(string \<Rightarrow> string) \<Rightarrow> (bytes \<Rightarrow> bytes \<Rightarrow> bytes \<Rightarrow> bytes \<Rightarrow> bytes option) \<Rightarrow> key_ring \<Rightarrow> uuid \<Rightarrow> int option \<Rightarrow>
   control_db \<Rightarrow> (quota_error, quota_change) result \<times> control_db" where
  "grant_traffic_quota sha256 dec ring user_id quota_bytes db =
     (let before = usage_for_user sha256 dec ring user_id db in
      case user_by_id user_id db of
        None \<Rightarrow> (Inl UserNotFound, db)
      | Some user \<Rightarrow>
          if \<not> (optional bigint_ok quota_bytes \<and> bigint_ok (lifetime_bytes before))
          then (Inl (QuotaDatabase DataError), db)
          else (Inr \<lparr>qc_user_id = user_id, qc_previous_bytes = usr_traffic_quota_bytes user,
                     qc_quota_bytes = quota_bytes, qc_previous_used_bytes = total_bytes before,
                     qc_restored_access = (usr_quota_exhausted_at user \<noteq> None)\<rparr>,
                write_user user_id (\<lambda>u. u\<lparr>usr_traffic_quota_bytes := quota_bytes,
                    usr_traffic_baseline_bytes := lifetime_bytes before,
                    usr_quota_exhausted_at := None\<rparr>) db))"

subsection \<open>Enforcing it\<close>

record enforcement_summary =
  es_accounts_checked :: int
  es_accounts_exhausted :: int
  es_credentials_revoked :: int
  es_already_enforced :: int
  es_account_ids :: "uuid list"

text \<open>The loop of \<open>_cut_off\<close> over the account's devices.\<close>

fun revoke_devices :: "time \<Rightarrow> time \<Rightarrow> uuid list \<Rightarrow> control_db \<Rightarrow> int \<Rightarrow> control_db \<times> int" where
  "revoke_devices dbnow now [] db revoked = (db, revoked)"
| "revoke_devices dbnow now (d # ds) db revoked =
     (let (db', n) = revoke_device_credentials dbnow d now db
      in revoke_devices dbnow now ds db' (revoked + n))"

definition cut_off :: "time \<Rightarrow> time \<Rightarrow> uuid \<Rightarrow> control_db \<Rightarrow> (db_error, int) result \<times> control_db" where
  "cut_off dbnow now user_id db =
     (case user_by_id user_id db of
        None \<Rightarrow> (Inr 0, db)
      | Some user \<Rightarrow>
          if usr_quota_exhausted_at user \<noteq> None then (Inr 0, db)
          else
            let (db1, revoked) = revoke_devices dbnow now (devices_of user_id db) db 0;
                db2 = write_user user_id (\<lambda>u. u\<lparr>usr_quota_exhausted_at := Some now\<rparr>) db1;
                (request_id, db3) = uuid4 db2;
                db4 = add_audit_event ''system'' None ''user'' user_id ''identity_state_changed''
                        ''succeeded'' request_id (Some ''traffic_quota_exhausted'') db3
            in (case constrained db4 of
                  Inl e \<Rightarrow> (Inl e, db)
                | Inr db5 \<Rightarrow> (Inr revoked, db5)))"

text \<open>\<open>clock\<close> gives, for the account being cut off, the database's and the service's time.\<close>

fun enforce_loop ::
  "(string \<Rightarrow> string) \<Rightarrow> (bytes \<Rightarrow> bytes \<Rightarrow> bytes \<Rightarrow> bytes \<Rightarrow> bytes option) \<Rightarrow> key_ring \<Rightarrow>
   (uuid \<Rightarrow> time \<times> time) \<Rightarrow> uuid list \<Rightarrow> uuid list \<Rightarrow> int \<Rightarrow> control_db \<Rightarrow>
   (db_error, uuid list \<times> int) result \<times> control_db" where
  "enforce_loop sha256 dec ring clock [] exhausted revoked db = (Inr (exhausted, revoked), db)"
| "enforce_loop sha256 dec ring clock (u # us) exhausted revoked db =
     (if \<not> is_exhausted (usage_for_user sha256 dec ring u db)
      then enforce_loop sha256 dec ring clock us exhausted revoked db
      else (case cut_off (fst (clock u)) (snd (clock u)) u db of
              (Inl e, db') \<Rightarrow> (Inl e, db')
            | (Inr n, db') \<Rightarrow> enforce_loop sha256 dec ring clock us (exhausted @ [u]) (revoked + n) db'))"

definition metered_accounts :: "control_db \<Rightarrow> uuid list" where
  "metered_accounts db = map usr_id (filter (\<lambda>u. usr_traffic_quota_bytes u \<noteq> None \<and>
     usr_quota_exhausted_at u = None) (db_users db))"

definition already_enforced :: "control_db \<Rightarrow> uuid list" where
  "already_enforced db = map usr_id (filter (\<lambda>u. usr_traffic_quota_bytes u \<noteq> None \<and>
     usr_quota_exhausted_at u \<noteq> None) (db_users db))"

definition enforce_traffic_quotas ::
  "(string \<Rightarrow> string) \<Rightarrow> (bytes \<Rightarrow> bytes \<Rightarrow> bytes \<Rightarrow> bytes \<Rightarrow> bytes option) \<Rightarrow> key_ring \<Rightarrow>
   (uuid \<Rightarrow> time \<times> time) \<Rightarrow> control_db \<Rightarrow> (db_error, enforcement_summary) result \<times> control_db" where
  "enforce_traffic_quotas sha256 dec ring clock db =
     (case enforce_loop sha256 dec ring clock (metered_accounts db) [] 0 db of
        (Inl e, db') \<Rightarrow> (Inl e, db')
      | (Inr (exhausted, revoked), db') \<Rightarrow>
          (Inr \<lparr>es_accounts_checked = int (length (metered_accounts db)),
                es_accounts_exhausted = int (length exhausted),
                es_credentials_revoked = revoked,
                es_already_enforced = int (length (already_enforced db)),
                es_account_ids = exhausted\<rparr>, db'))"

subsection \<open>What a grant means\<close>

lemma user_by_id_write:
  "(\<And>u. usr_id (f u) = usr_id u) \<Longrightarrow>
   user_by_id j (write_user i f db) =
     (if i = j then map_option f (user_by_id j db) else user_by_id j db)"
  using find_update_key [of usr_id f j i "db_users db"] by (simp add: user_by_id_def write_user_def)

lemma write_user_owners: "same_owners (write_user i f db) db"
  by (simp add: same_owners_def write_user_def)

lemma usage_bytes_owners:
  assumes "same_owners a b" and "user_by_id uid a = Some u" and "user_by_id uid b = Some v"
  shows "lifetime_bytes (usage_for_user sha dec ring uid a) = lifetime_bytes (usage_for_user sha dec ring uid b)"
  using assms digests_same_owners [OF assms(1)]
  by (simp add: usage_for_user_def devices_of_def same_owners_def lifetime_bytes_def Let_def)

lemma usage_marks:
  "user_by_id uid db = Some u \<Longrightarrow>
     au_quota_bytes (usage_for_user sha dec ring uid db) = usr_traffic_quota_bytes u \<and>
     au_baseline_bytes (usage_for_user sha dec ring uid db) = usr_traffic_baseline_bytes u \<and>
     au_exhausted_at (usage_for_user sha dec ring uid db) = usr_quota_exhausted_at u"
  by (simp add: usage_for_user_def Let_def)

text \<open>
  An allowance starts at zero used. After a grant the account has used nothing of it, all
  of it remains, it is exhausted only if the allowance is zero (or below), and the mark of a
  spent allowance is gone. The lifetime total is what it was.
\<close>

lemma grant_starts_at_zero:
  assumes "grant_traffic_quota sha256 dec ring uid q db = (Inr change, db')"
  shows "let a = usage_for_user sha256 dec ring uid db' in
    total_bytes a = 0 \<and> remaining_bytes a = map_option (\<lambda>v. max v 0) q \<and>
    (is_exhausted a \<longleftrightarrow> (\<exists>v. q = Some v \<and> v \<le> 0)) \<and> au_exhausted_at a = None \<and>
    lifetime_bytes a = lifetime_bytes (usage_for_user sha256 dec ring uid db)"
proof -
  let ?f = "\<lambda>u. u\<lparr>usr_traffic_quota_bytes := q,
    usr_traffic_baseline_bytes := lifetime_bytes (usage_for_user sha256 dec ring uid db),
    usr_quota_exhausted_at := None\<rparr>"
  from assms obtain u where u: "user_by_id uid db = Some u" and db': "db' = write_user uid ?f db"
    by (auto simp: grant_traffic_quota_def Let_def split: option.splits if_splits)
  then have u': "user_by_id uid db' = Some (?f u)" by (simp add: user_by_id_write)
  have "lifetime_bytes (usage_for_user sha256 dec ring uid db') =
      lifetime_bytes (usage_for_user sha256 dec ring uid db)"
    using usage_bytes_owners [OF write_user_owners u' [unfolded db'] u] db' by simp
  with usage_marks [OF u', of sha256 dec ring] show ?thesis
    by (cases q) (auto simp: Let_def total_bytes_def remaining_bytes_def is_exhausted_def)
qed

subsection \<open>What a cut-off touches\<close>

text \<open>
  \<open>cuts C a b\<close>: between \<open>a\<close> and \<open>b\<close> the devices in \<open>C\<close> lost every serving credential and
  the rows of every other device stayed as they were.
\<close>

definition cuts :: "uuid set \<Rightarrow> control_db \<Rightarrow> control_db \<Rightarrow> bool" where
  "cuts C a b \<longleftrightarrow>
     (\<forall>d\<in>C. device_cut_off d (db_peers b) \<and> device_cut_off d (db_clients b)) \<and>
     filter (\<lambda>p. rt_device_id p \<notin> C) (db_peers b) = filter (\<lambda>p. rt_device_id p \<notin> C) (db_peers a) \<and>
     filter (\<lambda>x. rt_device_id x \<notin> C) (db_clients b) = filter (\<lambda>x. rt_device_id x \<notin> C) (db_clients a) \<and>
     same_owners b a"

lemma device_cut_off_filter:
  assumes "filter (\<lambda>p. rt_device_id p \<notin> C) xs = filter (\<lambda>p. rt_device_id p \<notin> C) ys" "d \<notin> C"
  shows "device_cut_off d xs = device_cut_off d ys"
proof -
  have *: "device_cut_off d zs \<longleftrightarrow> device_cut_off d (filter (\<lambda>p. rt_device_id p \<notin> C) zs)"
    for zs :: "'a cred_row_scheme list"
    using assms(2) by (auto simp: device_cut_off_def list_all_iff)
  show ?thesis using assms(1) by (simp add: * [of xs] * [of ys])
qed

lemma filter_union:
  assumes "filter (\<lambda>x. k x \<notin> A) ys = filter (\<lambda>x. k x \<notin> A) xs"
    and "filter (\<lambda>x. k x \<notin> B) zs = filter (\<lambda>x. k x \<notin> B) ys"
  shows "filter (\<lambda>x. k x \<notin> A \<union> B) zs = filter (\<lambda>x. k x \<notin> A \<union> B) xs"
proof -
  have *: "filter (\<lambda>x. k x \<notin> A \<union> B) us = filter (\<lambda>x. k x \<notin> A) (filter (\<lambda>x. k x \<notin> B) us)"
    and **: "filter (\<lambda>x. k x \<notin> A \<union> B) us = filter (\<lambda>x. k x \<notin> B) (filter (\<lambda>x. k x \<notin> A) us)" for us
    by (auto simp: intro: filter_cong)
  have "filter (\<lambda>x. k x \<notin> A \<union> B) zs = filter (\<lambda>x. k x \<notin> A \<union> B) ys"
    using assms(2) * [of zs] * [of ys] by simp
  then show ?thesis using assms(1) ** [of ys] ** [of xs] by simp
qed

lemma cuts_refl: "cuts {} db db"
  by (simp add: cuts_def)

lemma cuts_trans:
  assumes "cuts A a b" "cuts B b c"
  shows "cuts (A \<union> B) a c"
proof -
  have "device_cut_off d (db_peers c) \<and> device_cut_off d (db_clients c)" if "d \<in> A \<union> B" for d
    using that assms device_cut_off_filter [of B "db_peers c" "db_peers b" d]
      device_cut_off_filter [of B "db_clients c" "db_clients b" d]
    by (cases "d \<in> B") (auto simp: cuts_def)
  moreover have "filter (\<lambda>p. rt_device_id p \<notin> A \<union> B) (db_peers c) =
      filter (\<lambda>p. rt_device_id p \<notin> A \<union> B) (db_peers a)"
    by (rule filter_union [of _ A "db_peers b"]) (use assms in \<open>auto simp: cuts_def\<close>)
  moreover have "filter (\<lambda>p. rt_device_id p \<notin> A \<union> B) (db_clients c) =
      filter (\<lambda>p. rt_device_id p \<notin> A \<union> B) (db_clients a)"
    by (rule filter_union [of _ A "db_clients b"]) (use assms in \<open>auto simp: cuts_def\<close>)
  ultimately show ?thesis using assms same_owners_trans unfolding cuts_def by blast
qed

lemma cuts_device:
  assumes "db_wf db"
  shows "cuts {did} db (fst (revoke_device_credentials dbnow did now db))"
    and "db_wf (fst (revoke_device_credentials dbnow did now db))"
  using revoke_device_tables [OF assms, of dbnow did now]
  by (simp_all add: cuts_def revoke_device_owners cut_off_update others_update)

lemma revoke_devices_cuts:
  assumes "db_wf db"
  shows "cuts (set ds) db (fst (revoke_devices dbnow now ds db n)) \<and>
    db_wf (fst (revoke_devices dbnow now ds db n)) \<and>
    db_users (fst (revoke_devices dbnow now ds db n)) = db_users db"
  using assms
proof (induction ds arbitrary: db n)
  case (Cons d ds)
  let ?r = "revoke_device_credentials dbnow d now db"
  note step = cuts_device [OF Cons.prems, where did = d and dbnow = dbnow and now = now]
  show ?case
    using Cons.IH [OF step(2), of "n + snd ?r"] cuts_trans [OF step(1)] by (auto simp: split_beta Let_def revoke_device_owners)
qed (simp add: cuts_refl)

text \<open>Cutting an account off is never refused, and does what its name says.\<close>

definition mark_exhausted :: "time \<Rightarrow> user_row \<Rightarrow> user_row" where
  "mark_exhausted now u = u\<lparr>usr_quota_exhausted_at := Some now\<rparr>"

lemma quota_event_ok:
  "audit_check \<lparr>ae_actor_kind = ''system'', ae_actor_id = None, ae_target_kind = ''user'',
     ae_target_id = u, ae_event_code = ''identity_state_changed'', ae_outcome = ''succeeded'',
     ae_request_id = r, ae_reason_code = Some ''traffic_quota_exhausted''\<rparr>"
proof -
  have "optional error_code_format (Some ''traffic_quota_exhausted'')" by code_simp
  then show ?thesis by (simp add: audit_check_def)
qed

lemma cut_off_spec:
  assumes "db_wf db" "user_by_id uid db = Some u" "usr_quota_exhausted_at u = None"
  shows "\<exists>n db'. cut_off dbnow now uid db = (Inr n, db') \<and> cuts (set (devices_of uid db)) db db' \<and>
    db_wf db' \<and> db_users db' = update_where (\<lambda>u. usr_id u = uid) (mark_exhausted now) (db_users db)"
proof -
  obtain db1 n where r: "revoke_devices dbnow now (devices_of uid db) db 0 = (db1, n)" by fastforce
  let ?e = "\<lambda>d. add_audit_event ''system'' None ''user'' uid ''identity_state_changed''
      ''succeeded'' (fst (uuid4 d)) (Some ''traffic_quota_exhausted'') (snd (uuid4 d))"
  let ?d = "?e (write_user uid (\<lambda>u. u\<lparr>usr_quota_exhausted_at := Some now\<rparr>) db1)"
  have c: "cuts (set (devices_of uid db)) db db1" "db_wf db1" "db_users db1 = db_users db"
    using revoke_devices_cuts [OF assms(1), of "devices_of uid db" dbnow now 0] r by simp_all
  have ok: "db_ok ?d"
    by (rule db_ok_audit) (use c(2) in \<open>simp_all add: quota_event_ok db_wf_def db_ok_def write_user_def uuid4_def\<close>)
  have "db_wf ?d"
    using ok c(2) by (simp add: db_wf_def add_audit_event_def write_user_def uuid4_def)
  moreover have "cuts (set (devices_of uid db)) db ?d"
    using c(1) by (simp add: cuts_def same_owners_def add_audit_event_def write_user_def uuid4_def)
  moreover have "cut_off dbnow now uid db = (Inr n, ?d)"
    using assms(2,3) r ok by (simp add: cut_off_def Let_def constrained_def split_beta)
  moreover have "db_users ?d = update_where (\<lambda>u. usr_id u = uid) (mark_exhausted now) (db_users db)"
    using c(3) by (simp add: add_audit_event_def write_user_def uuid4_def mark_exhausted_def [abs_def])
  ultimately show ?thesis by blast
qed

lemma cut_off_users:
  assumes "db_users db' = update_where (\<lambda>u. usr_id u = uid) (mark_exhausted now) (db_users db)"
  shows "user_by_id v db' = (if v = uid then map_option (mark_exhausted now) (user_by_id v db) else user_by_id v db)"
  using assms find_update_key [of usr_id "mark_exhausted now" v uid "db_users db"]
  by (simp add: user_by_id_def mark_exhausted_def)

lemma enforce_loop_spec:
  assumes "db_wf db" "distinct us" "\<forall>u\<in>set us. \<exists>x. user_by_id u db = Some x \<and> usr_quota_exhausted_at x = None"
    and "gone = filter (\<lambda>u. is_exhausted (usage_for_user sha256 dec ring u db)) us"
  shows "\<exists>n db'. enforce_loop sha256 dec ring clock us ex rv db = (Inr (ex @ gone, n), db') \<and> db_wf db' \<and>
    cuts (\<Union>u\<in>set gone. set (devices_of u db)) db db' \<and>
    (\<forall>u. user_by_id u db' = (if u \<in> set gone then map_option (mark_exhausted (snd (clock u))) (user_by_id u db)
                              else user_by_id u db))"
  using assms
proof (induction us arbitrary: ex rv db gone)
  case Nil
  then show ?case by (simp add: cuts_refl)
next
  case (Cons u us)
  show ?case
  proof (cases "is_exhausted (usage_for_user sha256 dec ring u db)")
    case False
    then show ?thesis using Cons.IH [of db gone ex rv] Cons.prems by simp
  next
    case True
    obtain x where x: "user_by_id u db = Some x" "usr_quota_exhausted_at x = None" using Cons.prems(3) by auto
    obtain n d where d: "cut_off (fst (clock u)) (snd (clock u)) u db = (Inr n, d)"
        "cuts (set (devices_of u db)) db d" "db_wf d"
        "db_users d = update_where (\<lambda>v. usr_id v = u) (mark_exhausted (snd (clock u))) (db_users db)"
      using cut_off_spec [OF Cons.prems(1) x] by blast
    note users = cut_off_users [OF d(4)]
    have owners: "same_owners d db" using d(2) by (simp add: cuts_def)
    then have dev: "devices_of v d = devices_of v db" for v by (simp add: devices_of_def same_owners_def)
    have usage: "usage_for_user sha256 dec ring v d = usage_for_user sha256 dec ring v db" if "v \<in> set us" for v
      using that Cons.prems(2) by (intro usage_same_owners [OF owners]) (auto simp: users)
    let ?g = "filter (\<lambda>u. is_exhausted (usage_for_user sha256 dec ring u db)) us"
    have g: "?g = filter (\<lambda>u. is_exhausted (usage_for_user sha256 dec ring u d)) us"
      using usage by (auto intro: filter_cong)
    obtain m e where e: "enforce_loop sha256 dec ring clock us (ex @ [u]) (rv + n) d = (Inr ((ex @ [u]) @ ?g, m), e)"
        "db_wf e" "cuts (\<Union>u\<in>set ?g. set (devices_of u d)) d e"
        "\<forall>v. user_by_id v e = (if v \<in> set ?g then map_option (mark_exhausted (snd (clock v))) (user_by_id v d)
             else user_by_id v d)"
      using Cons.IH [OF d(3) _ _ g, of "ex @ [u]" "rv + n"] Cons.prems(2,3) users by fastforce
    have gone: "gone = u # ?g" using Cons.prems(4) True by simp
    have "enforce_loop sha256 dec ring clock (u # us) ex rv db = (Inr (ex @ gone, m), e)"
      using True d(1) e(1) gone by simp
    moreover have "cuts (\<Union>u\<in>set gone. set (devices_of u db)) db e"
      using cuts_trans [OF d(2) e(3)] gone by (simp add: dev)
    moreover have "u \<notin> set ?g" using Cons.prems(2) by auto
    ultimately show ?thesis using e(2,4) users gone by auto
  qed
qed

lemma metered_users:
  assumes "distinct (map usr_id (db_users db))"
  shows "distinct (metered_accounts db)"
    and "\<forall>u\<in>set (metered_accounts db). \<exists>x. user_by_id u db = Some x \<and> usr_quota_exhausted_at x = None"
proof -
  show "distinct (metered_accounts db)" using assms by (simp add: metered_accounts_def distinct_map_filter)
  show "\<forall>u\<in>set (metered_accounts db). \<exists>x. user_by_id u db = Some x \<and> usr_quota_exhausted_at x = None"
    using find_key_distinct [OF assms] by (auto simp: metered_accounts_def user_by_id_def)
qed

text \<open>
  C29. One sweep takes access from exactly the accounts that spent their allowance. It is never
  refused by the database. The accounts it lists are the metered, unmarked ones whose usage has
  reached the quota; every device of theirs is left without a serving credential and each of
  them is marked with the time of its cut-off; the rows of every other account's devices and
  the marks of every other account are what they were.
\<close>

theorem sweep_cuts_off_the_exhausted:
  assumes "db_wf db" and "distinct (map usr_id (db_users db))"
  shows "\<exists>s db'. enforce_traffic_quotas sha256 dec ring clock db = (Inr s, db') \<and> db_wf db' \<and>
    es_account_ids s = filter (\<lambda>u. is_exhausted (usage_for_user sha256 dec ring u db)) (metered_accounts db) \<and>
    cuts (\<Union>u\<in>set (es_account_ids s). set (devices_of u db)) db db' \<and>
    (\<forall>u. user_by_id u db' =
       (if u \<in> set (es_account_ids s) then map_option (mark_exhausted (snd (clock u))) (user_by_id u db)
        else user_by_id u db))"
proof -
  let ?g = "filter (\<lambda>u. is_exhausted (usage_for_user sha256 dec ring u db)) (metered_accounts db)"
  obtain n db' where "enforce_loop sha256 dec ring clock (metered_accounts db) [] 0 db = (Inr ([] @ ?g, n), db')"
      "db_wf db'" "cuts (\<Union>u\<in>set ?g. set (devices_of u db)) db db'"
      "\<forall>u. user_by_id u db' = (if u \<in> set ?g then map_option (mark_exhausted (snd (clock u))) (user_by_id u db)
           else user_by_id u db)"
    using enforce_loop_spec [OF assms(1) metered_users [OF assms(2)] refl] by blast
  then show ?thesis by (simp add: enforce_traffic_quotas_def)
qed

text \<open>The example account, given an allowance of zero, is cut off by the next sweep.\<close>

definition ex_spent_db :: control_db where
  "ex_spent_db = write_user 1 (\<lambda>u. u\<lparr>usr_traffic_quota_bytes := Some 0\<rparr>) ex_db"

theorem sweep_cuts_off_the_exhausted_witness:
  "(\<exists>s db'. enforce_traffic_quotas id demo_dec demo_ring (\<lambda>_. (50, 50)) ex_spent_db = (Inr s, db') \<and>
     es_account_ids s = [1] \<and> device_cut_off 2 (db_peers db'))"
proof -
  have wf: "db_wf ex_spent_db"
    using ex_db_wf by (simp add: ex_spent_db_def db_wf_def db_ok_def write_user_def)
  have d: "distinct (map usr_id (db_users ex_spent_db))" by code_simp
  have ids: "filter (\<lambda>u. is_exhausted (usage_for_user id demo_dec demo_ring u ex_spent_db))
      (metered_accounts ex_spent_db) = [1]" by code_simp
  have dev: "devices_of 1 ex_spent_db = [2]" by code_simp
  show ?thesis
    using sweep_cuts_off_the_exhausted [OF wf d, of id demo_dec demo_ring "\<lambda>_. (50, 50)"]
    unfolding ids by (auto simp del: One_nat_def simp add: dev cuts_def)
qed

end
