(* ===== verification/Access_Expiry.thy ===== *)
theory Access_Expiry
  imports Provisioning_Guards Traffic_Quota
begin

text \<open>
  Taking away credentials that provisioning would no longer grant (\<open>access/expiry.py\<close>): the
  sweep that notices a timestamp passing. A live row whose account, device, assignment or
  permission has lapsed goes to \<open>REVOKING\<close>.
\<close>

subsection \<open>The sweep\<close>

record expiry_summary =
  xs_credentials_revoked :: int
  xs_account_ids :: "uuid list"

definition grant_lapsed :: "user_row \<Rightarrow> device_row \<Rightarrow> 'a cred_row_scheme \<Rightarrow> time \<Rightarrow> control_db \<Rightarrow> bool" where
  "grant_lapsed user device r now db \<longleftrightarrow>
     usr_state user \<noteq> ACCOUNT_ACTIVE \<or>
     (case usr_expires_at user of None \<Rightarrow> False | Some t \<Rightarrow> t \<le> now) \<or>
     dev_state device = LIFE_REVOKED \<or>
     \<not> has_assignment (usr_id user) (rt_server_id r) now db \<or>
     \<not> has_permission (usr_id user) (rt_profile_id r) now db"

text \<open>The joins: each row with the device it belongs to and that device's account.\<close>

definition owners_of :: "'a cred_row_scheme \<Rightarrow> control_db \<Rightarrow> (device_row \<times> user_row) list" where
  "owners_of r db =
     concat (map (\<lambda>d. map (Pair d) (filter (\<lambda>u. usr_id u = dev_user_id d) (db_users db)))
       (filter (\<lambda>d. dev_id d = rt_device_id r) (db_devices db)))"

definition lapsed :: "'a row_table \<Rightarrow> time \<Rightarrow> control_db \<Rightarrow> ('a cred_row_scheme \<times> uuid) list" where
  "lapsed T now db =
     concat (map (\<lambda>r. map (\<lambda>(d, u). (r, usr_id u))
         (filter (\<lambda>(d, u). grant_lapsed u d r now db) (owners_of r db)))
       (filter (\<lambda>r. serving (rt_state r)) (tab_get T db)))"

definition revoke_lapsed ::
  "'a row_table \<Rightarrow> time \<Rightarrow> time \<Rightarrow> control_db \<Rightarrow> control_db \<times> uuid list" where
  "revoke_lapsed T dbnow now db =
     (let found = lapsed T now db
      in (fold (revoke_credential_row T dbnow now) (map fst found) db, map snd found))"

text \<open>The keys of the \<open>revoked\<close> dictionary, in the order they were first added.\<close>

definition dict_keys :: "'k list \<Rightarrow> 'k list" where
  "dict_keys ks = rev (remdups (rev ks))"

definition lapse_event :: "uuid \<Rightarrow> control_db \<Rightarrow> control_db" where
  "lapse_event user_id db =
     (let (request_id, db) = uuid4 db
      in add_audit_event ''system'' None ''user'' user_id ''identity_state_changed'' ''succeeded''
           request_id (Some ''access_lapsed'') db)"

definition enforce_access_expiry ::
  "time \<Rightarrow> time \<Rightarrow> control_db \<Rightarrow> (db_error, expiry_summary) result \<times> control_db" where
  "enforce_access_expiry dbnow now db =
     (let (db1, owners1) = revoke_lapsed peer_table dbnow now db;
          (db2, owners2) = revoke_lapsed client_table dbnow now db1;
          owners = owners1 @ owners2;
          db3 = fold lapse_event (dict_keys owners) db2
      in (case constrained db3 of
            Inl e \<Rightarrow> (Inl e, db)
          | Inr db' \<Rightarrow> (Inr \<lparr>xs_credentials_revoked = int (length owners),
                          xs_account_ids = dict_keys owners\<rparr>, db')))"

subsection \<open>One owner per row\<close>

definition owner_keys :: "control_db \<Rightarrow> bool" where
  "owner_keys db \<longleftrightarrow> distinct (map dev_id (db_devices db)) \<and> distinct (map usr_id (db_users db))"

definition row_lapsed :: "time \<Rightarrow> control_db \<Rightarrow> 'a cred_row_scheme \<Rightarrow> bool" where
  "row_lapsed now db r \<longleftrightarrow> (\<exists>(d, u)\<in>set (owners_of r db). grant_lapsed u d r now db)"

lemma filter_key_singleton:
  assumes "distinct (map k xs)"
  shows "length (filter (\<lambda>x. k x = v) xs) \<le> 1"
proof (cases "\<exists>x\<in>set xs. k x = v")
  case True
  with assms show ?thesis
    by (induction xs) (auto simp: filter_empty_conv rev_image_eqI)
qed (simp add: filter_empty_conv)

lemma owners_of_one:
  assumes "owner_keys db"
  shows "owners_of r db = [] \<or> (\<exists>d u. owners_of r db = [(d, u)])"
proof -
  have dev: "length (filter (\<lambda>d. dev_id d = rt_device_id r) (db_devices db)) \<le> 1"
    and usr: "length (filter (\<lambda>u. usr_id u = i) (db_users db)) \<le> 1" for i
    using assms filter_key_singleton [of dev_id "db_devices db" "rt_device_id r"]
      filter_key_singleton [of usr_id "db_users db"] by (auto simp: owner_keys_def)
  show ?thesis
  proof (cases "filter (\<lambda>d. dev_id d = rt_device_id r) (db_devices db)")
    case (Cons d ds)
    with dev have "ds = []" by simp
    with Cons show ?thesis using usr [of "dev_user_id d"]
      by (cases "filter (\<lambda>u. usr_id u = dev_user_id d) (db_users db)") (auto simp: owners_of_def)
  qed (simp add: owners_of_def)
qed

lemma concat_if: "concat (map (\<lambda>x. if P x then [x] else []) xs) = filter P xs"
  by (induction xs) auto

lemma lapsed_rows:
  assumes "owner_keys db"
  shows "map fst (lapsed T now db) = filter (\<lambda>r. serving (rt_state r) \<and> row_lapsed now db r) (tab_get T db)"
proof -
  have "map fst (map (\<lambda>(d, u). (r, usr_id u)) (filter (\<lambda>(d, u). grant_lapsed u d r now db) (owners_of r db))) =
      (if row_lapsed now db r then [r] else [])" for r :: "'a cred_row_scheme"
    using owners_of_one [OF assms, of r] by (auto simp: row_lapsed_def)
  then have "map fst (lapsed T now db) =
      concat (map (\<lambda>r. if row_lapsed now db r then [r] else []) (filter (\<lambda>r. serving (rt_state r)) (tab_get T db)))"
    by (simp add: lapsed_def map_concat comp_def)
  also have "\<dots> = filter (row_lapsed now db) (filter (\<lambda>r. serving (rt_state r)) (tab_get T db))"
    by (rule concat_if)
  finally show ?thesis by (simp add: conj_commute)
qed

lemma row_lapsed_frame:
  "db_users b = db_users a \<Longrightarrow> db_devices b = db_devices a \<Longrightarrow> db_permissions b = db_permissions a \<Longrightarrow>
   db_assignments b = db_assignments a \<Longrightarrow> row_lapsed now b r = row_lapsed now a r"
  by (simp add: row_lapsed_def owners_of_def grant_lapsed_def has_permission_def has_assignment_def)

context managed_table
begin

lemma revoke_lapsed_spec:
  assumes "db_wf db" and "owner_keys db"
  shows "db_wf (fst (revoke_lapsed T dbnow now db))"
    and "tab_get T (fst (revoke_lapsed T dbnow now db)) =
      update_where (\<lambda>r. serving (rt_state r) \<and> row_lapsed now db r)
        (orm_write dbnow (mark_revoking now)) (tab_get T db)"
    and "length (snd (revoke_lapsed T dbnow now db)) =
      count_where (\<lambda>r. serving (rt_state r) \<and> row_lapsed now db r) (tab_get T db)"
proof -
  let ?rs = "filter (\<lambda>r. serving (rt_state r) \<and> row_lapsed now db r) (tab_get T db)"
  note rows = lapsed_rows [OF assms(2), of T now]
  have ids: "distinct (map rt_id (tab_get T db))" using assms(1) ok_ids by (simp add: db_wf_def)
  have rs: "set ?rs \<subseteq> set (tab_get T db)" "distinct (map rt_id ?rs)" "\<forall>r\<in>set ?rs. live (rt_state r)"
    using ids by (auto simp: distinct_map_filterI live_cases)
  note f = revoke_fold [OF assms(1) rs, of dbnow now]
  show "db_wf (fst (revoke_lapsed T dbnow now db))"
    using f(1) by (simp add: revoke_lapsed_def Let_def rows)
  show "tab_get T (fst (revoke_lapsed T dbnow now db)) =
      update_where (\<lambda>r. serving (rt_state r) \<and> row_lapsed now db r)
        (orm_write dbnow (mark_revoking now)) (tab_get T db)"
    using f(2) key_in_filter [OF ids]
    by (simp add: revoke_lapsed_def Let_def rows cong: update_where_cong)
  have "length (lapsed T now db) = length ?rs" using rows by (metis length_map)
  then show "length (snd (revoke_lapsed T dbnow now db)) =
      count_where (\<lambda>r. serving (rt_state r) \<and> row_lapsed now db r) (tab_get T db)"
    by (simp add: revoke_lapsed_def Let_def count_where_def)
qed

end

lemma revoke_row_access [simp]:
  "db_permissions (revoke_credential_row peer_table dbnow now p db) = db_permissions db"
  "db_assignments (revoke_credential_row peer_table dbnow now p db) = db_assignments db"
  "db_users (revoke_credential_row peer_table dbnow now p db) = db_users db"
  "db_devices (revoke_credential_row peer_table dbnow now p db) = db_devices db"
  by (simp_all add: revoke_credential_row_def pair_write_def write_credential_def write_row_def peer_table_def)

lemma revoke_lapsed_frame:
  "db_clients (fst (revoke_lapsed peer_table dbnow now db)) = db_clients db"
  "db_permissions (fst (revoke_lapsed peer_table dbnow now db)) = db_permissions db"
  "db_assignments (fst (revoke_lapsed peer_table dbnow now db)) = db_assignments db"
  "db_users (fst (revoke_lapsed peer_table dbnow now db)) = db_users db"
  "db_devices (fst (revoke_lapsed peer_table dbnow now db)) = db_devices db"
  "db_peers (fst (revoke_lapsed client_table dbnow now db)) = db_peers db"
  by (simp_all add: revoke_lapsed_def Let_def fold_frame)

lemma lapse_event_ok:
  "db_wf db \<Longrightarrow> db_wf (lapse_event u db) \<and> db_peers (lapse_event u db) = db_peers db \<and>
     db_clients (lapse_event u db) = db_clients db"
proof -
  have "optional error_code_format (Some ''access_lapsed'')" by code_simp
  then show "db_wf db \<Longrightarrow> ?thesis"
    by (simp add: lapse_event_def uuid4_def add_audit_event_def db_wf_def db_ok_def audit_check_def)
qed

lemma lapse_events_ok:
  "db_wf db \<Longrightarrow> db_wf (fold lapse_event us db) \<and> db_peers (fold lapse_event us db) = db_peers db \<and>
     db_clients (fold lapse_event us db) = db_clients db"
  by (induction us arbitrary: db) (simp_all add: lapse_event_ok)

text \<open>
  One sweep moves exactly the lapsed rows to \<open>REVOKING\<close>, in both tables, and leaves every
  other row alone; it is never refused, and the number it reports is the number of rows moved.
\<close>

lemma expiry_moves_the_lapsed:
  assumes "db_wf db" and "owner_keys db"
  shows "\<exists>s db'. enforce_access_expiry dbnow now db = (Inr s, db') \<and> db_wf db' \<and>
    db_peers db' = update_where (\<lambda>r. serving (rt_state r) \<and> row_lapsed now db r)
      (orm_write dbnow (mark_revoking now)) (db_peers db) \<and>
    db_clients db' = update_where (\<lambda>r. serving (rt_state r) \<and> row_lapsed now db r)
      (orm_write dbnow (mark_revoking now)) (db_clients db) \<and>
    xs_credentials_revoked s =
      int (count_where (\<lambda>r. serving (rt_state r) \<and> row_lapsed now db r) (db_peers db)) +
      int (count_where (\<lambda>r. serving (rt_state r) \<and> row_lapsed now db r) (db_clients db))"
proof -
  let ?d1 = "fst (revoke_lapsed peer_table dbnow now db)"
  let ?d2 = "fst (revoke_lapsed client_table dbnow now ?d1)"
  let ?o = "snd (revoke_lapsed peer_table dbnow now db) @ snd (revoke_lapsed client_table dbnow now ?d1)"
  note p = wg.revoke_lapsed_spec [OF assms, of dbnow now, simplified]
  have "owner_keys ?d1" using assms(2) by (simp add: owner_keys_def revoke_lapsed_frame)
  note c = xray.revoke_lapsed_spec [OF p(1) this, of dbnow now, simplified]
  have lap: "row_lapsed now ?d1 r = row_lapsed now db r" for r :: xray_client
    by (rule row_lapsed_frame) (simp_all add: revoke_lapsed_frame)
  note e = lapse_events_ok [OF c(1), of "dict_keys ?o"]
  have "constrained (fold lapse_event (dict_keys ?o) ?d2) = Inr (fold lapse_event (dict_keys ?o) ?d2)"
    using e by (simp add: constrained_def db_wf_def)
  then have "enforce_access_expiry dbnow now db =
      (Inr \<lparr>xs_credentials_revoked = int (length ?o), xs_account_ids = dict_keys ?o\<rparr>,
       fold lapse_event (dict_keys ?o) ?d2)"
    by (simp add: enforce_access_expiry_def Let_def split_beta)
  then show ?thesis
    using e p(2,3) c(2,3) by (simp add: revoke_lapsed_frame lap)
qed



end
