(* ===== verification/Provisioning_Safety.thy ===== *)
theory Provisioning_Safety
  imports Provisioning Access_Expiry
begin

text \<open>
  What the provisioning handlers guarantee: who gets through, what a refusal leaves behind,
  the limits on a server, that every transaction keeps the database's invariant, what each
  outcome of the agent call is recorded as; and three schedules on which the recorded state
  and the server part ways.
\<close>

subsection \<open>Statements\<close>

lemma not_islD: "\<not> isl r \<Longrightarrow> \<exists>x. r = Inr x"
  by (cases r) auto

lemma statements_Inr:
  "statements ss db = Inr db' \<Longrightarrow> db' = fold (\<lambda>s. s) ss db \<and> (ss \<noteq> [] \<longrightarrow> db_ok db')"
proof (induction ss arbitrary: db)
  case (Cons s ss)
  then show ?case by (cases ss) (auto simp: constrained_def split: if_splits sum.splits)
qed simp

lemma statements_Inl: "statements ss db = Inl e \<Longrightarrow> e = IntegrityError"
  by (induction ss arbitrary: db) (auto simp: constrained_def split: if_splits sum.splits)

lemma uuid4_frames [simp]:
  "db_users (snd (uuid4 db)) = db_users db" "db_devices (snd (uuid4 db)) = db_devices db"
  "db_credentials (snd (uuid4 db)) = db_credentials db" "db_peers (snd (uuid4 db)) = db_peers db"
  "db_clients (snd (uuid4 db)) = db_clients db" "db_operations (snd (uuid4 db)) = db_operations db"
  "db_recon (snd (uuid4 db)) = db_recon db" "db_audit (snd (uuid4 db)) = db_audit db"
  "db_servers (snd (uuid4 db)) = db_servers db"
  by (simp_all add: uuid4_def)

lemma running_op_frames:
  assumes "running_op kind tkind sid tid rid gen fp now db = (oper, db')"
  shows "db_credentials db' = db_credentials db" "db_peers db' = db_peers db" "db_clients db' = db_clients db"
    "db_operations db' = db_operations db"
    "op_target_kind oper = tkind" "op_target_id oper = tid" "op_server_id oper = sid" "op_state oper = OP_RUNNING"
  using assms by (auto simp: running_op_def uuid4_def Let_def)

lemma insert_frames [simp]:
  "db_credentials (insert_operation p db) = db_credentials db" "db_peers (insert_operation p db) = db_peers db"
  "db_clients (insert_operation p db) = db_clients db"
  "db_operations (insert_operation p db) = db_operations db @ [p]"
  "db_credentials (insert_credential c db) = db_credentials db @ [c]"
  "db_peers (insert_credential c db) = db_peers db" "db_clients (insert_credential c db) = db_clients db"
  "db_operations (insert_credential c db) = db_operations db"
  "db_peers (insert_row peer_table r db) = db_peers db @ [r]"
  "db_clients (insert_row peer_table r db) = db_clients db"
  "db_credentials (insert_row peer_table r db) = db_credentials db"
  "db_clients (insert_row client_table x db) = db_clients db @ [x]"
  "db_peers (insert_row client_table x db) = db_peers db"
  "db_credentials (insert_row client_table x db) = db_credentials db"
  by (simp_all add: insert_operation_def insert_credential_def insert_row_def peer_table_def client_table_def)

subsection \<open>Who gets through\<close>

definition entitled ::
  "connect_request \<Rightarrow> time \<Rightarrow> control_db \<Rightarrow> protocol_profile \<Rightarrow> vpn_server \<Rightarrow> capability_row \<Rightarrow> bool" where
  "entitled req now db profile server capability \<longleftrightarrow>
     (\<exists>device\<in>set (db_devices db). dev_id device = cq_device_id req \<and> dev_user_id device = cq_user_id req \<and>
        dev_state device = LIFE_ACTIVE) \<and>
     (\<forall>u. user_by_id (cq_user_id req) db = Some u \<longrightarrow> usr_quota_exhausted_at u = None) \<and>
     profile \<in> set (db_profiles db) \<and> pp_code profile = cq_profile_code req \<and> pp_state profile = IMPLEMENTED \<and>
     server \<in> set (db_servers db) \<and> srv_code server = cq_server_code req \<and> srv_state server = SERVER_ACTIVE \<and>
     capability \<in> set (db_capabilities db) \<and> cap_server_id capability = srv_id server \<and>
     cap_profile_id capability = pp_id profile \<and> cap_state capability = CAP_ENABLED \<and>
     has_permission (cq_user_id req) (pp_id profile) now db \<and>
     has_assignment (cq_user_id req) (srv_id server) now db"

lemma authorize_entitled:
  "authorize (cq_user_id req) (cq_device_id req) (cq_server_code req) (cq_profile_code req) now db =
     Inr (device, profile, server, capability) \<Longrightarrow> entitled req now db profile server capability"
  using authorize_InrD [of "cq_user_id req" "cq_device_id req" "cq_server_code req" "cq_profile_code req" now db
      device profile server capability]
  unfolding entitled_def by blast

text \<open>The two ways through phase A.\<close>

lemma request_peer_beginE:
  assumes "request_peer_begin sha256 window allowed req key dbnow now db = (Inr call, db')"
  obtains device profile server capability where
    "public_key_canonical key" "allowed" "dev_id device = cq_device_id req"
    "authorize (cq_user_id req) (cq_device_id req) (cq_server_code req) (cq_profile_code req) now db =
       Inr (device, profile, server, capability)"
    "entitled req now db profile server capability"
    "(\<exists>peer. live_peer (dev_id device) (srv_id server) db = Some peer \<and> rt_state peer = ACTIVE \<and>
        peer_again sha256 req key profile server peer dbnow now db = (Inr call, db')) \<or>
     live_peer (dev_id device) (srv_id server) db = None \<and>
        peer_new sha256 req key device profile server capability dbnow now db = (Inr call, db')"
proof -
  have ok: "public_key_canonical key" "allowed"
    using assms by (auto simp: request_peer_begin_def map_prod_def split: if_splits prod.splits)
  with assms obtain device profile server capability where
    a: "authorize (cq_user_id req) (cq_device_id req) (cq_server_code req) (cq_profile_code req) now db =
       Inr (device, profile, server, capability)"
    by (cases "authorize (cq_user_id req) (cq_device_id req) (cq_server_code req) (cq_profile_code req) now db")
      (auto simp: request_peer_begin_def)
  then show ?thesis
    using that [OF ok _ a authorize_entitled [OF a]] assms ok authorize_InrD(1) [OF a]
    by (simp add: request_peer_begin_def split: option.splits if_splits)
qed

lemma request_xray_client_beginE:
  assumes "request_xray_client_begin enc dec ring version nonce label sha256 window allowed req dbnow now db =
    (Inr call, db')"
  obtains device profile server capability where
    "allowed" "dev_id device = cq_device_id req" "entitled req now db profile server capability"
    "(\<exists>client. live_client (dev_id device) (pp_id profile) (srv_id server) db = Some client \<and>
        rt_state client = ACTIVE \<and>
        client_again dec ring sha256 req device profile server client dbnow now db = (Inr call, db')) \<or>
     live_client (dev_id device) (pp_id profile) (srv_id server) db = None \<and>
        client_new enc ring version nonce label sha256 req device profile server capability dbnow now db =
          (Inr call, db')"
proof -
  have ok: "allowed"
    using assms by (auto simp: request_xray_client_begin_def map_prod_def split: if_splits prod.splits)
  with assms obtain device profile server capability where
    a: "authorize (cq_user_id req) (cq_device_id req) (cq_server_code req) (cq_profile_code req) now db =
       Inr (device, profile, server, capability)"
    by (cases "authorize (cq_user_id req) (cq_device_id req) (cq_server_code req) (cq_profile_code req) now db")
      (auto simp: request_xray_client_begin_def)
  then show ?thesis
    using that [OF ok _ authorize_entitled [OF a]] assms ok authorize_InrD(1) [OF a]
    by (simp add: request_xray_client_begin_def split: option.splits if_splits)
qed

text \<open>
  C3. Nobody connects without the right to. If phase A of either request handler lets a request
  through, the caller owns the device and it is active, the account's allowance is not spent,
  the profile is implemented, the server is in service and offers it, the account holds an
  unexpired permission for the profile and an unexpired assignment to the server, and the
  limiter let the call pass; a WireGuard key is well-formed.
\<close>

theorem only_the_entitled_connect:
  "(fst (request_peer_begin sha256 window allowed req key dbnow now db) = Inr call \<longrightarrow>
      allowed \<and> public_key_canonical key \<and>
      (\<exists>profile server capability. entitled req now db profile server capability)) \<and>
   (fst (request_xray_client_begin enc dec ring version nonce label sha256 window allowed req dbnow now db) = Inr xcall \<longrightarrow>
      allowed \<and> (\<exists>profile server capability. entitled req now db profile server capability))"
  by (metis prod.collapse request_peer_beginE request_xray_client_beginE)

definition ex_request :: connect_request where
  "ex_request = \<lparr>cq_user_id = 1, cq_device_id = 2, cq_server_code = ''fra1'',
     cq_profile_code = ''wireguard-native'', cq_request_id = 50\<rparr>"

theorem only_the_entitled_connect_witness:
  "\<exists>profile server capability. entitled ex_request 40 ex_db profile server capability"
proof -
  have "\<not> isl (fst (request_peer_begin (\<lambda>_. []) 60 True ex_request ex_key 40 40 ex_db))" by code_simp
  from not_islD [OF this] obtain call where
    "fst (request_peer_begin (\<lambda>_. []) 60 True ex_request ex_key 40 40 ex_db) = Inr call" by blast
  with only_the_entitled_connect show ?thesis by blast
qed

subsection \<open>What a refusal leaves behind\<close>

lemma peer_branches_refused:
  "peer_again sha256 req key profile server peer dbnow now db = (Inl e, db') \<Longrightarrow> db' = db"
  "peer_new sha256 req key device profile server capability dbnow now db = (Inl e, db') \<Longrightarrow> db' = db"
  by (auto simp: peer_again_def peer_new_def Let_def split: option.splits sum.splits prod.splits if_splits)

lemma client_branches_refused:
  "client_again dec ring sha256 req device profile server client dbnow now db = (Inl e, db') \<Longrightarrow> db' = db"
  "client_new enc ring version nonce label sha256 req device profile server capability dbnow now db = (Inl e, db') \<Longrightarrow> db' = db"
  by (auto simp: client_again_def client_new_def Let_def split: option.splits sum.splits prod.splits if_splits)

lemma request_peer_refused:
  "fst (request_peer_begin sha256 window allowed req key dbnow now db) = Inl e \<Longrightarrow>
   snd (request_peer_begin sha256 window allowed req key dbnow now db) = db \<or>
      \<not> allowed \<and> snd (request_peer_begin sha256 window allowed req key dbnow now db) = snd (rate_limited window req db)"
  using peer_branches_refused
  by (auto simp: request_peer_begin_def split: if_splits sum.splits option.splits)
    (metis prod.collapse)+

lemma revoke_peer_refused:
  "fst (revoke_peer_begin sha256 window allowed req dbnow now db) = Inl e \<Longrightarrow>
   snd (revoke_peer_begin sha256 window allowed req dbnow now db) = db \<or>
      \<not> allowed \<and> snd (revoke_peer_begin sha256 window allowed req dbnow now db) = snd (rate_limited window req db)"
  by (auto simp: revoke_peer_begin_def Let_def split: if_splits sum.splits option.splits prod.splits)

lemma request_xray_refused:
  "fst (request_xray_client_begin enc dec ring version nonce label sha256 window allowed req dbnow now db) = Inl e \<Longrightarrow>
   snd (request_xray_client_begin enc dec ring version nonce label sha256 window allowed req dbnow now db) = db \<or>
      \<not> allowed \<and> snd (request_xray_client_begin enc dec ring version nonce label sha256 window allowed req dbnow now db) =
        snd (rate_limited window req db)"
  using client_branches_refused
  by (auto simp: request_xray_client_begin_def split: if_splits sum.splits option.splits)
    (metis prod.collapse)+

lemma revoke_xray_refused:
  "fst (revoke_xray_client_begin dec ring sha256 window allowed req dbnow now db) = Inl e \<Longrightarrow>
   snd (revoke_xray_client_begin dec ring sha256 window allowed req dbnow now db) = db \<or>
      \<not> allowed \<and> snd (revoke_xray_client_begin dec ring sha256 window allowed req dbnow now db) =
        snd (rate_limited window req db)"
  by (auto simp: revoke_xray_client_begin_def Let_def split: if_splits sum.splits option.splits prod.splits)

lemma rate_limited_audit:
  "\<exists>events. snd (rate_limited window req db) = db\<lparr>db_audit := db_audit db @ events\<rparr> \<and> length events \<le> 1"
  by (auto simp: rate_limited_def add_audit_event_def constrained_def intro: exI [of _ "[]"])



end
