(* ===== verification/Provisioning_Invariant.thy ===== *)
theory Provisioning_Invariant
  imports Provisioning_Safety
begin

text \<open>
  Every transaction of the provisioning handlers keeps \<open>db_wf\<close>, and phase A keeps a server
  within its limits. The database checks its own constraints as the statements run; what is
  left is the pairing of rows and credentials, proved once for both tables over the interface
  \<open>paired_table\<close>.
\<close>

subsection \<open>Pairing\<close>

lemma paired_write:
  assumes "paired rows cs" and "distinct (map rt_id rows)" and "distinct (map rt_credential_id rows)"
    and r: "r \<in> set rows" and f: "rt_credential_id (f r) = rt_credential_id r"
    and g: "\<And>c. cred_id (g c) = cred_id c"
    and fg: "\<And>c. live (rt_state (f r)) \<Longrightarrow> live (cred_state (g c))"
  shows "paired (update_where (\<lambda>x. rt_id x = rt_id r) (orm_write dbnow f) rows)
           (update_where (\<lambda>c. cred_id c = rt_credential_id r) g cs)"
proof (unfold paired_def, intro ballI impI)
  have only: "x = r" if "x \<in> set rows" "rt_id x = rt_id r \<or> rt_credential_id x = rt_credential_id r" for x
    using that r assms(2,3) by (metis distinct_map inj_onD)
  fix x c
  assume "x \<in> set (update_where (\<lambda>x. rt_id x = rt_id r) (orm_write dbnow f) rows)"
    and "c \<in> set (update_where (\<lambda>c. cred_id c = rt_credential_id r) g cs)"
    and ref: "cred_id c = rt_credential_id x \<and> live (rt_state x)"
  then obtain x0 c0 where x0: "x0 \<in> set rows" "x = (if rt_id x0 = rt_id r then orm_write dbnow f x0 else x0)"
    and c0: "c0 \<in> set cs" "c = (if cred_id c0 = rt_credential_id r then g c0 else c0)"
    by (auto simp: set_update_where)
  have id: "cred_id c = cred_id c0" using c0(2) g by simp
  show "live (cred_state c)"
  proof (cases "x0 = r")
    case True
    with x0 f have "rt_credential_id x = rt_credential_id r" "rt_state x = rt_state (f r)" by simp_all
    with ref c0 id fg [of c0] show ?thesis by simp
  next
    case False
    with only [OF x0(1)] have "rt_id x0 \<noteq> rt_id r" "rt_credential_id x0 \<noteq> rt_credential_id r" by auto
    with x0 c0 id ref \<open>paired rows cs\<close> show ?thesis by (auto simp: paired_def)
  qed
qed

lemma paired_elsewhere:
  assumes "paired rows cs" and "\<And>x. x \<in> set rows \<Longrightarrow> rt_credential_id x \<noteq> i" and "\<And>c. cred_id (g c) = cred_id c"
  shows "paired rows (update_where (\<lambda>c. cred_id c = i) g cs)"
proof (unfold paired_def, intro ballI impI)
  fix x c
  assume x: "x \<in> set rows" and "c \<in> set (update_where (\<lambda>c. cred_id c = i) g cs)"
    and ref: "cred_id c = rt_credential_id x \<and> live (rt_state x)"
  then obtain c0 where "c0 \<in> set cs" "c = (if cred_id c0 = i then g c0 else c0)"
    by (auto simp: set_update_where)
  with assms(1,3) assms(2) [OF x] x ref show "live (cred_state c)" by (auto simp: paired_def)
qed

lemma paired_new:
  assumes "paired rows cs" and "live (cred_state c)" and "distinct (map cred_id (cs @ [c]))"
    and "rt_credential_id r = cred_id c"
  shows "paired (rows @ [r]) (cs @ [c])"
  using assms by (auto simp: paired_def rev_image_eqI)

lemma paired_more: "paired rows cs \<Longrightarrow> live (cred_state c) \<Longrightarrow> paired rows (cs @ [c])"
  by (auto simp: paired_def)

lemma sealed_update:
  "sealed cs \<Longrightarrow> (\<And>c. cred_kind (g c) = cred_kind c \<and> cred_ciphertext (g c) = cred_ciphertext c) \<Longrightarrow>
     sealed (update_where P g cs)"
  by (auto simp: sealed_def set_update_where)

definition pairing :: "control_db \<Rightarrow> bool" where
  "pairing db \<longleftrightarrow> paired (db_peers db) (db_credentials db) \<and> paired (db_clients db) (db_credentials db) \<and>
     sealed (db_credentials db)"

lemma db_wf_pairing: "db_wf db \<longleftrightarrow> db_ok db \<and> pairing db"
  by (simp add: db_wf_def pairing_def)

lemma pairing_frame:
  "pairing a \<Longrightarrow> db_credentials b = db_credentials a \<Longrightarrow> db_peers b = db_peers a \<Longrightarrow>
     db_clients b = db_clients a \<Longrightarrow> pairing b"
  by (simp add: pairing_def)

text \<open>An update of a credential that keeps what it is: its id, its kind and its secret.\<close>

definition same_credential :: "(credential_row \<Rightarrow> credential_row) \<Rightarrow> bool" where
  "same_credential g \<longleftrightarrow>
     (\<forall>c. cred_id (g c) = cred_id c \<and> cred_kind (g c) = cred_kind c \<and> cred_ciphertext (g c) = cred_ciphertext c)"

text \<open>
  Which credential stands behind which row never changes and rows are never deleted, so a
  pending call keeps pointing at the same pair.
\<close>

definition row_links :: "'a row_table \<Rightarrow> control_db \<Rightarrow> (uuid \<times> uuid) set" where
  "row_links T db = (\<lambda>r. (rt_id r, rt_credential_id r)) ` set (tab_get T db)"

definition links_grow :: "control_db \<Rightarrow> control_db \<Rightarrow> bool" where
  "links_grow a b \<longleftrightarrow> row_links peer_table a \<subseteq> row_links peer_table b \<and>
     row_links client_table a \<subseteq> row_links client_table b"

lemma links_grow_refl [simp]: "links_grow a a"
  by (simp add: links_grow_def)

lemma links_grow_trans: "links_grow a b \<Longrightarrow> links_grow b c \<Longrightarrow> links_grow a c"
  by (auto simp: links_grow_def)

lemma links_grow_tables:
  "map (\<lambda>r. (rt_id r, rt_credential_id r)) (db_peers b) = map (\<lambda>r. (rt_id r, rt_credential_id r)) (db_peers a) @ ps \<Longrightarrow>
   map (\<lambda>r. (rt_id r, rt_credential_id r)) (db_clients b) = map (\<lambda>r. (rt_id r, rt_credential_id r)) (db_clients a) @ xs \<Longrightarrow>
   links_grow a b"
  by (auto simp: links_grow_def row_links_def dest!: arg_cong [where f = set])

lemma links_update:
  "(\<And>r. rt_id (f r) = rt_id r \<and> rt_credential_id (f r) = rt_credential_id r) \<Longrightarrow>
   map (\<lambda>r. (rt_id r, rt_credential_id r)) (update_where P (orm_write dbnow f) rows) =
     map (\<lambda>r. (rt_id r, rt_credential_id r)) rows"
  by (intro map_update_where) simp

locale paired_table = constrained_table T kind for T :: "'a row_table" and kind :: string +
  assumes pair_kept:
    "\<And>db r f g dbnow. db_wf db \<Longrightarrow> r \<in> set (tab_get T db) \<Longrightarrow>
       rt_credential_id (f r) = rt_credential_id r \<Longrightarrow> same_credential g \<Longrightarrow>
       (\<And>c. live (rt_state (f r)) \<Longrightarrow> live (cred_state (g c))) \<Longrightarrow>
       pairing (pair_write T dbnow r f g db)"

interpretation peer_pairs: paired_table peer_table "''wireguard_public''"
proof
  fix db g dbnow and r :: wg_peer and f :: "wg_peer \<Rightarrow> wg_peer"
  assume wf: "db_wf db" and r: "r \<in> set (tab_get peer_table db)"
    and f: "rt_credential_id (f r) = rt_credential_id r" and g: "same_credential g"
    and fg: "\<And>c. live (rt_state (f r)) \<Longrightarrow> live (cred_state (g c))"
  have "paired (update_where (\<lambda>x. rt_id x = rt_id r) (orm_write dbnow f) (db_peers db))
      (update_where (\<lambda>c. cred_id c = rt_credential_id r) g (db_credentials db))"
    using wf r f g fg peer_rows.ok_ids [of db] peer_rows.ok_credential_ids [of db]
    by (intro paired_write) (auto simp: db_wf_def same_credential_def)
  moreover have "paired (db_clients db)
      (update_where (\<lambda>c. cred_id c = rt_credential_id r) g (db_credentials db))"
    using wf r g by (intro paired_elsewhere) (auto simp: db_wf_def same_credential_def dest: credential_not_shared)
  ultimately show "pairing (pair_write peer_table dbnow r f g db)"
    using wf g by (simp add: pairing_def db_wf_def pair_write_def write_credential_def peers.write_row_frame
        peers.rows_after_write [simplified] sealed_update same_credential_def)
qed

interpretation client_pairs: paired_table client_table "''xray_bearer''"
proof
  fix db g dbnow and r :: xray_client and f :: "xray_client \<Rightarrow> xray_client"
  assume wf: "db_wf db" and r: "r \<in> set (tab_get client_table db)"
    and f: "rt_credential_id (f r) = rt_credential_id r" and g: "same_credential g"
    and fg: "\<And>c. live (rt_state (f r)) \<Longrightarrow> live (cred_state (g c))"
  have "paired (update_where (\<lambda>x. rt_id x = rt_id r) (orm_write dbnow f) (db_clients db))
      (update_where (\<lambda>c. cred_id c = rt_credential_id r) g (db_credentials db))"
    using wf r f g fg client_rows.ok_ids [of db] client_rows.ok_credential_ids [of db]
    by (intro paired_write) (auto simp: db_wf_def same_credential_def)
  moreover have "paired (db_peers db)
      (update_where (\<lambda>c. cred_id c = rt_credential_id r) g (db_credentials db))"
    using wf r g credential_not_shared [of db _ r]
    by (intro paired_elsewhere) (auto simp: db_wf_def same_credential_def)
  ultimately show "pairing (pair_write client_table dbnow r f g db)"
    using wf g by (simp add: pairing_def db_wf_def pair_write_def write_credential_def clients.write_row_frame
        clients.rows_after_write [simplified] sealed_update same_credential_def)
qed

subsection \<open>Phase C\<close>

lemma audit_transition_frames [simp]:
  "db_credentials (audit_transition a b c d e out reason kind db) = db_credentials db"
  "db_peers (audit_transition a b c d e out reason kind db) = db_peers db"
  "db_clients (audit_transition a b c d e out reason kind db) = db_clients db"
  "db_operations (audit_transition a b c d e out reason kind db) = db_operations db"
  "db_recon (audit_transition a b c d e out reason kind db) = db_recon db"
  by (simp_all add: audit_transition_def)

text \<open>A pending call that still points at a row and the credential behind it.\<close>

definition call_fits :: "'a row_table \<Rightarrow> 'b pending_call_scheme \<Rightarrow> control_db \<Rightarrow> bool" where
  "call_fits T call db \<longleftrightarrow> (pc_row_id call, pc_credential_id call) \<in> row_links T db"

context paired_table
begin

lemma settle_wf:
  assumes "db_wf db" and "call_fits T call db"
    and "settle T dbnow call f g h user_id request_id outcome reason db = (res, db')"
    and "\<And>r. rt_credential_id (f r) = rt_credential_id r" and "same_credential g"
    and "\<And>r c. live (rt_state (f r)) \<Longrightarrow> live (cred_state (g c))"
  shows "db_wf db'"
proof (cases "res = Inr ()")
  case True
  then obtain r c p where lt: "lock_triple T call db = Some (r, c, p)"
    using assms(3) by (auto simp: settle_def split: option.splits)
  then have r: "r \<in> set (tab_get T db)" "rt_id r = pc_row_id call"
    by (auto simp: lock_triple_def row_by_idD split: option.splits)
  with assms(1,2) ok_ids [of db] have "rt_credential_id r = pc_credential_id call"
    by (auto simp: call_fits_def row_links_def db_wf_def distinct_map inj_on_def)
  moreover have ok: "db_ok db'" and db': "db' = audit_transition (pc_credential_id call) (pc_row_id call)
      (pc_operation_id call) user_id request_id outcome reason (tab_kind T)
      (write_operation (pc_operation_id call) h (write_credential (pc_credential_id call) g
        (write_row T dbnow (pc_row_id call) f db)))"
    using assms(3) True lt by (auto simp: settle_def constrained_def split: if_splits)
  moreover have "pairing (pair_write T dbnow r f g db)"
    by (rule pair_kept [OF assms(1) r(1)]) (auto simp: assms(4,5) intro: assms(6))
  ultimately have "pairing db'"
    using r(2) by (elim pairing_frame) (simp_all add: pair_write_def write_operation_def)
  with ok show ?thesis by (simp add: db_wf_pairing)
next
  case False
  then have "db' = db"
    using assms(3) by (auto simp: settle_def split: option.splits sum.splits prod.splits)
  with assms(1) show ?thesis by simp
qed

lemma settle_active_wf:
  assumes "db_wf db" "call_fits T call db"
  shows "db_wf (snd (settle_active T dbnow now req call generation db))"
  using assms unfolding settle_active_def
  by (auto simp: row_active_def credential_in_def same_credential_def live_def intro: settle_wf [OF _ _ surjective_pairing])

lemma settle_revoked_wf:
  assumes "db_wf db" "call_fits T call db"
  shows "db_wf (snd (settle_revoked T dbnow now req call db))"
  using assms unfolding settle_revoked_def
  by (auto simp: row_revoked_def credential_revoked_def same_credential_def live_def
      intro: settle_wf [OF _ _ surjective_pairing])

lemma settle_failed_wf:
  assumes "db_wf db" "call_fits T call db"
  shows "db_wf (snd (settle_failed T dbnow now req call code removal db))"
  using assms unfolding settle_failed_def
  by (auto simp: row_in_def credential_in_def same_credential_def live_def Let_def
      intro: settle_wf [OF _ _ surjective_pairing])

end

lemma rejected_after_db [simp]: "snd (rejected_after x) = snd x"
  by (cases x rule: rejected_after.cases) auto

lemma after_call_wf:
  assumes "db_wf db" and "\<And>code. db_wf (snd (failure code db))" and "\<And>r. db_wf (snd (success r db))"
  shows "db_wf (snd (after_call failure success failed outcome db))"
  using assms by (auto simp: after_call_def split: sum.splits agent_error.splits option.splits)

lemma finalize_snd:
  "snd (finalize_provision_success dbnow now req pcall presp db) =
     snd (settle_active peer_table dbnow now req pcall (pdr_applied_generation presp) db)"
  "snd (finalize_revoke_success dbnow now req rcall db) = snd (settle_revoked peer_table dbnow now req rcall db)"
  "snd (finalize_xray_provision_success dbnow now req ccall xresp db) =
     snd (settle_active client_table dbnow now req ccall (pxr_applied_generation xresp) db)"
  "snd (finalize_xray_revoke_success dbnow now req xcall db) = snd (settle_revoked client_table dbnow now req xcall db)"
  by (simp_all add: finalize_provision_success_def finalize_revoke_success_def
      finalize_xray_provision_success_def finalize_xray_revoke_success_def split: prod.splits sum.splits)

text \<open>Whatever the agent answered and whatever happened meanwhile, phase C keeps the invariant.\<close>

lemma ends_wf:
  assumes "db_wf db"
  shows "call_fits peer_table pcall db \<Longrightarrow> db_wf (snd (request_peer_end dbnow now req pcall o1 db))"
    and "call_fits peer_table rcall db \<Longrightarrow> db_wf (snd (revoke_peer_end dbnow now req rcall o2 db))"
    and "call_fits client_table ccall db \<Longrightarrow> db_wf (snd (request_xray_client_end dbnow now req ccall o3 db))"
    and "call_fits client_table xcall db \<Longrightarrow> db_wf (snd (revoke_xray_client_end dbnow now req xcall o4 db))"
  unfolding request_peer_end_def revoke_peer_end_def request_xray_client_end_def revoke_xray_client_end_def
  using assms
  by (auto intro!: after_call_wf simp: finalize_snd finalize_failure_def finalize_xray_failure_def
      peer_pairs.settle_active_wf peer_pairs.settle_revoked_wf peer_pairs.settle_failed_wf
      client_pairs.settle_active_wf client_pairs.settle_revoked_wf client_pairs.settle_failed_wf)

subsection \<open>Phase A\<close>

text \<open>A running operation, then the credential, then the row: what a reconnect and a removal write.\<close>

lemma begin_peer_wf:
  assumes "db_wf db" and r: "r \<in> set (db_peers db)" and "running_op kind tkind sid tid rid gen fp now db = (oper, db1)"
    and "statements [insert_operation oper, write_credential (rt_credential_id r) g,
           write_row peer_table dbnow (rt_id r) f] db1 = Inr db2"
    and f: "rt_credential_id (f r) = rt_credential_id r" and g: "same_credential g"
    and gl: "\<And>c. live (cred_state (g c))"
  shows "db_wf db2"
proof -
  from statements_Inr [OF assms(4)] have ok: "db_ok db2"
    and db2: "db2 = write_row peer_table dbnow (rt_id r) f (write_credential (rt_credential_id r) g (insert_operation oper db1))"
    by auto
  have "pairing (pair_write peer_table dbnow r f g db)"
    by (rule peer_pairs.pair_kept) (simp_all add: assms(1) r f g gl)
  then have "pairing db2"
    using running_op_frames [OF assms(3)]
    by (elim pairing_frame)
      (simp_all add: db2 pair_write_def write_credential_def peers.write_row_frame peers.rows_after_write [simplified])
  with ok show ?thesis by (simp add: db_wf_pairing)
qed

lemma begin_client_wf:
  assumes "db_wf db" and r: "r \<in> set (db_clients db)" and "running_op kind tkind sid tid rid gen fp now db = (oper, db1)"
    and "statements [insert_operation oper, write_credential (rt_credential_id r) g,
           write_row client_table dbnow (rt_id r) f] db1 = Inr db2"
    and f: "rt_credential_id (f r) = rt_credential_id r" and g: "same_credential g"
    and gl: "\<And>c. live (cred_state (g c))"
  shows "db_wf db2"
proof -
  from statements_Inr [OF assms(4)] have ok: "db_ok db2"
    and db2: "db2 = write_row client_table dbnow (rt_id r) f (write_credential (rt_credential_id r) g (insert_operation oper db1))"
    by auto
  have "pairing (pair_write client_table dbnow r f g db)"
    by (rule client_pairs.pair_kept) (simp_all add: assms(1) r f g gl)
  then have "pairing db2"
    using running_op_frames [OF assms(3)]
    by (elim pairing_frame)
      (simp_all add: db2 pair_write_def write_credential_def clients.write_row_frame clients.rows_after_write [simplified])
  with ok show ?thesis by (simp add: db_wf_pairing)
qed

lemma credential_by_idD: "credential_by_id i db = Some c \<Longrightarrow> c \<in> set (db_credentials db) \<and> cred_id c = i"
  by (auto simp: credential_by_id_def dest: find_SomeD)

lemma live_peerD:
  "live_peer d s db = Some p \<Longrightarrow> p \<in> set (db_peers db) \<and> rt_device_id p = d \<and> rt_server_id p = s \<and> live (rt_state p)"
  by (auto simp: live_peer_def dest!: find_SomeD)

lemma live_clientD:
  "live_client d pr s db = Some x \<Longrightarrow>
     x \<in> set (db_clients db) \<and> rt_device_id x = d \<and> rt_profile_id x = pr \<and> rt_server_id x = s \<and> live (rt_state x)"
  by (auto simp: live_client_def dest!: find_SomeD)

text \<open>What the branch of a reconnect did, when it went through.\<close>

lemma peer_againE:
  assumes "peer_again sha256 req key profile server peer dbnow now db = (Inr call, db')"
  obtains oper db1 where
    "running_op ''provision_device'' ''wireguard_peer'' (srv_id server) (rt_id peer) (cq_request_id req)
       (rt_applied_generation peer + 1)
       (fingerprint sha256 [''provision_device'', uuid_text (rt_id peer), key, ip_text (wp_assigned_address peer)])
       now db = (oper, db1)"
    "statements [insert_operation oper,
       write_credential (rt_credential_id peer) (\<lambda>c. c\<lparr>cred_profile_id := pp_id profile, cred_state := APPLYING\<rparr>),
       write_row peer_table dbnow (rt_id peer)
         (\<lambda>p. p\<lparr>wp_public_key := key, rt_profile_id := pp_id profile, rt_state := APPLYING\<rparr>)] db1 = Inr db'"
    "pc_row_id call = rt_id peer" "pc_credential_id call = rt_credential_id peer"
    "pc_operation_id call = op_id oper" "pc_public_key call = key" "pc_address call = wp_assigned_address peer"
proof -
  obtain oper db1 where r: "running_op ''provision_device'' ''wireguard_peer'' (srv_id server) (rt_id peer) (cq_request_id req)
       (rt_applied_generation peer + 1)
       (fingerprint sha256 [''provision_device'', uuid_text (rt_id peer), key, ip_text (wp_assigned_address peer)])
       now db = (oper, db1)" by fastforce
  from assms obtain c where c: "credential_by_id (rt_credential_id peer) db = Some c"
    by (auto simp: peer_again_def split: option.splits)
  with credential_by_idD have "cred_id c = rt_credential_id peer" by blast
  with that [OF r] assms c r show ?thesis
    by (auto simp: peer_again_def Let_def split: if_splits sum.splits)
qed

lemma peer_again_wf:
  assumes "db_wf db" "peer \<in> set (db_peers db)"
    and "peer_again sha256 req key profile server peer dbnow now db = (Inr call, db')"
  shows "db_wf db'"
proof -
  from assms(3) show ?thesis
    by (rule peer_againE) (rule begin_peer_wf [OF assms(1,2)], assumption+, auto simp: same_credential_def live_def)
qed

lemma peer_newE:
  assumes "peer_new sha256 req key device profile server capability dbnow now db = (Inr call, db')"
  obtains address oper db3 where
    "require_capacity server capability db = Inr ()" "allocate_address server db = Inr address"
    "running_op ''provision_device'' ''wireguard_peer'' (srv_id server) (Suc (uuid_supply db)) (cq_request_id req) 1
       (fingerprint sha256 [''provision_device'', uuid_text (Suc (uuid_supply db)), key, ip_text address])
       now (snd (uuid4 (snd (uuid4 db)))) = (oper, db3)"
    "statements [insert_credential (new_credential (uuid_supply db) ''wireguard_public'' device profile server now),
       insert_row peer_table
         (new_peer (Suc (uuid_supply db)) (uuid_supply db) device profile server key address dbnow),
       insert_operation oper] db3 = Inr db'"
    "pc_row_id call = Suc (uuid_supply db)" "pc_credential_id call = uuid_supply db"
    "pc_operation_id call = op_id oper" "pc_public_key call = key" "pc_address call = address"
proof -
  from assms obtain address where a: "require_capacity server capability db = Inr ()"
      "allocate_address server db = Inr address"
    by (auto simp: peer_new_def andthen_Inr split: sum.splits)
  obtain oper db3 where r: "running_op ''provision_device'' ''wireguard_peer'' (srv_id server) (Suc (uuid_supply db))
       (cq_request_id req) 1
       (fingerprint sha256 [''provision_device'', uuid_text (Suc (uuid_supply db)), key, ip_text address])
       now (snd (uuid4 (snd (uuid4 db)))) = (oper, db3)" by fastforce
  with that [OF a r] assms a show ?thesis
    by (auto simp: peer_new_def Let_def uuid4_def split: sum.splits)
qed

lemma peer_new_wf:
  assumes "db_wf db" and "peer_new sha256 req key device profile server capability dbnow now db = (Inr call, db')"
  shows "db_wf db'"
  using assms(2)
proof (rule peer_newE)
  fix address oper db3
  let ?c = "new_credential (uuid_supply db) ''wireguard_public'' device profile server now"
  let ?p = "new_peer (Suc (uuid_supply db)) (uuid_supply db) device profile server key address dbnow"
  assume run: "running_op ''provision_device'' ''wireguard_peer'' (srv_id server) (Suc (uuid_supply db)) (cq_request_id req) 1
       (fingerprint sha256 [''provision_device'', uuid_text (Suc (uuid_supply db)), key, ip_text address])
       now (snd (uuid4 (snd (uuid4 db)))) = (oper, db3)"
    and st: "statements [insert_credential ?c, insert_row peer_table ?p, insert_operation oper] db3 = Inr db'"
  from statements_Inr [OF st] have ok: "db_ok db'"
    and db': "db' = insert_operation oper (insert_row peer_table ?p (insert_credential ?c db3))" by auto
  have tabs: "db_credentials db' = db_credentials db @ [?c]" "db_peers db' = db_peers db @ [?p]"
      "db_clients db' = db_clients db"
    using running_op_frames [OF run] by (simp_all add: db')
  have "distinct (map cred_id (db_credentials db @ [?c]))"
    using ok tabs by (simp add: db_ok_def credentials_ok_def)
  with assms(1) have "pairing db'"
    using paired_new [of "db_peers db" "db_credentials db" ?c ?p] paired_more [of "db_clients db" "db_credentials db" ?c]
    by (auto simp: pairing_def tabs db_wf_def new_credential_def new_peer_def live_def sealed_def)
  with ok show "db_wf db'" by (simp add: db_wf_pairing)
qed

lemma client_againE:
  assumes "client_again dec ring sha256 req device profile server client dbnow now db = (Inr call, db')"
  obtains oper db1 where
    "running_op ''provision_device'' ''xray_client'' (srv_id server) (rt_id client) (cq_request_id req)
       (rt_applied_generation client + 1)
       (fingerprint sha256 [''provision_device'', uuid_text (rt_id client), xc_opaque_label client])
       now db = (oper, db1)"
    "statements [insert_operation oper,
       write_credential (rt_credential_id client) (\<lambda>c. c\<lparr>cred_state := APPLYING\<rparr>),
       write_row client_table dbnow (rt_id client) (\<lambda>x. x\<lparr>rt_state := APPLYING\<rparr>)] db1 = Inr db'"
    "pc_row_id call = rt_id client" "pc_credential_id call = rt_credential_id client"
    "pc_operation_id call = op_id oper"
proof -
  obtain oper db1 where r: "running_op ''provision_device'' ''xray_client'' (srv_id server) (rt_id client) (cq_request_id req)
       (rt_applied_generation client + 1)
       (fingerprint sha256 [''provision_device'', uuid_text (rt_id client), xc_opaque_label client])
       now db = (oper, db1)" by fastforce
  from assms obtain c u where c: "credential_by_id (rt_credential_id client) db = Some c"
      "stored_client_uuid dec ring (dev_id device) c = Some u"
    by (auto simp: client_again_def split: option.splits)
  with credential_by_idD have "cred_id c = rt_credential_id client" by blast
  with that [OF r] assms c r show ?thesis
    by (auto simp: client_again_def Let_def split: if_splits sum.splits)
qed

lemma client_again_wf:
  assumes "db_wf db" "client \<in> set (db_clients db)"
    and "client_again dec ring sha256 req device profile server client dbnow now db = (Inr call, db')"
  shows "db_wf db'"
proof -
  from assms(3) show ?thesis
    by (rule client_againE) (rule begin_client_wf [OF assms(1,2)], assumption+, auto simp: same_credential_def live_def)
qed

text \<open>The insertion of a new Xray client: the credential first, sealed once it has an id.\<close>

lemma client_newE:
  assumes "client_new enc ring version nonce label sha256 req device profile server capability dbnow now db = (Inr call, db')"
  obtains envelope key oper db4 db5 where
    "require_xray_capacity server capability db = Inr ()"
    "running_op ''provision_device'' ''xray_client'' (srv_id server) (Suc (Suc (uuid_supply db))) (cq_request_id req) 1
       (fingerprint sha256 [''provision_device'', uuid_text (Suc (Suc (uuid_supply db))), label])
       now (snd (uuid4 (snd (uuid4 (snd (uuid4 db)))))) = (oper, db4)"
    "encrypt_xray_credential enc (uuid_supply db) (dev_id device) (Suc (uuid_supply db)) version ring nonce = Some envelope"
    "ring version = Some key"
    "db5 = insert_credential (new_credential (Suc (uuid_supply db)) ''xray_bearer'' device profile server now) db4"
    "statements [write_credential (Suc (uuid_supply db)) (seal_credential sha256 key envelope),
       insert_row client_table
         (new_client (Suc (Suc (uuid_supply db))) (Suc (uuid_supply db)) device profile server label dbnow),
       insert_operation oper] db5 = Inr db'"
    "db_ok db5"
    "pc_row_id call = Suc (Suc (uuid_supply db))" "pc_credential_id call = Suc (uuid_supply db)"
    "pc_operation_id call = op_id oper"
proof -
  from assms have cap: "require_xray_capacity server capability db = Inr ()"
    by (auto simp: client_new_def split: sum.splits)
  obtain oper db4 where r: "running_op ''provision_device'' ''xray_client'' (srv_id server) (Suc (Suc (uuid_supply db)))
       (cq_request_id req) 1
       (fingerprint sha256 [''provision_device'', uuid_text (Suc (Suc (uuid_supply db))), label])
       now (snd (uuid4 (snd (uuid4 (snd (uuid4 db)))))) = (oper, db4)" by fastforce
  let ?d = "insert_credential (new_credential (Suc (uuid_supply db)) ''xray_bearer'' device profile server now) db4"
  have ok: "db_ok ?d"
    using assms cap r by (auto simp: client_new_def Let_def uuid4_def constrained_def split: if_splits)
  from assms cap r ok obtain envelope key where
    "encrypt_xray_credential enc (uuid_supply db) (dev_id device) (Suc (uuid_supply db)) version ring nonce = Some envelope"
    "ring version = Some key"
    by (auto simp: client_new_def Let_def uuid4_def constrained_def split: option.splits)
  with that [OF cap r this refl _ ok] assms cap r ok show ?thesis
    by (auto simp: client_new_def Let_def uuid4_def constrained_def split: sum.splits)
qed

lemma client_new_tables:
  assumes "client_new enc ring version nonce label sha256 req device profile server capability dbnow now db = (Inr call, db')"
  obtains c x where "db_ok db'" "live (cred_state c)" "rt_credential_id x = cred_id c" "cred_ciphertext c \<noteq> None"
    "rt_id x = pc_row_id call" "cred_id c = pc_credential_id call" "rt_server_id x = srv_id server"
    "db_credentials db' = db_credentials db @ [c]" "db_clients db' = db_clients db @ [x]" "db_peers db' = db_peers db"
  using assms
proof (rule client_newE)
  fix envelope key oper db4 db5
  let ?c = "new_credential (Suc (uuid_supply db)) ''xray_bearer'' device profile server now"
  let ?x = "new_client (Suc (Suc (uuid_supply db))) (Suc (uuid_supply db)) device profile server label dbnow"
  assume run: "running_op ''provision_device'' ''xray_client'' (srv_id server) (Suc (Suc (uuid_supply db))) (cq_request_id req) 1
       (fingerprint sha256 [''provision_device'', uuid_text (Suc (Suc (uuid_supply db))), label])
       now (snd (uuid4 (snd (uuid4 (snd (uuid4 db)))))) = (oper, db4)"
    and db5: "db5 = insert_credential ?c db4" "db_ok db5"
    and st: "statements [write_credential (Suc (uuid_supply db)) (seal_credential sha256 key envelope),
       insert_row client_table ?x, insert_operation oper] db5 = Inr db'"
    and call: "pc_row_id call = Suc (Suc (uuid_supply db))" "pc_credential_id call = Suc (uuid_supply db)"
  from statements_Inr [OF st] have ok: "db_ok db'" and db': "db' = insert_operation oper (insert_row client_table ?x
      (write_credential (Suc (uuid_supply db)) (seal_credential sha256 key envelope) db5))" by auto
  have fresh: "\<forall>c\<in>set (db_credentials db). cred_id c \<noteq> Suc (uuid_supply db)"
    using db5(2) running_op_frames(1) [OF run]
    by (auto simp: db5(1) db_ok_def credentials_ok_def new_credential_def rev_image_eqI)
  have "update_where (\<lambda>c. cred_id c = Suc (uuid_supply db)) (seal_credential sha256 key envelope) (db_credentials db) =
      db_credentials db"
    using fresh by (intro update_where_none) auto
  then have "db_credentials db' = db_credentials db @ [seal_credential sha256 key envelope ?c]"
      "db_clients db' = db_clients db @ [?x]" "db_peers db' = db_peers db"
    using running_op_frames [OF run]
    by (simp_all add: db' db5(1) write_credential_def update_where_append new_credential_def)
  then show thesis
    by (intro that [OF ok, of "seal_credential sha256 key envelope ?c" ?x])
      (simp_all add: seal_credential_def new_credential_def new_client_def live_def call)
qed

lemma client_new_wf:
  assumes "db_wf db" and "client_new enc ring version nonce label sha256 req device profile server capability dbnow now db = (Inr call, db')"
  shows "db_wf db'"
  using assms(2)
proof (rule client_new_tables)
  fix c x
  assume t: "db_ok db'" "live (cred_state c)" "rt_credential_id x = cred_id c" "cred_ciphertext c \<noteq> None"
    "db_credentials db' = db_credentials db @ [c]" "db_clients db' = db_clients db @ [x]" "db_peers db' = db_peers db"
  have "distinct (map cred_id (db_credentials db @ [c]))"
    using t by (simp add: db_ok_def credentials_ok_def)
  with assms(1) t have "pairing db'"
    using paired_new [of "db_clients db" "db_credentials db" c x] paired_more [of "db_peers db" "db_credentials db" c]
    by (auto simp: pairing_def db_wf_def sealed_def)
  with t(1) show "db_wf db'" by (simp add: db_wf_pairing)
qed

lemma revoke_peer_beginE:
  assumes "revoke_peer_begin sha256 window allowed req dbnow now db = (Inr call, db')"
  obtains peer oper db1 gen fp where "peer \<in> set (db_peers db)" "rt_state peer = ACTIVE"
    "running_op ''revoke_device'' ''wireguard_peer'' (rt_server_id peer) (rt_id peer) (cq_request_id req) gen fp now db = (oper, db1)"
    "statements [insert_operation oper, write_credential (rt_credential_id peer) credential_revoking,
       write_row peer_table dbnow (rt_id peer) row_removing] db1 = Inr db'"
    "pc_row_id call = rt_id peer" "pc_credential_id call = rt_credential_id peer" "pc_operation_id call = op_id oper"
proof -
  have ok: "allowed"
    using assms by (auto simp: revoke_peer_begin_def map_prod_def split: if_splits prod.splits)
  from assms ok obtain device server peer c where d: "owned_device (cq_device_id req) (cq_user_id req) db = Some device"
      "server_by_code (cq_server_code req) db = Some server" "live_peer (dev_id device) (srv_id server) db = Some peer"
      "rt_state peer = ACTIVE" "credential_by_id (rt_credential_id peer) db = Some c"
    by (auto simp: revoke_peer_begin_def split: option.splits if_splits)
  note p = live_peerD [OF d(3)] and c = credential_by_idD [OF d(5)]
  let ?gen = "rt_applied_generation peer"
  let ?fp = "fingerprint sha256 [''revoke_device'', uuid_text (rt_id peer), wp_public_key peer]"
  obtain oper db1 where r: "running_op ''revoke_device'' ''wireguard_peer'' (rt_server_id peer) (rt_id peer)
      (cq_request_id req) ?gen ?fp now db = (oper, db1)" by fastforce
  show ?thesis
    using that [OF _ d(4) r] p c r assms ok d
    by (auto simp: revoke_peer_begin_def Let_def split: sum.splits)
qed

lemma revoke_xray_client_beginE:
  assumes "revoke_xray_client_begin dec ring sha256 window allowed req dbnow now db = (Inr call, db')"
  obtains client oper db1 gen fp where "client \<in> set (db_clients db)" "rt_state client = ACTIVE"
    "running_op ''revoke_device'' ''xray_client'' (rt_server_id client) (rt_id client) (cq_request_id req) gen fp now db = (oper, db1)"
    "statements [insert_operation oper, write_credential (rt_credential_id client) credential_revoking,
       write_row client_table dbnow (rt_id client) row_removing] db1 = Inr db'"
    "pc_row_id call = rt_id client" "pc_credential_id call = rt_credential_id client" "pc_operation_id call = op_id oper"
proof -
  have ok: "allowed"
    using assms by (auto simp: revoke_xray_client_begin_def map_prod_def split: if_splits prod.splits)
  from assms ok obtain device server profile client c u where d: "owned_device (cq_device_id req) (cq_user_id req) db = Some device"
      "server_by_code (cq_server_code req) db = Some server" "require_profile (cq_profile_code req) db = Inr profile"
      "live_client (dev_id device) (pp_id profile) (srv_id server) db = Some client"
      "rt_state client = ACTIVE" "credential_by_id (rt_credential_id client) db = Some c"
      "stored_client_uuid dec ring (dev_id device) c = Some u"
    by (auto simp: revoke_xray_client_begin_def split: option.splits if_splits sum.splits)
  note p = live_clientD [OF d(4)] and c = credential_by_idD [OF d(6)]
  let ?gen = "rt_applied_generation client"
  let ?fp = "fingerprint sha256 [''revoke_device'', uuid_text (rt_id client), xc_opaque_label client]"
  obtain oper db1 where r: "running_op ''revoke_device'' ''xray_client'' (rt_server_id client) (rt_id client)
      (cq_request_id req) ?gen ?fp now db = (oper, db1)" by fastforce
  show ?thesis
    using that [OF _ d(5) r] p c r assms ok d
    by (auto simp: revoke_xray_client_begin_def Let_def split: sum.splits)
qed

lemma same_credential_revoking: "same_credential credential_revoking"
  by (simp add: same_credential_def credential_revoking_def)

lemma rate_limited_wf: "db_wf db \<Longrightarrow> db_wf (snd (rate_limited window req db))"
  by (auto simp: rate_limited_def constrained_def db_wf_pairing elim!: pairing_frame)

lemma begins_wf:
  assumes "db_wf db"
  shows "db_wf (snd (request_peer_begin sha256 window allowed req key dbnow now db)) \<and>
    db_wf (snd (revoke_peer_begin sha256 window allowed req dbnow now db)) \<and>
    db_wf (snd (request_xray_client_begin enc dec ring version nonce label sha256 window allowed req dbnow now db)) \<and>
    db_wf (snd (revoke_xray_client_begin dec ring sha256 window allowed req dbnow now db))"
proof (intro conjI)
  show "db_wf (snd (request_peer_begin sha256 window allowed req key dbnow now db))" (is "db_wf (snd ?r)")
  proof (cases "fst ?r")
    case (Inl e)
    then show ?thesis
      using request_peer_refused [OF Inl] assms
        rate_limited_wf [OF assms, of window req] by auto
  next
    case (Inr call)
    then have "?r = (Inr call, snd ?r)" by (simp add: prod_eq_iff)
    then show ?thesis
      by (rule request_peer_beginE)
        (auto dest!: live_peerD intro: peer_again_wf [OF assms] peer_new_wf [OF assms])
  qed
next
  show "db_wf (snd (revoke_peer_begin sha256 window allowed req dbnow now db))" (is "db_wf (snd ?r)")
  proof (cases "fst ?r")
    case (Inl e)
    then show ?thesis
      using revoke_peer_refused [OF Inl] assms
        rate_limited_wf [OF assms, of window req] by auto
  next
    case (Inr call)
    then have "?r = (Inr call, snd ?r)" by (simp add: prod_eq_iff)
    then show ?thesis
      by (rule revoke_peer_beginE) (rule begin_peer_wf [OF assms], assumption+,
          auto simp: row_removing_def same_credential_revoking live_def)
  qed
next
  show "db_wf (snd (request_xray_client_begin enc dec ring version nonce label sha256 window allowed req dbnow now db))"
    (is "db_wf (snd ?r)")
  proof (cases "fst ?r")
    case (Inl e)
    then show ?thesis
      using request_xray_refused [OF Inl] assms
        rate_limited_wf [OF assms, of window req] by auto
  next
    case (Inr call)
    then have "?r = (Inr call, snd ?r)" by (simp add: prod_eq_iff)
    then show ?thesis
      by (rule request_xray_client_beginE)
        (auto dest!: live_clientD intro: client_again_wf [OF assms] client_new_wf [OF assms])
  qed
next
  show "db_wf (snd (revoke_xray_client_begin dec ring sha256 window allowed req dbnow now db))" (is "db_wf (snd ?r)")
  proof (cases "fst ?r")
    case (Inl e)
    then show ?thesis
      using revoke_xray_refused [OF Inl] assms
        rate_limited_wf [OF assms, of window req] by auto
  next
    case (Inr call)
    then have "?r = (Inr call, snd ?r)" by (simp add: prod_eq_iff)
    then show ?thesis
      by (rule revoke_xray_client_beginE) (rule begin_client_wf [OF assms], assumption+,
          auto simp: row_removing_def same_credential_revoking live_def)
  qed
qed

text \<open>
  Phase A keeps the invariant of the database, for all four handlers and whatever the
  request: all constraints hold, every live row has a live credential and every Xray credential
  is sealed.
\<close>

lemma begin_keeps_invariant:
  assumes "db_wf db"
  shows "db_wf (snd (request_peer_begin sha256 window allowed req key dbnow now db)) \<and>
    db_wf (snd (revoke_peer_begin sha256 window allowed req dbnow now db)) \<and>
    db_wf (snd (request_xray_client_begin enc dec ring version nonce label sha256 window allowed req dbnow now db)) \<and>
    db_wf (snd (revoke_xray_client_begin dec ring sha256 window allowed req dbnow now db))"
  using assms by (rule begins_wf)

subsection \<open>Limits\<close>

lemma length_filter_update:
  "(\<And>x. x \<in> set xs \<Longrightarrow> Q x \<Longrightarrow> P (f x) = P x) \<Longrightarrow> length (filter P (update_where Q f xs)) = length (filter P xs)"
  by (induction xs) auto

lemma peer_again_live:
  assumes "db_wf db" "live_peer d (srv_id server) db = Some peer"
    and "peer_again sha256 req key profile server peer dbnow now db = (Inr call, db')"
  shows "length (live_on (srv_id server) (db_peers db')) = length (live_on (srv_id server) (db_peers db))"
    and "\<exists>p\<in>set (live_on (srv_id server) (db_peers db')). rt_id p = pc_row_id call \<and>
      wp_assigned_address p = pc_address call \<and> wp_public_key p = pc_public_key call"
proof -
  let ?f = "\<lambda>p. p\<lparr>wp_public_key := key, rt_profile_id := pp_id profile, rt_state := APPLYING\<rparr>"
  note p = live_peerD [OF assms(2)]
  from assms(3) obtain oper db1 where run: "running_op ''provision_device'' ''wireguard_peer'' (srv_id server)
      (rt_id peer) (cq_request_id req) (rt_applied_generation peer + 1)
      (fingerprint sha256 [''provision_device'', uuid_text (rt_id peer), key, ip_text (wp_assigned_address peer)])
      now db = (oper, db1)"
    and st: "statements [insert_operation oper,
       write_credential (rt_credential_id peer) (\<lambda>c. c\<lparr>cred_profile_id := pp_id profile, cred_state := APPLYING\<rparr>),
       write_row peer_table dbnow (rt_id peer) ?f] db1 = Inr db'"
    and call: "pc_row_id call = rt_id peer" "pc_public_key call = key" "pc_address call = wp_assigned_address peer"
    by (rule peer_againE) auto
  have rows: "db_peers db' = update_where (\<lambda>x. rt_id x = rt_id peer) (orm_write dbnow ?f) (db_peers db)"
    using statements_Inr [OF st] running_op_frames [OF run]
    by (simp add: peers.rows_after_write [simplified] write_credential_def)
  have only: "x = peer" if "x \<in> set (db_peers db)" "rt_id x = rt_id peer" for x
    using that p peer_rows.ok_ids [of db] assms(1) by (auto simp: db_wf_def distinct_map inj_on_def)
  show "length (live_on (srv_id server) (db_peers db')) = length (live_on (srv_id server) (db_peers db))"
    unfolding live_on_def rows using p
    by (intro length_filter_update) (auto dest!: only simp: live_def)
  have "orm_write dbnow ?f peer \<in> set (db_peers db')" using p by (auto simp: rows set_update_where)
  then show "\<exists>p\<in>set (live_on (srv_id server) (db_peers db')). rt_id p = pc_row_id call \<and>
      wp_assigned_address p = pc_address call \<and> wp_public_key p = pc_public_key call"
    using p by (intro bexI [of _ "orm_write dbnow ?f peer"]) (auto simp: live_on_def live_def call)
qed

lemma peer_new_live:
  assumes "peer_new sha256 req key device profile server capability dbnow now db = (Inr call, db')"
  shows "int (length (live_on (srv_id server) (db_peers db'))) \<le> effective_limit server capability"
    and "\<exists>p\<in>set (live_on (srv_id server) (db_peers db')). rt_id p = pc_row_id call \<and>
      wp_assigned_address p = pc_address call \<and> wp_public_key p = pc_public_key call"
    and "\<exists>pool. srv_client_pool server = Some pool \<and> pc_address call \<in> pool_hosts pool \<and>
      srv_gateway_address server \<noteq> Some (pc_address call)"
proof -
  from assms obtain address oper db3 where cap: "require_capacity server capability db = Inr ()"
    and addr: "allocate_address server db = Inr address"
    and run: "running_op ''provision_device'' ''wireguard_peer'' (srv_id server) (Suc (uuid_supply db)) (cq_request_id req) 1
       (fingerprint sha256 [''provision_device'', uuid_text (Suc (uuid_supply db)), key, ip_text address])
       now (snd (uuid4 (snd (uuid4 db)))) = (oper, db3)"
    and st: "statements [insert_credential (new_credential (uuid_supply db) ''wireguard_public'' device profile server now),
       insert_row peer_table
         (new_peer (Suc (uuid_supply db)) (uuid_supply db) device profile server key address dbnow),
       insert_operation oper] db3 = Inr db'"
    and call: "pc_row_id call = Suc (uuid_supply db)" "pc_public_key call = key" "pc_address call = address"
    by (rule peer_newE) auto
  have rows: "db_peers db' = db_peers db @
      [new_peer (Suc (uuid_supply db)) (uuid_supply db) device profile server key address dbnow]"
    using statements_Inr [OF st] running_op_frames [OF run] by simp
  show "int (length (live_on (srv_id server) (db_peers db'))) \<le> effective_limit server capability"
    using cap by (auto simp: rows live_on_def new_peer_def require_capacity_def split: if_splits)
  show "\<exists>p\<in>set (live_on (srv_id server) (db_peers db')). rt_id p = pc_row_id call \<and>
      wp_assigned_address p = pc_address call \<and> wp_public_key p = pc_public_key call"
    by (simp add: rows live_on_def new_peer_def live_def call)
  show "\<exists>pool. srv_client_pool server = Some pool \<and> pc_address call \<in> pool_hosts pool \<and>
      srv_gateway_address server \<noteq> Some (pc_address call)"
    using allocate_address_InrD [OF addr] call by auto
qed

lemma live_addresses_distinct:
  assumes "db_wf db"
  shows "inj_on wp_assigned_address (set (live_on s (db_peers db)))"
proof -
  have "inj_on (\<lambda>p. (rt_server_id p, wp_assigned_address p)) (set (filter (\<lambda>p. live (rt_state p)) (db_peers db)))"
    using assms by (simp add: db_wf_def db_ok_def peers_ok_def Let_def distinct_map)
  then show ?thesis unfolding inj_on_def live_on_def by auto
qed



end
