(* ===== verification/Provisioning_Outcomes.thy ===== *)
theory Provisioning_Outcomes
  imports Provisioning_Invariant
begin

text \<open>
  Phase C of the provisioning handlers: a pending call is always recorded, whatever the agent
  answered, and what is recorded; a removal is never given up before the agent confirmed it.
  Then three schedules on which the recorded state and the server part ways.
\<close>

subsection \<open>A pending call can be recorded\<close>

text \<open>
  A call whose row is still live, seen at a time not before the times already in its rows.
\<close>

definition awaits :: "'a row_table \<Rightarrow> 'b pending_call_scheme \<Rightarrow> time \<Rightarrow> control_db \<Rightarrow> bool" where
  "awaits T call now db \<longleftrightarrow>
     (case lock_triple T call db of
        None \<Rightarrow> False
      | Some (r, c, p) \<Rightarrow>
          rt_credential_id r = pc_credential_id call \<and> live (rt_state r) \<and> rt_revoked_at r = None \<and>
          (case rt_applied_at r of None \<Rightarrow> True | Some t \<Rightarrow> t \<le> now) \<and> cred_issued_at c \<le> now \<and>
          (case op_started_at p of None \<Rightarrow> True | Some t \<Rightarrow> t \<le> now))"

lemma awaitsE:
  assumes "awaits T call now db"
  obtains r c p where "lock_triple T call db = Some (r, c, p)" "rt_credential_id r = pc_credential_id call"
    "live (rt_state r)" "rt_revoked_at r = None" "\<And>t. rt_applied_at r = Some t \<Longrightarrow> t \<le> now"
    "cred_issued_at c \<le> now" "\<And>t. op_started_at p = Some t \<Longrightarrow> t \<le> now"
  using assms by (auto simp: awaits_def split: option.splits)

lemma audit_words:
  "error_code_format ''succeeded''" "error_code_format ''failed''" "error_code_format ''activated''"
  "error_code_format ''revoked''" "error_code_format ''revoking''" "error_code_format ''agent_rejected''"
  "error_code_format ''agent_unreachable''" "error_code_format ''repaired''"
  by code_simp+

lemma user_event_ok:
  assumes "outcome = ''succeeded'' \<or> outcome = ''failed''" "error_code_format reason"
  shows "audit_check \<lparr>ae_actor_kind = ''user'', ae_actor_id = Some u, ae_target_kind = k, ae_target_id = t,
     ae_event_code = e, ae_outcome = outcome, ae_request_id = q, ae_reason_code = Some reason\<rparr>"
  using assms by (elim disjE) (simp_all add: audit_check_def optional_def)

lemma audit_transition_ok:
  assumes "db_ok db" "outcome = ''succeeded'' \<or> outcome = ''failed''" "error_code_format reason"
  shows "db_ok (audit_transition a b c d e outcome reason kind db)"
proof -
  have "error_code_format outcome" using assms(2) audit_words by blast
  then show ?thesis
    unfolding audit_transition_def using assms by (intro db_ok_audit user_event_ok)
qed

lemma lock_tripleD:
  "lock_triple T call db = Some (r, c, p) \<Longrightarrow>
     row_by_id T (pc_row_id call) db = Some r \<and> credential_by_id (pc_credential_id call) db = Some c \<and>
     operation_by_id (pc_operation_id call) db = Some p"
  by (auto simp: lock_triple_def split: option.splits)

lemma operation_by_idD: "operation_by_id i db = Some p \<Longrightarrow> p \<in> set (db_operations db) \<and> op_id p = i"
  by (auto simp: operation_by_id_def dest: find_SomeD)

lemma wf_unique_credential:
  "db_wf db \<Longrightarrow> c \<in> set (db_credentials db) \<Longrightarrow> d \<in> set (db_credentials db) \<Longrightarrow> cred_id c = cred_id d \<Longrightarrow> c = d"
  by (auto simp: db_wf_def db_ok_def credentials_ok_def distinct_map inj_on_def)

lemma wf_unique_operation:
  "db_wf db \<Longrightarrow> p \<in> set (db_operations db) \<Longrightarrow> q \<in> set (db_operations db) \<Longrightarrow> op_id p = op_id q \<Longrightarrow> p = q"
  by (auto simp: db_wf_def db_ok_def operations_ok_def distinct_map inj_on_def)

context managed_table
begin

lemma settle_accepted:
  assumes wf: "db_wf db" and lt: "lock_triple T call db = Some (r, c, p)"
    and rc: "rt_credential_id r = pc_credential_id call"
    and f: "lifecycle_write f r" "\<And>x. rt_id (f x) = rt_id x" and g: "keeps_identity g" "keeps_secret g"
    and check: "credential_check (g c)" "live (cred_state (g c)) = live (rt_state (f r))"
    and hid: "\<And>q. op_id (h q) = op_id q"
    and h: "op_id (h p) = op_id p \<and> op_idempotency_key (h p) = op_idempotency_key p \<and> op_target (h p) = op_target p \<and>
        operation_check (h p) \<and> (inflight (op_state (h p)) \<longrightarrow> inflight (op_state p))"
    and words: "outcome = ''succeeded'' \<or> outcome = ''failed''" "error_code_format reason"
  shows "\<exists>db'. settle T dbnow call f g h user_id request_id outcome reason db = (Inr (), db') \<and> db_wf db' \<and>
    row_by_id T (pc_row_id call) db' = Some (orm_write dbnow f r) \<and>
    credential_by_id (pc_credential_id call) db' = Some (g c) \<and>
    operation_by_id (pc_operation_id call) db' = Some (h p)"
proof -
  note l = lock_tripleD [OF lt]
  have r: "r \<in> set (tab_get T db)" "rt_id r = pc_row_id call" using l row_by_idD by blast+
  have c: "c \<in> set (db_credentials db)" "cred_id c = pc_credential_id call" using l credential_by_idD by blast+
  have p: "p \<in> set (db_operations db)" "op_id p = pc_operation_id call" using l operation_by_idD by blast+
  let ?d1 = "pair_write T dbnow r f g db"
  let ?d2 = "write_operation (pc_operation_id call) h ?d1"
  let ?d3 = "audit_transition (pc_credential_id call) (pc_row_id call) (pc_operation_id call)
      user_id request_id outcome reason (tab_kind T) ?d2"
  have d1: "write_credential (pc_credential_id call) g (write_row T dbnow (pc_row_id call) f db) = ?d1"
    using r(2) rc by (simp add: pair_write_def)
  have "credential_check (g x) \<and> live (cred_state (g x)) = live (rt_state (f r))"
    if "x \<in> set (db_credentials db)" "cred_id x = rt_credential_id r" for x
    using that c rc wf_unique_credential [OF wf that(1) c(1)] check by auto
  then have wf1: "db_wf ?d1" by (intro pair_wf [OF wf r(1) f(1) g])
  have ops: "db_operations ?d1 = db_operations db"
    by (simp add: pair_write_def write_row_frame)
  have "db_ok ?d2"
  proof (rule db_ok_write_operation)
    fix q assume "q \<in> set (db_operations ?d1)" "op_id q = pc_operation_id call"
    with ops p wf_unique_operation [OF wf, of q p] have "q = p" by simp
    with h show "op_id (h q) = op_id q \<and> op_idempotency_key (h q) = op_idempotency_key q \<and>
        op_target (h q) = op_target q \<and> operation_check (h q) \<and> (inflight (op_state (h q)) \<longrightarrow> inflight (op_state q))"
      by simp
  qed (use wf1 in \<open>simp add: db_wf_def\<close>)
  then have ok: "db_ok ?d3" using words by (intro audit_transition_ok)
  moreover have "pairing ?d3"
    using wf1 by (auto simp: db_wf_pairing elim!: pairing_frame)
  ultimately have "db_wf ?d3" by (simp add: db_wf_pairing)
  moreover have "settle T dbnow call f g h user_id request_id outcome reason db = (Inr (), ?d3)"
    using lt ok by (simp add: settle_def d1 constrained_def)
  moreover have "row_by_id T (pc_row_id call) ?d3 = Some (orm_write dbnow f r)"
    using l r(2) row_by_id_write [OF runtime_table_axioms f(2)]
    by (simp add: audit_transition_def row_by_id_frame pair_write_def)
  moreover have "credential_by_id (pc_credential_id call) ?d3 = Some (g c)"
    using l g(1) credential_by_id_write [of g] rc
    by (simp add: audit_transition_def pair_write_def by_id_frame keeps_identity_def)
  moreover have "operation_by_id (pc_operation_id call) ?d3 = Some (h p)"
    using l operation_by_id_write [OF hid, of "pc_operation_id call" "pc_operation_id call"] ops
    by (simp add: audit_transition_def operation_by_id_def)
  ultimately show ?thesis by blast
qed

lemma settle_active_accepted:
  assumes wf: "db_wf db" and "awaits T call now db" and "0 \<le> generation" "int4_ok generation"
  shows "\<exists>db' r. settle_active T dbnow now req call generation db = (Inr (), db') \<and> db_wf db' \<and>
    row_by_id T (pc_row_id call) db' = Some r \<and> rt_state r = ACTIVE \<and> rt_applied_generation r = generation"
  using assms(2)
proof (rule awaitsE)
  fix r c p
  assume a: "lock_triple T call db = Some (r, c, p)" "rt_credential_id r = pc_credential_id call"
    "live (rt_state r)" "rt_revoked_at r = None" "cred_issued_at c \<le> now" "\<And>t. op_started_at p = Some t \<Longrightarrow> t \<le> now"
  note l = lock_tripleD [OF a(1)]
  have c: "c \<in> set (db_credentials db)" and p: "p \<in> set (db_operations db)"
    using l credential_by_idD operation_by_idD by blast+
  have "lifecycle_write (row_active generation now) r"
    using a assms(3) by (simp add: lifecycle_write_def row_active_def runtime_check_def)
  moreover have "keeps_identity (credential_in ACTIVE)" "keeps_secret (credential_in ACTIVE)"
    by (simp_all add: keeps_identity_def keeps_secret_def credential_in_def live_key_def)
  moreover have "credential_check (credential_in ACTIVE c)"
    using wf_credential_check [OF wf c] by (auto simp: credential_check_def credential_in_def)
  moreover have "operation_check (op_succeeded now p)"
    using wf p a(6) by (auto simp: db_wf_def db_ok_def operations_ok_def list_all_iff operation_check_def
        op_succeeded_def split: option.splits)
  ultimately obtain db' where "settle T dbnow call (row_active generation now) (credential_in ACTIVE) (op_succeeded now)
        (cq_user_id req) (cq_request_id req) ''succeeded'' ''activated'' db = (Inr (), db')" "db_wf db'"
      "row_by_id T (pc_row_id call) db' = Some (orm_write dbnow (row_active generation now) r)"
    using settle_accepted [OF wf a(1,2) _ _ _ _ _ _ _ _ disjI1 [OF refl] audit_words(3),
        where f = "row_active generation now" and g = "credential_in ACTIVE" and h = "op_succeeded now" and
        dbnow = dbnow and user_id = "cq_user_id req" and request_id = "cq_request_id req"]
    by (auto simp: row_active_def credential_in_def op_succeeded_def op_target_def inflight_def live_def)
  with assms(4) show ?thesis by (auto simp: settle_active_def row_active_def)
qed

lemma settle_failed_accepted:
  assumes wf: "db_wf db" and "awaits T call now db" and "error_code_format code"
  shows "\<exists>db' r. settle_failed T dbnow now req call code removal db = (Inr (), db') \<and> db_wf db' \<and>
    row_by_id T (pc_row_id call) db' = Some r \<and> rt_state r = (if removal then REVOKING else FAILED)"
  using assms(2)
proof (rule awaitsE)
  fix r c p
  let ?s = "if removal then REVOKING else FAILED"
  assume a: "lock_triple T call db = Some (r, c, p)" "rt_credential_id r = pc_credential_id call"
    "live (rt_state r)" "rt_revoked_at r = None" "cred_issued_at c \<le> now" "\<And>t. op_started_at p = Some t \<Longrightarrow> t \<le> now"
  note l = lock_tripleD [OF a(1)]
  have r: "r \<in> set (tab_get T db)" using l row_by_idD by blast
  have c: "c \<in> set (db_credentials db)" and p: "p \<in> set (db_operations db)"
    using l credential_by_idD operation_by_idD by blast+
  have "lifecycle_write (row_in ?s) r"
    using a ok_rows [of db r] wf r by (simp add: lifecycle_write_def row_in_def runtime_check_def db_wf_def)
  moreover have "keeps_identity (credential_in ?s)" "keeps_secret (credential_in ?s)"
    by (simp_all add: keeps_identity_def keeps_secret_def credential_in_def live_key_def)
  moreover have "credential_check (credential_in ?s c)"
    using wf_credential_check [OF wf c] by (auto simp: credential_check_def credential_in_def)
  moreover have "operation_check (op_failed now code p)"
    using wf p a(6) assms(3) by (auto simp: db_wf_def db_ok_def operations_ok_def list_all_iff operation_check_def
        op_failed_def optional_def split: option.splits)
  moreover have "error_code_format (provisioning_text ?s)" using audit_words by simp
  ultimately obtain db' where "settle T dbnow call (row_in ?s) (credential_in ?s) (op_failed now code)
        (cq_user_id req) (cq_request_id req) ''failed'' (provisioning_text ?s) db = (Inr (), db')" "db_wf db'"
      "row_by_id T (pc_row_id call) db' = Some (orm_write dbnow (row_in ?s) r)"
    using settle_accepted [OF wf a(1,2), of "row_in ?s" "credential_in ?s" "op_failed now code"
        "''failed''" "provisioning_text ?s" dbnow "cq_user_id req" "cq_request_id req"]
    by (auto simp: row_in_def credential_in_def op_failed_def op_target_def inflight_def live_def)
  then show ?thesis by (auto simp: settle_failed_def Let_def row_in_def)
qed

lemma settle_revoked_accepted:
  assumes wf: "db_wf db" and "awaits T call now db"
  shows "\<exists>db' r. settle_revoked T dbnow now req call db = (Inr (), db') \<and> db_wf db' \<and>
    row_by_id T (pc_row_id call) db' = Some r \<and> rt_state r = REVOKED"
  using assms(2)
proof (rule awaitsE)
  fix r c p
  assume a: "lock_triple T call db = Some (r, c, p)" "rt_credential_id r = pc_credential_id call"
    "live (rt_state r)" "\<And>t. rt_applied_at r = Some t \<Longrightarrow> t \<le> now" "cred_issued_at c \<le> now"
    "\<And>t. op_started_at p = Some t \<Longrightarrow> t \<le> now"
  note l = lock_tripleD [OF a(1)]
  have r: "r \<in> set (tab_get T db)" using l row_by_idD by blast
  have c: "c \<in> set (db_credentials db)" and p: "p \<in> set (db_operations db)"
    using l credential_by_idD operation_by_idD by blast+
  have "lifecycle_write (row_revoked now) r"
    using a ok_rows [of db r] wf r
    by (auto simp: lifecycle_write_def row_revoked_def runtime_check_def db_wf_def live_def split: option.splits)
  moreover have "keeps_identity (credential_revoked now)" "keeps_secret (credential_revoked now)"
    by (simp_all add: keeps_identity_def keeps_secret_def credential_revoked_def live_key_def)
  moreover have "credential_check (credential_revoked now c)"
    using wf_credential_check [OF wf c] a(5)
    by (auto simp: credential_check_def credential_revoked_def optional_def)
  moreover have "operation_check (op_succeeded now p)"
    using wf p a(6) by (auto simp: db_wf_def db_ok_def operations_ok_def list_all_iff operation_check_def
        op_succeeded_def split: option.splits)
  ultimately obtain db' where "settle T dbnow call (row_revoked now) (credential_revoked now) (op_succeeded now)
        (cq_user_id req) (cq_request_id req) ''succeeded'' ''revoked'' db = (Inr (), db')" "db_wf db'"
      "row_by_id T (pc_row_id call) db' = Some (orm_write dbnow (row_revoked now) r)"
    using settle_accepted [OF wf a(1,2) _ _ _ _ _ _ _ _ disjI1 [OF refl] audit_words(4),
        where f = "row_revoked now" and g = "credential_revoked now" and h = "op_succeeded now" and
        dbnow = dbnow and user_id = "cq_user_id req" and request_id = "cq_request_id req"]
    by (auto simp: row_revoked_def credential_revoked_def op_succeeded_def op_target_def inflight_def live_def)
  then show ?thesis by (auto simp: settle_revoked_def row_revoked_def)
qed

end

subsection \<open>What each outcome is recorded as\<close>

text \<open>
  The state an outcome of the agent call is recorded as; \<open>None\<close> when nothing is recorded and
  reconciliation is left to find out.
\<close>

definition expected_state ::
  "provisioning_state \<Rightarrow> provisioning_state \<Rightarrow> ('r \<Rightarrow> string option option) \<Rightarrow> (agent_error, 'r) result \<Rightarrow>
   provisioning_state option" where
  "expected_state good bad failed outcome =
     (case outcome of
        Inl (AgentUnreachable _) \<Rightarrow> Some bad
      | Inl (AgentRejected _ _) \<Rightarrow> Some bad
      | Inl _ \<Rightarrow> None
      | Inr response \<Rightarrow> Some (if failed response = None then good else bad))"

text \<open>An answer the response models let through.\<close>

definition valid_answer :: "('r \<Rightarrow> string option) \<Rightarrow> ('r \<Rightarrow> int) \<Rightarrow> (agent_error, 'r) result \<Rightarrow> bool" where
  "valid_answer code generation outcome =
     (case outcome of
        Inl _ \<Rightarrow> True
      | Inr r \<Rightarrow> validate_error_code (code r) \<and> 0 \<le> generation r \<and> int4_ok (generation r))"

definition row_state :: "'a row_table \<Rightarrow> 'b pending_call_scheme \<Rightarrow> control_db \<Rightarrow> provisioning_state option" where
  "row_state T call db = map_option rt_state (row_by_id T (pc_row_id call) db)"

text \<open>
  \<open>recorded T call s res db db'\<close>: phase C ended with \<open>res\<close> and left \<open>db'\<close>, as \<open>s\<close> demands.
\<close>

definition recorded ::
  "'a row_table \<Rightarrow> 'b pending_call_scheme \<Rightarrow> provisioning_state \<Rightarrow> provisioning_state option \<Rightarrow>
   (prov_error, 'x) result \<times> control_db \<Rightarrow> control_db \<Rightarrow> bool" where
  "recorded T call good s out db \<longleftrightarrow>
     (case s of
        None \<Rightarrow> snd out = db \<and> isl (fst out)
      | Some t \<Rightarrow> db_wf (snd out) \<and> row_state T call (snd out) = Some t \<and>
          (isl (fst out) \<longleftrightarrow> t \<noteq> good) \<and> (isl (fst out) \<longrightarrow> fst out = Inl ProvisioningRejected))"

lemma agent_error_code_format: "error_code_format (agent_error_code e)"
proof (cases e)
  case (AgentRejected status detail)
  then show ?thesis using error_slug_format by simp
qed (use audit_words in \<open>simp_all del: error_code_format.simps\<close>)

lemma code_or_format: "validate_error_code code \<Longrightarrow> error_code_format (code_or code ''agent_rejected'')"
  using audit_words
  by (auto simp: code_or_def validate_error_code_def optional_def simp del: error_code_format.simps split: option.splits)

lemma after_call_recorded:
  assumes failure: "\<And>code. error_code_format code \<Longrightarrow>
      \<exists>db'. failure code db = (Inr (), db') \<and> db_wf db' \<and> row_state T call db' = Some bad"
    and success: "\<And>r. outcome = Inr r \<Longrightarrow> failed r = None \<Longrightarrow>
      \<exists>x db'. success r db = (Inr x, db') \<and> db_wf db' \<and> row_state T call db' = Some good"
    and codes: "\<And>r c. outcome = Inr r \<Longrightarrow> failed r = Some c \<Longrightarrow> validate_error_code c"
    and "good \<noteq> bad"
  shows "recorded T call good (expected_state good bad failed outcome)
    (after_call failure success failed outcome db) db"
proof -
  have bad: "recorded T call good (Some bad) (rejected_after (failure code db)) db"
    if "error_code_format code" for code
    using failure [OF that] assms(4) by (auto simp: recorded_def)
  show ?thesis
  proof (cases outcome)
    case (Inl e)
    then show ?thesis
      using bad [OF agent_error_code_format [of e]]
      by (cases e) (simp_all add: after_call_def expected_state_def recorded_def del: agent_error_code.simps)
  next
    case (Inr r)
    show ?thesis
    proof (cases "failed r")
      case None
      with success [OF Inr None] Inr show ?thesis
        by (auto simp: after_call_def expected_state_def recorded_def)
    next
      case (Some c)
      with bad [OF code_or_format [OF codes [OF Inr Some]]] Inr show ?thesis
        by (simp add: after_call_def expected_state_def)
    qed
  qed
qed

lemmas end_defs = request_peer_end_def revoke_peer_end_def request_xray_client_end_def revoke_xray_client_end_def
  finalize_failure_def finalize_xray_failure_def

text \<open>
  C9. What the agent said is what gets recorded, for both protocols. A confirmed request leaves
  the row active and the caller an answer; an agent that could not be reached, refused or
  reported a failure leaves it failed and the caller a refusal; a lost or unreadable answer
  changes nothing and is left to reconciliation. The transaction is accepted in every case.
\<close>

theorem request_outcome_recorded:
  assumes "db_wf db"
  shows "(awaits peer_table call now db \<and> valid_answer pdr_error_code pdr_applied_generation outcome \<longrightarrow>
      recorded peer_table call ACTIVE (expected_state ACTIVE FAILED provision_failed outcome)
        (request_peer_end dbnow now req call outcome db) db) \<and>
    (awaits client_table xcall now db \<and> valid_answer pxr_error_code pxr_applied_generation xoutcome \<longrightarrow>
      recorded client_table xcall ACTIVE (expected_state ACTIVE FAILED provision_xray_failed xoutcome)
        (request_xray_client_end dbnow now req xcall xoutcome db) db)"
proof (intro conjI impI)
  assume a: "awaits peer_table call now db \<and> valid_answer pdr_error_code pdr_applied_generation outcome"
  show "recorded peer_table call ACTIVE (expected_state ACTIVE FAILED provision_failed outcome)
      (request_peer_end dbnow now req call outcome db) db"
    unfolding end_defs
  proof (rule after_call_recorded)
    fix code :: string
    assume "error_code_format code"
    with wg.settle_failed_accepted [OF assms, of call now code dbnow req False] a
    show "\<exists>db'. settle_failed peer_table dbnow now req call code False db = (Inr (), db') \<and> db_wf db' \<and>
        row_state peer_table call db' = Some FAILED"
      by (auto simp: row_state_def)
  next
    fix r
    assume r: "outcome = Inr r" "provision_failed r = None"
    then show "\<exists>x db'. finalize_provision_success dbnow now req call r db = (Inr x, db') \<and> db_wf db' \<and>
        row_state peer_table call db' = Some ACTIVE"
      using wg.settle_active_accepted [OF assms, of call now "pdr_applied_generation r" dbnow req] a
      by (auto simp: row_state_def valid_answer_def finalize_provision_success_def)
  qed (use a in \<open>auto simp: provision_failed_def valid_answer_def split: if_splits\<close>)
next
  assume a: "awaits client_table xcall now db \<and> valid_answer pxr_error_code pxr_applied_generation xoutcome"
  show "recorded client_table xcall ACTIVE (expected_state ACTIVE FAILED provision_xray_failed xoutcome)
      (request_xray_client_end dbnow now req xcall xoutcome db) db"
    unfolding end_defs
  proof (rule after_call_recorded)
    fix code :: string
    assume "error_code_format code"
    with xray.settle_failed_accepted [OF assms, of xcall now code dbnow req False] a
    show "\<exists>db'. settle_failed client_table dbnow now req xcall code False db = (Inr (), db') \<and> db_wf db' \<and>
        row_state client_table xcall db' = Some FAILED"
      by (auto simp: row_state_def)
  next
    fix r
    assume r: "xoutcome = Inr r" "provision_xray_failed r = None"
    then show "\<exists>x db'. finalize_xray_provision_success dbnow now req xcall r db = (Inr x, db') \<and> db_wf db' \<and>
        row_state client_table xcall db' = Some ACTIVE"
      using xray.settle_active_accepted [OF assms, of xcall now "pxr_applied_generation r" dbnow req] a
      by (auto simp: row_state_def valid_answer_def finalize_xray_provision_success_def)
  qed (use a in \<open>auto simp: provision_xray_failed_def valid_answer_def split: if_splits\<close>)
qed

text \<open>A request of the example device, answered by its agent.\<close>

definition ex_call :: peer_call where
  "ex_call = projr (fst (request_peer_begin (\<lambda>_. []) 60 True ex_request ex_key 40 40 ex_db))"

definition ex_called_db :: control_db where
  "ex_called_db = snd (request_peer_begin (\<lambda>_. []) 60 True ex_request ex_key 40 40 ex_db)"

definition ex_answer :: provision_device_response where
  "ex_answer = \<lparr>pdr_state = PROVISION_ACTIVE, pdr_applied_generation = 2, pdr_error_code = None,
     pdr_server_public_key = ex_key, pdr_listen_port = 51820, pdr_public_endpoint = ''vpn.example:51820'',
     pdr_client_dns = ''10.8.0.1'', pdr_client_allowed_ips = ''0.0.0.0/0'',
     pdr_persistent_keepalive_seconds = 25\<rparr>"

lemma ex_called_wf: "db_wf ex_called_db"
  unfolding ex_called_db_def using begins_wf [OF ex_db_wf] by blast

theorem request_outcome_recorded_witness:
  "row_state peer_table ex_call (snd (request_peer_end 50 50 ex_request ex_call (Inr ex_answer) ex_called_db)) =
     Some ACTIVE"
proof -
  have "awaits peer_table ex_call 50 ex_called_db" by code_simp
  moreover have "valid_answer pdr_error_code pdr_applied_generation (Inr ex_answer)" by code_simp
  moreover have "expected_state ACTIVE FAILED provision_failed (Inr ex_answer) = Some ACTIVE" by code_simp
  ultimately show ?thesis
    using request_outcome_recorded [OF ex_called_wf, of ex_call 50 "Inr ex_answer" 50 ex_request]
    by (simp add: recorded_def)
qed

text \<open>
  C15. A removal is never given up. Only an agent that confirmed it makes the row revoked and
  the caller's removal a success; an agent that could not be reached, refused or failed leaves
  the row revoking, in the hands of reconciliation, and a lost answer leaves it as it is.
\<close>

theorem removal_outcome_recorded:
  assumes "db_wf db"
  shows "(awaits peer_table call now db \<and> valid_answer rdr_error_code rdr_applied_generation outcome \<longrightarrow>
      recorded peer_table call REVOKED (expected_state REVOKED REVOKING revoke_failed outcome)
        (revoke_peer_end dbnow now req call outcome db) db) \<and>
    (awaits client_table xcall now db \<and> valid_answer rdr_error_code rdr_applied_generation outcome \<longrightarrow>
      recorded client_table xcall REVOKED (expected_state REVOKED REVOKING revoke_failed outcome)
        (revoke_xray_client_end dbnow now req xcall outcome db) db)"
proof (intro conjI impI)
  assume a: "awaits peer_table call now db \<and> valid_answer rdr_error_code rdr_applied_generation outcome"
  show "recorded peer_table call REVOKED (expected_state REVOKED REVOKING revoke_failed outcome)
      (revoke_peer_end dbnow now req call outcome db) db"
    unfolding end_defs
  proof (rule after_call_recorded)
    fix code :: string
    assume "error_code_format code"
    with wg.settle_failed_accepted [OF assms, of call now code dbnow req True] a
    show "\<exists>db'. settle_failed peer_table dbnow now req call code True db = (Inr (), db') \<and> db_wf db' \<and>
        row_state peer_table call db' = Some REVOKING"
      by (auto simp: row_state_def)
  next
    show "\<exists>x db'. finalize_revoke_success dbnow now req call db = (Inr x, db') \<and> db_wf db' \<and>
        row_state peer_table call db' = Some REVOKED"
      using wg.settle_revoked_accepted [OF assms, of call now dbnow req] a
      by (auto simp: row_state_def finalize_revoke_success_def)
  qed (use a in \<open>auto simp: revoke_failed_def valid_answer_def split: if_splits\<close>)
next
  assume a: "awaits client_table xcall now db \<and> valid_answer rdr_error_code rdr_applied_generation outcome"
  show "recorded client_table xcall REVOKED (expected_state REVOKED REVOKING revoke_failed outcome)
      (revoke_xray_client_end dbnow now req xcall outcome db) db"
    unfolding end_defs
  proof (rule after_call_recorded)
    fix code :: string
    assume "error_code_format code"
    with xray.settle_failed_accepted [OF assms, of xcall now code dbnow req True] a
    show "\<exists>db'. settle_failed client_table dbnow now req xcall code True db = (Inr (), db') \<and> db_wf db' \<and>
        row_state client_table xcall db' = Some REVOKING"
      by (auto simp: row_state_def)
  next
    show "\<exists>x db'. finalize_xray_revoke_success dbnow now req xcall db = (Inr x, db') \<and> db_wf db' \<and>
        row_state client_table xcall db' = Some REVOKED"
      using xray.settle_revoked_accepted [OF assms, of xcall now dbnow req] a
      by (auto simp: row_state_def finalize_xray_revoke_success_def)
  qed (use a in \<open>auto simp: revoke_failed_def valid_answer_def split: if_splits\<close>)
qed

definition ex_removal :: peer_removal where
  "ex_removal = projr (fst (revoke_peer_begin (\<lambda>_. []) 60 True ex_request 40 40 ex_db))"

definition ex_removing_db :: control_db where
  "ex_removing_db = snd (revoke_peer_begin (\<lambda>_. []) 60 True ex_request 40 40 ex_db)"

lemma ex_removing_wf: "db_wf ex_removing_db"
  unfolding ex_removing_db_def using begins_wf [OF ex_db_wf] by blast

theorem removal_outcome_recorded_witness:
  "row_state peer_table ex_removal
     (snd (revoke_peer_end 50 50 ex_request ex_removal (Inl (AgentUnreachable ''refused'')) ex_removing_db)) =
     Some REVOKING"
proof -
  have "awaits peer_table ex_removal 50 ex_removing_db" by code_simp
  then show ?thesis
    using removal_outcome_recorded [OF ex_removing_wf, of ex_removal 50 "Inl (AgentUnreachable ''refused'')" 50 ex_request]
    by (simp add: recorded_def valid_answer_def expected_state_def)
qed

subsection \<open>Where the records and the server part ways\<close>

text \<open>
  Reconnecting under another WireGuard profile: the credential's row is rewritten before the
  peer that references its profile.
\<close>

lemma credential_profile_conflict:
  assumes "peer \<in> set ps" and "peers_ok cs ps" and "distinct (map cred_id cs)"
    and "rt_profile_id peer \<noteq> i" and "\<And>c. cred_id (g c) = cred_id c \<and> cred_profile_id (g c) = i"
  shows "\<not> peers_ok (update_where (\<lambda>c. cred_id c = rt_credential_id peer) g cs) ps"
proof
  assume "peers_ok (update_where (\<lambda>c. cred_id c = rt_credential_id peer) g cs) ps"
  with assms(1) have "credential_of ''wireguard_public'' (update_where (\<lambda>c. cred_id c = rt_credential_id peer) g cs) peer"
    by (simp add: peers_ok_def Let_def list_all_iff)
  then show False
    using assms(4,5) by (auto simp: credential_of_def list_ex_iff set_update_where split: if_splits)
qed

text \<open>
  A device cannot change between WireGuard profiles. While it has an active peer on a
  server, a request for another profile there always ends in the database refusing the
  transaction, although the handler's comment says the peer is moved to the new profile.
\<close>

lemma profile_switch_refused:
  assumes "db_wf db" and "public_key_canonical key"
    and "authorize (cq_user_id req) (cq_device_id req) (cq_server_code req) (cq_profile_code req) now db =
      Inr (device, profile, server, capability)"
    and "live_peer (dev_id device) (srv_id server) db = Some peer" and "rt_state peer = ACTIVE"
    and "rt_profile_id peer \<noteq> pp_id profile" and "int4_ok (rt_applied_generation peer + 1)"
  shows "request_peer_begin sha256 window True req key dbnow now db = (Inl (ProvDatabase IntegrityError), db)"
proof -
  let ?fp = "fingerprint sha256 [''provision_device'', uuid_text (rt_id peer), key, ip_text (wp_assigned_address peer)]"
  obtain oper db1 where run: "running_op ''provision_device'' ''wireguard_peer'' (srv_id server) (rt_id peer)
      (cq_request_id req) (rt_applied_generation peer + 1) ?fp now db = (oper, db1)" by fastforce
  note p = live_peerD [OF assms(4)]
  obtain c where c: "credential_by_id (rt_credential_id peer) db = Some c"
    using peer_rows.credential_exists [of db peer] assms(1) p by (auto simp: db_wf_def)
  have id: "cred_id c = rt_credential_id peer" using credential_by_idD [OF c] by simp
  let ?g = "\<lambda>c. c\<lparr>cred_profile_id := pp_id profile, cred_state := APPLYING\<rparr>"
  have "\<not> db_ok (write_credential (rt_credential_id peer) ?g (insert_operation oper db1))"
    using credential_profile_conflict [of peer "db_peers db" "db_credentials db" "pp_id profile" ?g]
      p assms(1,6) running_op_frames [OF run]
    by (simp add: db_ok_def write_credential_def db_wf_def credentials_ok_def)
  then have "statements [insert_operation oper, write_credential (rt_credential_id peer) ?g, s] db1 = Inl IntegrityError" for s
    by (simp add: constrained_def)
  then show ?thesis
    using assms(2-7) run c id by (simp add: request_peer_begin_def peer_again_def Let_def)
qed

text \<open>The example account, with the ad-blocking profile of the same protocol.\<close>

definition ex_adblock_db :: control_db where
  "ex_adblock_db = ex_db\<lparr>
     db_profiles := db_profiles ex_db @ [\<lparr>pp_id = 10, pp_code = ''wireguard-adblock'', pp_state = IMPLEMENTED,
       pp_ad_block = True, pp_agent_profile_code = None\<rparr>],
     db_capabilities := db_capabilities ex_db @ [\<lparr>cap_server_id = 5, cap_profile_id = 10,
       cap_state = CAP_ENABLED, cap_capacity_limit = None\<rparr>],
     db_permissions := db_permissions ex_db @ [\<lparr>perm_id = 23, perm_user_id = 1, perm_profile_id = 10,
       perm_state = CAP_ENABLED, perm_granted_at = 5, perm_expires_at = None, perm_revoked_at = None\<rparr>]\<rparr>"



end
