(* ===== verification/Reconciliation.thy ===== *)
theory Reconciliation
  imports Provisioning_Outcomes
begin

text \<open>
  Reconciliation (\<open>provisioning/reconciliation.py\<close>): for every row that should be on a server,
  or off it, ask the agent, and repair what differs. The WireGuard and the Xray pass of the
  source are siblings with the same steps; the steps are written once over a \<open>row_table\<close>, and
  \<open>reconcile_one\<close> and \<open>reconcile_one_xray_client\<close> supply what differs, the requests.

  A pass is a sequence of transactions with calls of the agent between them. Its state is the
  summary it counts in, the database, and whatever else an agent call may touch, of a type the
  model leaves open; a call of the agent may change the database, as other transactions run
  meanwhile. Every transaction has its own database time, and every row of the batch its times.
\<close>

subsection \<open>Answers, requests and the summary\<close>

datatype reconcile_outcome = IN_SYNC | DRIFT_DETECTED | AMBIGUOUS

record reconcile_response =
  rcr_outcome :: reconcile_outcome
  rcr_observed_generation :: "int option"
  rcr_error_code :: "string option"

record reconcile_request =
  rq_correlation_id :: uuid
  rq_target_kind :: string
  rq_target_id :: uuid
  rq_public_key :: string
  rq_assigned_address :: ip_address
  rq_desired_generation :: int

record provision_device_request =
  pq_idempotency_key :: uuid
  pq_correlation_id :: uuid
  pq_target_kind :: string
  pq_target_id :: uuid
  pq_desired_generation :: int
  pq_public_key :: string
  pq_assigned_address :: ip_address

record revoke_device_request =
  vq_idempotency_key :: uuid
  vq_correlation_id :: uuid
  vq_target_kind :: string
  vq_target_id :: uuid
  vq_public_key :: string
  vq_desired_generation :: int

record reconcile_xray_client_request =
  rx_correlation_id :: uuid
  rx_target_kind :: string
  rx_target_id :: uuid
  rx_client_uuid :: uuid
  rx_protocol_profile_code :: string
  rx_desired_generation :: int

text \<open>The provision and the revoke request of an Xray client have the same fields.\<close>

record change_xray_client_request =
  xq_idempotency_key :: uuid
  xq_correlation_id :: uuid
  xq_target_kind :: string
  xq_target_id :: uuid
  xq_desired_generation :: int
  xq_client_uuid :: uuid
  xq_protocol_profile_code :: string

record reconciliation_summary =
  rs_checked :: int
  rs_in_sync :: int
  rs_repaired :: int
  rs_repair_failed :: int
  rs_ambiguous :: int
  rs_errored :: int

definition empty_summary :: reconciliation_summary where
  "empty_summary = \<lparr>rs_checked = 0, rs_in_sync = 0, rs_repaired = 0, rs_repair_failed = 0,
     rs_ambiguous = 0, rs_errored = 0\<rparr>"

definition had_problems :: "reconciliation_summary \<Rightarrow> bool" where
  "had_problems s \<longleftrightarrow> rs_repair_failed s > 0 \<or> rs_ambiguous s > 0 \<or> rs_errored s > 0"

text \<open>What can leave a step as an exception.\<close>

datatype recon_error =
    RecDatabase db_error
  | RecAgent agent_error
  | RecInvalidRequest
  | RecUnknownServer

subsection \<open>Steps of a pass\<close>

record 's recon_world =
  rw_summary :: reconciliation_summary
  rw_db :: control_db
  rw_env :: 's

type_synonym ('s, 'a) pass = "'s recon_world \<Rightarrow> (recon_error, 'a) result \<times> 's recon_world"
type_synonym ('s, 'r) agent_call = "control_db \<times> 's \<Rightarrow> (agent_error, 'r) result \<times> control_db \<times> 's"

definition return_pass :: "'a \<Rightarrow> ('s, 'a) pass" where
  "return_pass a w = (Inr a, w)"

definition raise_pass :: "recon_error \<Rightarrow> ('s, 'a) pass" where
  "raise_pass e w = (Inl e, w)"

definition then_pass :: "('s, 'a) pass \<Rightarrow> ('a \<Rightarrow> ('s, 'b) pass) \<Rightarrow> ('s, 'b) pass" where
  "then_pass m k w = (case m w of (Inl e, w1) \<Rightarrow> (Inl e, w1) | (Inr a, w1) \<Rightarrow> k a w1)"

definition count_pass :: "(reconciliation_summary \<Rightarrow> reconciliation_summary) \<Rightarrow> ('s, unit) pass" where
  "count_pass f w = (Inr (), w\<lparr>rw_summary := f (rw_summary w)\<rparr>)"

text \<open>One transaction. A transaction that raises leaves the database as it was.\<close>

definition transaction :: "(control_db \<Rightarrow> (db_error, 'a \<times> control_db) result) \<Rightarrow> ('s, 'a) pass" where
  "transaction t w =
     (case t (rw_db w) of
        Inl e \<Rightarrow> (Inl (RecDatabase e), w)
      | Inr (a, db) \<Rightarrow> (Inr a, w\<lparr>rw_db := db\<rparr>))"

text \<open>
  One call of the agent. The request model checks its fields before anything is sent; the
  exceptions of the client are the result, for the caller to sort out.
\<close>

definition calling :: "bool \<Rightarrow> ('s, 'r) agent_call \<Rightarrow> ('s, (agent_error, 'r) result) pass" where
  "calling valid call w =
     (if \<not> valid then (Inl RecInvalidRequest, w)
      else (let (outcome, db, s) = call (rw_db w, rw_env w)
            in (Inr outcome, w\<lparr>rw_db := db, rw_env := s\<rparr>)))"

definition commit :: "'a \<Rightarrow> control_db \<Rightarrow> (db_error, 'a \<times> control_db) result" where
  "commit a db = (case constrained db of Inl e \<Rightarrow> Inl e | Inr db' \<Rightarrow> Inr (a, db'))"

text \<open>\<open>x or y\<close> for an optional number: zero counts as missing.\<close>

definition nonzero_or :: "int option \<Rightarrow> int \<Rightarrow> int" where
  "nonzero_or x y = (case x of Some v \<Rightarrow> if v = 0 then y else v | None \<Rightarrow> y)"

subsection \<open>States\<close>

definition candidate_state :: "provisioning_state \<Rightarrow> bool" where
  "candidate_state s \<longleftrightarrow> s \<in> {ACTIVE, APPLYING, REVOKING}"

definition running_stuck :: "provisioning_state \<Rightarrow> bool" where
  "running_stuck s \<longleftrightarrow> s \<in> {APPLYING, REVOKING}"

definition orphanable :: "provisioning_state \<Rightarrow> bool" where
  "orphanable s \<longleftrightarrow> s \<in> {REQUESTED, APPLYING, ACTIVE}"

definition MAX_ATTEMPT_COUNT :: int where
  "MAX_ATTEMPT_COUNT = 100"

subsection \<open>Rows whose owner is gone\<close>

definition owner_gone :: "'a cred_row_scheme \<Rightarrow> control_db \<Rightarrow> bool" where
  "owner_gone r db \<longleftrightarrow>
     list_ex (\<lambda>d. dev_id d = rt_device_id r \<and>
       list_ex (\<lambda>u. usr_id u = dev_user_id d \<and>
         (dev_state d = LIFE_REVOKED \<or> usr_state u = ACCOUNT_DISABLED)) (db_users db)) (db_devices db)"

definition mark_orphaned_revoking ::
  "'a row_table \<Rightarrow> time \<Rightarrow> time \<Rightarrow> control_db \<Rightarrow> (db_error, int \<times> control_db) result" where
  "mark_orphaned_revoking T dbnow now db =
     (let rows = filter (\<lambda>r. orphanable (rt_state r) \<and> owner_gone r db) (tab_get T db)
      in commit (int (length rows))
           (fold (\<lambda>row. pair_write T dbnow row (mark_revoking now) credential_revoking) rows db))"

subsection \<open>One row\<close>

text \<open>
  The times of one row: the clock's reading, and the database's time in each of the
  transactions, counted from 0.
\<close>

record recon_times =
  tm_now :: time
  tm_db :: "nat \<Rightarrow> time"

definition record_outcome ::
  "string \<Rightarrow> time \<Rightarrow> uuid \<Rightarrow> uuid \<Rightarrow> int \<Rightarrow> int option \<Rightarrow> string \<Rightarrow> uuid option \<Rightarrow> string option \<Rightarrow>
   control_db \<Rightarrow> (db_error, unit \<times> control_db) result" where
  "record_outcome kind dbnow server_id row_id desired observed outcome operation_id error_code db =
     (if \<not> optional int4_ok observed then Inl DataError
      else commit () (db\<lparr>db_recon := db_recon db @
        [\<lparr>rr_server_id = server_id, rr_agent_operation_id = operation_id, rr_target_kind = kind,
          rr_target_id = row_id, rr_desired_generation = desired, rr_observed_generation = observed,
          rr_outcome = outcome, rr_checked_at = dbnow, rr_error_code = error_code\<rparr>]\<rparr>))"

fun reconciliation_error_code :: "agent_error \<Rightarrow> string" where
  "reconciliation_error_code (AgentUnreachable m) = ''agent_unreachable''"
| "reconciliation_error_code (AgentRejected status detail) = ''agent_rejected''"
| "reconciliation_error_code (AgentResponseAmbiguous m) = ''agent_response_ambiguous''"
| "reconciliation_error_code _ = ''agent_response_invalid''"

definition running_operation :: "string \<Rightarrow> uuid \<Rightarrow> control_db \<Rightarrow> agent_operation_row option" where
  "running_operation kind i db =
     find (\<lambda>p. op_target_kind p = kind \<and> op_target_id p = i \<and> op_state p = OP_RUNNING) (db_operations db)"

definition finish_running ::
  "string \<Rightarrow> uuid \<Rightarrow> (agent_operation_row \<Rightarrow> agent_operation_row) \<Rightarrow> control_db \<Rightarrow> control_db" where
  "finish_running kind i h db =
     (case running_operation kind i db of None \<Rightarrow> db | Some p \<Rightarrow> write_operation (op_id p) h db)"

text \<open>
  What recovery and repair have in common: write the row, its credential and its running
  operation, record the event, commit.
\<close>

definition settle_row ::
  "'a row_table \<Rightarrow> time \<Rightarrow> 'a cred_row_scheme \<Rightarrow> ('a cred_row_scheme \<Rightarrow> 'a cred_row_scheme) \<Rightarrow>
   (credential_row \<Rightarrow> credential_row) \<Rightarrow> (agent_operation_row \<Rightarrow> agent_operation_row) \<Rightarrow>
   string \<Rightarrow> string \<Rightarrow> control_db \<Rightarrow> (db_error, unit \<times> control_db) result" where
  "settle_row T dbnow row f g h outcome reason db =
     (let (request_id, db1) = uuid4 db
      in commit () (add_audit_event ''system'' None (tab_kind T) (rt_id row) ''peer_changed'' outcome
           request_id (Some reason)
           (finish_running (tab_kind T) (rt_id row) h (pair_write T dbnow row f g db1))))"

definition recover_if_stuck ::
  "'a row_table \<Rightarrow> time \<Rightarrow> time \<Rightarrow> 'a cred_row_scheme \<Rightarrow> int option \<Rightarrow> control_db \<Rightarrow>
   (db_error, unit \<times> control_db) result" where
  "recover_if_stuck T dbnow now row observed db =
     (if \<not> running_stuck (rt_state row) then Inr ((), db)
      else (case row_by_id T (rt_id row) db of
              None \<Rightarrow> Inr ((), db)
            | Some fresh \<Rightarrow>
                if \<not> running_stuck (rt_state fresh) then Inr ((), db)
                else if rt_state fresh = APPLYING
                then (let generation = nonzero_or observed (nonzero_or (Some (rt_applied_generation fresh)) 1)
                      in if \<not> int4_ok generation then Inl DataError
                         else settle_row T dbnow fresh (row_active generation now) (credential_in ACTIVE)
                                (op_succeeded now) ''succeeded'' ''reconciled'' db)
                else settle_row T dbnow fresh (row_revoked now) (credential_revoked now)
                       (op_succeeded now) ''succeeded'' ''reconciled'' db))"

definition op_retried :: "time \<Rightarrow> agent_operation_row \<Rightarrow> agent_operation_row" where
  "op_retried now p =
     p\<lparr>op_attempt_count := min (op_attempt_count p + 1) MAX_ATTEMPT_COUNT, op_started_at := Some now\<rparr>"

definition repair_begin ::
  "(string \<Rightarrow> string) \<Rightarrow> string \<Rightarrow> uuid \<Rightarrow> uuid \<Rightarrow> string \<Rightarrow> bool \<Rightarrow> int \<Rightarrow> uuid \<Rightarrow> time \<Rightarrow> control_db \<Rightarrow>
   (db_error, (uuid \<times> uuid) \<times> control_db) result" where
  "repair_begin sha256 kind server_id row_id label wants_present desired correlation_id now db =
     (case running_operation kind row_id db of
        None \<Rightarrow>
          let (key, db1) = uuid4 db; (i, db2) = uuid4 db1
          in commit (key, i) (insert_operation
               \<lparr>op_id = i, op_server_id = server_id, op_idempotency_key = key,
                op_correlation_id = correlation_id,
                op_kind = (if wants_present then ''provision_device'' else ''revoke_device''),
                op_target_kind = kind, op_target_id = row_id, op_state = OP_RUNNING,
                op_desired_generation = desired,
                op_request_fingerprint = fingerprint sha256 [''reconcile_repair'', uuid_text row_id, label,
                  decimal (nat desired)],
                op_attempt_count = 1, op_requested_at = now, op_started_at = Some now,
                op_finished_at = None, op_error_code = None\<rparr> db2)
      | Some p \<Rightarrow>
          commit (op_idempotency_key p, op_id p) (write_operation (op_id p) (op_retried now) db))"

definition op_finished :: "time \<Rightarrow> bool \<Rightarrow> string option \<Rightarrow> agent_operation_row \<Rightarrow> agent_operation_row" where
  "op_finished now succeeded error_code p =
     p\<lparr>op_state := (if succeeded then OP_SUCCEEDED else OP_FAILED), op_finished_at := Some now,
       op_error_code := error_code\<rparr>"

definition finalize_repair ::
  "'a row_table \<Rightarrow> time \<Rightarrow> uuid \<Rightarrow> bool \<Rightarrow> int option \<Rightarrow> bool \<Rightarrow> time \<Rightarrow> string option \<Rightarrow> control_db \<Rightarrow>
   (db_error, unit \<times> control_db) result" where
  "finalize_repair T dbnow row_id succeeded applied wants_present now error_code db =
     (case row_by_id T row_id db of
        None \<Rightarrow> Inr ((), db)
      | Some row \<Rightarrow>
          let generation = nonzero_or applied (rt_applied_generation row);
              pending_state = (if wants_present then FAILED else REVOKING);
              h = op_finished now succeeded error_code
          in if succeeded \<and> wants_present then
               if \<not> int4_ok generation then Inl DataError
               else settle_row T dbnow row (row_active generation now) (credential_in ACTIVE) h
                      ''succeeded'' ''reconciliation_repaired'' db
             else if succeeded then
               settle_row T dbnow row (row_revoked now) (credential_revoked now) h
                 ''succeeded'' ''reconciliation_repaired'' db
             else settle_row T dbnow row (row_in pending_state) (credential_in pending_state) h
                    ''failed'' ''reconciliation_repair_failed'' db)"

text \<open>What \<open>_repair\<close> reads of an answer: whether it succeeded, the generation and the code.\<close>

type_synonym repair_answer = "bool \<times> int \<times> string option"

definition repair ::
  "'a row_table \<Rightarrow> (string \<Rightarrow> string) \<Rightarrow> recon_times \<Rightarrow> uuid \<Rightarrow> 'a cred_row_scheme \<Rightarrow> string \<Rightarrow> bool \<Rightarrow> int \<Rightarrow> uuid \<Rightarrow>
   bool \<Rightarrow> (uuid \<Rightarrow> ('s, repair_answer) agent_call) \<Rightarrow> ('s, string \<times> uuid \<times> string option) pass" where
  "repair T sha256 tm server_id row label wants_present desired correlation_id valid change =
     then_pass (transaction (repair_begin sha256 (tab_kind T) server_id (rt_id row) label wants_present desired
                  correlation_id (tm_now tm)))
       (\<lambda>(key, operation_id).
     then_pass (calling valid (change key))
       (\<lambda>outcome.
          let finalize = (\<lambda>succeeded applied code.
                transaction (finalize_repair T (tm_db tm 2) (rt_id row) succeeded applied wants_present (tm_now tm) code));
              failed = (\<lambda>e. then_pass (finalize False None (Some (reconciliation_error_code e)))
                (\<lambda>_. return_pass (''repair_failed'', operation_id, Some (reconciliation_error_code e))));
              unclear = (\<lambda>e. return_pass (''ambiguous'', operation_id, Some (reconciliation_error_code e)))
          in (case outcome of
                Inl (AgentUnreachable m) \<Rightarrow> failed (AgentUnreachable m)
              | Inl (AgentRejected status detail) \<Rightarrow> failed (AgentRejected status detail)
              | Inl (AgentResponseAmbiguous m) \<Rightarrow> unclear (AgentResponseAmbiguous m)
              | Inl (AgentResponseInvalid m) \<Rightarrow> unclear (AgentResponseInvalid m)
              | Inl (AgentClientError m) \<Rightarrow> raise_pass (RecAgent (AgentClientError m))
              | Inr (succeeded, applied, code) \<Rightarrow>
                  let error_code = (if succeeded then None else Some (code_or code ''reconciliation_repair_failed''))
                  in then_pass (finalize succeeded (Some applied) error_code)
                       (\<lambda>_. return_pass
                          (if succeeded then ''repair_succeeded'' else ''repair_failed'', operation_id, error_code)))))"

definition desired_generation :: "'a cred_row_scheme \<Rightarrow> int" where
  "desired_generation r = (if rt_applied_generation r > 0 then rt_applied_generation r else 1)"

definition wants_present :: "'a cred_row_scheme \<Rightarrow> bool" where
  "wants_present r \<longleftrightarrow> rt_state r \<noteq> REVOKING"

text \<open>
  The steps after the correlation id is drawn and, for an Xray client, its UUID decrypted.
  \<open>probe\<close> and \<open>change\<close> are the calls of the agent, \<open>valid\<close> that their requests can be built.
\<close>

definition reconcile_row ::
  "'a row_table \<Rightarrow> (string \<Rightarrow> string) \<Rightarrow> recon_times \<Rightarrow> uuid \<Rightarrow> 'a cred_row_scheme \<Rightarrow> string \<Rightarrow> uuid \<Rightarrow> bool \<Rightarrow>
   ('s, reconcile_response) agent_call \<Rightarrow> (uuid \<Rightarrow> ('s, repair_answer) agent_call) \<Rightarrow> ('s, unit) pass" where
  "reconcile_row T sha256 tm server_id row label correlation_id valid probe change =
     (let desired = desired_generation row;
          note = (\<lambda>i observed outcome operation_id code. transaction
            (record_outcome (tab_kind T) (tm_db tm i) server_id (rt_id row) desired observed outcome operation_id code));
          unclear = (\<lambda>observed code. then_pass (count_pass (\<lambda>s. s\<lparr>rs_ambiguous := rs_ambiguous s + 1\<rparr>))
            (\<lambda>_. note 0 observed ''ambiguous'' None code))
      in then_pass (calling valid probe)
        (\<lambda>outcome.
           (case outcome of
              Inl (AgentClientError m) \<Rightarrow> raise_pass (RecAgent (AgentClientError m))
            | Inl e \<Rightarrow> unclear None (Some (reconciliation_error_code e))
            | Inr response \<Rightarrow>
                if rcr_outcome response = AMBIGUOUS
                then unclear (rcr_observed_generation response) (rcr_error_code response)
                else if (rcr_outcome response = IN_SYNC) = wants_present row
                then then_pass (count_pass (\<lambda>s. s\<lparr>rs_in_sync := rs_in_sync s + 1\<rparr>))
                  (\<lambda>_. then_pass (note 0 (rcr_observed_generation response) ''in_sync'' None None)
                  (\<lambda>_. transaction (recover_if_stuck T (tm_db tm 1) (tm_now tm) row
                          (rcr_observed_generation response))))
                else then_pass (note 0 (rcr_observed_generation response) ''repair_requested'' None None)
                  (\<lambda>_. then_pass (repair T sha256 tm server_id row label (wants_present row) desired
                                    correlation_id valid change)
                  (\<lambda>(result, operation_id, code). then_pass
                     (count_pass (\<lambda>s.
                        if result = ''repair_succeeded'' then s\<lparr>rs_repaired := rs_repaired s + 1\<rparr>
                        else if result = ''repair_failed'' then s\<lparr>rs_repair_failed := rs_repair_failed s + 1\<rparr>
                        else s\<lparr>rs_ambiguous := rs_ambiguous s + 1\<rparr>))
                  (\<lambda>_. note 3 None result (Some operation_id) code))))))"

text \<open>\<open>uuid4()\<close> outside a transaction.\<close>

definition draw_uuid :: "('s, uuid) pass" where
  "draw_uuid w = (let (i, db) = uuid4 (rw_db w) in (Inr i, w\<lparr>rw_db := db\<rparr>))"

subsection \<open>The WireGuard pass\<close>

record 's wg_agent =
  wa_reconcile :: "string \<times> int \<Rightarrow> reconcile_request \<Rightarrow> ('s, reconcile_response) agent_call"
  wa_provision_device :: "string \<times> int \<Rightarrow> provision_device_request \<Rightarrow> ('s, provision_device_response) agent_call"
  wa_revoke_device :: "string \<times> int \<Rightarrow> revoke_device_request \<Rightarrow> ('s, revoke_device_response) agent_call"

definition provision_answer :: "provision_device_response \<Rightarrow> repair_answer" where
  "provision_answer r = (pdr_state r = PROVISION_ACTIVE, pdr_applied_generation r, pdr_error_code r)"

definition revoke_answer :: "revoke_device_response \<Rightarrow> repair_answer" where
  "revoke_answer r = (rdr_state r = REVOKE_REVOKED, rdr_applied_generation r, rdr_error_code r)"

definition reading :: "('r \<Rightarrow> 'q) \<Rightarrow> ('s, 'r) agent_call \<Rightarrow> ('s, 'q) agent_call" where
  "reading f call w = (case call w of (Inl e, w') \<Rightarrow> (Inl e, w') | (Inr r, w') \<Rightarrow> (Inr (f r), w'))"

definition agent_address :: "vpn_server \<Rightarrow> string \<times> int" where
  "agent_address server = (srv_agent_host server, srv_agent_port server)"

definition reconcile_one ::
  "'s wg_agent \<Rightarrow> (string \<Rightarrow> string) \<Rightarrow> recon_times \<Rightarrow> vpn_server \<Rightarrow> wg_peer \<Rightarrow> ('s, unit) pass" where
  "reconcile_one agent sha256 tm server peer =
     then_pass draw_uuid (\<lambda>correlation_id.
       reconcile_row peer_table sha256 tm (srv_id server) peer (wp_public_key peer) correlation_id
         (public_key_canonical (wp_public_key peer))
         (wa_reconcile agent (agent_address server)
            \<lparr>rq_correlation_id = correlation_id, rq_target_kind = ''wireguard_peer'', rq_target_id = rt_id peer,
             rq_public_key = wp_public_key peer, rq_assigned_address = wp_assigned_address peer,
             rq_desired_generation = desired_generation peer\<rparr>)
         (\<lambda>key. if wants_present peer
            then reading provision_answer (wa_provision_device agent (agent_address server)
              \<lparr>pq_idempotency_key = key, pq_correlation_id = correlation_id, pq_target_kind = ''wireguard_peer'',
               pq_target_id = rt_id peer, pq_desired_generation = desired_generation peer,
               pq_public_key = wp_public_key peer, pq_assigned_address = wp_assigned_address peer\<rparr>)
            else reading revoke_answer (wa_revoke_device agent (agent_address server)
              \<lparr>vq_idempotency_key = key, vq_correlation_id = correlation_id, vq_target_kind = ''wireguard_peer'',
               vq_target_id = rt_id peer, vq_public_key = wp_public_key peer,
               vq_desired_generation = desired_generation peer\<rparr>)))"

text \<open>The rows of one pass: of running servers, in a candidate state, least recently updated first.\<close>

definition candidates ::
  "'a row_table \<Rightarrow> ('a cred_row_scheme \<Rightarrow> bool) \<Rightarrow> nat \<Rightarrow> uuid option \<Rightarrow> control_db \<Rightarrow> 'a cred_row_scheme list" where
  "candidates T joined batch_size target db =
     take batch_size (sort_key rt_updated_at (filter (\<lambda>r.
       list_ex (\<lambda>s. srv_id s = rt_server_id r \<and> running_server (srv_state s)) (db_servers db) \<and>
       joined r \<and> candidate_state (rt_state r) \<and> optional (\<lambda>i. rt_id r = i) target) (tab_get T db)))"

text \<open>The loop: an exception is counted and ends only its own row.\<close>

fun reconcile_batch ::
  "('a cred_row_scheme \<Rightarrow> ('s, unit) pass) \<Rightarrow> 'a cred_row_scheme list \<Rightarrow> 's recon_world \<Rightarrow> 's recon_world" where
  "reconcile_batch one [] w = w"
| "reconcile_batch one (row # rows) w =
     reconcile_batch one rows
       (case one row (w\<lparr>rw_summary := rw_summary w\<lparr>rs_checked := rs_checked (rw_summary w) + 1\<rparr>\<rparr>) of
          (Inr _, w1) \<Rightarrow> w1
        | (Inl _, w1) \<Rightarrow> w1\<lparr>rw_summary := rw_summary w1\<lparr>rs_errored := rs_errored (rw_summary w1) + 1\<rparr>\<rparr>)"

definition on_server ::
  "vpn_server list \<Rightarrow> 'a cred_row_scheme \<Rightarrow> (vpn_server \<Rightarrow> ('s, unit) pass) \<Rightarrow> ('s, unit) pass" where
  "on_server servers row f =
     (case find (\<lambda>s. srv_id s = rt_server_id row) servers of
        None \<Rightarrow> raise_pass RecUnknownServer
      | Some server \<Rightarrow> f server)"

definition run_reconciliation ::
  "'s wg_agent \<Rightarrow> (string \<Rightarrow> string) \<Rightarrow> nat \<Rightarrow> uuid option \<Rightarrow> time \<times> time \<Rightarrow> (uuid \<Rightarrow> recon_times) \<Rightarrow>
   control_db \<times> 's \<Rightarrow> (recon_error, reconciliation_summary) result \<times> control_db \<times> 's" where
  "run_reconciliation agent sha256 batch_size target t clock start =
     (case mark_orphaned_revoking peer_table (fst t) (snd t) (fst start) of
        Inl e \<Rightarrow> (Inl (RecDatabase e), start)
      | Inr (_, db) \<Rightarrow>
          let w = reconcile_batch
                (\<lambda>peer. on_server (db_servers db) peer (\<lambda>server. reconcile_one agent sha256 (clock (rt_id peer)) server peer))
                (candidates peer_table (\<lambda>_. True) batch_size target db)
                \<lparr>rw_summary = empty_summary, rw_db = db, rw_env = snd start\<rparr>
          in (Inr (rw_summary w), rw_db w, rw_env w))"

subsection \<open>The Xray pass\<close>

record 's xray_agent =
  xa_reconcile :: "string \<times> int \<Rightarrow> reconcile_xray_client_request \<Rightarrow> ('s, reconcile_response) agent_call"
  xa_provision :: "string \<times> int \<Rightarrow> change_xray_client_request \<Rightarrow> ('s, provision_xray_client_response) agent_call"
  xa_revoke :: "string \<times> int \<Rightarrow> change_xray_client_request \<Rightarrow> ('s, revoke_device_response) agent_call"

definition provision_xray_answer :: "provision_xray_client_response \<Rightarrow> repair_answer" where
  "provision_xray_answer r = (pxr_state r = PROVISION_ACTIVE, pxr_applied_generation r, pxr_error_code r)"

definition decrypt_client_uuid ::
  "(bytes \<Rightarrow> bytes \<Rightarrow> bytes \<Rightarrow> bytes \<Rightarrow> bytes option) \<Rightarrow> key_ring \<Rightarrow> xray_client \<Rightarrow> control_db \<Rightarrow> uuid option" where
  "decrypt_client_uuid dec ring client db =
     (case credential_by_id (rt_credential_id client) db of
        None \<Rightarrow> None
      | Some credential \<Rightarrow> stored_client_uuid dec ring (cred_device_id credential) credential)"

definition reconcile_one_xray_client ::
  "'s xray_agent \<Rightarrow> (bytes \<Rightarrow> bytes \<Rightarrow> bytes \<Rightarrow> bytes \<Rightarrow> bytes option) \<Rightarrow> key_ring \<Rightarrow> (string \<Rightarrow> string) \<Rightarrow> recon_times \<Rightarrow>
   vpn_server \<Rightarrow> string \<Rightarrow> xray_client \<Rightarrow> ('s, unit) pass" where
  "reconcile_one_xray_client agent dec ring sha256 tm server profile_code client =
     then_pass draw_uuid (\<lambda>correlation_id w.
       (case decrypt_client_uuid dec ring client (rw_db w) of
          None \<Rightarrow>
            then_pass (count_pass (\<lambda>s. s\<lparr>rs_ambiguous := rs_ambiguous s + 1\<rparr>))
              (\<lambda>_. transaction (record_outcome ''xray_client'' (tm_db tm 0) (srv_id server) (rt_id client)
                 (desired_generation client) None ''ambiguous'' None (Some ''credential_unreadable''))) w
        | Some client_uuid \<Rightarrow>
            reconcile_row client_table sha256 tm (srv_id server) client (xc_opaque_label client) correlation_id
              (profile_code_format profile_code)
              (xa_reconcile agent (agent_address server)
                 \<lparr>rx_correlation_id = correlation_id, rx_target_kind = ''xray_client'', rx_target_id = rt_id client,
                  rx_client_uuid = client_uuid, rx_protocol_profile_code = profile_code,
                  rx_desired_generation = desired_generation client\<rparr>)
              (\<lambda>key.
                 let request = \<lparr>xq_idempotency_key = key, xq_correlation_id = correlation_id,
                       xq_target_kind = ''xray_client'', xq_target_id = rt_id client,
                       xq_desired_generation = desired_generation client, xq_client_uuid = client_uuid,
                       xq_protocol_profile_code = profile_code\<rparr>
                 in if wants_present client
                    then reading provision_xray_answer (xa_provision agent (agent_address server) request)
                    else reading revoke_answer (xa_revoke agent (agent_address server) request)) w))"

definition profile_of :: "'a cred_row_scheme \<Rightarrow> control_db \<Rightarrow> protocol_profile option" where
  "profile_of r db = find (\<lambda>p. pp_id p = rt_profile_id r) (db_profiles db)"

definition served_profile_code :: "'a cred_row_scheme \<Rightarrow> control_db \<Rightarrow> string" where
  "served_profile_code r db = (case profile_of r db of None \<Rightarrow> [] | Some p \<Rightarrow> agent_profile_code p)"

definition run_xray_reconciliation ::
  "'s xray_agent \<Rightarrow> (bytes \<Rightarrow> bytes \<Rightarrow> bytes \<Rightarrow> bytes \<Rightarrow> bytes option) \<Rightarrow> key_ring \<Rightarrow> (string \<Rightarrow> string) \<Rightarrow> nat \<Rightarrow>
   uuid option \<Rightarrow> time \<times> time \<Rightarrow> (uuid \<Rightarrow> recon_times) \<Rightarrow>
   control_db \<times> 's \<Rightarrow> (recon_error, reconciliation_summary) result \<times> control_db \<times> 's" where
  "run_xray_reconciliation agent dec ring sha256 batch_size target t clock start =
     (case mark_orphaned_revoking client_table (fst t) (snd t) (fst start) of
        Inl e \<Rightarrow> (Inl (RecDatabase e), start)
      | Inr (_, db) \<Rightarrow>
          let w = reconcile_batch
                (\<lambda>client. on_server (db_servers db) client
                   (\<lambda>server. reconcile_one_xray_client agent dec ring sha256 (clock (rt_id client)) server
                      (served_profile_code client db) client))
                (candidates client_table (\<lambda>x. profile_of x db \<noteq> None) batch_size target db)
                \<lparr>rw_summary = empty_summary, rw_db = db, rw_env = snd start\<rparr>
          in (Inr (rw_summary w), rw_db w, rw_env w))"

text \<open>Both passes, under the lock: \<open>acquired\<close> is what \<open>pg_try_advisory_xact_lock\<close> answered.\<close>

datatype reconcile_now_error = ReconciliationBusy | PassRaised recon_error

definition reconcile_now ::
  "bool \<Rightarrow> (control_db \<times> 's \<Rightarrow> (recon_error, reconciliation_summary) result \<times> control_db \<times> 's) \<Rightarrow>
   (control_db \<times> 's \<Rightarrow> (recon_error, reconciliation_summary) result \<times> control_db \<times> 's) \<Rightarrow>
   control_db \<times> 's \<Rightarrow>
   (reconcile_now_error, reconciliation_summary \<times> reconciliation_summary) result \<times> control_db \<times> 's" where
  "reconcile_now acquired wireguard xray start =
     (if \<not> acquired then (Inl ReconciliationBusy, start)
      else (case wireguard start of
              (Inl e, st1) \<Rightarrow> (Inl (PassRaised e), st1)
            | (Inr wg_summary, st1) \<Rightarrow>
                (case xray st1 of
                   (Inl e, st2) \<Rightarrow> (Inl (PassRaised e), st2)
                 | (Inr xray_summary, st2) \<Rightarrow> (Inr (wg_summary, xray_summary), st2))))"

subsection \<open>Credentials only the server knows\<close>

record orphan_prune_summary =
  ops_servers :: int
  ops_removed :: int
  ops_kept :: int
  ops_skipped :: int
  ops_errored :: int

definition prune_had_problems :: "orphan_prune_summary \<Rightarrow> bool" where
  "prune_had_problems s \<longleftrightarrow> ops_skipped s > 0 \<or> ops_errored s > 0"

record expected_xray_client =
  xe_client_uuid :: uuid
  xe_protocol_profile_code :: string

record prune_xray_clients_request =
  px_correlation_id :: uuid
  px_expected :: "expected_xray_client list"

datatype prune_state = PRUNED | PRUNE_FAILED

record prune_xray_clients_response =
  pxs_state :: prune_state
  pxs_removed :: int
  pxs_kept :: int
  pxs_error_code :: "string option"

text \<open>
  The complete list of what a server should serve: \<open>Inl None\<close> when a credential cannot be read,
  \<open>Inl (Some e)\<close> when an entry cannot be built.
\<close>

fun expected_clients ::
  "(bytes \<Rightarrow> bytes \<Rightarrow> bytes \<Rightarrow> bytes \<Rightarrow> bytes option) \<Rightarrow> key_ring \<Rightarrow> control_db \<Rightarrow> xray_client list \<Rightarrow>
   (recon_error option, expected_xray_client list) result" where
  "expected_clients dec ring db [] = Inr []"
| "expected_clients dec ring db (client # clients) =
     (case decrypt_client_uuid dec ring client db of
        None \<Rightarrow> Inl None
      | Some u \<Rightarrow>
          if \<not> profile_code_format (served_profile_code client db) then Inl (Some RecInvalidRequest)
          else (case expected_clients dec ring db clients of
                  Inl e \<Rightarrow> Inl e
                | Inr rest \<Rightarrow>
                    Inr (\<lparr>xe_client_uuid = u, xe_protocol_profile_code = served_profile_code client db\<rparr> # rest)))"

definition live_clients_of :: "vpn_server \<Rightarrow> control_db \<Rightarrow> xray_client list" where
  "live_clients_of server db =
     filter (\<lambda>x. rt_server_id x = srv_id server \<and> live (rt_state x) \<and> profile_of x db \<noteq> None) (db_clients db)"

type_synonym 's prune_call = "string \<times> int \<Rightarrow> prune_xray_clients_request \<Rightarrow> ('s, prune_xray_clients_response) agent_call"

definition prune_one_server ::
  "'s prune_call \<Rightarrow> (bytes \<Rightarrow> bytes \<Rightarrow> bytes \<Rightarrow> bytes \<Rightarrow> bytes option) \<Rightarrow> key_ring \<Rightarrow> vpn_server \<Rightarrow>
   orphan_prune_summary \<Rightarrow> control_db \<times> 's \<Rightarrow> (recon_error, unit) result \<times> orphan_prune_summary \<times> control_db \<times> 's" where
  "prune_one_server agent dec ring server summary start =
     (let (db, s) = start
      in (case expected_clients dec ring db (live_clients_of server db) of
            Inl None \<Rightarrow> (Inr (), summary\<lparr>ops_skipped := ops_skipped summary + 1\<rparr>, db, s)
          | Inl (Some e) \<Rightarrow> (Inl e, summary, db, s)
          | Inr expected \<Rightarrow>
              let (correlation_id, db1) = uuid4 db;
                  errored = summary\<lparr>ops_errored := ops_errored summary + 1\<rparr>
              in (case agent (agent_address server)
                         \<lparr>px_correlation_id = correlation_id, px_expected = expected\<rparr> (db1, s) of
                    (Inl (AgentClientError m), db2, s2) \<Rightarrow> (Inl (RecAgent (AgentClientError m)), summary, db2, s2)
                  | (Inl e, db2, s2) \<Rightarrow> (Inr (), errored, db2, s2)
                  | (Inr response, db2, s2) \<Rightarrow>
                      if pxs_state response = PRUNE_FAILED then (Inr (), errored, db2, s2)
                      else let counted = summary\<lparr>ops_removed := ops_removed summary + pxs_removed response,
                                                 ops_kept := ops_kept summary + pxs_kept response\<rparr>
                           in if pxs_removed response = 0 then (Inr (), counted, db2, s2)
                              else let (request_id, db3) = uuid4 db2
                                   in (case constrained (add_audit_event ''system'' None ''vpn_server'' (srv_id server)
                                              ''peer_changed'' ''succeeded'' request_id (Some ''orphan_pruned'') db3) of
                                         Inl e \<Rightarrow> (Inl (RecDatabase e), counted, db2, s2)
                                       | Inr db4 \<Rightarrow> (Inr (), counted, db4, s2)))))"

fun prune_servers ::
  "'s prune_call \<Rightarrow> (bytes \<Rightarrow> bytes \<Rightarrow> bytes \<Rightarrow> bytes \<Rightarrow> bytes option) \<Rightarrow> key_ring \<Rightarrow> vpn_server list \<Rightarrow>
   orphan_prune_summary \<Rightarrow> control_db \<times> 's \<Rightarrow> orphan_prune_summary \<times> control_db \<times> 's" where
  "prune_servers agent dec ring [] summary st = (summary, st)"
| "prune_servers agent dec ring (server # servers) summary st =
     (case prune_one_server agent dec ring server (summary\<lparr>ops_servers := ops_servers summary + 1\<rparr>) st of
        (Inr _, summary', st') \<Rightarrow> prune_servers agent dec ring servers summary' st'
      | (Inl _, summary', st') \<Rightarrow>
          prune_servers agent dec ring servers (summary'\<lparr>ops_errored := ops_errored summary' + 1\<rparr>) st')"

definition run_xray_orphan_prune ::
  "'s prune_call \<Rightarrow> (bytes \<Rightarrow> bytes \<Rightarrow> bytes \<Rightarrow> bytes \<Rightarrow> bytes option) \<Rightarrow> key_ring \<Rightarrow> control_db \<times> 's \<Rightarrow>
   orphan_prune_summary \<times> control_db \<times> 's" where
  "run_xray_orphan_prune agent dec ring start =
     prune_servers agent dec ring (filter (\<lambda>s. running_server (srv_state s)) (db_servers (fst start)))
       \<lparr>ops_servers = 0, ops_removed = 0, ops_kept = 0, ops_skipped = 0, ops_errored = 0\<rparr> start"

end
