(* ===== verification/Reconciliation_Safety.thy ===== *)
theory Reconciliation_Safety
  imports Reconciliation
begin

text \<open>
  What a reconciliation pass never does, whatever the agents answer and whatever other
  transactions run between its own: it never breaks the invariant of the database, it never
  gives access back by marking, and it never acts on an answer it did not get.

  The steps are composed with \<open>then_pass\<close>; \<open>keeps\<close> says that a step keeps a property of the
  database, with one rule per combinator. What a pass needs of a table is the interface
  \<open>reconciled_table\<close>, interpreted for both.
\<close>

subsection \<open>Properties a pass keeps\<close>

definition keeps :: "(control_db \<Rightarrow> bool) \<Rightarrow> ('s, 'a) pass \<Rightarrow> bool" where
  "keeps P m \<longleftrightarrow> (\<forall>w. P (rw_db w) \<longrightarrow> P (rw_db (snd (m w))))"

definition call_keeps :: "(control_db \<Rightarrow> bool) \<Rightarrow> ('s, 'r) agent_call \<Rightarrow> bool" where
  "call_keeps P call \<longleftrightarrow> (\<forall>w. P (fst w) \<longrightarrow> P (fst (snd (call w))))"

lemma keeps_return: "keeps P (return_pass a)" and keeps_raise: "keeps P (raise_pass e)"
  and keeps_count: "keeps P (count_pass f)"
  by (simp_all add: keeps_def return_pass_def raise_pass_def count_pass_def)

lemma keeps_then: "keeps P m \<Longrightarrow> (\<And>a. keeps P (k a)) \<Longrightarrow> keeps P (then_pass m k)"
  by (auto simp: keeps_def then_pass_def split: prod.splits sum.splits)

lemma keeps_transaction:
  "(\<And>db a db'. P db \<Longrightarrow> t db = Inr (a, db') \<Longrightarrow> P db') \<Longrightarrow> keeps P (transaction t)"
  by (auto simp: keeps_def transaction_def split: sum.splits)

lemma keeps_calling: "call_keeps P call \<Longrightarrow> keeps P (calling valid call)"
  by (auto simp: keeps_def calling_def call_keeps_def split: prod.splits) (metis fst_conv snd_conv)

lemma call_keeps_reading: "call_keeps P call \<Longrightarrow> call_keeps P (reading f call)"
  by (auto simp: call_keeps_def reading_def split: prod.splits sum.splits) (metis fst_conv snd_conv)+

lemmas keeps_rules = keeps_return keeps_raise keeps_count keeps_then keeps_calling

lemma commit_InrD: "commit a db = Inr (b, db') \<Longrightarrow> b = a \<and> db' = db \<and> db_ok db"
  by (auto simp: commit_def constrained_def split: if_splits)

subsection \<open>The invariant\<close>

text \<open>Well-formed, and every row the start had is still tied to its credential.\<close>

definition sound_since :: "control_db \<Rightarrow> control_db \<Rightarrow> bool" where
  "sound_since start db \<longleftrightarrow> db_wf db \<and> links_grow start db"

lemma sound_since_frame:
  assumes "sound_since start db" and "db_ok db'" and "db_credentials db' = db_credentials db"
    and "db_peers db' = db_peers db" and "db_clients db' = db_clients db"
  shows "sound_since start db'"
  using assms pairing_frame [of db db']
  by (simp add: sound_since_def db_wf_pairing links_grow_def row_links_def)

lemma db_ok_uuid4 [simp]: "db_ok (snd (uuid4 db)) = db_ok db"
  by (simp add: db_ok_def)

lemma sound_uuid4: "sound_since start db \<Longrightarrow> sound_since start (snd (uuid4 db))"
  by (rule sound_since_frame) (auto simp: sound_since_def db_wf_def)

lemma finish_running_frames [simp]:
  "db_credentials (finish_running kind i h db) = db_credentials db"
  "db_peers (finish_running kind i h db) = db_peers db"
  "db_clients (finish_running kind i h db) = db_clients db"
  "db_recon (finish_running kind i h db) = db_recon db"
  by (simp_all add: finish_running_def write_operation_def split: option.splits)

lemma sound_record:
  "sound_since start db \<Longrightarrow> record_outcome kind dbnow sid rid d obs out oid code db = Inr (a, db') \<Longrightarrow>
     sound_since start db'"
  by (erule sound_since_frame) (auto simp: record_outcome_def dest!: commit_InrD split: if_splits)

lemma sound_repair_begin:
  "sound_since start db \<Longrightarrow> repair_begin sha kind sid rid label wants d corr now db = Inr (a, db') \<Longrightarrow>
     sound_since start db'"
  by (erule sound_since_frame)
    (auto simp: repair_begin_def insert_operation_def write_operation_def split_beta Let_def
      dest!: commit_InrD split: option.splits)

lemma row_write_links:
  "rt_id (row_active n now x) = rt_id x \<and> rt_credential_id (row_active n now x) = rt_credential_id x"
  "rt_id (row_revoked now x) = rt_id x \<and> rt_credential_id (row_revoked now x) = rt_credential_id x"
  "rt_id (row_in s x) = rt_id x \<and> rt_credential_id (row_in s x) = rt_credential_id x"
  by (simp_all add: row_active_def row_revoked_def row_in_def)

lemma row_write_live:
  "rt_state (row_active n now x) = ACTIVE" "rt_state (row_revoked now x) = REVOKED" "rt_state (row_in s x) = s"
  "cred_state (credential_in s c) = s" "\<not> live REVOKED"
  by (simp_all add: row_active_def row_revoked_def row_in_def credential_in_def live_def)

lemma same_credential_writes: "same_credential (credential_in s)" "same_credential (credential_revoked now)"
  by (simp_all add: same_credential_def credential_in_def credential_revoked_def)

locale reconciled_table = paired_table T kind for T :: "'a row_table" and kind :: string +
  assumes links_kept: "\<And>db r f g dbnow.
      (\<And>x. rt_id (f x) = rt_id x \<and> rt_credential_id (f x) = rt_credential_id x) \<Longrightarrow>
      links_grow db (pair_write T dbnow r f g db)"
begin

lemma sound_settle_row:
  assumes "sound_since start db" and "row_by_id T i db = Some r"
    and "settle_row T dbnow r f g h outcome reason db = Inr (a, db')"
    and f: "\<And>x. rt_id (f x) = rt_id x \<and> rt_credential_id (f x) = rt_credential_id x" and g: "same_credential g"
    and fg: "\<And>x c. live (rt_state (f x)) \<Longrightarrow> live (cred_state (g c))"
  shows "sound_since start db'"
proof -
  let ?d = "pair_write T dbnow r f g (snd (uuid4 db))"
  have ok: "db_ok db'" and db': "db' = add_audit_event ''system'' None (tab_kind T) (rt_id r) ''peer_changed'' outcome
      (fst (uuid4 db)) (Some reason) (finish_running (tab_kind T) (rt_id r) h ?d)"
    using assms(3) by (auto simp: settle_row_def split_beta Let_def dest!: commit_InrD)
  have start: "sound_since start (snd (uuid4 db))" using assms(1) by (rule sound_uuid4)
  have "tab_get T (snd (uuid4 db)) = tab_get T db" by (simp add: uuid4_def get_supply)
  then have r: "r \<in> set (tab_get T (snd (uuid4 db)))" using row_by_idD [OF assms(2)] by simp
  have "pairing ?d"
    using start by (intro pair_kept [OF _ r]) (auto simp: sound_since_def f g intro: fg)
  then have "pairing db'" by (elim pairing_frame) (simp_all add: db')
  moreover have "links_grow (snd (uuid4 db)) ?d" by (rule links_kept) (rule f)
  then have "links_grow start ?d" using start links_grow_trans unfolding sound_since_def by blast
  then have "links_grow start db'" by (simp add: db' links_grow_def row_links_def)
  ultimately show ?thesis using ok by (simp add: sound_since_def db_wf_pairing)
qed

lemma sound_settle_states:
  assumes "sound_since start db" and "row_by_id T i db = Some r"
  shows "settle_row T dbnow r (row_active n now) (credential_in ACTIVE) h out reason db = Inr (a, db') \<Longrightarrow>
      sound_since start db'"
    and "settle_row T dbnow r (row_revoked now) (credential_revoked now) h out reason db = Inr (a, db') \<Longrightarrow>
      sound_since start db'"
    and "settle_row T dbnow r (row_in s) (credential_in s) h out reason db = Inr (a, db') \<Longrightarrow> sound_since start db'"
proof -
  show "sound_since start db'"
    if "settle_row T dbnow r (row_active n now) (credential_in ACTIVE) h out reason db = Inr (a, db')"
    by (rule sound_settle_row [OF assms that row_write_links(1) same_credential_writes(1)]) (simp add: row_write_live)
  show "sound_since start db'"
    if "settle_row T dbnow r (row_revoked now) (credential_revoked now) h out reason db = Inr (a, db')"
    by (rule sound_settle_row [OF assms that row_write_links(2) same_credential_writes(2)]) (simp add: row_write_live)
  show "sound_since start db'"
    if "settle_row T dbnow r (row_in s) (credential_in s) h out reason db = Inr (a, db')"
    by (rule sound_settle_row [OF assms that row_write_links(3) same_credential_writes(1)]) (simp add: row_write_live)
qed

lemma sound_recover:
  assumes "sound_since start db" and "recover_if_stuck T dbnow now row obs db = Inr (a, db')"
  shows "sound_since start db'"
proof (cases "row_by_id T (rt_id row) db")
  case None
  with assms show ?thesis by (simp add: recover_if_stuck_def split: if_splits)
next
  case (Some fresh)
  note settled = sound_settle_states [OF assms(1) Some]
  from assms Some show ?thesis
    by (simp add: recover_if_stuck_def Let_def settled split: if_split_asm)
qed

lemma sound_finalize:
  assumes "sound_since start db" and "finalize_repair T dbnow i ok app wants now code db = Inr (a, db')"
  shows "sound_since start db'"
proof (cases "row_by_id T i db")
  case None
  with assms show ?thesis by (simp add: finalize_repair_def)
next
  case (Some r)
  note settled = sound_settle_states [OF assms(1) Some]
  from assms Some show ?thesis
    by (simp add: finalize_repair_def Let_def settled split: if_split_asm)
qed

lemma repair_keeps:
  assumes "\<And>key. call_keeps (sound_since start) (change key)"
  shows "keeps (sound_since start) (repair T sha tm sid row label wants d corr valid change)"
proof -
  have fin: "keeps (sound_since start)
      (transaction (finalize_repair T dbnow i ok app wants now code))" for dbnow i ok app now code
    by (rule keeps_transaction) (rule sound_finalize)
  show ?thesis
    unfolding repair_def Let_def
    by (auto intro!: keeps_rules fin keeps_transaction assms intro: sound_repair_begin
        split: sum.splits agent_error.splits prod.splits)
qed

lemma reconcile_row_keeps:
  assumes "call_keeps (sound_since start) probe" and "\<And>key. call_keeps (sound_since start) (change key)"
  shows "keeps (sound_since start) (reconcile_row T sha tm sid row label corr valid probe change)"
proof -
  have note_keeps: "keeps (sound_since start)
      (transaction (record_outcome k dbnow s i d obs out oid code))" for k dbnow s i d obs out oid code
    by (rule keeps_transaction) (rule sound_record)
  have recover: "keeps (sound_since start) (transaction (recover_if_stuck T dbnow now row obs))" for dbnow now obs
    by (rule keeps_transaction) (rule sound_recover)
  show ?thesis
    unfolding reconcile_row_def Let_def
    by (auto intro!: keeps_rules note_keeps recover repair_keeps assms
        split: sum.splits agent_error.splits prod.splits)
qed

end

interpretation peer_recon: reconciled_table peer_table "''wireguard_public''"
proof
  fix db g dbnow and r :: wg_peer and f :: "wg_peer \<Rightarrow> wg_peer"
  assume f: "\<And>x. rt_id (f x) = rt_id x \<and> rt_credential_id (f x) = rt_credential_id x"
  show "links_grow db (pair_write peer_table dbnow r f g db)"
    by (rule links_grow_tables [where ps = "[]" and xs = "[]"])
      (simp_all add: pair_write_def peers.rows_after_write [simplified] links_update [OF f])
qed

interpretation client_recon: reconciled_table client_table "''xray_bearer''"
proof
  fix db g dbnow and r :: xray_client and f :: "xray_client \<Rightarrow> xray_client"
  assume f: "\<And>x. rt_id (f x) = rt_id x \<and> rt_credential_id (f x) = rt_credential_id x"
  show "links_grow db (pair_write client_table dbnow r f g db)"
    by (rule links_grow_tables [where ps = "[]" and xs = "[]"])
      (simp_all add: pair_write_def clients.rows_after_write [simplified] links_update [OF f])
qed

lemma draw_keeps: "keeps (sound_since start) draw_uuid"
  by (auto simp: keeps_def draw_uuid_def split_beta Let_def intro: sound_uuid4)

definition wg_agent_keeps :: "(control_db \<Rightarrow> bool) \<Rightarrow> 's wg_agent \<Rightarrow> bool" where
  "wg_agent_keeps P agent \<longleftrightarrow>
     (\<forall>a q. call_keeps P (wa_reconcile agent a q)) \<and> (\<forall>a q. call_keeps P (wa_provision_device agent a q)) \<and>
     (\<forall>a q. call_keeps P (wa_revoke_device agent a q))"

definition xray_agent_keeps :: "(control_db \<Rightarrow> bool) \<Rightarrow> 's xray_agent \<Rightarrow> bool" where
  "xray_agent_keeps P agent \<longleftrightarrow>
     (\<forall>a q. call_keeps P (xa_reconcile agent a q)) \<and> (\<forall>a q. call_keeps P (xa_provision agent a q)) \<and>
     (\<forall>a q. call_keeps P (xa_revoke agent a q))"

lemma agent_keepsD:
  "wg_agent_keeps P wg \<Longrightarrow> call_keeps P (wa_reconcile wg a q1)"
  "wg_agent_keeps P wg \<Longrightarrow> call_keeps P (wa_provision_device wg a q2)"
  "wg_agent_keeps P wg \<Longrightarrow> call_keeps P (wa_revoke_device wg a q3)"
  "xray_agent_keeps P xr \<Longrightarrow> call_keeps P (xa_reconcile xr a q4)"
  "xray_agent_keeps P xr \<Longrightarrow> call_keeps P (xa_provision xr a q5)"
  "xray_agent_keeps P xr \<Longrightarrow> call_keeps P (xa_revoke xr a q6)"
  unfolding wg_agent_keeps_def xray_agent_keeps_def by blast+

lemma reconcile_one_keeps:
  assumes "wg_agent_keeps (sound_since start) agent"
  shows "keeps (sound_since start) (reconcile_one agent sha tm server peer)"
  unfolding reconcile_one_def using assms
  by (intro keeps_then draw_keeps peer_recon.reconcile_row_keeps)
    (simp_all add: agent_keepsD call_keeps_reading)

lemma keeps_case:
  "keeps P a \<Longrightarrow> (\<And>u. keeps P (b u)) \<Longrightarrow> keeps P (\<lambda>w. case f w of None \<Rightarrow> a w | Some u \<Rightarrow> b u w)"
  by (simp add: keeps_def split: option.split)

lemma reconcile_one_xray_keeps:
  assumes "xray_agent_keeps (sound_since start) agent"
  shows "keeps (sound_since start) (reconcile_one_xray_client agent dec ring sha tm server code client)"
proof -
  have row: "keeps (sound_since start) (reconcile_row client_table sha tm (srv_id server) client label corr valid
      (xa_reconcile agent a q)
      (\<lambda>key. let request = q2 key
         in if wants_present client then reading provision_xray_answer (xa_provision agent a request)
            else reading revoke_answer (xa_revoke agent a request)))" for label corr valid a q q2
    using assms by (intro client_recon.reconcile_row_keeps)
      (simp_all add: agent_keepsD call_keeps_reading Let_def)
  have unread: "keeps (sound_since start) (then_pass (count_pass f)
      (\<lambda>_. transaction (record_outcome k dbnow s i d obs out oid code)))" for f k dbnow s i d obs out oid code
    by (intro keeps_rules keeps_transaction) (rule sound_record)
  show ?thesis
    unfolding reconcile_one_xray_client_def
    by (rule keeps_then [OF draw_keeps], rule keeps_case, rule unread, rule row)
qed

lemma batch_keeps:
  assumes "\<And>row. keeps P (one row)" and "P (rw_db w)"
  shows "P (rw_db (reconcile_batch one rows w))"
  using assms(2)
proof (induction rows arbitrary: w)
  case (Cons row rows)
  let ?w = "w\<lparr>rw_summary := rw_summary w\<lparr>rs_checked := rs_checked (rw_summary w) + 1\<rparr>\<rparr>"
  have "P (rw_db (snd (one row ?w)))" using assms(1) [of row] Cons.prems by (simp add: keeps_def)
  then show ?case by (auto intro!: Cons.IH split: prod.splits sum.splits)
qed simp

lemma on_server_keeps: "(\<And>server. keeps P (f server)) \<Longrightarrow> keeps P (on_server servers row f)"
  by (auto simp: on_server_def keeps_raise split: option.splits)

subsection \<open>Marking\<close>

lemma orphanable_serving: "orphanable = serving"
  by (auto simp: orphanable_def serving_def)

lemma fold_revoke:
  "fold (\<lambda>row. pair_write T dbnow row (mark_revoking now) credential_revoking) rows db =
     fold (revoke_credential_row T dbnow now) rows db"
  by (simp add: revoke_credential_row_def [abs_def])

context managed_table
begin

lemma mark_spec:
  assumes "db_wf db"
  obtains db' where
    "mark_orphaned_revoking T dbnow now db =
       Inr (int (count_where (\<lambda>r. serving (rt_state r) \<and> owner_gone r db) (tab_get T db)), db')"
    "db_wf db'"
    "tab_get T db' = update_where (\<lambda>r. serving (rt_state r) \<and> owner_gone r db)
       (orm_write dbnow (mark_revoking now)) (tab_get T db)"
    "db' = fold (revoke_credential_row T dbnow now)
       (filter (\<lambda>r. serving (rt_state r) \<and> owner_gone r db) (tab_get T db)) db"
proof -
  let ?rs = "filter (\<lambda>r. serving (rt_state r) \<and> owner_gone r db) (tab_get T db)"
  have ids: "distinct (map rt_id (tab_get T db))"
    using assms ok_ids by (simp add: db_wf_def)
  have rs: "set ?rs \<subseteq> set (tab_get T db)" "distinct (map rt_id ?rs)" "\<forall>r\<in>set ?rs. live (rt_state r)"
    using ids by (auto simp: distinct_map_filterI live_cases)
  note f = revoke_fold [OF assms rs, of dbnow now]
  have "mark_orphaned_revoking T dbnow now db =
      Inr (int (count_where (\<lambda>r. serving (rt_state r) \<and> owner_gone r db) (tab_get T db)),
        fold (revoke_credential_row T dbnow now) ?rs db)"
    using f(1) by (simp add: mark_orphaned_revoking_def orphanable_serving fold_revoke commit_def constrained_def
        Let_def db_wf_def count_where_def)
  moreover have "tab_get T (fold (revoke_credential_row T dbnow now) ?rs db) =
      update_where (\<lambda>r. serving (rt_state r) \<and> owner_gone r db) (orm_write dbnow (mark_revoking now)) (tab_get T db)"
    using f(2) key_in_filter [OF ids] by (simp cong: update_where_cong)
  ultimately show ?thesis using that f(1) by blast
qed

end

lemma revoke_row_people [simp]:
  "db_users (revoke_credential_row peer_table dbnow now p db) = db_users db"
  "db_devices (revoke_credential_row peer_table dbnow now p db) = db_devices db"
  "db_users (revoke_credential_row client_table dbnow now x db) = db_users db"
  "db_devices (revoke_credential_row client_table dbnow now x db) = db_devices db"
  by (simp_all add: revoke_credential_row_def pair_write_def peers.write_row_frame clients.write_row_frame
      write_credential_def)

lemma owner_gone_cong:
  "db_users a = db_users b \<Longrightarrow> db_devices a = db_devices b \<Longrightarrow> owner_gone r a = owner_gone r b"
  by (simp add: owner_gone_def)

lemma owner_gone_marked [simp]: "owner_gone (orm_write dbnow (mark_revoking now) r) db = owner_gone r db"
  by (simp add: owner_gone_def)

definition only_widened :: "control_db \<Rightarrow> 'a cred_row_scheme list \<Rightarrow> 'a cred_row_scheme list \<Rightarrow> bool" where
  "only_widened db rows rows' \<longleftrightarrow>
     list_all2 (\<lambda>r r'. r' = r \<or>
       serving (rt_state r) \<and> owner_gone r db \<and> rt_id r' = rt_id r \<and> rt_state r' = REVOKING) rows rows' \<and>
     list_all (\<lambda>r. owner_gone r db \<longrightarrow> \<not> serving (rt_state r)) rows'"

lemma update_only_widened:
  "only_widened db rows (update_where (\<lambda>r. serving (rt_state r) \<and> owner_gone r db)
     (orm_write dbnow (mark_revoking now)) rows)"
  by (induction rows) (auto simp: only_widened_def serving_def)

text \<open>
  Marking what an owner left behind only ever takes access away. Of each table, exactly the
  rows that serve a revoked device or a disabled account change, and they change to
  \<open>REVOKING\<close>; afterwards no such row serves. The transaction is always accepted.
\<close>

lemma marking_only_widens:
  assumes "db_wf db"
  shows "(\<exists>n db'. mark_orphaned_revoking peer_table dbnow now db = Inr (n, db') \<and> db_wf db' \<and>
      only_widened db (db_peers db) (db_peers db') \<and> db_clients db' = db_clients db \<and>
      n = int (count_where (\<lambda>r. serving (rt_state r) \<and> owner_gone r db) (db_peers db))) \<and>
    (\<exists>n db'. mark_orphaned_revoking client_table dbnow now db = Inr (n, db') \<and> db_wf db' \<and>
      only_widened db (db_clients db) (db_clients db') \<and> db_peers db' = db_peers db \<and>
      n = int (count_where (\<lambda>r. serving (rt_state r) \<and> owner_gone r db) (db_clients db)))"
proof
  show "\<exists>n db'. mark_orphaned_revoking peer_table dbnow now db = Inr (n, db') \<and> db_wf db' \<and>
      only_widened db (db_peers db) (db_peers db') \<and> db_clients db' = db_clients db \<and>
      n = int (count_where (\<lambda>r. serving (rt_state r) \<and> owner_gone r db) (db_peers db))"
    by (rule wg.mark_spec [OF assms, of dbnow now]) (simp add: update_only_widened fold_frame)
  show "\<exists>n db'. mark_orphaned_revoking client_table dbnow now db = Inr (n, db') \<and> db_wf db' \<and>
      only_widened db (db_clients db) (db_clients db') \<and> db_peers db' = db_peers db \<and>
      n = int (count_where (\<lambda>r. serving (rt_state r) \<and> owner_gone r db) (db_clients db))"
    by (rule xray.mark_spec [OF assms, of dbnow now]) (simp add: update_only_widened fold_frame)
qed

text \<open>The example deployment after its account was disabled by a path that did not cascade.\<close>

definition ex_orphan_db :: control_db where
  "ex_orphan_db = ex_db\<lparr>db_users := [ex_user\<lparr>usr_state := ACCOUNT_DISABLED\<rparr>]\<rparr>"

lemma ex_orphan_wf: "db_wf ex_orphan_db"
  using ex_db_wf by (simp add: ex_orphan_db_def db_wf_def db_ok_def)

lemma mark_sound:
  assumes "db_wf db"
  shows "mark_orphaned_revoking peer_table dbnow now db = Inr (n, db') \<Longrightarrow> sound_since db db'"
    and "mark_orphaned_revoking client_table dbnow now db = Inr (n, db') \<Longrightarrow> sound_since db db'"
proof -
  have mark: "rt_id (mark_revoking now x) = rt_id x \<and> rt_credential_id (mark_revoking now x) = rt_credential_id x"
    for x :: "'a cred_row_scheme" by (simp add: mark_revoking_def)
  show "sound_since db db'" if "mark_orphaned_revoking peer_table dbnow now db = Inr (n, db')"
  proof (rule wg.mark_spec [OF assms, of dbnow now])
    fix d
    assume d: "mark_orphaned_revoking peer_table dbnow now db =
          Inr (int (count_where (\<lambda>r. serving (rt_state r) \<and> owner_gone r db) (tab_get peer_table db)), d)"
      "db_wf d" "tab_get peer_table d = update_where (\<lambda>r. serving (rt_state r) \<and> owner_gone r db)
         (orm_write dbnow (mark_revoking now)) (tab_get peer_table db)"
      "d = fold (revoke_credential_row peer_table dbnow now)
         (filter (\<lambda>r. serving (rt_state r) \<and> owner_gone r db) (tab_get peer_table db)) db"
    have "db_clients d = db_clients db" by (simp add: d(4) fold_frame)
    then have "links_grow db d"
      using d(3) by (intro links_grow_tables [where ps = "[]" and xs = "[]"]) (simp_all add: links_update [OF mark])
    with that d(1,2) show ?thesis by (simp add: sound_since_def)
  qed
  show "sound_since db db'" if "mark_orphaned_revoking client_table dbnow now db = Inr (n, db')"
  proof (rule xray.mark_spec [OF assms, of dbnow now])
    fix d
    assume d: "mark_orphaned_revoking client_table dbnow now db =
          Inr (int (count_where (\<lambda>r. serving (rt_state r) \<and> owner_gone r db) (tab_get client_table db)), d)"
      "db_wf d" "tab_get client_table d = update_where (\<lambda>r. serving (rt_state r) \<and> owner_gone r db)
         (orm_write dbnow (mark_revoking now)) (tab_get client_table db)"
      "d = fold (revoke_credential_row client_table dbnow now)
         (filter (\<lambda>r. serving (rt_state r) \<and> owner_gone r db) (tab_get client_table db)) db"
    have "db_peers d = db_peers db" by (simp add: d(4) fold_frame)
    then have "links_grow db d"
      using d(3) by (intro links_grow_tables [where ps = "[]" and xs = "[]"]) (simp_all add: links_update [OF mark])
    with that d(1,2) show ?thesis by (simp add: sound_since_def)
  qed
qed

lemma pass_sound:
  assumes "db_wf (fst start)"
  shows "wg_agent_keeps (sound_since (fst start)) wg \<Longrightarrow>
      sound_since (fst start) (fst (snd (run_reconciliation wg sha batch target t clock start)))"
    and "xray_agent_keeps (sound_since (fst start)) xr \<Longrightarrow>
      sound_since (fst start) (fst (snd (run_xray_reconciliation xr dec ring sha batch target t clock start)))"
proof -
  have refl: "sound_since (fst start) (fst start)" using assms by (simp add: sound_since_def)
  show "sound_since (fst start) (fst (snd (run_reconciliation wg sha batch target t clock start)))"
    if "wg_agent_keeps (sound_since (fst start)) wg"
  proof (cases "mark_orphaned_revoking peer_table (fst t) (snd t) (fst start)")
    case (Inr r)
    then obtain n db where "mark_orphaned_revoking peer_table (fst t) (snd t) (fst start) = Inr (n, db)" by (cases r) simp
    with mark_sound(1) [OF assms this] show ?thesis
      by (simp add: run_reconciliation_def Let_def batch_keeps on_server_keeps reconcile_one_keeps that)
  qed (simp add: run_reconciliation_def refl)
  show "sound_since (fst start) (fst (snd (run_xray_reconciliation xr dec ring sha batch target t clock start)))"
    if "xray_agent_keeps (sound_since (fst start)) xr"
  proof (cases "mark_orphaned_revoking client_table (fst t) (snd t) (fst start)")
    case (Inr r)
    then obtain n db where "mark_orphaned_revoking client_table (fst t) (snd t) (fst start) = Inr (n, db)" by (cases r) simp
    with mark_sound(2) [OF assms this] show ?thesis
      by (simp add: run_xray_reconciliation_def Let_def batch_keeps on_server_keeps reconcile_one_xray_keeps that)
  qed (simp add: run_xray_reconciliation_def refl)
qed

text \<open>
  C16. A reconciliation pass keeps the database sound, whatever the agents answer, however many
  of its transactions are refused, and whatever sound transactions others commit while an agent
  is being asked: every constraint holds afterwards, rows and credentials agree, secrets are
  sealed, and no row was deleted or tied to another credential.
\<close>

theorem pass_keeps_invariant:
  assumes "db_wf (fst start)"
  shows "(wg_agent_keeps (sound_since (fst start)) wg \<longrightarrow>
      sound_since (fst start) (fst (snd (run_reconciliation wg sha batch target t clock start)))) \<and>
    (xray_agent_keeps (sound_since (fst start)) xr \<longrightarrow>
      sound_since (fst start) (fst (snd (run_xray_reconciliation xr dec ring sha batch target t clock start))))"
  using pass_sound [OF assms] by blast

text \<open>A server's agent that keeps the ids of the rows it serves and always answers.\<close>

definition ex_wg_agent :: "uuid list wg_agent" where
  "ex_wg_agent =
     \<lparr>wa_reconcile = (\<lambda>a q (db, s). (Inr \<lparr>rcr_outcome = (if rq_target_id q \<in> set s then IN_SYNC else DRIFT_DETECTED),
          rcr_observed_generation = Some 1, rcr_error_code = None\<rparr>, db, s)),
      wa_provision_device = (\<lambda>a q (db, s). (Inr ex_answer, db,
          List.insert (pq_target_id q) s)),
      wa_revoke_device = (\<lambda>a q (db, s). (Inr \<lparr>rdr_state = REVOKE_REVOKED, rdr_applied_generation = 1,
          rdr_error_code = None, rdr_revoked_at = 0\<rparr>, db, removeAll (vq_target_id q) s))\<rparr>"

lemma ex_wg_agent_keeps: "wg_agent_keeps P ex_wg_agent"
  by (auto simp: wg_agent_keeps_def call_keeps_def ex_wg_agent_def)

theorem pass_keeps_invariant_witness:
  "sound_since ex_orphan_db (fst (snd (run_reconciliation ex_wg_agent id 10 None (50, 50)
     (\<lambda>_. \<lparr>tm_now = 50, tm_db = (\<lambda>i. 50 + int i)\<rparr>) (ex_orphan_db, [7]))))"
proof -
  have wf: "db_wf (fst (ex_orphan_db, [7 :: uuid]))" using ex_orphan_wf by simp
  show ?thesis
    by (rule mp [OF conjunct1 [OF pass_keeps_invariant [OF wf]], unfolded fst_conv]) (rule ex_wg_agent_keeps)
qed

end
