(* ===== verification/Reconciliation_Drift.thy ===== *)
theory Reconciliation_Drift
  imports Reconciliation_Safety
begin

text \<open>
  How a reconciliation pass treats the difference between the tables and a server: what it does
  without a clear answer, what the prune asks a server to drop, and two ways in which a
  difference stays or is created.
\<close>

subsection \<open>Without an answer nothing changes\<close>

text \<open>Equal in every table the services act on; the log of reconciliation may differ.\<close>

definition same_tables :: "control_db \<Rightarrow> control_db \<Rightarrow> bool" where
  "same_tables a b \<longleftrightarrow>
     db_users a = db_users b \<and> db_devices a = db_devices b \<and> db_profiles a = db_profiles b \<and>
     db_servers a = db_servers b \<and> db_capabilities a = db_capabilities b \<and>
     db_permissions a = db_permissions b \<and> db_assignments a = db_assignments b \<and>
     db_credentials a = db_credentials b \<and> db_peers a = db_peers b \<and> db_clients a = db_clients b \<and>
     db_operations a = db_operations b \<and> db_audit a = db_audit b \<and> db_usage a = db_usage b"

lemma same_tables_refl [simp]: "same_tables a a"
  and same_tables_uuid4 [simp]: "same_tables a (snd (uuid4 b)) = same_tables a b"
  and same_tables_uuid4_left [simp]: "same_tables (snd (uuid4 a)) b = same_tables a b"
  and same_tables_recon [simp]: "same_tables a (db_recon_update f b) = same_tables a b"
  and same_tables_trans: "same_tables a b \<Longrightarrow> same_tables b c \<Longrightarrow> same_tables a c"
  by (auto simp: same_tables_def uuid4_def)

lemma record_same: "record_outcome k t s i d obs out oid code db = Inr (a, db') \<Longrightarrow> same_tables db db'"
  by (auto simp: record_outcome_def dest!: commit_InrD split: if_splits)

lemma keeps_record: "keeps (same_tables db) (transaction (record_outcome k t s i d obs out oid code))"
  by (rule keeps_transaction) (blast intro: same_tables_trans record_same)

lemma keeps_apply: "keeps P m \<Longrightarrow> P (rw_db w) \<Longrightarrow> P (rw_db (snd (m w)))"
  by (simp add: keeps_def)

definition no_answer :: "(agent_error, reconcile_response) result \<Rightarrow> bool" where
  "no_answer outcome \<longleftrightarrow> (case outcome of Inl e \<Rightarrow> True | Inr r \<Rightarrow> rcr_outcome r = AMBIGUOUS)"

text \<open>A question that only reads: other transactions apart, the database stays as it is.\<close>

definition quiet :: "((agent_error, 'r) result \<Rightarrow> bool) \<Rightarrow> ('s, 'r) agent_call \<Rightarrow> bool" where
  "quiet P call \<longleftrightarrow> (\<forall>db s. P (fst (call (db, s))) \<and> snd (call (db, s)) = (db, s))"

lemma quiet_calling:
  assumes "quiet P call"
  shows "(\<exists>o'. P o' \<and> calling valid call w = (Inr o', w)) \<or> calling valid call w = (Inl RecInvalidRequest, w)"
proof -
  obtain o' where "call (rw_db w, rw_env w) = (o', rw_db w, rw_env w)" "P o'"
    using assms unfolding quiet_def by (metis prod.collapse)
  then show ?thesis by (simp add: calling_def)
qed

lemma row_no_answer:
  assumes "quiet no_answer probe"
  shows "same_tables (rw_db w) (rw_db (snd (reconcile_row T sha tm sid row label corr valid probe change w))) \<and>
    rw_env (snd (reconcile_row T sha tm sid row label corr valid probe change w)) = rw_env w"
  using quiet_calling [OF assms, of valid w]
proof
  assume "\<exists>o'. no_answer o' \<and> calling valid probe w = (Inr o', w)"
  then obtain o' where o: "no_answer o'" "calling valid probe w = (Inr o', w)" by blast
  show ?thesis
  proof (cases o')
    case (Inl e)
    with o(2) show ?thesis
      by (cases e) (auto simp: reconcile_row_def Let_def then_pass_def raise_pass_def count_pass_def transaction_def
          dest: record_same split: sum.splits)
  next
    case (Inr r)
    with o show ?thesis
      by (auto simp: reconcile_row_def Let_def then_pass_def count_pass_def transaction_def no_answer_def
          dest: record_same split: sum.splits)
  qed
qed (simp add: reconcile_row_def Let_def then_pass_def)

text \<open>
  C19. An answer that is missing, refused, unreadable or itself unclear changes no row, of
  either protocol: the question is asked again by a later pass. The same holds for a client
  whose credential cannot be read, about which no question is asked.
\<close>

theorem unclear_answer_changes_nothing:
  "((\<forall>a q. quiet no_answer (wa_reconcile wg a q)) \<longrightarrow>
      same_tables (rw_db w) (rw_db (snd (reconcile_one wg sha tm server peer w))) \<and>
      rw_env (snd (reconcile_one wg sha tm server peer w)) = rw_env w) \<and>
   ((\<forall>a q. quiet no_answer (xa_reconcile xr a q)) \<or> decrypt_client_uuid dec ring client (rw_db w) = None \<longrightarrow>
      same_tables (rw_db w) (rw_db (snd (reconcile_one_xray_client xr dec ring sha tm server code client w))) \<and>
      rw_env (snd (reconcile_one_xray_client xr dec ring sha tm server code client w)) = rw_env w)"
proof (intro conjI impI)
  let ?w = "w\<lparr>rw_db := snd (uuid4 (rw_db w))\<rparr>"
  have dec: "decrypt_client_uuid dec ring client (rw_db ?w) = decrypt_client_uuid dec ring client (rw_db w)"
    by (simp add: decrypt_client_uuid_def credential_by_id_def)
  {
    assume "\<forall>a q. quiet no_answer (wa_reconcile wg a q)"
    then have "quiet no_answer (wa_reconcile wg a q)" for a q by blast
    note step = row_no_answer [OF this, where w = ?w and T = peer_table]
    show "same_tables (rw_db w) (rw_db (snd (reconcile_one wg sha tm server peer w)))"
      and "rw_env (snd (reconcile_one wg sha tm server peer w)) = rw_env w"
      using step
      by (simp_all add: reconcile_one_def then_pass_def draw_uuid_def split_beta Let_def)
  next
    assume asked: "(\<forall>a q. quiet no_answer (xa_reconcile xr a q)) \<or> decrypt_client_uuid dec ring client (rw_db w) = None"
    have "same_tables (rw_db w) (rw_db (snd (reconcile_one_xray_client xr dec ring sha tm server code client w))) \<and>
      rw_env (snd (reconcile_one_xray_client xr dec ring sha tm server code client w)) = rw_env w"
    proof (cases "decrypt_client_uuid dec ring client (rw_db w)")
      case None
      with dec show ?thesis
        by (auto simp: reconcile_one_xray_client_def then_pass_def draw_uuid_def split_beta Let_def count_pass_def
            transaction_def dest!: record_same split: sum.splits)
    next
      case (Some u)
      with asked have "quiet no_answer (xa_reconcile xr a q)" for a q by (metis option.distinct(1))
      note step = row_no_answer [OF this, where w = ?w and T = client_table]
      show ?thesis
        using step Some dec
        by (simp add: reconcile_one_xray_client_def then_pass_def draw_uuid_def split_beta Let_def)
    qed
    then show "same_tables (rw_db w) (rw_db (snd (reconcile_one_xray_client xr dec ring sha tm server code client w)))"
      and "rw_env (snd (reconcile_one_xray_client xr dec ring sha tm server code client w)) = rw_env w" by blast+
  }
qed

definition silent_agent :: "uuid list wg_agent" where
  "silent_agent = ex_wg_agent\<lparr>wa_reconcile := (\<lambda>a q (db, s). (Inl (AgentUnreachable ''refused''), db, s))\<rparr>"

definition ex_times :: recon_times where
  "ex_times = \<lparr>tm_now = 50, tm_db = (\<lambda>i. 50 + int i)\<rparr>"

theorem unclear_answer_changes_nothing_witness:
  "same_tables ex_db (rw_db (snd (reconcile_one silent_agent id ex_times ex_server ex_peer
     \<lparr>rw_summary = empty_summary, rw_db = ex_db, rw_env = [7]\<rparr>)))"
proof -
  have "\<forall>a q. quiet no_answer (wa_reconcile silent_agent a q)"
    by (simp add: silent_agent_def quiet_def no_answer_def)
  from mp [OF conjunct1 [OF unclear_answer_changes_nothing] this,
      of "\<lparr>rw_summary = empty_summary, rw_db = ex_db, rw_env = [7]\<rparr>"]
  show ?thesis by simp
qed

subsection \<open>What the prune asks for\<close>

lemma expected_clients_complete:
  assumes "expected_clients dec ring db clients = Inr expected" and "client \<in> set clients"
  shows "\<exists>u. decrypt_client_uuid dec ring client db = Some u \<and>
    \<lparr>xe_client_uuid = u, xe_protocol_profile_code = served_profile_code client db\<rparr> \<in> set expected"
  using assms
  by (induction clients arbitrary: expected) (auto split: option.splits if_splits sum.splits)

text \<open>A server that drops what the request does not list, or, when the call fails, may not have.\<close>

definition drops_unlisted :: "expected_xray_client list prune_call \<Rightarrow> bool" where
  "drops_unlisted agent \<longleftrightarrow>
     (\<forall>a q db s. fst (snd (agent a q (db, s))) = db \<and>
        (snd (snd (agent a q (db, s))) = s \<or>
         snd (snd (agent a q (db, s))) = filter (\<lambda>e. e \<in> set (px_expected q)) s))"

definition held_as :: "(bytes \<Rightarrow> bytes \<Rightarrow> bytes \<Rightarrow> bytes \<Rightarrow> bytes option) \<Rightarrow> key_ring \<Rightarrow> control_db \<Rightarrow> xray_client \<Rightarrow>
  expected_xray_client option" where
  "held_as dec ring db client =
     map_option (\<lambda>u. \<lparr>xe_client_uuid = u, xe_protocol_profile_code = served_profile_code client db\<rparr>)
       (decrypt_client_uuid dec ring client db)"

lemma prune_env:
  assumes "drops_unlisted agent"
  shows "snd (snd (snd (prune_one_server agent dec ring server summary (db, held)))) = held \<or>
    (\<exists>expected. expected_clients dec ring db (live_clients_of server db) = Inr expected \<and>
      snd (snd (snd (prune_one_server agent dec ring server summary (db, held)))) =
        filter (\<lambda>e. e \<in> set expected) held)"
proof (cases "expected_clients dec ring db (live_clients_of server db)")
  case (Inl e)
  then show ?thesis by (cases e) (simp_all add: prune_one_server_def)
next
  case (Inr expected)
  let ?q = "\<lparr>px_correlation_id = fst (uuid4 db), px_expected = expected\<rparr>"
  obtain r db2 s2 where call: "agent (agent_address server) ?q (snd (uuid4 db), held) = (r, db2, s2)"
    by (metis prod_cases3)
  have "s2 = held \<or> s2 = filter (\<lambda>e. e \<in> set expected) held"
    using assms [unfolded drops_unlisted_def, rule_format, of "agent_address server" ?q "snd (uuid4 db)" held]
    by (simp add: call)
  moreover have "snd (snd (snd (prune_one_server agent dec ring server summary (db, held)))) = s2"
    using Inr call
    by (auto simp: prune_one_server_def split_beta Let_def split: sum.splits agent_error.splits)
  ultimately show ?thesis using Inr by blast
qed

text \<open>
  C21. Pruning a server never takes a client the control plane knows. Whatever is live in the
  tables, from a row that is only requested to one that is still being removed, is still held
  by the server afterwards if it was before. With one live client whose credential cannot be
  read, nothing at all is dropped.
\<close>

theorem prune_spares_known_clients:
  assumes "drops_unlisted agent" and "client \<in> set (live_clients_of server db)"
  shows "(\<forall>e. held_as dec ring db client = Some e \<and> e \<in> set held \<longrightarrow>
      e \<in> set (snd (snd (snd (prune_one_server agent dec ring server summary (db, held)))))) \<and>
    (held_as dec ring db client = None \<longrightarrow>
      snd (snd (snd (prune_one_server agent dec ring server summary (db, held)))) = held)"
  using prune_env [OF assms(1), of dec ring server summary db held]
proof
  assume "\<exists>expected. expected_clients dec ring db (live_clients_of server db) = Inr expected \<and>
      snd (snd (snd (prune_one_server agent dec ring server summary (db, held)))) =
        filter (\<lambda>e. e \<in> set expected) held"
  then obtain expected where e: "expected_clients dec ring db (live_clients_of server db) = Inr expected"
    "snd (snd (snd (prune_one_server agent dec ring server summary (db, held)))) = filter (\<lambda>e. e \<in> set expected) held"
    by blast
  from expected_clients_complete [OF e(1) assms(2)] show ?thesis by (auto simp: held_as_def e(2))
qed simp

definition ex_held :: expected_xray_client where
  "ex_held = \<lparr>xe_client_uuid = 77, xe_protocol_profile_code = ''vless-xhttp-tls''\<rparr>"

definition ex_prune :: "expected_xray_client list prune_call" where
  "ex_prune a q = (\<lambda>(db, s).
     (Inr \<lparr>pxs_state = PRUNED, pxs_removed = int (length (filter (\<lambda>e. e \<notin> set (px_expected q)) s)),
           pxs_kept = int (length (filter (\<lambda>e. e \<in> set (px_expected q)) s)), pxs_error_code = None\<rparr>,
      db, filter (\<lambda>e. e \<in> set (px_expected q)) s))"

theorem prune_spares_known_clients_witness:
  "ex_held \<in> set (snd (snd (snd (prune_one_server ex_prune demo_dec demo_ring ex_server
     \<lparr>ops_servers = 0, ops_removed = 0, ops_kept = 0, ops_skipped = 0, ops_errored = 0\<rparr>
     (ex_db, [ex_held, ex_held\<lparr>xe_client_uuid := 78\<rparr>])))))"
proof -
  have d: "drops_unlisted ex_prune" by (simp add: drops_unlisted_def ex_prune_def)
  have c: "ex_client \<in> set (live_clients_of ex_server ex_db)" by code_simp
  have h: "held_as demo_dec demo_ring ex_db ex_client = Some ex_held" by code_simp
  show ?thesis using prune_spares_known_clients [OF d c, of demo_dec demo_ring] h by auto
qed

subsection \<open>Where a difference stays\<close>

lemma row_in_sync:
  assumes "quiet (\<lambda>o'. \<exists>r. o' = Inr r \<and> rcr_outcome r = IN_SYNC) probe" and "rt_state row = ACTIVE"
  shows "same_tables (rw_db w) (rw_db (snd (reconcile_row T sha tm sid row label corr valid probe change w)))"
  using quiet_calling [OF assms(1), of valid w]
  by (auto simp: reconcile_row_def Let_def then_pass_def count_pass_def transaction_def wants_present_def assms(2)
      recover_if_stuck_def running_stuck_def dest: record_same split: sum.splits)

definition serves_everything :: "'s wg_agent \<Rightarrow> bool" where
  "serves_everything agent \<longleftrightarrow>
     (\<forall>a q. quiet (\<lambda>o'. \<exists>r. o' = Inr r \<and> rcr_outcome r = IN_SYNC) (wa_reconcile agent a q))"

lemma one_in_sync:
  assumes "serves_everything agent" and "rt_state peer = ACTIVE"
  shows "same_tables (rw_db w) (rw_db (snd (reconcile_one agent sha tm server peer w)))"
proof -
  let ?w = "w\<lparr>rw_db := snd (uuid4 (rw_db w))\<rparr>"
  have "quiet (\<lambda>o'. \<exists>r. o' = Inr r \<and> rcr_outcome r = IN_SYNC) (wa_reconcile agent a q)" for a q
    using assms(1) unfolding serves_everything_def by blast
  from row_in_sync [OF this assms(2), where w = ?w and T = peer_table] show ?thesis
    by (simp add: reconcile_one_def then_pass_def draw_uuid_def split_beta Let_def)
qed

lemma batch_same:
  assumes "\<And>row w. row \<in> set rows \<Longrightarrow> same_tables (rw_db w) (rw_db (snd (one row w)))"
  shows "same_tables (rw_db w) (rw_db (reconcile_batch one rows w))"
  using assms
proof (induction rows arbitrary: w)
  case (Cons row rows)
  let ?w = "w\<lparr>rw_summary := rw_summary w\<lparr>rs_checked := rs_checked (rw_summary w) + 1\<rparr>\<rparr>"
  let ?v = "case one row ?w of (Inr _, w1) \<Rightarrow> w1
        | (Inl _, w1) \<Rightarrow> w1\<lparr>rw_summary := rw_summary w1\<lparr>rs_errored := rs_errored (rw_summary w1) + 1\<rparr>\<rparr>"
  have "same_tables (rw_db ?w) (rw_db (snd (one row ?w)))" by (rule Cons.prems) simp
  then have "same_tables (rw_db w) (rw_db ?v)" by (auto split: prod.splits sum.splits)
  moreover have "same_tables (rw_db ?v) (rw_db (reconcile_batch one rows ?v))"
    using Cons.prems by (intro Cons.IH) auto
  ultimately show ?case by (simp only: reconcile_batch.simps) (rule same_tables_trans)
qed simp

definition no_orphans :: "control_db \<Rightarrow> bool" where
  "no_orphans db \<longleftrightarrow> list_all (\<lambda>p. \<not> (orphanable (rt_state p) \<and> owner_gone p db)) (db_peers db)"

definition settled_batch :: "nat \<Rightarrow> control_db \<Rightarrow> bool" where
  "settled_batch batch_size db \<longleftrightarrow> no_orphans db \<and>
     list_all (\<lambda>p. rt_state p = ACTIVE) (candidates peer_table (\<lambda>_. True) batch_size None db)"

lemma settled_cong:
  assumes "same_tables a b"
  shows "settled_batch n a = settled_batch n b"
proof -
  have "owner_gone p a = owner_gone p b" for p :: wg_peer
    using assms by (simp add: same_tables_def owner_gone_def)
  with assms show ?thesis
    by (simp add: settled_batch_def no_orphans_def candidates_def same_tables_def)
qed

lemma pass_same:
  assumes "serves_everything agent" and "settled_batch n (fst start)"
  shows "same_tables (fst start) (fst (snd (run_reconciliation agent sha n None t clock start)))"
proof -
  have "filter (\<lambda>r. orphanable (rt_state r) \<and> owner_gone r (fst start)) (tab_get peer_table (fst start)) = []"
    using assms(2) by (simp add: settled_batch_def no_orphans_def list_all_iff filter_empty_conv)
  then have mark: "mark_orphaned_revoking peer_table (fst t) (snd t) (fst start) = commit 0 (fst start)"
    by (simp add: mark_orphaned_revoking_def Let_def)
  have "same_tables (rw_db w) (rw_db (snd (on_server servers row
      (\<lambda>server. reconcile_one agent sha (clock (rt_id row)) server row) w)))"
    if "row \<in> set (candidates peer_table (\<lambda>_. True) n None (fst start))" for row w servers
    using that assms one_in_sync [OF assms(1)]
    by (auto simp: on_server_def raise_pass_def settled_batch_def list_all_iff split: option.splits)
  then have batch: "same_tables (rw_db w) (rw_db (reconcile_batch (\<lambda>peer. on_server servers peer
      (\<lambda>server. reconcile_one agent sha (clock (rt_id peer)) server peer))
      (candidates peer_table (\<lambda>_. True) n None (fst start)) w))" for w servers
    by (rule batch_same)
  show ?thesis
    using batch [of "\<lparr>rw_summary = empty_summary, rw_db = fst start, rw_env = snd start\<rparr>"]
    by (auto simp: run_reconciliation_def mark Let_def commit_def constrained_def)
qed

text \<open>
  C38. A row behind a full batch of healthy ones is never reached. A pass takes the rows least
  recently updated, and a healthy row is not updated by being checked; so when the batch is
  filled with active peers the agent confirms, every later pass takes the same batch. However
  many passes follow, every peer keeps its state, one that waits to be removed included.
\<close>

theorem healthy_batch_starves_the_rest:
  assumes "serves_everything agent" and "settled_batch batch_size db"
  shows "db_peers (fst (fold (\<lambda>(t, clock) st. snd (run_reconciliation agent sha batch_size None t clock st))
     passes (db, s))) = db_peers db"
proof -
  have "same_tables db (fst (fold (\<lambda>(t, clock) st. snd (run_reconciliation agent sha batch_size None t clock st))
      passes st))" if "same_tables db (fst st)" for st
    using that
  proof (induction passes arbitrary: st)
    case (Cons p passes)
    have "settled_batch batch_size (fst st)" using settled_cong [OF Cons.prems] assms(2) by simp
    from pass_same [OF assms(1) this, of sha "fst p" "snd p"] Cons.prems
    have "same_tables db (fst (snd (run_reconciliation agent sha batch_size None (fst p) (snd p) st)))"
      by (rule same_tables_trans [rotated])
    from Cons.IH [OF this] show ?case by (simp add: split_beta)
  qed simp
  from this [of "(db, s)"] show ?thesis by (simp add: same_tables_def)
qed

text \<open>Two devices: one peer in use, and one, updated later, that waits to be removed.\<close>

definition ex_waiting_db :: control_db where
  "ex_waiting_db = ex_db\<lparr>
     db_devices := db_devices ex_db @ [ex_device\<lparr>dev_id := 30\<rparr>],
     db_credentials := db_credentials ex_db @
       [ex_peer_credential\<lparr>cred_id := 31, cred_device_id := 30, cred_state := REVOKING\<rparr>],
     db_peers := db_peers ex_db @
       [ex_peer\<lparr>rt_id := 32, rt_credential_id := 31, rt_device_id := 30, rt_state := REVOKING,
         rt_updated_at := 40, wp_public_key := replicate 42 (CHR ''q'') @ ''A='',
         wp_assigned_address := IPv4Address 168296451\<rparr>]\<rparr>"

definition busy_agent :: "uuid list wg_agent" where
  "busy_agent = ex_wg_agent\<lparr>wa_reconcile := (\<lambda>a q (db, s).
     (Inr \<lparr>rcr_outcome = IN_SYNC, rcr_observed_generation = None, rcr_error_code = None\<rparr>, db, s))\<rparr>"

theorem healthy_batch_starves_the_rest_witness:
  "map rt_state (db_peers (fst (fold (\<lambda>(t, clock) st. snd (run_reconciliation busy_agent id 1 None t clock st))
     (replicate 100 ((60, 60), \<lambda>_. ex_times)) (ex_waiting_db, [7, 32])))) = [ACTIVE, REVOKING]"
proof -
  have a: "serves_everything busy_agent" by (simp add: serves_everything_def quiet_def busy_agent_def)
  have b: "settled_batch 1 ex_waiting_db" by code_simp
  have "map rt_state (db_peers ex_waiting_db) = [ACTIVE, REVOKING]" by code_simp
  then show ?thesis by (simp only: healthy_batch_starves_the_rest [OF a b])
qed

text \<open>
  A removal that starts while a stuck request is being checked can be recorded as done. The
  agent confirms that it serves a peer whose request never finished; meanwhile the device is
  revoked; the recovery then reads the new state of the row, takes the agent's confirmation for
  that of a removal, and ends the row, which no later pass looks at. The server keeps serving.
\<close>

lemma recovery_misreads_a_new_removal:
  "let agent = ex_wg_agent\<lparr>wa_reconcile := (\<lambda>a q (db, s).
         (Inr \<lparr>rcr_outcome = IN_SYNC, rcr_observed_generation = Some 2, rcr_error_code = None\<rparr>,
          fst (revoke_device_credentials 49 2 49 db), s))\<rparr>;
       stuck = hd (db_peers ex_called_db);
       w = snd (reconcile_one agent id ex_times ex_server stuck
             \<lparr>rw_summary = empty_summary, rw_db = ex_called_db, rw_env = [7]\<rparr>)
   in rt_state stuck = APPLYING \<and> map rt_state (db_peers (rw_db w)) = [REVOKED] \<and> rw_env w = [7] \<and>
      rt_id stuck \<in> set (rw_env w) \<and> candidates peer_table (\<lambda>_. True) 10 None (rw_db w) = []"
  by code_simp

end
