(* ===== verification/Reconciliation_Convergence.thy ===== *)
theory Reconciliation_Convergence
  imports Reconciliation_Drift
begin

text \<open>
  Reconciliation works: when the agent answers truthfully and nobody else changes the row
  meanwhile, checking a row once makes the table and the server agree. The proof shows that no
  transaction on the way is refused; it is made once over \<open>managed_table\<close> for both protocols.
\<close>

subsection \<open>Transactions that are accepted\<close>

lemma reason_words:
  "error_code_format ''reconciled''" "error_code_format ''reconciliation_repaired''"
  by code_simp+

lemma system_event_ok:
  "error_code_format reason \<Longrightarrow>
   audit_check \<lparr>ae_actor_kind = ''system'', ae_actor_id = None, ae_target_kind = k, ae_target_id = t,
     ae_event_code = e, ae_outcome = ''succeeded'', ae_request_id = q, ae_reason_code = Some reason\<rparr>"
  by (simp add: audit_check_def optional_def)

text \<open>A number an answer may carry into an \<open>Integer\<close> column that must not be negative.\<close>

definition generation_ok :: "int \<Rightarrow> bool" where
  "generation_ok g \<longleftrightarrow> 0 \<le> g \<and> int4_ok g"

lemma record_accepted:
  assumes "db_wf db" and "list_all (\<lambda>r. rr_target_kind r = kind \<and> rr_target_id r = i \<longrightarrow> rr_checked_at r < t) (db_recon db)"
    and "optional generation_ok obs" and "0 \<le> d" and "optional error_code_format code"
  shows "\<exists>r. record_outcome kind t sid i d obs out oid code db = Inr ((), db\<lparr>db_recon := db_recon db @ [r]\<rparr>) \<and>
    db_wf (db\<lparr>db_recon := db_recon db @ [r]\<rparr>) \<and> rr_checked_at r = t"
proof -
  let ?r = "\<lparr>rr_server_id = sid, rr_agent_operation_id = oid, rr_target_kind = kind, rr_target_id = i,
     rr_desired_generation = d, rr_observed_generation = obs, rr_outcome = out, rr_checked_at = t, rr_error_code = code\<rparr>"
  have "recon_ok (db_recon db @ [?r])"
    using assms by (auto simp: db_wf_def db_ok_def recon_ok_def recon_check_def list_all_iff optional_def
        generation_ok_def split: option.splits)
  then have "db_wf (db\<lparr>db_recon := db_recon db @ [?r]\<rparr>)" using assms(1) by (simp add: db_wf_def db_ok_def)
  moreover have "optional int4_ok obs" using assms(3) by (simp add: optional_def generation_ok_def split: option.splits)
  ultimately show ?thesis
    by (intro exI [of _ ?r]) (simp add: record_outcome_def commit_def constrained_def db_wf_def)
qed

text \<open>
  The operations on a row at a time: the one in flight, if any, runs for that row on its server
  and started before, and the supply of identifiers is ahead of them.
\<close>

definition operations_ready :: "string \<Rightarrow> uuid \<Rightarrow> uuid \<Rightarrow> time \<Rightarrow> control_db \<Rightarrow> bool" where
  "operations_ready kind sid i now db \<longleftrightarrow>
     list_all (\<lambda>p. op_id p < uuid_supply db \<and> op_idempotency_key p < uuid_supply db \<and>
       (op_target_kind p = kind \<and> op_target_id p = i \<and> inflight (op_state p) \<longrightarrow>
          op_server_id p = sid \<and> op_state p = OP_RUNNING \<and> op_finished_at p = None \<and> op_requested_at p \<le> now \<and>
          optional (\<lambda>t. t \<le> now) (op_started_at p))) (db_operations db)"

definition may_finish :: "time \<Rightarrow> agent_operation_row option \<Rightarrow> bool" where
  "may_finish now p \<longleftrightarrow> optional (\<lambda>p. optional (\<lambda>t. t \<le> now) (op_started_at p)) p"

lemma running_operationD:
  "running_operation kind i db = Some p \<Longrightarrow>
     p \<in> set (db_operations db) \<and> op_target_kind p = kind \<and> op_target_id p = i \<and> op_state p = OP_RUNNING"
  by (auto simp: running_operation_def dest: find_SomeD)

lemma ready_may_finish: "operations_ready kind sid i now db \<Longrightarrow> may_finish now (running_operation kind i db)"
  by (auto simp: operations_ready_def may_finish_def optional_def list_all_iff inflight_def
      dest!: running_operationD split: option.splits)

lemma repair_begin_accepted:
  assumes wf: "db_wf db" and ready: "operations_ready kind sid i now db" and "0 \<le> d"
  shows "\<exists>key oid db'. repair_begin sha kind sid i label wants d corr now db = Inr ((key, oid), db') \<and> db_wf db' \<and>
    (\<exists>ops u. db' = db\<lparr>db_operations := ops, uuid_supply := u\<rparr>) \<and> may_finish now (running_operation kind i db')"
proof (cases "running_operation kind i db")
  case None
  let ?p = "\<lparr>op_id = Suc (uuid_supply db), op_server_id = sid, op_idempotency_key = uuid_supply db,
      op_correlation_id = corr, op_kind = (if wants then ''provision_device'' else ''revoke_device''),
      op_target_kind = kind, op_target_id = i, op_state = OP_RUNNING, op_desired_generation = d,
      op_request_fingerprint = fingerprint sha [''reconcile_repair'', uuid_text i, label, decimal (nat d)],
      op_attempt_count = 1, op_requested_at = now, op_started_at = Some now, op_finished_at = None,
      op_error_code = None\<rparr>"
  let ?db = "insert_operation ?p (db\<lparr>uuid_supply := Suc (Suc (uuid_supply db))\<rparr>)"
  have idle: "\<not> (op_target_kind q = kind \<and> op_target_id q = i \<and> inflight (op_state q))" if "q \<in> set (db_operations db)" for q
    using None that ready by (auto simp: running_operation_def find_None operations_ready_def list_all_iff)
  have "operations_ok (db_operations db @ [?p])"
    using wf ready idle assms(3)
    by (auto simp: db_wf_def db_ok_def operations_ok_def operation_check_def optional_def op_target_def
        operations_ready_def list_all_iff inflight_def)
  then have wf': "db_wf ?db" using wf by (simp add: db_wf_def db_ok_def insert_operation_def)
  have begun: "repair_begin sha kind sid i label wants d corr now db = Inr ((uuid_supply db, Suc (uuid_supply db)), ?db)"
    using wf' None by (simp add: repair_begin_def uuid4_def commit_def constrained_def db_wf_def)
  have "running_operation kind i ?db = Some ?p"
    using None by (simp add: running_operation_def insert_operation_def find_append)
  then have "may_finish now (running_operation kind i ?db)" by (simp add: may_finish_def optional_def)
  moreover have "?db = db\<lparr>db_operations := db_operations db @ [?p], uuid_supply := Suc (Suc (uuid_supply db))\<rparr>"
    by (simp add: insert_operation_def)
  ultimately show ?thesis using wf' begun by blast
next
  case (Some p)
  note p = running_operationD [OF Some]
  let ?db = "write_operation (op_id p) (op_retried now) db"
  have unique: "q = p" if "q \<in> set (db_operations db)" "op_id q = op_id p" for q
    using that p wf_unique_operation [OF wf] by blast
  have "operation_check p" using p wf by (simp add: db_wf_def db_ok_def operations_ok_def list_all_iff)
  moreover have "op_finished_at p = None" "op_requested_at p \<le> now"
    using p ready by (auto simp: operations_ready_def list_all_iff inflight_def)
  ultimately have "operation_check (op_retried now p)"
    using p by (auto simp: operation_check_def op_retried_def MAX_ATTEMPT_COUNT_def optional_def)
  then have "db_ok ?db"
    using wf unique by (intro db_ok_write_operation) (auto simp: db_wf_def op_retried_def op_target_def)
  then have wf': "db_wf ?db" using wf by (simp add: db_wf_def write_operation_def)
  have begun: "repair_begin sha kind sid i label wants d corr now db = Inr ((op_idempotency_key p, op_id p), ?db)"
    using wf' Some by (simp add: repair_begin_def commit_def constrained_def db_wf_def)
  have "may_finish now (running_operation kind i ?db)"
  proof (cases "running_operation kind i ?db")
    case (Some q)
    from running_operationD [OF this] obtain q0 where q0: "q0 \<in> set (db_operations db)"
      "q = (if op_id q0 = op_id p then op_retried now q0 else q0)" "op_target_kind q = kind" "op_target_id q = i"
      "op_state q = OP_RUNNING"
      by (auto simp: write_operation_def set_update_where)
    with ready Some show ?thesis
      by (auto simp: may_finish_def optional_def op_retried_def operations_ready_def list_all_iff inflight_def
          split: if_splits option.splits)
  qed (simp add: may_finish_def optional_def)
  moreover have "?db = db\<lparr>db_operations := db_operations ?db, uuid_supply := uuid_supply db\<rparr>"
    by (simp add: write_operation_def)
  ultimately show ?thesis using wf' begun by blast
qed

subsection \<open>Settling a row\<close>

text \<open>A row whose times all lie before \<open>now\<close>, in use or on its way in or out.\<close>

definition row_ready :: "time \<Rightarrow> 'a cred_row_scheme \<Rightarrow> control_db \<Rightarrow> bool" where
  "row_ready now r db \<longleftrightarrow>
     candidate_state (rt_state r) \<and> rt_revoked_at r = None \<and> int4_ok (rt_applied_generation r) \<and>
     optional (\<lambda>t. t \<le> now) (rt_applied_at r) \<and>
     list_all (\<lambda>c. cred_id c = rt_credential_id r \<longrightarrow> cred_issued_at c \<le> now) (db_credentials db)"

definition finishing :: "time \<Rightarrow> (agent_operation_row \<Rightarrow> agent_operation_row) \<Rightarrow> bool" where
  "finishing now h \<longleftrightarrow> (\<forall>p. op_id (h p) = op_id p \<and> op_idempotency_key (h p) = op_idempotency_key p \<and>
     op_target (h p) = op_target p \<and> \<not> inflight (op_state (h p)) \<and>
     (operation_check p \<and> optional (\<lambda>t. t \<le> now) (op_started_at p) \<longrightarrow> operation_check (h p)))"

lemma finishing_ops: "finishing now (op_succeeded now)" "finishing now (op_finished now True None)"
  by (auto simp: finishing_def op_succeeded_def op_finished_def op_target_def inflight_def operation_check_def
      optional_def split: option.splits)

context managed_table
begin

lemma settle_row_accepted:
  assumes wf: "db_wf db" and r: "row_by_id T i db = Some r" and f: "lifecycle_write f r" "\<And>x. rt_id (f x) = rt_id x"
    and g: "keeps_identity g" "keeps_secret g"
    and check: "\<And>c. c \<in> set (db_credentials db) \<Longrightarrow> cred_id c = rt_credential_id r \<Longrightarrow>
      credential_check (g c) \<and> live (cred_state (g c)) = live (rt_state (f r))"
    and h: "finishing now h" "may_finish now (running_operation (tab_kind T) i db)" and reason: "error_code_format reason"
  shows "\<exists>db'. settle_row T dbnow r f g h ''succeeded'' reason db = Inr ((), db') \<and> db_wf db' \<and>
    row_by_id T i db' = Some (orm_write dbnow f r) \<and> db_recon db' = db_recon db"
proof -
  let ?d0 = "snd (uuid4 db)"
  let ?d1 = "pair_write T dbnow r f g ?d0"
  let ?d2 = "finish_running (tab_kind T) i h ?d1"
  let ?d3 = "add_audit_event ''system'' None (tab_kind T) i ''peer_changed'' ''succeeded'' (fst (uuid4 db)) (Some reason) ?d2"
  have tab: "tab_get T ?d0 = tab_get T db" by (simp add: uuid4_def get_supply)
  have rin: "r \<in> set (tab_get T ?d0)" "rt_id r = i" using row_by_idD [OF r] tab by auto
  have "db_wf ?d0" using wf by (simp add: db_wf_def)
  then have wf1: "db_wf ?d1" using check by (intro pair_wf [OF _ rin(1) f(1) g]) auto
  have ops: "db_operations ?d1 = db_operations db" by (simp add: pair_write_def write_row_frame)
  then have run: "running_operation (tab_kind T) i ?d1 = running_operation (tab_kind T) i db"
    by (simp add: running_operation_def)
  have "db_ok ?d2"
  proof (cases "running_operation (tab_kind T) i db")
    case None
    with run wf1 show ?thesis by (simp add: finish_running_def db_wf_def)
  next
    case (Some p)
    note p = running_operationD [OF Some]
    have "operation_check p" using p wf by (simp add: db_wf_def db_ok_def operations_ok_def list_all_iff)
    with h Some have ok: "operation_check (h p)" by (simp add: finishing_def may_finish_def optional_def)
    have "q = p" if "q \<in> set (db_operations ?d1)" "op_id q = op_id p" for q
      using that ops p wf_unique_operation [OF wf] by auto
    then show ?thesis
      using run Some wf1 ok h(1) p
      by (simp add: finish_running_def db_wf_def) (rule db_ok_write_operation, auto simp: finishing_def)
  qed
  then have ok: "db_ok ?d3" using reason by (intro db_ok_audit system_event_ok)
  moreover have "pairing ?d3" using wf1 by (auto simp: db_wf_pairing elim!: pairing_frame)
  ultimately have "db_wf ?d3" by (simp add: db_wf_pairing)
  moreover have "settle_row T dbnow r f g h ''succeeded'' reason db = Inr ((), ?d3)"
    using ok rin(2) by (simp add: settle_row_def split_beta Let_def commit_def constrained_def)
  moreover have "row_by_id T i ?d3 = Some (orm_write dbnow f r)"
  proof -
    have "row_by_id T i ?d2 = row_by_id T i ?d1"
      by (simp add: finish_running_def row_by_id_frame split: option.splits)
    moreover have "row_by_id T i ?d0 = Some r" using r tab by (simp add: row_by_id_def)
    ultimately show ?thesis
      using row_by_id_write [OF runtime_table_axioms f(2)] rin(2) by (simp add: row_by_id_frame pair_write_def)
  qed
  moreover have "db_recon ?d3 = db_recon db" by (simp add: pair_write_def write_row_frame)
  ultimately show ?thesis by blast
qed

lemma activate_accepted:
  assumes "db_wf db" and "row_by_id T i db = Some r" and "row_ready now r db" and "generation_ok n"
    and "finishing now h" and "may_finish now (running_operation (tab_kind T) i db)" and "error_code_format reason"
  shows "\<exists>db'. settle_row T dbnow r (row_active n now) (credential_in ACTIVE) h ''succeeded'' reason db = Inr ((), db') \<and>
    db_wf db' \<and> (\<exists>r'. row_by_id T i db' = Some r' \<and> rt_state r' = ACTIVE) \<and> db_recon db' = db_recon db"
proof -
  have "lifecycle_write (row_active n now) r"
    using assms(3,4) by (auto simp: lifecycle_write_def row_active_def runtime_check_def row_ready_def generation_ok_def
        candidate_state_def live_def)
  moreover have "keeps_identity (credential_in ACTIVE)" "keeps_secret (credential_in ACTIVE)"
    by (simp_all add: keeps_identity_def keeps_secret_def credential_in_def live_key_def)
  moreover have "credential_check (credential_in ACTIVE c) \<and>
      live (cred_state (credential_in ACTIVE c)) = live (rt_state (row_active n now r))"
    if "c \<in> set (db_credentials db)" for c
    using wf_credential_check [OF assms(1) that] by (auto simp: credential_check_def credential_in_def row_active_def)
  ultimately show ?thesis
    using settle_row_accepted [OF assms(1,2), of "row_active n now" "credential_in ACTIVE" now h reason dbnow] assms(5-7)
    by (force simp: row_active_def)
qed

lemma remove_accepted:
  assumes "db_wf db" and "row_by_id T i db = Some r" and "row_ready now r db"
    and "finishing now h" and "may_finish now (running_operation (tab_kind T) i db)" and "error_code_format reason"
  shows "\<exists>db'. settle_row T dbnow r (row_revoked now) (credential_revoked now) h ''succeeded'' reason db = Inr ((), db') \<and>
    db_wf db' \<and> (\<exists>r'. row_by_id T i db' = Some r' \<and> rt_state r' = REVOKED) \<and> db_recon db' = db_recon db"
proof -
  have "runtime_check r" using assms(1) row_by_idD [OF assms(2)] ok_rows [of db r] by (simp add: db_wf_def)
  then have "lifecycle_write (row_revoked now) r"
    using assms(3) by (auto simp: lifecycle_write_def row_revoked_def runtime_check_def row_ready_def optional_def
        live_def split: option.splits)
  moreover have "keeps_identity (credential_revoked now)" "keeps_secret (credential_revoked now)"
    by (simp_all add: keeps_identity_def keeps_secret_def credential_revoked_def live_key_def)
  moreover have "credential_check (credential_revoked now c) \<and>
      live (cred_state (credential_revoked now c)) = live (rt_state (row_revoked now r))"
    if "c \<in> set (db_credentials db)" "cred_id c = rt_credential_id r" for c
    using wf_credential_check [OF assms(1) that(1)] that assms(3)
    by (auto simp: credential_check_def credential_revoked_def row_revoked_def row_ready_def list_all_iff optional_def)
  ultimately show ?thesis
    using settle_row_accepted [OF assms(1,2), of "row_revoked now" "credential_revoked now" now h reason dbnow] assms(4-6)
    by (force simp: row_revoked_def)
qed

lemma recover_accepted:
  assumes "db_wf db" and "row_by_id T (rt_id row) db = Some row" and "row_ready now row db"
    and "may_finish now (running_operation (tab_kind T) (rt_id row) db)" and "optional generation_ok obs"
  shows "\<exists>db'. recover_if_stuck T dbnow now row obs db = Inr ((), db') \<and> db_wf db' \<and>
    (\<exists>r'. row_by_id T (rt_id row) db' = Some r' \<and> rt_state r' = (if wants_present row then ACTIVE else REVOKED))"
proof -
  let ?n = "nonzero_or obs (nonzero_or (Some (rt_applied_generation row)) 1)"
  have "0 \<le> rt_applied_generation row"
    using assms(1) row_by_idD [OF assms(2)] ok_rows [of db row] by (simp add: db_wf_def runtime_check_def)
  then have gen: "generation_ok ?n"
    using assms(3,5) by (auto simp: nonzero_or_def generation_ok_def row_ready_def optional_def int4_ok_def split: option.splits)
  consider "rt_state row = ACTIVE" | "rt_state row = APPLYING" | "rt_state row = REVOKING"
    using assms(3) by (auto simp: row_ready_def candidate_state_def)
  then show ?thesis
  proof cases
    case 1
    with assms(1,2) show ?thesis by (simp add: recover_if_stuck_def running_stuck_def wants_present_def)
  next
    case 2
    with assms(2) gen activate_accepted [OF assms(1-3) gen finishing_ops(1) assms(4) reason_words(1), of dbnow]
    show ?thesis by (auto simp: recover_if_stuck_def running_stuck_def wants_present_def Let_def generation_ok_def)
  next
    case 3
    with assms(2) remove_accepted [OF assms(1-3) finishing_ops(1) assms(4) reason_words(1), of dbnow]
    show ?thesis by (auto simp: recover_if_stuck_def running_stuck_def wants_present_def)
  qed
qed

lemma finalize_accepted:
  assumes "db_wf db" and "row_by_id T (rt_id row) db = Some row" and "row_ready now row db"
    and "may_finish now (running_operation (tab_kind T) (rt_id row) db)" and "generation_ok g"
  shows "\<exists>db'. finalize_repair T dbnow (rt_id row) True (Some g) (wants_present row) now None db = Inr ((), db') \<and>
    db_wf db' \<and> db_recon db' = db_recon db \<and>
    (\<exists>r'. row_by_id T (rt_id row) db' = Some r' \<and> rt_state r' = (if wants_present row then ACTIVE else REVOKED))"
proof -
  let ?n = "nonzero_or (Some g) (rt_applied_generation row)"
  have "0 \<le> rt_applied_generation row"
    using assms(1) row_by_idD [OF assms(2)] ok_rows [of db row] by (simp add: db_wf_def runtime_check_def)
  then have gen: "generation_ok ?n"
    using assms(3,5) by (auto simp: nonzero_or_def generation_ok_def row_ready_def)
  show ?thesis
  proof (cases "wants_present row")
    case True
    with assms(2) gen activate_accepted [OF assms(1-3) gen finishing_ops(2) assms(4) reason_words(2), of dbnow]
    show ?thesis by (auto simp: finalize_repair_def Let_def generation_ok_def)
  next
    case False
    with assms(2) remove_accepted [OF assms(1-3) finishing_ops(2) assms(4) reason_words(2), of dbnow]
    show ?thesis by (auto simp: finalize_repair_def Let_def)
  qed
qed

end

subsection \<open>One row\<close>

text \<open>Nothing was recorded about the row at or after the time of the pass.\<close>

definition log_ready :: "string \<Rightarrow> uuid \<Rightarrow> recon_times \<Rightarrow> control_db \<Rightarrow> bool" where
  "log_ready kind i tm db \<longleftrightarrow> tm_db tm 0 < tm_db tm 3 \<and>
     list_all (\<lambda>r. rr_target_kind r = kind \<and> rr_target_id r = i \<longrightarrow> rr_checked_at r < tm_db tm 0) (db_recon db)"

text \<open>A truthful question and a change that works, about a row the server holds or not.\<close>

definition truthful :: "('s \<Rightarrow> bool) \<Rightarrow> ('s, reconcile_response) agent_call \<Rightarrow> bool" where
  "truthful held probe \<longleftrightarrow> (\<forall>d s. \<exists>r. probe (d, s) = (Inr r, d, s) \<and>
     rcr_outcome r = (if held s then IN_SYNC else DRIFT_DETECTED) \<and> optional generation_ok (rcr_observed_generation r))"

definition effective :: "('s \<Rightarrow> bool) \<Rightarrow> bool \<Rightarrow> ('s, repair_answer) agent_call \<Rightarrow> bool" where
  "effective held wanted change \<longleftrightarrow> (\<forall>d s. \<exists>g c s'. change (d, s) = (Inr (True, g, c), d, s') \<and>
     generation_ok g \<and> held s' = wanted)"

definition converged ::
  "'a row_table \<Rightarrow> ('s \<Rightarrow> bool) \<Rightarrow> 'a cred_row_scheme \<Rightarrow> (recon_error, unit) result \<times> 's recon_world \<Rightarrow> bool" where
  "converged T held row res \<longleftrightarrow>
     fst res = Inr () \<and> db_wf (rw_db (snd res)) \<and> held (rw_env (snd res)) = wants_present row \<and>
     (\<exists>r'. row_by_id T (rt_id row) (rw_db (snd res)) = Some r' \<and>
        rt_state r' = (if rt_state row = REVOKING then REVOKED else ACTIVE))"

context managed_table
begin

lemma row_frames:
  "row_by_id T i (db_recon_update f db) = row_by_id T i db"
  "row_by_id T i (db_operations_update g db) = row_by_id T i db"
  "row_by_id T i (uuid_supply_update h db) = row_by_id T i db"
  by (simp_all add: row_by_id_def get_recon get_operations get_supply)

lemma row_converges:
  assumes wf: "db_wf (rw_db w)" and row: "row_by_id T (rt_id row) (rw_db w) = Some row"
    and ready: "row_ready (tm_now tm) row (rw_db w)"
    and ops: "operations_ready (tab_kind T) sid (rt_id row) (tm_now tm) (rw_db w)"
    and log: "log_ready (tab_kind T) (rt_id row) tm (rw_db w)" and "valid"
    and probe: "truthful held probe" and change: "\<And>key. effective held (wants_present row) (change key)"
  shows "converged T held row (reconcile_row T sha tm sid row label corr valid probe change w)"
proof -
  let ?k = "tab_kind T" and ?i = "rt_id row" and ?d = "desired_generation row" and ?now = "tm_now tm"
  have d: "0 \<le> ?d" by (simp add: desired_generation_def)
  obtain r where r: "probe (rw_db w, rw_env w) = (Inr r, rw_db w, rw_env w)"
    "rcr_outcome r = (if held (rw_env w) then IN_SYNC else DRIFT_DETECTED)" "optional generation_ok (rcr_observed_generation r)"
    using probe unfolding truthful_def by blast
  have fresh: "list_all (\<lambda>r. rr_target_kind r = ?k \<and> rr_target_id r = ?i \<longrightarrow> rr_checked_at r < tm_db tm 0) (db_recon (rw_db w))"
    using log by (simp add: log_ready_def)
  have called: "calling valid probe w = (Inr (Inr r), w)" using r(1) \<open>valid\<close> by (simp add: calling_def)
  define out where "out = (if held (rw_env w) = wants_present row then ''in_sync'' else ''repair_requested'')"
  obtain x where x: "record_outcome ?k (tm_db tm 0) sid ?i ?d (rcr_observed_generation r) out None None (rw_db w) =
      Inr ((), (rw_db w)\<lparr>db_recon := db_recon (rw_db w) @ [x]\<rparr>)"
    and wf1: "db_wf ((rw_db w)\<lparr>db_recon := db_recon (rw_db w) @ [x]\<rparr>)" and xt: "rr_checked_at x = tm_db tm 0"
    using record_accepted [OF wf fresh r(3) d, of None sid out None] by (auto simp: optional_def)
  let ?db1 = "(rw_db w)\<lparr>db_recon := db_recon (rw_db w) @ [x]\<rparr>"
  have row1: "row_by_id T ?i ?db1 = Some row" using row by (simp add: row_frames)
  have ready1: "row_ready ?now row ?db1" using ready by (simp add: row_ready_def)
  have ops1: "operations_ready ?k sid ?i ?now ?db1" using ops by (simp add: operations_ready_def)
  show ?thesis
  proof (cases "held (rw_env w) = wants_present row")
    case True
    obtain db2 r' where rec: "recover_if_stuck T (tm_db tm 1) ?now row (rcr_observed_generation r) ?db1 = Inr ((), db2)" "db_wf db2"
      "row_by_id T ?i db2 = Some r'" "rt_state r' = (if wants_present row then ACTIVE else REVOKED)"
      using recover_accepted [OF wf1 row1 ready1 ready_may_finish [OF ops1] r(3), of "tm_db tm 1"] by blast
    with True called x r(2) show ?thesis
      by (simp add: converged_def reconcile_row_def Let_def then_pass_def count_pass_def transaction_def out_def wants_present_def)
  next
    case False
    obtain key oid db2 ops2 u where b: "repair_begin sha ?k sid ?i label (wants_present row) ?d corr ?now ?db1 = Inr ((key, oid), db2)"
      "db_wf db2" "db2 = ?db1\<lparr>db_operations := ops2, uuid_supply := u\<rparr>" "may_finish ?now (running_operation ?k ?i db2)"
      using repair_begin_accepted [OF wf1 ops1 d] by blast
    obtain g c s' where ch: "change key (db2, rw_env w) = (Inr (True, g, c), db2, s')" "generation_ok g" "held s' = wants_present row"
      using change [of key] unfolding effective_def by blast
    have "row_by_id T ?i db2 = Some row" "row_ready ?now row db2"
      using row1 ready1 b(3) by (simp_all add: row_frames row_ready_def)
    from finalize_accepted [OF b(2) this b(4) ch(2), of "tm_db tm 2"]
    obtain db3 r' where f: "finalize_repair T (tm_db tm 2) ?i True (Some g) (wants_present row) ?now None db2 = Inr ((), db3)"
      "db_wf db3" "db_recon db3 = db_recon db2" "row_by_id T ?i db3 = Some r'"
      "rt_state r' = (if wants_present row then ACTIVE else REVOKED)" by blast
    have "list_all (\<lambda>r. rr_target_kind r = ?k \<and> rr_target_id r = ?i \<longrightarrow> rr_checked_at r < tm_db tm 3) (db_recon db3)"
      using log xt f(3) b(3) by (auto simp: log_ready_def list_all_iff)
    from record_accepted [OF f(2) this _ d, of None None sid "''repair_succeeded''" "Some oid"]
    obtain y where y: "record_outcome ?k (tm_db tm 3) sid ?i ?d None ''repair_succeeded'' (Some oid) None db3 =
        Inr ((), db3\<lparr>db_recon := db_recon db3 @ [y]\<rparr>)" "db_wf (db3\<lparr>db_recon := db_recon db3 @ [y]\<rparr>)"
      by (auto simp: optional_def)
    have "calling valid (change key) (w\<lparr>rw_db := db2\<rparr>) = (Inr (Inr (True, g, c)), w\<lparr>rw_db := db2, rw_env := s'\<rparr>)"
      using ch(1) \<open>valid\<close> by (simp add: calling_def)
    then have "repair T sha tm sid row label (wants_present row) ?d corr valid change (w\<lparr>rw_db := ?db1\<rparr>) =
        (Inr (''repair_succeeded'', oid, None), w\<lparr>rw_db := db3, rw_env := s'\<rparr>)"
      using b(1) f(1) by (simp add: repair_def then_pass_def transaction_def return_pass_def Let_def)
    with False called x r(2) y f(4,5) ch(3) show ?thesis
      by (cases "rt_state row = REVOKING") (simp_all add: converged_def reconcile_row_def Let_def then_pass_def count_pass_def transaction_def out_def
          wants_present_def row_frames)
  qed
qed

end

subsection \<open>Both protocols\<close>

text \<open>An agent that tells the truth about the rows it holds and does what it is asked.\<close>

definition honest_wg :: "('s \<Rightarrow> uuid set) \<Rightarrow> 's wg_agent \<Rightarrow> bool" where
  "honest_wg held agent \<longleftrightarrow>
     (\<forall>a q. truthful (\<lambda>s. rq_target_id q \<in> held s) (wa_reconcile agent a q)) \<and>
     (\<forall>a q. effective (\<lambda>s. pq_target_id q \<in> held s) True (reading provision_answer (wa_provision_device agent a q))) \<and>
     (\<forall>a q. effective (\<lambda>s. vq_target_id q \<in> held s) False (reading revoke_answer (wa_revoke_device agent a q)))"

definition honest_xray :: "('s \<Rightarrow> uuid set) \<Rightarrow> 's xray_agent \<Rightarrow> bool" where
  "honest_xray held agent \<longleftrightarrow>
     (\<forall>a q. truthful (\<lambda>s. rx_target_id q \<in> held s) (xa_reconcile agent a q)) \<and>
     (\<forall>a q. effective (\<lambda>s. xq_target_id q \<in> held s) True (reading provision_xray_answer (xa_provision agent a q))) \<and>
     (\<forall>a q. effective (\<lambda>s. xq_target_id q \<in> held s) False (reading revoke_answer (xa_revoke agent a q)))"

lemma honest_wgI:
  assumes "honest_wg held agent"
  shows "rq_target_id q = i \<Longrightarrow> truthful (\<lambda>s. i \<in> held s) (wa_reconcile agent a q)"
    and "pq_target_id q2 = i \<Longrightarrow>
      effective (\<lambda>s. i \<in> held s) True (reading provision_answer (wa_provision_device agent a q2))"
    and "vq_target_id q3 = i \<Longrightarrow>
      effective (\<lambda>s. i \<in> held s) False (reading revoke_answer (wa_revoke_device agent a q3))"
  using assms unfolding honest_wg_def by blast+

lemma honest_xrayI:
  assumes "honest_xray held agent"
  shows "rx_target_id q = i \<Longrightarrow> truthful (\<lambda>s. i \<in> held s) (xa_reconcile agent a q)"
    and "xq_target_id q2 = i \<Longrightarrow>
      effective (\<lambda>s. i \<in> held s) True (reading provision_xray_answer (xa_provision agent a q2))"
    and "xq_target_id q2 = i \<Longrightarrow>
      effective (\<lambda>s. i \<in> held s) False (reading revoke_answer (xa_revoke agent a q2))"
  using assms unfolding honest_xray_def by blast+

lemma effective_if: "effective h True c \<Longrightarrow> effective h False d \<Longrightarrow> effective h b (if b then c else d)"
  by simp

definition pass_ready :: "'a row_table \<Rightarrow> recon_times \<Rightarrow> uuid \<Rightarrow> 'a cred_row_scheme \<Rightarrow> control_db \<Rightarrow> bool" where
  "pass_ready T tm sid row db \<longleftrightarrow>
     row_by_id T (rt_id row) db = Some row \<and> row_ready (tm_now tm) row db \<and>
     operations_ready (tab_kind T) sid (rt_id row) (tm_now tm) db \<and> log_ready (tab_kind T) (rt_id row) tm db"

lemma pass_ready_uuid4:
  assumes "runtime_table T" and "pass_ready T tm sid row db"
  shows "pass_ready T tm sid row (snd (uuid4 db))"
proof -
  have ops: "operations_ready k sid i now (snd (uuid4 db))" if "operations_ready k sid i now db" for k i now
    using that unfolding operations_ready_def uuid4_def list_all_iff by (simp add: less_SucI)
  have "tab_get T (snd (uuid4 db)) = tab_get T db"
    by (simp add: uuid4_def runtime_table.get_supply [OF assms(1)])
  then show ?thesis
    using assms(2) ops by (simp add: pass_ready_def row_by_id_def row_ready_def log_ready_def)
qed

text \<open>
  C8. Checking a row once settles it. With an agent that answers truthfully and does what it is
  asked, a row that should be served is served and active afterwards, and a row on its way out
  is off the server and revoked, whichever of the two the server started from, and whether or
  not an operation was left running. No transaction on the way is refused. This holds for
  WireGuard peers and, if their credential can be read, for Xray clients.
\<close>

theorem one_check_settles_a_row:
  assumes "db_wf (rw_db w)"
  shows "(honest_wg held wg \<and> pass_ready peer_table tm (srv_id server) peer (rw_db w) \<longrightarrow>
      converged peer_table (\<lambda>s. rt_id peer \<in> held s) peer (reconcile_one wg sha tm server peer w)) \<and>
    (honest_xray held xr \<and> pass_ready client_table tm (srv_id server) client (rw_db w) \<and>
       profile_code_format code \<and> decrypt_client_uuid dec ring client (rw_db w) \<noteq> None \<longrightarrow>
      converged client_table (\<lambda>s. rt_id client \<in> held s) client
        (reconcile_one_xray_client xr dec ring sha tm server code client w))"
proof (intro conjI impI; elim conjE)
  let ?w = "w\<lparr>rw_db := snd (uuid4 (rw_db w))\<rparr>"
  have wf: "db_wf (rw_db ?w)" using assms by (simp add: db_wf_def)
  {
    assume honest: "honest_wg held wg" and "pass_ready peer_table tm (srv_id server) peer (rw_db w)"
    then have ready: "pass_ready peer_table tm (srv_id server) peer (rw_db ?w)"
      using pass_ready_uuid4 [OF peers.runtime_table_axioms] by simp
    have "peer \<in> set (db_peers (rw_db ?w))" using ready peer_rows.row_by_idD [of "rt_id peer" "rw_db ?w" peer] by (simp add: pass_ready_def)
    then have key: "public_key_canonical (wp_public_key peer)"
      using wf by (auto simp: db_wf_def db_ok_def peers_ok_def Let_def list_all_iff)
    have step: "converged peer_table (\<lambda>s. rt_id peer \<in> held s) peer
        (reconcile_row peer_table sha tm (srv_id server) peer label corr
          (public_key_canonical (wp_public_key peer)) probe change ?w)"
      if "truthful (\<lambda>s. rt_id peer \<in> held s) probe"
        "\<And>key. effective (\<lambda>s. rt_id peer \<in> held s) (wants_present peer) (change key)" for label corr probe change
      using ready by (intro wg.row_converges [OF wf _ _ _ _ key that]) (simp_all add: pass_ready_def)
    show "converged peer_table (\<lambda>s. rt_id peer \<in> held s) peer (reconcile_one wg sha tm server peer w)"
      unfolding reconcile_one_def then_pass_def draw_uuid_def split_beta Let_def fst_conv snd_conv prod.case sum.case
      by (rule step; (rule effective_if)?; rule honest_wgI [OF honest]; simp)
  next
    assume honest: "honest_xray held xr" and "pass_ready client_table tm (srv_id server) client (rw_db w)"
      and code: "profile_code_format code" and "decrypt_client_uuid dec ring client (rw_db w) \<noteq> None"
    then have ready: "pass_ready client_table tm (srv_id server) client (rw_db ?w)"
      using pass_ready_uuid4 [OF clients.runtime_table_axioms] by simp
    obtain u where u: "decrypt_client_uuid dec ring client (rw_db ?w) = Some u"
      using \<open>decrypt_client_uuid dec ring client (rw_db w) \<noteq> None\<close>
      by (auto simp: decrypt_client_uuid_def credential_by_id_def)
    have step: "converged client_table (\<lambda>s. rt_id client \<in> held s) client
        (reconcile_row client_table sha tm (srv_id server) client label corr (profile_code_format code)
          probe change ?w)"
      if "truthful (\<lambda>s. rt_id client \<in> held s) probe"
        "\<And>key. effective (\<lambda>s. rt_id client \<in> held s) (wants_present client) (change key)" for label corr probe change
      using ready by (intro xray.row_converges [OF wf _ _ _ _ code that]) (simp_all add: pass_ready_def)
    show "converged client_table (\<lambda>s. rt_id client \<in> held s) client
        (reconcile_one_xray_client xr dec ring sha tm server code client w)"
      unfolding reconcile_one_xray_client_def then_pass_def draw_uuid_def split_beta Let_def fst_conv snd_conv
        prod.case sum.case u option.case
      by (rule step; (rule effective_if)?; rule honest_xrayI [OF honest]; simp)
  }
qed

text \<open>The example peer waits to be removed while its server still holds it.\<close>

lemma ex_wg_agent_honest: "honest_wg set ex_wg_agent"
  by (simp add: honest_wg_def truthful_def effective_def ex_wg_agent_def reading_def provision_answer_def
      revoke_answer_def optional_def generation_ok_def int4_ok_def ex_answer_def)

definition ex_leaving_db :: control_db where
  "ex_leaving_db = fst (revoke_device_credentials 40 2 40 ex_db)"

definition ex_leaving_peer :: wg_peer where
  "ex_leaving_peer = ex_peer\<lparr>rt_state := REVOKING, rt_updated_at := 40\<rparr>"

theorem one_check_settles_a_row_witness:
  "converged peer_table (\<lambda>s. 7 \<in> set s) ex_leaving_peer
     (reconcile_one ex_wg_agent id ex_times ex_server ex_leaving_peer
        \<lparr>rw_summary = empty_summary, rw_db = ex_leaving_db, rw_env = [7]\<rparr>)"
proof -
  let ?w = "\<lparr>rw_summary = empty_summary, rw_db = ex_leaving_db, rw_env = [7]\<rparr>"
  have wf: "db_wf (rw_db ?w)" using revoke_device_tables(1) [OF ex_db_wf] by (simp add: ex_leaving_db_def)
  have "pass_ready peer_table ex_times (srv_id ex_server) ex_leaving_peer (rw_db ?w)" by code_simp
  moreover have "rt_id ex_leaving_peer = 7" by (simp add: ex_leaving_peer_def ex_peer_def)
  ultimately show ?thesis
    using conjunct1 [OF one_check_settles_a_row [OF wf, of set ex_wg_agent]] ex_wg_agent_honest by metis
qed

end
