(* ===== verification/System.thy ===== *)
theory System
  imports Reconciliation_Convergence
begin

text \<open>
  The control plane as a whole: the handlers with their calls under way, the sweeps, device
  revocation, quota grants and reconciliation, all on one database. A step is one transaction,
  so a run is any interleaving of the transactions of any number of requests and passes; an
  agent may answer a call late, with anything, or never.

  The invariant of a reachable state is proved by rule induction over the steps. Each step has
  to keep the database well-formed, keep every row tied to its credential, so that a call under
  way still fits when it is answered, and keep the accounts and devices, on whose keys the
  expiry sweep relies.
\<close>

subsection \<open>Steps\<close>

datatype pending_work =
    PeerRequest connect_request peer_call
  | PeerRemoval connect_request peer_removal
  | ClientRequest connect_request client_call
  | ClientRemoval connect_request client_removal

record system =
  sys_db :: control_db
  sys_pending :: "pending_work list"

text \<open>Transactions of the sweeps, of revocation, of quota grants and of reconciliation.\<close>

inductive background_step :: "control_db \<Rightarrow> control_db \<Rightarrow> bool" where
  device_revoked: "background_step db (fst (revoke_device_credentials dbnow device_id now db))"
| quota_granted: "background_step db (snd (grant_traffic_quota sha256 dec ring user_id quota db))"
| account_cut_off: "background_step db (snd (cut_off dbnow now user_id db))"
| access_expired: "background_step db (snd (enforce_access_expiry dbnow now db))"
| peers_marked: "mark_orphaned_revoking peer_table dbnow now db = Inr (n, db') \<Longrightarrow> background_step db db'"
| clients_marked: "mark_orphaned_revoking client_table dbnow now db = Inr (n, db') \<Longrightarrow> background_step db db'"
| outcome_noted: "record_outcome kind dbnow server_id i d obs outcome op code db = Inr (u, db') \<Longrightarrow> background_step db db'"
| peer_recovered: "recover_if_stuck peer_table dbnow now peer obs db = Inr (u, db') \<Longrightarrow> background_step db db'"
| client_recovered: "recover_if_stuck client_table dbnow now client obs db = Inr (u, db') \<Longrightarrow> background_step db db'"
| repair_begun: "repair_begin sha256 kind server_id i label wants d corr now db = Inr (k, db') \<Longrightarrow> background_step db db'"
| peer_repaired: "finalize_repair peer_table dbnow i ok applied wants now code db = Inr (u, db') \<Longrightarrow> background_step db db'"
| client_repaired: "finalize_repair client_table dbnow i ok applied wants now code db = Inr (u, db') \<Longrightarrow> background_step db db'"
| uuid_drawn: "background_step db (snd (uuid4 db))"
| usage_recorded: "background_step db (db\<lparr>db_usage := usage\<rparr>)"

text \<open>A handler's first transaction, its last one, and a call whose answer nobody waits for.\<close>

inductive system_step :: "system \<Rightarrow> system \<Rightarrow> bool" where
  background: "background_step (sys_db s) db \<Longrightarrow> system_step s (s\<lparr>sys_db := db\<rparr>)"
| peer_requested: "request_peer_begin sha256 window allowed req key dbnow now (sys_db s) = (Inr call, db) \<Longrightarrow>
    system_step s \<lparr>sys_db = db, sys_pending = PeerRequest req call # sys_pending s\<rparr>"
| peer_refused: "request_peer_begin sha256 window allowed req key dbnow now (sys_db s) = (Inl e, db) \<Longrightarrow>
    system_step s (s\<lparr>sys_db := db\<rparr>)"
| peer_removal: "revoke_peer_begin sha256 window allowed req dbnow now (sys_db s) = (Inr rem, db) \<Longrightarrow>
    system_step s \<lparr>sys_db = db, sys_pending = PeerRemoval req rem # sys_pending s\<rparr>"
| peer_removal_refused: "revoke_peer_begin sha256 window allowed req dbnow now (sys_db s) = (Inl e, db) \<Longrightarrow>
    system_step s (s\<lparr>sys_db := db\<rparr>)"
| client_requested:
    "request_xray_client_begin enc dec ring version nonce label sha256 window allowed req dbnow now (sys_db s) =
       (Inr ccall, db) \<Longrightarrow>
     system_step s \<lparr>sys_db = db, sys_pending = ClientRequest req ccall # sys_pending s\<rparr>"
| client_refused:
    "request_xray_client_begin enc dec ring version nonce label sha256 window allowed req dbnow now (sys_db s) =
       (Inl e, db) \<Longrightarrow> system_step s (s\<lparr>sys_db := db\<rparr>)"
| client_removal: "revoke_xray_client_begin dec ring sha256 window allowed req dbnow now (sys_db s) = (Inr crem, db) \<Longrightarrow>
    system_step s \<lparr>sys_db = db, sys_pending = ClientRemoval req crem # sys_pending s\<rparr>"
| client_removal_refused: "revoke_xray_client_begin dec ring sha256 window allowed req dbnow now (sys_db s) = (Inl e, db) \<Longrightarrow>
    system_step s (s\<lparr>sys_db := db\<rparr>)"
| peer_answered: "PeerRequest req call \<in> set (sys_pending s) \<Longrightarrow>
    system_step s \<lparr>sys_db = snd (request_peer_end dbnow now req call out1 (sys_db s)),
      sys_pending = remove1 (PeerRequest req call) (sys_pending s)\<rparr>"
| peer_removal_answered: "PeerRemoval req rem \<in> set (sys_pending s) \<Longrightarrow>
    system_step s \<lparr>sys_db = snd (revoke_peer_end dbnow now req rem out2 (sys_db s)),
      sys_pending = remove1 (PeerRemoval req rem) (sys_pending s)\<rparr>"
| client_answered: "ClientRequest req ccall \<in> set (sys_pending s) \<Longrightarrow>
    system_step s \<lparr>sys_db = snd (request_xray_client_end dbnow now req ccall out3 (sys_db s)),
      sys_pending = remove1 (ClientRequest req ccall) (sys_pending s)\<rparr>"
| client_removal_answered: "ClientRemoval req crem \<in> set (sys_pending s) \<Longrightarrow>
    system_step s \<lparr>sys_db = snd (revoke_xray_client_end dbnow now req crem out2 (sys_db s)),
      sys_pending = remove1 (ClientRemoval req crem) (sys_pending s)\<rparr>"
| call_lost: "system_step s (s\<lparr>sys_pending := remove1 p (sys_pending s)\<rparr>)"

subsection \<open>What every step keeps\<close>

definition same_people :: "control_db \<Rightarrow> control_db \<Rightarrow> bool" where
  "same_people a b \<longleftrightarrow> map dev_id (db_devices b) = map dev_id (db_devices a) \<and>
     map usr_id (db_users b) = map usr_id (db_users a)"

definition good_step :: "control_db \<Rightarrow> control_db \<Rightarrow> bool" where
  "good_step a b \<longleftrightarrow> db_wf b \<and> links_grow a b \<and> same_people a b"

lemma good_refl: "db_wf db \<Longrightarrow> good_step db db"
  by (simp add: good_step_def same_people_def)

lemma people_keys: "same_people a b \<Longrightarrow> owner_keys b = owner_keys a"
  by (simp add: same_people_def owner_keys_def)

lemma pair_people [simp]:
  "db_users (pair_write peer_table dbnow p f g db) = db_users db"
  "db_devices (pair_write peer_table dbnow p f g db) = db_devices db"
  "db_users (pair_write client_table dbnow x f' g db) = db_users db"
  "db_devices (pair_write client_table dbnow x f' g db) = db_devices db"
  by (simp_all add: pair_write_def peers.write_row_frame clients.write_row_frame write_credential_def)

lemma finish_people [simp]:
  "db_users (finish_running kind i h db) = db_users db" "db_devices (finish_running kind i h db) = db_devices db"
  by (simp_all add: finish_running_def write_operation_def split: option.splits)

lemma audit_people [simp]:
  "db_users (add_audit_event a b c d e e1 e2 e3 db) = db_users db"
  "db_devices (add_audit_event a b c d e e1 e2 e3 db) = db_devices db"
  by (simp_all add: add_audit_event_def)

lemma settle_row_people:
  "settle_row peer_table dbnow p f g h out reason db = Inr (u, db') \<Longrightarrow> same_people db db'"
  "settle_row client_table dbnow x f' g h out reason db = Inr (u, db') \<Longrightarrow> same_people db db'"
  by (auto simp: settle_row_def same_people_def split_beta Let_def dest!: commit_InrD)

lemma recover_people:
  "recover_if_stuck peer_table dbnow now p obs db = Inr (u, db') \<Longrightarrow> same_people db db'"
  "recover_if_stuck client_table dbnow now x obs db = Inr (u, db') \<Longrightarrow> same_people db db'"
  by (auto simp: recover_if_stuck_def Let_def split: if_split_asm option.split_asm dest: settle_row_people)
    (simp_all add: same_people_def)

lemma finalize_people:
  "finalize_repair peer_table dbnow i ok app wants now code db = Inr (u, db') \<Longrightarrow> same_people db db'"
  "finalize_repair client_table dbnow i ok app wants now code db = Inr (u, db') \<Longrightarrow> same_people db db'"
  by (auto simp: finalize_repair_def Let_def split: if_split_asm option.split_asm dest: settle_row_people)
    (simp_all add: same_people_def)

lemma sound_here: "db_wf db \<Longrightarrow> sound_since db db"
  by (simp add: sound_since_def)

lemma good_trans: "good_step a b \<Longrightarrow> good_step b c \<Longrightarrow> good_step a c"
  using links_grow_trans by (auto simp: good_step_def same_people_def)

lemma good_frame:
  assumes "db_wf a" and "db_ok b" and "db_credentials b = db_credentials a" and "db_peers b = db_peers a"
    and "db_clients b = db_clients a" and "same_people a b"
  shows "good_step a b"
  using sound_since_frame [OF sound_here [OF assms(1)] assms(2-5)] assms(6)
  by (simp add: good_step_def sound_since_def)

lemma good_sound: "sound_since a b \<Longrightarrow> same_people a b \<Longrightarrow> good_step a b"
  by (simp add: good_step_def sound_since_def)

lemma mark_links: "rt_id (mark_revoking now x) = rt_id x \<and> rt_credential_id (mark_revoking now x) = rt_credential_id x"
  by (simp add: mark_revoking_def)

lemma revoke_device_people:
  "db_users (fst (revoke_device_credentials dbnow did now db)) = db_users db"
  "db_devices (fst (revoke_device_credentials dbnow did now db)) = db_devices db"
  by (simp_all add: revoke_device_credentials_def revoke_rows_def split_beta Let_def fold_frame)

lemma good_revoke_device:
  assumes "db_wf db"
  shows "good_step db (fst (revoke_device_credentials dbnow did now db))"
proof -
  note t = revoke_device_tables [OF assms, of dbnow did now]
  have "links_grow db (fst (revoke_device_credentials dbnow did now db))"
    by (rule links_grow_tables [where ps = "[]" and xs = "[]"]) (simp_all add: t links_update [OF mark_links])
  with t(1) show ?thesis by (simp add: good_step_def same_people_def revoke_device_people)
qed

lemma good_revoke_devices: "db_wf db \<Longrightarrow> good_step db (fst (revoke_devices dbnow now ds db n))"
proof (induction ds arbitrary: db n)
  case (Cons d ds)
  let ?r = "revoke_device_credentials dbnow d now db"
  have step: "good_step db (fst ?r)" by (rule good_revoke_device [OF Cons.prems])
  then have "db_wf (fst ?r)" by (simp add: good_step_def)
  from good_trans [OF step Cons.IH [OF this, of "n + snd ?r"]] show ?case by (simp add: split_beta Let_def)
qed (simp add: good_refl)

lemma good_write_user:
  "db_wf db \<Longrightarrow> (\<And>u. usr_id (f u) = usr_id u) \<Longrightarrow> good_step db (write_user i f db)"
  by (rule good_frame) (simp_all add: write_user_def db_wf_def db_ok_def same_people_def map_update_where)

lemma good_cut_off:
  assumes "db_wf db"
  shows "good_step db (snd (cut_off dbnow now uid db))"
proof -
  obtain db1 n where r: "revoke_devices dbnow now (devices_of uid db) db 0 = (db1, n)" by fastforce
  let ?d2 = "write_user uid (\<lambda>u. u\<lparr>usr_quota_exhausted_at := Some now\<rparr>) db1"
  let ?d4 = "add_audit_event ''system'' None ''user'' uid ''identity_state_changed'' ''succeeded''
      (fst (uuid4 ?d2)) (Some ''traffic_quota_exhausted'') (snd (uuid4 ?d2))"
  have g1: "good_step db db1" using good_revoke_devices [OF assms, of dbnow now "devices_of uid db" 0] r by simp
  then have g2: "good_step db1 ?d2" by (intro good_write_user) (simp_all add: good_step_def)
  have "good_step ?d2 ?d4" if "db_ok ?d4"
    using that g2 by (intro good_frame) (simp_all add: good_step_def same_people_def)
  with g1 g2 have "good_step db ?d4" if "db_ok ?d4" using that good_trans by blast
  with good_refl [OF assms] r show ?thesis
    by (simp add: cut_off_def Let_def split_beta constrained_def split: option.split)
qed

lemma lapse_people:
  "db_users (fold lapse_event us db) = db_users db" "db_devices (fold lapse_event us db) = db_devices db"
  by (rule fold_frame, simp add: lapse_event_def split_beta Let_def)+

lemma good_expiry:
  assumes "db_wf db" and "owner_keys db"
  shows "good_step db (snd (enforce_access_expiry dbnow now db))"
proof -
  let ?d1 = "fst (revoke_lapsed peer_table dbnow now db)"
  let ?d2 = "fst (revoke_lapsed client_table dbnow now ?d1)"
  note p = wg.revoke_lapsed_spec [OF assms, of dbnow now, simplified]
  have "owner_keys ?d1" using assms(2) by (simp add: owner_keys_def revoke_lapsed_frame)
  note c = xray.revoke_lapsed_spec [OF p(1) this, of dbnow now, simplified]
  have people: "db_users ?d2 = db_users db" "db_devices ?d2 = db_devices db"
    by (simp_all add: revoke_lapsed_def Let_def fold_frame)
  have "good_step db (fold lapse_event us ?d2)" for us
  proof -
    note e = lapse_events_ok [OF c(1), of us]
    have "links_grow db (fold lapse_event us ?d2)"
      using e p(2) c(2) by (intro links_grow_tables [where ps = "[]" and xs = "[]"])
        (simp_all add: revoke_lapsed_frame links_update [OF mark_links])
    with e people show ?thesis by (simp add: good_step_def same_people_def lapse_people)
  qed
  then show ?thesis
    using good_refl [OF assms(1)]
    by (simp add: enforce_access_expiry_def Let_def split_beta constrained_def)
qed

lemma mark_people:
  "mark_orphaned_revoking peer_table dbnow now db = Inr (n, db') \<Longrightarrow> same_people db db'"
  "mark_orphaned_revoking client_table dbnow now db = Inr (n, db') \<Longrightarrow> same_people db db'"
  by (auto simp: mark_orphaned_revoking_def Let_def same_people_def fold_frame dest!: commit_InrD)

lemma record_people: "record_outcome kind t sid i d obs out oid code db = Inr (u, db') \<Longrightarrow> same_people db db'"
  by (auto simp: record_outcome_def same_people_def dest!: commit_InrD split: if_splits)

lemma repair_begin_people:
  "repair_begin sha kind sid i label wants d corr now db = Inr (k, db') \<Longrightarrow> same_people db db'"
  by (auto simp: repair_begin_def same_people_def insert_operation_def write_operation_def split_beta Let_def
      dest!: commit_InrD split: option.splits)

lemma good_grant: "db_wf db \<Longrightarrow> good_step db (snd (grant_traffic_quota sha dec ring uid q db))"
  by (auto simp: grant_traffic_quota_def Let_def good_refl split: option.split intro!: good_write_user)

lemma background_good:
  assumes "background_step db db'" and "db_wf db" and "owner_keys db"
  shows "good_step db db'"
  using assms
proof cases
  case (device_revoked dbnow device_id now)
  then show ?thesis using good_revoke_device [OF assms(2)] by simp
next
  case (quota_granted sha256 dec ring user_id quota)
  then show ?thesis using good_grant [OF assms(2)] by simp
next
  case (account_cut_off dbnow now user_id)
  then show ?thesis using good_cut_off [OF assms(2)] by simp
next
  case (access_expired dbnow now)
  then show ?thesis using good_expiry [OF assms(2,3)] by simp
next
  case (peers_marked dbnow now n)
  then show ?thesis using mark_sound(1) [OF assms(2)] mark_people(1) good_sound by blast
next
  case (clients_marked dbnow now n)
  then show ?thesis using mark_sound(2) [OF assms(2)] mark_people(2) good_sound by blast
next
  case (outcome_noted kind dbnow server_id i d obs outcome op code u)
  then show ?thesis by (intro good_sound sound_record [OF sound_here [OF assms(2)]] record_people)
next
  case (peer_recovered dbnow now peer obs u)
  then show ?thesis by (intro good_sound peer_recon.sound_recover [OF sound_here [OF assms(2)]] recover_people(1))
next
  case (client_recovered dbnow now client obs u)
  then show ?thesis by (intro good_sound client_recon.sound_recover [OF sound_here [OF assms(2)]] recover_people(2))
next
  case (repair_begun sha256 kind server_id i label wants d corr now k)
  then show ?thesis by (intro good_sound sound_repair_begin [OF sound_here [OF assms(2)]] repair_begin_people)
next
  case (peer_repaired dbnow i ok applied wants now code u)
  then show ?thesis by (intro good_sound peer_recon.sound_finalize [OF sound_here [OF assms(2)]] finalize_people(1))
next
  case (client_repaired dbnow i ok applied wants now code u)
  then show ?thesis by (intro good_sound client_recon.sound_finalize [OF sound_here [OF assms(2)]] finalize_people(2))
next
  case uuid_drawn
  then show ?thesis using assms(2) by (intro good_frame) (simp_all add: db_wf_def same_people_def)
next
  case (usage_recorded usage)
  then show ?thesis using assms(2) by (intro good_frame) (simp_all add: db_wf_def db_ok_def same_people_def)
qed

subsection \<open>The handlers' transactions\<close>

lemma op_people:
  "running_op kind tkind sid tid rid gen fp now db = (oper, db1) \<Longrightarrow> db_users db1 = db_users db \<and> db_devices db1 = db_devices db"
  by (auto simp: running_op_def uuid4_def)

lemma write_people [simp]:
  "db_users (write_credential i g db) = db_users db" "db_devices (write_credential i g db) = db_devices db"
  "db_users (write_operation i h db) = db_users db" "db_devices (write_operation i h db) = db_devices db"
  "db_users (insert_operation p db) = db_users db" "db_devices (insert_operation p db) = db_devices db"
  "db_users (insert_credential c db) = db_users db" "db_devices (insert_credential c db) = db_devices db"
  "db_users (insert_row peer_table r db) = db_users db" "db_devices (insert_row peer_table r db) = db_devices db"
  "db_users (insert_row client_table x db) = db_users db" "db_devices (insert_row client_table x db) = db_devices db"
  "db_users (audit_transition a b c1 d e out reason k db) = db_users db"
  "db_devices (audit_transition a b c1 d e out reason k db) = db_devices db"
  by (simp_all add: write_credential_def write_operation_def insert_operation_def insert_credential_def insert_row_def
      audit_transition_def peer_table_def client_table_def)

text \<open>Reconnects and removals: an operation, a credential, a row.\<close>

lemma begin_write_grows:
  assumes "running_op kind tkind sid tid rid gen fp now db = (oper, db1)"
  shows "statements [insert_operation oper, write_credential i g, write_row peer_table dbnow j f] db1 = Inr db2 \<Longrightarrow>
      (\<And>x. rt_id (f x) = rt_id x \<and> rt_credential_id (f x) = rt_credential_id x) \<Longrightarrow> links_grow db db2 \<and> same_people db db2"
    and "statements [insert_operation oper, write_credential i g, write_row client_table dbnow j f'] db1 = Inr db2 \<Longrightarrow>
      (\<And>x. rt_id (f' x) = rt_id x \<and> rt_credential_id (f' x) = rt_credential_id x) \<Longrightarrow> links_grow db db2 \<and> same_people db db2"
proof -
  note frames = running_op_frames [OF assms] op_people [OF assms]
  show "links_grow db db2 \<and> same_people db db2"
    if "statements [insert_operation oper, write_credential i g, write_row peer_table dbnow j f] db1 = Inr db2"
      and f: "\<And>x. rt_id (f x) = rt_id x \<and> rt_credential_id (f x) = rt_credential_id x"
  proof
    from statements_Inr [OF that(1)] have db2: "db2 = write_row peer_table dbnow j f (write_credential i g (insert_operation oper db1))"
      by simp
    show "links_grow db db2"
      by (rule links_grow_tables [where ps = "[]" and xs = "[]"])
        (simp_all add: db2 frames peers.rows_after_write [simplified] links_update [OF f])
    show "same_people db db2" by (simp add: db2 same_people_def peers.write_row_frame frames)
  qed
  show "links_grow db db2 \<and> same_people db db2"
    if "statements [insert_operation oper, write_credential i g, write_row client_table dbnow j f'] db1 = Inr db2"
      and f: "\<And>x. rt_id (f' x) = rt_id x \<and> rt_credential_id (f' x) = rt_credential_id x"
  proof
    from statements_Inr [OF that(1)] have db2: "db2 = write_row client_table dbnow j f' (write_credential i g (insert_operation oper db1))"
      by simp
    show "links_grow db db2"
      by (rule links_grow_tables [where ps = "[]" and xs = "[]"])
        (simp_all add: db2 frames clients.rows_after_write [simplified] links_update [OF f])
    show "same_people db db2" by (simp add: db2 same_people_def clients.write_row_frame frames)
  qed
qed

lemma links_mem: "links_grow a b \<Longrightarrow> p \<in> set (db_peers a) \<Longrightarrow> (rt_id p, rt_credential_id p) \<in> row_links peer_table b"
  and client_links_mem: "links_grow a b \<Longrightarrow> x \<in> set (db_clients a) \<Longrightarrow> (rt_id x, rt_credential_id x) \<in> row_links client_table b"
  by (auto simp: links_grow_def row_links_def)

lemma peer_new_grows:
  assumes "peer_new sha256 req key device profile server capability dbnow now db = (Inr call, db')"
  shows "links_grow db db' \<and> same_people db db' \<and> call_fits peer_table call db'"
  using assms
proof (rule peer_newE)
  fix address oper db3
  let ?c = "new_credential (uuid_supply db) ''wireguard_public'' device profile server now"
  let ?p = "new_peer (Suc (uuid_supply db)) (uuid_supply db) device profile server key address dbnow"
  assume run: "running_op ''provision_device'' ''wireguard_peer'' (srv_id server) (Suc (uuid_supply db)) (cq_request_id req) 1
       (fingerprint sha256 [''provision_device'', uuid_text (Suc (uuid_supply db)), key, ip_text address])
       now (snd (uuid4 (snd (uuid4 db)))) = (oper, db3)"
    and st: "statements [insert_credential ?c, insert_row peer_table ?p, insert_operation oper] db3 = Inr db'"
    and call: "pc_row_id call = Suc (uuid_supply db)" "pc_credential_id call = uuid_supply db"
  from statements_Inr [OF st] have db': "db' = insert_operation oper (insert_row peer_table ?p (insert_credential ?c db3))"
    by simp
  have peers: "db_peers db' = db_peers db @ [?p]" "db_clients db' = db_clients db"
    using running_op_frames [OF run] by (simp_all add: db')
  then have "links_grow db db'" by (intro links_grow_tables [where xs = "[]"]) simp_all
  moreover have "same_people db db'" using op_people [OF run] by (simp add: db' same_people_def)
  moreover have "call_fits peer_table call db'" by (simp add: call_fits_def row_links_def peers(1) new_peer_def call)
  ultimately show ?thesis by blast
qed

lemma client_new_grows:
  assumes "client_new enc ring version nonce label sha256 req device profile server capability dbnow now db = (Inr call, db')"
  shows "links_grow db db' \<and> same_people db db' \<and> call_fits client_table call db'"
proof -
  have "same_people db db'"
    using assms
  proof (rule client_newE)
    fix envelope key oper db4 db5
    assume run: "running_op ''provision_device'' ''xray_client'' (srv_id server) (Suc (Suc (uuid_supply db))) (cq_request_id req) 1
         (fingerprint sha256 [''provision_device'', uuid_text (Suc (Suc (uuid_supply db))), label])
         now (snd (uuid4 (snd (uuid4 (snd (uuid4 db)))))) = (oper, db4)"
      and db5: "db5 = insert_credential (new_credential (Suc (uuid_supply db)) ''xray_bearer'' device profile server now) db4"
      and st: "statements [write_credential (Suc (uuid_supply db)) (seal_credential sha256 key envelope),
         insert_row client_table (new_client (Suc (Suc (uuid_supply db))) (Suc (uuid_supply db)) device profile server label dbnow),
         insert_operation oper] db5 = Inr db'"
    from statements_Inr [OF st] op_people [OF run] show "same_people db db'" by (simp add: same_people_def db5)
  qed
  moreover from assms obtain c :: credential_row and x where "rt_credential_id x = cred_id c" "rt_id x = pc_row_id call" "cred_id c = pc_credential_id call"
    "db_clients db' = db_clients db @ [x]" "db_peers db' = db_peers db" by (rule client_new_tables) blast
  moreover from this have "links_grow db db'" by (intro links_grow_tables [where ps = "[]"]) simp_all
  ultimately show ?thesis by (simp add: call_fits_def row_links_def)
qed

lemma rate_limited_good: "db_wf db \<Longrightarrow> good_step db (snd (rate_limited window req db))"
  by (auto simp: rate_limited_def constrained_def good_refl intro!: good_frame) (simp add: same_people_def)

lemma again_grows:
  "peer \<in> set (db_peers db) \<Longrightarrow> peer_again sha256 req key profile server peer dbnow now db = (Inr call, db') \<Longrightarrow>
     links_grow db db' \<and> same_people db db' \<and> call_fits peer_table call db'"
  "client \<in> set (db_clients db) \<Longrightarrow> client_again dec ring sha256 req device profile server client dbnow now db = (Inr ccall, db') \<Longrightarrow>
     links_grow db db' \<and> same_people db db' \<and> call_fits client_table ccall db'"
proof -
  assume peer: "peer \<in> set (db_peers db)" and "peer_again sha256 req key profile server peer dbnow now db = (Inr call, db')"
  from this(2) show "links_grow db db' \<and> same_people db db' \<and> call_fits peer_table call db'"
  proof (rule peer_againE)
    fix oper db1
    assume run: "running_op ''provision_device'' ''wireguard_peer'' (srv_id server) (rt_id peer) (cq_request_id req)
         (rt_applied_generation peer + 1)
         (fingerprint sha256 [''provision_device'', uuid_text (rt_id peer), key, ip_text (wp_assigned_address peer)])
         now db = (oper, db1)"
      and st: "statements [insert_operation oper,
         write_credential (rt_credential_id peer) (\<lambda>c. c\<lparr>cred_profile_id := pp_id profile, cred_state := APPLYING\<rparr>),
         write_row peer_table dbnow (rt_id peer)
           (\<lambda>p. p\<lparr>wp_public_key := key, rt_profile_id := pp_id profile, rt_state := APPLYING\<rparr>)] db1 = Inr db'"
      and call: "pc_row_id call = rt_id peer" "pc_credential_id call = rt_credential_id peer"
    from begin_write_grows(1) [OF run st] links_mem [OF _ peer, of db'] call show ?thesis by (simp add: call_fits_def)
  qed
next
  assume client: "client \<in> set (db_clients db)"
    and "client_again dec ring sha256 req device profile server client dbnow now db = (Inr ccall, db')"
  from this(2) show "links_grow db db' \<and> same_people db db' \<and> call_fits client_table ccall db'"
  proof (rule client_againE)
    fix oper db1
    assume run: "running_op ''provision_device'' ''xray_client'' (srv_id server) (rt_id client) (cq_request_id req)
         (rt_applied_generation client + 1)
         (fingerprint sha256 [''provision_device'', uuid_text (rt_id client), xc_opaque_label client])
         now db = (oper, db1)"
      and st: "statements [insert_operation oper,
         write_credential (rt_credential_id client) (\<lambda>c. c\<lparr>cred_state := APPLYING\<rparr>),
         write_row client_table dbnow (rt_id client) (\<lambda>x. x\<lparr>rt_state := APPLYING\<rparr>)] db1 = Inr db'"
      and call: "pc_row_id ccall = rt_id client" "pc_credential_id ccall = rt_credential_id client"
    from begin_write_grows(2) [OF run st] client_links_mem [OF _ client, of db'] call show ?thesis by (simp add: call_fits_def)
  qed
qed

lemma request_peer_good:
  assumes "db_wf db" and "request_peer_begin sha256 window allowed req key dbnow now db = (res, db')"
  shows "good_step db db' \<and> (\<forall>call. res = Inr call \<longrightarrow> call_fits peer_table call db')"
proof (cases res)
  case (Inl e)
  then show ?thesis
    using request_peer_refused [of sha256 window allowed req key dbnow now db e] assms good_refl rate_limited_good by auto
next
  case (Inr call)
  have wf: "db_wf db'"
    using begins_wf [OF assms(1)] assms(2) by (metis snd_conv)
  have "links_grow db db' \<and> same_people db db' \<and> call_fits peer_table call db'"
    using assms(2) [unfolded Inr]
    by (rule request_peer_beginE) (auto dest!: live_peerD dest: again_grows(1) peer_new_grows)
  with wf Inr show ?thesis by (simp add: good_step_def)
qed

lemma request_client_good:
  assumes "db_wf db" and "request_xray_client_begin enc dec ring version nonce label sha256 window allowed req dbnow now db = (res, db')"
  shows "good_step db db' \<and> (\<forall>ccall. res = Inr ccall \<longrightarrow> call_fits client_table ccall db')"
proof (cases res)
  case (Inl e)
  then show ?thesis
    using request_xray_refused [of enc dec ring version nonce label sha256 window allowed req dbnow now db e] assms good_refl rate_limited_good by auto
next
  case (Inr ccall)
  have wf: "db_wf db'"
    using begins_wf [OF assms(1)] assms(2) by (metis snd_conv)
  have "links_grow db db' \<and> same_people db db' \<and> call_fits client_table ccall db'"
    using assms(2) [unfolded Inr]
    by (rule request_xray_client_beginE) (auto dest!: live_clientD dest: again_grows(2) client_new_grows)
  with wf Inr show ?thesis by (simp add: good_step_def)
qed

lemma revoke_peer_good:
  assumes "db_wf db" and "revoke_peer_begin sha256 window allowed req dbnow now db = (res, db')"
  shows "good_step db db' \<and> (\<forall>rem. res = Inr rem \<longrightarrow> call_fits peer_table rem db')"
proof (cases res)
  case (Inl e)
  then show ?thesis
    using revoke_peer_refused [of sha256 window allowed req dbnow now db e] assms good_refl rate_limited_good by auto
next
  case (Inr rem)
  have wf: "db_wf db'"
    using begins_wf [OF assms(1)] assms(2) by (metis snd_conv)
  have "links_grow db db' \<and> same_people db db' \<and> call_fits peer_table rem db'"
    using assms(2) [unfolded Inr]
  proof (rule revoke_peer_beginE)
    fix peer oper db1 gen fp
    assume peer: "peer \<in> set (db_peers db)"
      and run: "running_op ''revoke_device'' ''wireguard_peer'' (rt_server_id peer) (rt_id peer) (cq_request_id req) gen fp now db = (oper, db1)"
      and st: "statements [insert_operation oper, write_credential (rt_credential_id peer) credential_revoking,
         write_row peer_table dbnow (rt_id peer) row_removing] db1 = Inr db'"
      and call: "pc_row_id rem = rt_id peer" "pc_credential_id rem = rt_credential_id peer"
    from begin_write_grows(1) [OF run st] links_mem [OF _ peer, of db'] call show ?thesis
      by (simp add: call_fits_def row_removing_def)
  qed
  with wf Inr show ?thesis by (simp add: good_step_def)
qed

lemma revoke_client_good:
  assumes "db_wf db" and "revoke_xray_client_begin dec ring sha256 window allowed req dbnow now db = (res, db')"
  shows "good_step db db' \<and> (\<forall>crem. res = Inr crem \<longrightarrow> call_fits client_table crem db')"
proof (cases res)
  case (Inl e)
  then show ?thesis
    using revoke_xray_refused [of dec ring sha256 window allowed req dbnow now db e] assms good_refl rate_limited_good by auto
next
  case (Inr crem)
  have wf: "db_wf db'"
    using begins_wf [OF assms(1)] assms(2) by (metis snd_conv)
  have "links_grow db db' \<and> same_people db db' \<and> call_fits client_table crem db'"
    using assms(2) [unfolded Inr]
  proof (rule revoke_xray_client_beginE)
    fix client oper db1 gen fp
    assume client: "client \<in> set (db_clients db)"
      and run: "running_op ''revoke_device'' ''xray_client'' (rt_server_id client) (rt_id client) (cq_request_id req) gen fp now db = (oper, db1)"
      and st: "statements [insert_operation oper, write_credential (rt_credential_id client) credential_revoking,
         write_row client_table dbnow (rt_id client) row_removing] db1 = Inr db'"
      and call: "pc_row_id crem = rt_id client" "pc_credential_id crem = rt_credential_id client"
    from begin_write_grows(2) [OF run st] client_links_mem [OF _ client, of db'] call show ?thesis
      by (simp add: call_fits_def row_removing_def)
  qed
  with wf Inr show ?thesis by (simp add: good_step_def)
qed

subsection \<open>Answers\<close>

definition grown :: "control_db \<Rightarrow> control_db \<Rightarrow> bool" where
  "grown a b \<longleftrightarrow> links_grow a b \<and> same_people a b"

lemma grown_refl: "grown db db"
  by (simp add: grown_def same_people_def)

lemma settle_grows:
  "(\<And>x. rt_id (f x) = rt_id x \<and> rt_credential_id (f x) = rt_credential_id x) \<Longrightarrow>
   grown db (snd (settle peer_table dbnow call f g h u q out reason db))"
  "(\<And>x. rt_id (f' x) = rt_id x \<and> rt_credential_id (f' x) = rt_credential_id x) \<Longrightarrow>
   grown db (snd (settle client_table dbnow call f' g h u q out reason db))"
proof -
  assume f: "\<And>x. rt_id (f x) = rt_id x \<and> rt_credential_id (f x) = rt_credential_id x"
  have "links_grow db (audit_transition a b c d e o1 o2 k (write_operation i h (write_credential j g (write_row peer_table dbnow l f db))))"
    for a b c d e o1 o2 k i j l
    by (rule links_grow_tables [where ps = "[]" and xs = "[]"])
      (simp_all add: peers.rows_after_write [simplified] links_update [OF f])
  then show "grown db (snd (settle peer_table dbnow call f g h u q out reason db))"
    by (simp add: grown_def settle_def constrained_def same_people_def peers.write_row_frame split: option.split prod.split)
next
  assume f: "\<And>x. rt_id (f' x) = rt_id x \<and> rt_credential_id (f' x) = rt_credential_id x"
  have "links_grow db (audit_transition a b c d e o1 o2 k (write_operation i h (write_credential j g (write_row client_table dbnow l f' db))))"
    for a b c d e o1 o2 k i j l
    by (rule links_grow_tables [where ps = "[]" and xs = "[]"])
      (simp_all add: clients.rows_after_write [simplified] links_update [OF f])
  then show "grown db (snd (settle client_table dbnow call f' g h u q out reason db))"
    by (simp add: grown_def settle_def constrained_def same_people_def clients.write_row_frame split: option.split prod.split)
qed

lemma settle_grown:
  "grown db (snd (settle_active peer_table dbnow now req call gen db))"
  "grown db (snd (settle_revoked peer_table dbnow now req call db))"
  "grown db (snd (settle_failed peer_table dbnow now req call code removal db))"
  "grown db (snd (settle_active client_table dbnow now req call gen db))"
  "grown db (snd (settle_revoked client_table dbnow now req call db))"
  "grown db (snd (settle_failed client_table dbnow now req call code removal db))"
  by (simp_all add: settle_active_def settle_revoked_def settle_failed_def Let_def grown_refl settle_grows row_write_links)

lemma after_call_grown:
  assumes "\<And>code. grown db (snd (failure code db))" and "\<And>r. grown db (snd (success r db))"
  shows "grown db (snd (after_call failure success failed outcome db))"
  using assms grown_refl by (auto simp: after_call_def split: sum.splits agent_error.splits option.splits)

lemma ends_good:
  assumes "db_wf db"
  shows "call_fits peer_table pcall db \<Longrightarrow> good_step db (snd (request_peer_end dbnow now req pcall o1 db))"
    and "call_fits peer_table rcall db \<Longrightarrow> good_step db (snd (revoke_peer_end dbnow now req rcall o2 db))"
    and "call_fits client_table ccall db \<Longrightarrow> good_step db (snd (request_xray_client_end dbnow now req ccall o3 db))"
    and "call_fits client_table xcall db \<Longrightarrow> good_step db (snd (revoke_xray_client_end dbnow now req xcall o4 db))"
proof -
  have "grown db (snd (request_peer_end dbnow now req pcall o1 db))"
    "grown db (snd (revoke_peer_end dbnow now req rcall o2 db))"
    "grown db (snd (request_xray_client_end dbnow now req ccall o3 db))"
    "grown db (snd (revoke_xray_client_end dbnow now req xcall o4 db))"
    unfolding end_defs
    by (rule after_call_grown; simp add: finalize_snd finalize_failure_def finalize_xray_failure_def settle_grown)+
  then show "call_fits peer_table pcall db \<Longrightarrow> good_step db (snd (request_peer_end dbnow now req pcall o1 db))"
    and "call_fits peer_table rcall db \<Longrightarrow> good_step db (snd (revoke_peer_end dbnow now req rcall o2 db))"
    and "call_fits client_table ccall db \<Longrightarrow> good_step db (snd (request_xray_client_end dbnow now req ccall o3 db))"
    and "call_fits client_table xcall db \<Longrightarrow> good_step db (snd (revoke_xray_client_end dbnow now req xcall o4 db))"
    using ends_wf [OF assms] by (simp_all add: good_step_def grown_def)
qed

subsection \<open>Reachable states\<close>

fun pending_fits :: "control_db \<Rightarrow> pending_work \<Rightarrow> bool" where
  "pending_fits db (PeerRequest req call) = call_fits peer_table call db"
| "pending_fits db (PeerRemoval req rem) = call_fits peer_table rem db"
| "pending_fits db (ClientRequest req ccall) = call_fits client_table ccall db"
| "pending_fits db (ClientRemoval req crem) = call_fits client_table crem db"

definition sound :: "system \<Rightarrow> bool" where
  "sound s \<longleftrightarrow> db_wf (sys_db s) \<and> owner_keys (sys_db s) \<and> list_all (pending_fits (sys_db s)) (sys_pending s)"

lemma fits_grow: "good_step a b \<Longrightarrow> pending_fits a p \<Longrightarrow> pending_fits b p"
  by (cases p) (auto simp: good_step_def links_grow_def call_fits_def)

lemma sound_moved:
  assumes "sound s" and "good_step (sys_db s) db" and "set ps \<subseteq> set (sys_pending s)"
  shows "sound \<lparr>sys_db = db, sys_pending = ps\<rparr>"
proof -
  have "db_wf db" "owner_keys db"
    using assms(1,2) people_keys by (auto simp: good_step_def sound_def)
  moreover have "list_all (pending_fits db) ps"
    using assms fits_grow unfolding sound_def list_all_iff by blast
  ultimately show ?thesis by (simp add: sound_def)
qed

lemma sound_started:
  assumes "sound s" and "good_step (sys_db s) db" and "pending_fits db p"
  shows "sound \<lparr>sys_db = db, sys_pending = p # sys_pending s\<rparr>"
  using sound_moved [OF assms(1,2) order_refl] assms(3) by (simp add: sound_def)

lemma sound_pending: "sound s \<Longrightarrow> p \<in> set (sys_pending s) \<Longrightarrow> pending_fits (sys_db s) p"
  by (simp add: sound_def list_all_iff)

lemma system_update: "s\<lparr>sys_db := db\<rparr> = \<lparr>sys_db = db, sys_pending = sys_pending s\<rparr>"
  "s\<lparr>sys_pending := ps\<rparr> = \<lparr>sys_db = sys_db s, sys_pending = ps\<rparr>" for s :: system
  by simp_all

lemma step_sound:
  assumes "system_step s t" and "sound s"
  shows "sound t"
proof -
  have wf: "db_wf (sys_db s)" "owner_keys (sys_db s)" using assms(2) by (simp_all add: sound_def)
  note moved = sound_moved [OF assms(2)] and started = sound_started [OF assms(2)]
  note answered = ends_good [OF wf(1)] and fits = sound_pending [OF assms(2)]
  show ?thesis
    using assms(1)
  proof cases
    case (background db)
    with background_good [OF _ wf] show ?thesis by (simp only: system_update) (rule moved, auto)
  next
    case (peer_requested sha256 window allowed req key dbnow now call db)
    with request_peer_good [OF wf(1)] show ?thesis by (auto intro!: started)
  next
    case (peer_refused sha256 window allowed req key dbnow now e db)
    with request_peer_good [OF wf(1)] show ?thesis by (simp only: system_update) (rule moved, auto)
  next
    case (peer_removal sha256 window allowed req dbnow now rem db)
    with revoke_peer_good [OF wf(1)] show ?thesis by (auto intro!: started)
  next
    case (peer_removal_refused sha256 window allowed req dbnow now e db)
    with revoke_peer_good [OF wf(1)] show ?thesis by (simp only: system_update) (rule moved, auto)
  next
    case (client_requested enc dec ring version nonce label sha256 window allowed req dbnow now ccall db)
    with request_client_good [OF wf(1)] show ?thesis by (auto intro!: started)
  next
    case (client_refused enc dec ring version nonce label sha256 window allowed req dbnow now e db)
    with request_client_good [OF wf(1)] show ?thesis by (simp only: system_update) (rule moved, auto)
  next
    case (client_removal dec ring sha256 window allowed req dbnow now crem db)
    with revoke_client_good [OF wf(1)] show ?thesis by (auto intro!: started)
  next
    case (client_removal_refused dec ring sha256 window allowed req dbnow now e db)
    with revoke_client_good [OF wf(1)] show ?thesis by (simp only: system_update) (rule moved, auto)
  next
    case (peer_answered req call dbnow now out1)
    with answered(1) fits [of "PeerRequest req call"] show ?thesis by (auto intro!: moved dest: notin_set_remove1 set_mp [OF set_remove1_subset])
  next
    case (peer_removal_answered req rem dbnow now out2)
    with answered(2) fits [of "PeerRemoval req rem"] show ?thesis by (auto intro!: moved dest: set_mp [OF set_remove1_subset])
  next
    case (client_answered req ccall dbnow now out3)
    with answered(3) fits [of "ClientRequest req ccall"] show ?thesis by (auto intro!: moved dest: set_mp [OF set_remove1_subset])
  next
    case (client_removal_answered req crem dbnow now out2)
    with answered(4) fits [of "ClientRemoval req crem"] show ?thesis by (auto intro!: moved dest: set_mp [OF set_remove1_subset])
  next
    case (call_lost p)
    then show ?thesis
      by (simp only: system_update) (rule moved, auto simp: good_refl wf dest: set_mp [OF set_remove1_subset])
  qed
qed

lemma reachable_sound:
  assumes "system_step\<^sup>*\<^sup>* s t" and "sound s"
  shows "sound t"
  using assms by (induction rule: rtranclp_induct) (auto intro: step_sound)

text \<open>
  C1. Every state the control plane can reach is sound: whatever requests, answers, sweeps,
  revocations and repairs happen, in whatever order their transactions are interleaved and
  whichever answers are lost, every constraint of the database holds, every live row has a live
  credential, every Xray secret is stored sealed, and every call still under way points at a
  row and the credential behind it.
\<close>

theorem reachable_states_sound:
  assumes "system_step\<^sup>*\<^sup>* \<lparr>sys_db = db, sys_pending = []\<rparr> s" and "db_wf db" and "owner_keys db"
  shows "db_wf (sys_db s) \<and> list_all (pending_fits (sys_db s)) (sys_pending s)"
  using reachable_sound [OF assms(1)] assms(2,3) by (simp add: sound_def)

lemma ex_owner_keys: "owner_keys ex_db"
  by code_simp

text \<open>A request is answered after the account was cut off in between.\<close>

definition ex_late :: system where
  "ex_late = \<lparr>sys_db = snd (request_peer_end 50 50 ex_request ex_call (Inr ex_answer)
     (snd (cut_off 45 45 1 ex_called_db))), sys_pending = []\<rparr>"

lemma ex_late_reached: "system_step\<^sup>*\<^sup>* \<lparr>sys_db = ex_db, sys_pending = []\<rparr> ex_late"
proof -
  have isr: "\<not> isl (fst (request_peer_begin (\<lambda>_. []) 60 True ex_request ex_key 40 40 ex_db))" by code_simp
  then have "request_peer_begin (\<lambda>_. []) 60 True ex_request ex_key 40 40 ex_db = (Inr ex_call, ex_called_db)"
    by (cases "fst (request_peer_begin (\<lambda>_. []) 60 True ex_request ex_key 40 40 ex_db)")
      (simp_all add: ex_call_def ex_called_db_def prod_eq_iff)
  then have "system_step \<lparr>sys_db = ex_db, sys_pending = []\<rparr>
      \<lparr>sys_db = ex_called_db, sys_pending = [PeerRequest ex_request ex_call]\<rparr>"
    using peer_requested [of "\<lambda>_. []" 60 True ex_request ex_key 40 40 "\<lparr>sys_db = ex_db, sys_pending = []\<rparr>"] by simp
  moreover have "system_step \<lparr>sys_db = ex_called_db, sys_pending = [PeerRequest ex_request ex_call]\<rparr>
      \<lparr>sys_db = snd (cut_off 45 45 1 ex_called_db), sys_pending = [PeerRequest ex_request ex_call]\<rparr>"
    using background [of "\<lparr>sys_db = ex_called_db, sys_pending = [PeerRequest ex_request ex_call]\<rparr>"] account_cut_off by simp
  moreover have "system_step \<lparr>sys_db = snd (cut_off 45 45 1 ex_called_db), sys_pending = [PeerRequest ex_request ex_call]\<rparr> ex_late"
    using peer_answered [of ex_request ex_call
        "\<lparr>sys_db = snd (cut_off 45 45 1 ex_called_db), sys_pending = [PeerRequest ex_request ex_call]\<rparr>" 50 50 "Inr ex_answer"]
    by (simp add: ex_late_def)
  ultimately show ?thesis by (meson converse_rtranclp_into_rtranclp rtranclp.rtrancl_refl)
qed

theorem reachable_states_sound_witness: "db_wf (sys_db ex_late)"
  using reachable_states_sound [OF ex_late_reached ex_db_wf ex_owner_keys] by blast


lemma ex_waiting_wf: "db_wf ex_waiting_db" "owner_keys ex_waiting_db"
  by code_simp+


end
