(* ===== verification/Json_Prefix.thy ===== *)
theory Json_Prefix
  imports Json_Text
begin

text \<open>
  What the scanner does with a text that was cut short. Text that follows a value does not change
  how the value is read, unless the value is a number that runs into it; so no proper prefix of a
  printed object is itself a JSON document (\<open>cut_object_unreadable\<close>). A line of a JSON-Lines file
  whose writer died in the middle is recognised as unreadable, never misread.
\<close>

subsection \<open>Reading on\<close>

definition json_number :: "json \<Rightarrow> bool" where
  "json_number j = (case j of JInt _ \<Rightarrow> True | JFloat _ \<Rightarrow> True | _ \<Rightarrow> False)"

definition closed_off :: "json \<Rightarrow> string \<Rightarrow> bool" where
  "closed_off j r \<longleftrightarrow> json_number j \<longrightarrow> r \<noteq> [] \<and> delimited r"

lemma skip_ws_extend: "skip_ws s = d # ds \<Longrightarrow> skip_ws (s @ t) = d # ds @ t"
  by (induction s) (auto simp: skip_ws_def split: if_splits)

lemma starts_with_extend: "starts_with p s \<Longrightarrow> starts_with p (s @ t) \<and> drop (length p) (s @ t) = drop (length p) s @ t"
  using starts_with_length [of p s] by (auto simp: starts_with_def)

lemma hex_number_length: "hex_number (take 4 es) = Some n \<Longrightarrow> 4 \<le> length es"
  by (auto simp: hex_number_def split: if_splits)

lemma scan_chars_extend: "scan_chars s = Inr (x, r) \<Longrightarrow> scan_chars (s @ t) = Inr (x, r @ t)"
proof (induction s arbitrary: x rule: scan_chars.induct)
  case (2 c cs)
  consider "c = QUOTE" | "c = BACKSLASH" | "c \<noteq> QUOTE" "c \<noteq> BACKSLASH" by blast
  then show ?case
  proof cases
    case 2
    then obtain e es where cs: "cs = e # es" using "2.prems" by (cases cs) auto
    show ?thesis
    proof (cases "e = CHR ''u''")
      case True
      with 2 cs "2.prems" obtain n y where n: "hex_number (take 4 es) = Some n" "\<not> 255 < n"
          "scan_chars (drop 4 es) = Inr (y, r)" "x = char_of n # y"
        by (auto split: option.splits if_splits)
      then have "scan_chars (drop 4 es @ t) = Inr (y, r @ t)" using "2.IH"(1) [OF _ _ cs True n(1,2)] 2 by simp
      then show ?thesis using 2 True cs n hex_number_length [OF n(1)] by simp
    next
      case False
      with 2 cs "2.prems" obtain z y where z: "simple_escape e = Some z" "scan_chars es = Inr (y, r)" "x = z # y"
        by (auto split: option.splits)
      then have "scan_chars (es @ t) = Inr (y, r @ t)" using "2.IH"(2) [OF _ _ cs False z(1)] 2 by simp
      then show ?thesis using 2 False cs z by simp
    qed
  next
    case 3
    with "2.prems" obtain y where y: "\<not> (of_char c :: nat) < 32" "scan_chars cs = Inr (y, r)" "x = c # y"
      by (auto split: if_splits)
    with 3 "2.IH"(3) have "scan_chars (cs @ t) = Inr (y, r @ t)" by simp
    then show ?thesis using 3 y by simp
  qed (use "2.prems" in auto)
qed simp

lemma takeWhile_extend:
  "dropWhile P s \<noteq> [] \<Longrightarrow> takeWhile P (s @ t) = takeWhile P s \<and> dropWhile P (s @ t) = dropWhile P s @ t"
  by (induction s) auto

lemma scan_int_part_extend:
  "scan_int_part s = Some (ds, r) \<Longrightarrow> r \<noteq> [] \<Longrightarrow> scan_int_part (s @ t) = Some (ds, r @ t)"
  using takeWhile_extend [of is_digit s t]
  by (auto simp: scan_int_part_def simp del: takeWhile.simps dropWhile.simps split: list.splits if_splits)

lemma scan_frac_extend:
  "scan_frac s = (f, r) \<Longrightarrow> r \<noteq> [] \<Longrightarrow> hd r \<noteq> CHR ''.'' \<Longrightarrow> scan_frac (s @ t) = (f, r @ t)"
  using takeWhile_extend [of is_digit "tl s" t]
  by (auto simp: scan_frac_def simp del: takeWhile.simps dropWhile.simps split: list.splits if_splits)

lemma scan_exp_extend:
  assumes "scan_exp s = (x, r)" "r \<noteq> []" "hd r \<noteq> CHR ''e''" "hd r \<noteq> CHR ''E''"
  shows "scan_exp (s @ t) = (x, r @ t)"
proof (cases s)
  case (Cons e cs)
  show ?thesis
  proof (cases "e = CHR ''e'' \<or> e = CHR ''E''")
    case True
    define signed where "signed = (cs \<noteq> [] \<and> (hd cs = CHR ''+'' \<or> hd cs = CHR ''-''))"
    define ds where "ds = (if signed then tl cs else cs)"
    have run: "ds \<noteq> []" "is_digit (hd ds)" "x = e # (if signed then [hd cs] else []) @ takeWhile is_digit ds"
        "r = dropWhile is_digit ds"
      using assms True by (auto simp: scan_exp_def Cons Let_def signed_def ds_def split: if_splits)
    then have "cs \<noteq> []" by (auto simp: ds_def split: if_splits)
    then have "(cs @ t \<noteq> [] \<and> (hd (cs @ t) = CHR ''+'' \<or> hd (cs @ t) = CHR ''-'')) = signed"
        "hd (cs @ t) = hd cs" "(if signed then tl (cs @ t) else cs @ t) = ds @ t"
      by (auto simp: signed_def ds_def)
    moreover have "hd (ds @ t) = hd ds" using run(1) by simp
    ultimately show ?thesis
      using True run takeWhile_extend [of is_digit ds t] assms(2) by (simp add: scan_exp_def Cons Let_def)
  next
    case False
    then show ?thesis using assms by (auto simp: scan_exp_def Cons)
  qed
qed (use assms in \<open>simp add: scan_exp_def\<close>)

lemma scan_exp_head: "scan_exp s = (x, r) \<Longrightarrow> s = r \<or> s \<noteq> [] \<and> (hd s = CHR ''e'' \<or> hd s = CHR ''E'')"
  by (auto simp: scan_exp_def split: list.splits if_splits)

lemma scan_frac_Nil: "fst (scan_frac []) = [] \<and> snd (scan_frac []) = []"
  by (simp add: scan_frac_def)

lemma constants_extend:
  "starts_with ''NaN'' s \<Longrightarrow> starts_with ''NaN'' (s @ t) \<and> drop 3 (s @ t) = drop 3 s @ t"
  "starts_with ''Infinity'' s \<Longrightarrow>
     \<not> starts_with ''NaN'' (s @ t) \<and> starts_with ''Infinity'' (s @ t) \<and> drop 8 (s @ t) = drop 8 s @ t"
  "starts_with ''-Infinity'' s \<Longrightarrow> \<not> starts_with ''NaN'' (s @ t) \<and> \<not> starts_with ''Infinity'' (s @ t) \<and>
     starts_with ''-Infinity'' (s @ t) \<and> drop 9 (s @ t) = drop 9 s @ t"
  subgoal using starts_with_extend [of "''NaN''" s t] by (simp add: eval_nat_numeral)
  subgoal using starts_with_extend [of "''Infinity''" s t]
    by (cases s) (simp_all add: eval_nat_numeral starts_with_def)
  subgoal using starts_with_extend [of "''-Infinity''" s t]
    by (cases s) (simp_all add: eval_nat_numeral starts_with_def)
  done

lemma scan_number_extend:
  assumes ok: "scan_number s = Inr (j, r)" and r: "r \<noteq> []" "delimited r"
  shows "scan_number (s @ t) = Inr (j, r @ t)"
proof -
  define neg where "neg = (s \<noteq> [] \<and> hd s = CHR ''-'')"
  define s1 where "s1 = (if neg then tl s else s)"
  have s: "s \<noteq> []" using ok by (auto simp: scan_number_def scan_int_part_def starts_with_def)
  then have neg_t: "(s @ t \<noteq> [] \<and> hd (s @ t) = CHR ''-'') = neg" "(if neg then tl (s @ t) else s @ t) = s1 @ t"
    by (simp_all add: neg_def s1_def)
  show ?thesis
  proof (cases "scan_int_part s1")
    case None
    have s1: "s1 \<noteq> []"
    proof
      assume "s1 = []"
      then have "s = ''-''" using s by (cases s) (auto simp: s1_def neg_def split: if_splits)
      then show False using ok by (simp add: scan_number_def scan_int_part_def starts_with_def)
    qed
    then have "scan_int_part (s1 @ t) = None"
      using None by (cases s1) (auto simp: scan_int_part_def split: if_splits)
    with ok None neg_t show ?thesis
      using constants_extend [of s t] unfolding scan_number_def Let_def neg_def [symmetric] s1_def [symmetric]
      by (simp only: neg_t option.case) (auto split: if_splits)
  next
    case (Some p)
    obtain ds s2 where p: "p = (ds, s2)" by (cases p)
    obtain frac s3 where f: "scan_frac s2 = (frac, s3)" by (cases "scan_frac s2")
    obtain ex s4 where x: "scan_exp s3 = (ex, s4)" by (cases "scan_exp s3")
    have res: "s4 = r" "j = (if frac = [] \<and> ex = []
        then JInt (if neg then - int (decimal_value ds) else int (decimal_value ds))
        else JFloat ((if neg then ''-'' else []) @ ds @ frac @ ex))"
      using ok Some unfolding scan_number_def neg_def [symmetric] Let_def s1_def [symmetric]
      by (auto simp: p f x split: if_splits)
    have hd: "hd r \<noteq> CHR ''.''" "hd r \<noteq> CHR ''e''" "hd r \<noteq> CHR ''E''" using r by (simp_all add: delimited_def)
    have x': "scan_exp (s3 @ t) = (ex, r @ t)" using scan_exp_extend [OF x] r(1) hd res(1) by simp
    have s3: "s3 \<noteq> []" "hd s3 \<noteq> CHR ''.''" using scan_exp_head [OF x] r(1) hd res(1) by auto
    have f': "scan_frac (s2 @ t) = (frac, s3 @ t)" using scan_frac_extend [OF f s3] .
    have "s2 \<noteq> []" using f s3(1) by (auto simp: scan_frac_def)
    then have "scan_int_part (s1 @ t) = Some (ds, s2 @ t)" using scan_int_part_extend [of s1 ds s2 t] Some p by simp
    then show ?thesis unfolding scan_number_def neg_t Let_def by (simp add: f' x' res(2))
  qed
qed

lemma scan_number_refuses:
  "c \<in> {CHR ''n'', CHR ''t'', CHR ''f''} \<Longrightarrow> scan_number (c # cs) = Inl JSONDecodeError"
  by (elim insertE emptyE) (simp_all add: scan_number_def scan_int_part_def starts_with_def is_digit_def)

lemma scan_number_number: "scan_number s = Inr (j, r) \<Longrightarrow> json_number j"
  by (auto simp: scan_number_def Let_def json_number_def split: if_splits option.splits prod.splits)

lemma constants_head:
  "starts_with ''null'' (c # s) \<Longrightarrow> c = CHR ''n''" "starts_with ''true'' (c # s) \<Longrightarrow> c = CHR ''t''"
  "starts_with ''false'' (c # s) \<Longrightarrow> c = CHR ''f''"
  by (simp_all add: starts_with_def)

lemma literals_extend:
  "starts_with ''null'' s \<Longrightarrow> starts_with ''null'' (s @ t) \<and> drop 4 (s @ t) = drop 4 s @ t"
  "starts_with ''true'' s \<Longrightarrow> starts_with ''true'' (s @ t) \<and> drop 4 (s @ t) = drop 4 s @ t"
  "starts_with ''false'' s \<Longrightarrow> starts_with ''false'' (s @ t) \<and> drop 5 (s @ t) = drop 5 s @ t"
  subgoal using starts_with_extend [of "''null''" s t] by (simp add: eval_nat_numeral)
  subgoal using starts_with_extend [of "''true''" s t] by (simp add: eval_nat_numeral)
  subgoal using starts_with_extend [of "''false''" s t] by (simp add: eval_nat_numeral)
  done

text \<open>A scalar that is not a string: the constants, or a number.\<close>

definition scan_scalar :: "string \<Rightarrow> (scan_error, json \<times> string) result" where
  "scan_scalar s =
     (if starts_with ''null'' s then Inr (JNull, drop 4 s)
      else if starts_with ''true'' s then Inr (JBool True, drop 4 s)
      else if starts_with ''false'' s then Inr (JBool False, drop 5 s)
      else scan_number s)"

lemma scan_scalar_extend:
  assumes ok: "scan_scalar s = Inr (j, r)" and "closed_off j r"
  shows "scan_scalar (s @ t) = Inr (j, r @ t)"
proof -
  obtain c cs where s: "s = c # cs"
    using ok by (cases s) (auto simp: scan_scalar_def scan_number_def scan_int_part_def starts_with_def)
  consider "c = CHR ''n''" | "c = CHR ''t''" | "c = CHR ''f''" | "c \<notin> {CHR ''n'', CHR ''t'', CHR ''f''}" by blast
  then show ?thesis
  proof cases
    case 1
    then have "starts_with ''null'' s" using ok scan_number_refuses [of c cs] constants_head [of c cs]
      by (auto simp: scan_scalar_def s split: if_splits)
    then show ?thesis using ok literals_extend [of s t] by (simp add: scan_scalar_def)
  next
    case 2
    then have "starts_with ''true'' s" "\<not> starts_with ''null'' s" "\<not> starts_with ''null'' (s @ t)"
      using ok scan_number_refuses [of c cs] constants_head [of c cs] constants_head [of c "cs @ t"]
      by (auto simp: scan_scalar_def s split: if_splits)
    then show ?thesis using ok literals_extend [of s t] by (simp add: scan_scalar_def)
  next
    case 3
    then have "starts_with ''false'' s" "\<not> starts_with ''null'' s" "\<not> starts_with ''true'' s"
        "\<not> starts_with ''null'' (s @ t)" "\<not> starts_with ''true'' (s @ t)"
      using ok scan_number_refuses [of c cs] constants_head [of c cs] constants_head [of c "cs @ t"]
      by (auto simp: scan_scalar_def s split: if_splits)
    then show ?thesis using ok literals_extend [of s t] by (simp add: scan_scalar_def)
  next
    case 4
    then have no: "\<not> starts_with ''null'' (c # u)" "\<not> starts_with ''true'' (c # u)" "\<not> starts_with ''false'' (c # u)" for u
      using constants_head [of c u] by auto
    then have num: "scan_number s = Inr (j, r)" using ok by (simp add: scan_scalar_def s)
    with assms(2) scan_number_number [OF num] have "r \<noteq> []" "delimited r" by (simp_all add: closed_off_def)
    from scan_number_extend [OF num this, of t] show ?thesis using no by (simp add: scan_scalar_def s)
  qed
qed

lemma scan_value_scalar:
  "c \<noteq> QUOTE \<Longrightarrow> c \<noteq> CHR ''{'' \<Longrightarrow> c \<noteq> CHR ''['' \<Longrightarrow> scan_value (Suc n) (c # cs) = scan_scalar (c # cs)"
  by (simp add: scan_scalar_def)

lemma delimited_head:
  "c \<in> {CHR '','', CHR '']'', CHR ''}'', CHR '' '', CHR 0x09, CHR 0x0A, CHR 0x0D} \<Longrightarrow> delimited (c # cs)"
  by (elim insertE emptyE) (simp_all add: delimited_def is_digit_def)

lemma closed_off_skip:
  assumes skip: "skip_ws r = d # ds" and d: "d \<in> {CHR '','', CHR '']'', CHR ''}''}"
  shows "closed_off j r"
proof -
  obtain c cs where r: "r = c # cs" using skip by (cases r) (auto simp: skip_ws_def)
  have "json_space c \<or> c = d" using skip by (auto simp: r skip_ws_def split: if_splits)
  then have "delimited r" unfolding r using d by (intro delimited_head) (auto simp: json_space_def)
  then show ?thesis by (simp add: closed_off_def r)
qed

text \<open>More fuel and more text leave what was read as it was.\<close>

definition reads_on :: "nat \<Rightarrow> bool" where
  "reads_on n \<longleftrightarrow>
     (\<forall>m s j r t. n \<le> m \<longrightarrow> scan_value n s = Inr (j, r) \<longrightarrow> closed_off j r \<longrightarrow> scan_value m (s @ t) = Inr (j, r @ t)) \<and>
     (\<forall>m s xs r t. n \<le> m \<longrightarrow> scan_items n s = Inr (xs, r) \<longrightarrow> scan_items m (s @ t) = Inr (xs, r @ t)) \<and>
     (\<forall>m s ms r t. n \<le> m \<longrightarrow> scan_members n s = Inr (ms, r) \<longrightarrow> scan_members m (s @ t) = Inr (ms, r @ t))"

lemma scan_Nil: "scan_value n [] \<noteq> Inr p" "scan_items n [] \<noteq> Inr q"
proof -
  show v: "scan_value n [] \<noteq> Inr p" for n p by (cases n) simp_all
  show "scan_items n [] \<noteq> Inr q" using v by (cases n) (simp_all split: sum.splits)
qed

lemma value_reads_on:
  assumes IH: "reads_on n" and m: "Suc n \<le> m" and ok: "scan_value (Suc n) s = Inr (j, r)" and off: "closed_off j r"
  shows "scan_value m (s @ t) = Inr (j, r @ t)"
proof -
  obtain k where k: "m = Suc k" "n \<le> k" using m by (cases m) auto
  obtain c cs where s: "s = c # cs" using ok by (cases s) auto
  consider "c = QUOTE" | "c = CHR ''{''" | "c = CHR ''[''" | "c \<noteq> QUOTE" "c \<noteq> CHR ''{''" "c \<noteq> CHR ''[''" by blast
  then show ?thesis
  proof cases
    case 1
    then show ?thesis using ok scan_chars_extend [of cs _ r t] by (auto simp: s k)
  next
    case 2
    then obtain d ds where d: "skip_ws cs = d # ds" using ok by (cases "skip_ws cs") (auto simp: s)
    from ok 2 d consider "d = CHR ''}''" "j = JObj []" "r = ds"
      | ms where "d = QUOTE" "j = JObj ms" "scan_members n ds = Inr (ms, r)"
      by (auto simp: s split: if_splits)
    then show ?thesis
    proof cases
      case (2 ms)
      then have "scan_members k (ds @ t) = Inr (ms, r @ t)" using IH k(2) by (auto simp: reads_on_def)
      then show ?thesis using 2 \<open>c = CHR ''{''\<close> skip_ws_extend [OF d, of t] by (simp add: s k)
    qed (use 2 skip_ws_extend [OF d, of t] in \<open>simp add: s k\<close>)
  next
    case 3
    then obtain d ds where d: "skip_ws cs = d # ds" using ok by (cases "skip_ws cs") (auto simp: s)
    from ok 3 d consider "d = CHR '']''" "j = JList []" "r = ds"
      | xs where "d \<noteq> CHR '']''" "j = JList xs" "scan_items n (d # ds) = Inr (xs, r)"
      by (auto simp: s split: if_splits)
    then show ?thesis
    proof cases
      case (2 xs)
      then have "scan_items k ((d # ds) @ t) = Inr (xs, r @ t)" using IH k(2) unfolding reads_on_def by blast
      then show ?thesis using 2 \<open>c = CHR ''[''\<close> skip_ws_extend [OF d, of t] by (simp add: s k)
    qed (use 3 skip_ws_extend [OF d, of t] in \<open>simp add: s k\<close>)
  next
    case 4
    note scalar = scan_value_scalar [OF this]
    have "scan_scalar s = Inr (j, r)" using ok unfolding s scalar .
    from scan_scalar_extend [OF this off, of t] show ?thesis unfolding s k append_Cons scalar .
  qed
qed

lemma items_reads_on:
  assumes IH: "reads_on n" and m: "Suc n \<le> m" and ok: "scan_items (Suc n) s = Inr (xs, r)"
  shows "scan_items m (s @ t) = Inr (xs, r @ t)"
proof -
  obtain k where k: "m = Suc k" "n \<le> k" using m by (cases m) auto
  obtain x q where x: "scan_value n s = Inr (x, q)" using ok by (cases "scan_value n s") auto
  then obtain d ds where d: "skip_ws q = d # ds" using ok by (cases "skip_ws q") auto
  have cases: "d = CHR '']'' \<and> xs = [x] \<and> r = ds \<or>
      d \<noteq> CHR '']'' \<and> d = CHR '','' \<and> (\<exists>ys. xs = x # ys \<and> scan_items n (skip_ws ds) = Inr (ys, r))"
    using ok x d by (auto split: if_splits)
  then have "closed_off x q" by (intro closed_off_skip [OF d]) auto
  then have x': "scan_value k (s @ t) = Inr (x, q @ t)" using IH k(2) x unfolding reads_on_def by blast
  have d': "skip_ws (q @ t) = d # ds @ t" by (rule skip_ws_extend [OF d])
  from cases show ?thesis
  proof (elim disjE conjE exE)
    fix ys
    assume more: "d \<noteq> CHR '']''" "d = CHR '',''" "xs = x # ys" "scan_items n (skip_ws ds) = Inr (ys, r)"
    then have "scan_items k (skip_ws ds @ t) = Inr (ys, r @ t)" using IH k(2) unfolding reads_on_def by blast
    moreover obtain e es where "skip_ws ds = e # es"
      using more(4) by (cases "skip_ws ds") (auto simp: scan_Nil)
    ultimately have "scan_items k (skip_ws (ds @ t)) = Inr (ys, r @ t)" using skip_ws_extend [of ds e es t] by simp
    then show ?thesis using more x' d' by (simp add: k)
  qed (use x' d' in \<open>simp add: k\<close>)
qed

lemma members_reads_on:
  assumes IH: "reads_on n" and m: "Suc n \<le> m" and ok: "scan_members (Suc n) s = Inr (ms, r)"
  shows "scan_members m (s @ t) = Inr (ms, r @ t)"
proof -
  obtain k where k: "m = Suc k" "n \<le> k" using m by (cases m) auto
  obtain key p where key: "scan_chars s = Inr (key, p)" using ok by (cases "scan_chars s") auto
  then obtain ds where ds: "skip_ws p = CHR '':'' # ds" using ok by (cases "skip_ws p") (auto split: if_splits)
  then obtain v q where v: "scan_value n (skip_ws ds) = Inr (v, q)"
    using ok key by (cases "scan_value n (skip_ws ds)") auto
  then obtain e es where e: "skip_ws q = e # es" using ok key ds by (cases "skip_ws q") auto
  have cases: "e = CHR ''}'' \<and> ms = [(key, v)] \<and> r = es \<or>
      e \<noteq> CHR ''}'' \<and> e = CHR '','' \<and>
        (\<exists>qs ns. skip_ws es = QUOTE # qs \<and> ms = (key, v) # ns \<and> scan_members n qs = Inr (ns, r))"
    using ok key ds v e by (auto split: if_splits list.splits)
  then have "closed_off v q" by (intro closed_off_skip [OF e]) auto
  then have v': "scan_value k (skip_ws ds @ t) = Inr (v, q @ t)" using IH k(2) v unfolding reads_on_def by blast
  obtain f fs where "skip_ws ds = f # fs" using v by (cases "skip_ws ds") (auto simp: scan_Nil)
  then have ds': "skip_ws (ds @ t) = skip_ws ds @ t" using skip_ws_extend [of ds f fs t] by simp
  note key' = scan_chars_extend [OF key, of t] and p' = skip_ws_extend [OF ds, of t] and e' = skip_ws_extend [OF e, of t]
  from cases show ?thesis
  proof (elim disjE conjE exE)
    fix qs ns
    assume more: "e \<noteq> CHR ''}''" "e = CHR '',''" "skip_ws es = QUOTE # qs" "ms = (key, v) # ns"
      "scan_members n qs = Inr (ns, r)"
    then have "scan_members k (qs @ t) = Inr (ns, r @ t)" using IH k(2) unfolding reads_on_def by blast
    then show ?thesis using more skip_ws_extend [OF more(3), of t] key' p' e' v' ds' by (simp add: k)
  qed (use key' p' e' v' ds' in \<open>simp add: k\<close>)
qed

lemma reads_on_all: "reads_on n"
proof (induction n)
  case 0
  show ?case by (simp add: reads_on_def)
next
  case (Suc n)
  show ?case unfolding reads_on_def
    using value_reads_on [OF Suc] items_reads_on [OF Suc] members_reads_on [OF Suc] by blast
qed

subsection \<open>A document that was cut short\<close>

lemma cut_object_unreadable:
  assumes j: "loads (p @ q) = Inr j" and obj: "hd (p @ q) = CHR ''{''" and q: "q \<noteq> []" "last q = CHR ''}''"
  shows "loads p = Inl JSONDecodeError \<or> loads p = Inl CharacterOutOfRange"
proof (rule ccontr)
  assume "\<not> ?thesis"
  then obtain i where "loads p = Inr i"
    using loads_returns [of p] by (cases "loads p") (metis scan_error.exhaust)+
  then obtain r where i: "scan_value (2 * length p + 1) (skip_ws p) = Inr (i, r)"
    by (auto simp: loads_def simp del: scan_value.simps split: sum.splits if_splits)
  then obtain ps where p: "p = CHR ''{'' # ps" using obj by (cases p) (auto simp: skip_ws_def)
  have here: "skip_ws (p @ u) = p @ u" for u by (simp add: p skip_ws_def json_space_def)
  have scanned: "scan_value (2 * length p + 1) p = Inr (i, r)" using i here [of "[]"] by (simp only: append_Nil2)
  then have off: "closed_off i r"
    unfolding p by (auto simp: closed_off_def json_number_def split: list.splits if_splits)
  have more: "2 * length p + 1 \<le> 2 * length (p @ q) + 1" by simp
  have "scan_value (2 * length (p @ q) + 1) (p @ q) = Inr (i, r @ q)"
    by (rule conjunct1 [OF reads_on_all [unfolded reads_on_def], rule_format, OF more scanned off])
  then have "skip_ws (r @ q) = []"
    using j here [of q] by (simp add: loads_def del: scan_value.simps split: if_splits)
  then have "\<forall>c\<in>set (r @ q). json_space c" by (simp add: skip_ws_def)
  then have "json_space (last q)" using q(1) by simp
  then show False using q(2) by (simp add: json_space_def)
qed

end
