(* ===== verification/Agent_Ledger.thy ===== *)
theory Agent_Ledger
  imports Json_Prefix
begin

text \<open>
  The agent's operation ledger (\<open>ledger.py\<close>): a JSON-Lines file of the operations the agent has
  applied, replayed into memory at startup and compacted when it grows past its bound. The file is
  its text; the ledger in memory is the dictionary, the order its keys came in, and the bound. A
  line is read as Python reads it, so an entry's fields hold whatever JSON the line had: a key that
  cannot be hashed raises. Two keys are the same when they are the same JSON value.

  The lemmas show that the file and the memory agree: whatever was recorded, a restart reads back
  exactly the ledger that was in memory (\<open>load_records\<close>), an entry outlives fewer than the bound of
  later ones (\<open>entry_survives\<close>), and a writer killed in the middle of a line costs at most the
  entry it was writing (\<open>load_killed\<close>).
\<close>

subsection \<open>Entries\<close>

record ledger_entry =
  le_idempotency_key :: json
  le_operation_kind :: json
  le_target_id :: json
  le_applied_generation :: json
  le_response_json :: json

definition LEDGER_FIELDS :: "string list" where
  "LEDGER_FIELDS = [''idempotency_key'', ''operation_kind'', ''target_id'', ''applied_generation'', ''response_json'']"

text \<open>\<open>asdict(entry)\<close>\<close>

definition entry_json :: "ledger_entry \<Rightarrow> json" where
  "entry_json e = JObj
     [(''idempotency_key'', le_idempotency_key e), (''operation_kind'', le_operation_kind e),
      (''target_id'', le_target_id e), (''applied_generation'', le_applied_generation e),
      (''response_json'', le_response_json e)]"

definition parse_entry :: "string \<Rightarrow> ledger_entry option" where
  "parse_entry line =
     (case loads line of
        Inr (JObj ms) \<Rightarrow>
          if set (map fst ms) \<noteq> set LEDGER_FIELDS then None
          else Some \<lparr>le_idempotency_key = the (member ''idempotency_key'' ms),
                     le_operation_kind = the (member ''operation_kind'' ms),
                     le_target_id = the (member ''target_id'' ms),
                     le_applied_generation = the (member ''applied_generation'' ms),
                     le_response_json = the (member ''response_json'' ms)\<rparr>
      | _ \<Rightarrow> None)"

definition entry_line :: "ledger_entry \<Rightarrow> string" where
  "entry_line e = dumps (entry_json e) @ [NL]"

subsection \<open>The ledger\<close>

record operation_ledger =
  ol_entries :: "json \<Rightarrow> ledger_entry option"
  ol_order :: "json list"
  ol_max_entries :: nat

definition empty_ledger :: "nat \<Rightarrow> operation_ledger" where
  "empty_ledger mx = \<lparr>ol_entries = \<lambda>_. None, ol_order = [], ol_max_entries = mx\<rparr>"

fun hashable :: "json \<Rightarrow> bool" where
  "hashable (JList _) = False"
| "hashable (JObj _) = False"
| "hashable _ = True"

definition put_entry :: "ledger_entry \<Rightarrow> operation_ledger \<Rightarrow> operation_ledger" where
  "put_entry e l =
     (let key = le_idempotency_key e;
          l1 = (if ol_entries l key = None then l\<lparr>ol_order := ol_order l @ [key]\<rparr> else l)
      in l1\<lparr>ol_entries := (ol_entries l1)(key \<mapsto> e)\<rparr>)"

text \<open>The lines in order; \<open>None\<close> is the \<open>TypeError\<close> of a key that cannot be hashed.\<close>

primrec load_lines :: "string list \<Rightarrow> operation_ledger \<Rightarrow> operation_ledger option" where
  "load_lines [] l = Some l"
| "load_lines (line # lines) l =
     (if strip line = [] then load_lines lines l
      else (case parse_entry line of
              None \<Rightarrow> load_lines lines l
            | Some e \<Rightarrow> if hashable (le_idempotency_key e) then load_lines lines (put_entry e l) else None))"

definition load_ledger :: "nat \<Rightarrow> string option \<Rightarrow> operation_ledger option" where
  "load_ledger mx file =
     (case file of
        None \<Rightarrow> Some (empty_ledger mx)
      | Some t \<Rightarrow> load_lines (splitlines (universal_newlines t)) (empty_ledger mx))"

definition lookup_entry :: "uuid \<Rightarrow> operation_ledger \<Rightarrow> ledger_entry option" where
  "lookup_entry key l = ol_entries l (JStr (uuid_text key))"

text \<open>The ledger's file and the file compaction writes before it takes the ledger's name.\<close>

record ledger_disk =
  ld_file :: "string option"
  ld_compact :: "string option"

definition append_to_disk :: "ledger_entry \<Rightarrow> ledger_disk \<Rightarrow> ledger_disk" where
  "append_to_disk e d = d\<lparr>ld_file := Some (case_option [] id (ld_file d) @ entry_line e)\<rparr>"

text \<open>\<open>None\<close> is the \<open>KeyError\<close> of an ordered key with no entry.\<close>

definition rewrite_ledger :: "operation_ledger \<Rightarrow> ledger_disk \<Rightarrow> ledger_disk option" where
  "rewrite_ledger l d =
     (case all_some (map (ol_entries l) (ol_order l)) of
        None \<Rightarrow> None
      | Some es \<Rightarrow> Some (d\<lparr>ld_file := Some (concat (map entry_line es)), ld_compact := None\<rparr>))"

definition compact_if_needed :: "operation_ledger \<Rightarrow> ledger_disk \<Rightarrow> (operation_ledger \<times> ledger_disk) option" where
  "compact_if_needed l d =
     (if length (ol_order l) \<le> ol_max_entries l then Some (l, d)
      else
        (let overflow = length (ol_order l) - ol_max_entries l;
             l1 = l\<lparr>ol_entries := (ol_entries l) |` (- set (take overflow (ol_order l))),
                    ol_order := drop overflow (ol_order l)\<rparr>
         in map_option (\<lambda>d1. (l1, d1)) (rewrite_ledger l1 d)))"

definition operation_entry :: "uuid \<Rightarrow> string \<Rightarrow> uuid \<Rightarrow> int \<Rightarrow> string \<Rightarrow> ledger_entry" where
  "operation_entry key kind target generation response =
     \<lparr>le_idempotency_key = JStr (uuid_text key), le_operation_kind = JStr kind, le_target_id = JStr (uuid_text target),
      le_applied_generation = JInt generation, le_response_json = JStr response\<rparr>"

definition record_entry :: "ledger_entry \<Rightarrow> operation_ledger \<times> ledger_disk \<Rightarrow> (operation_ledger \<times> ledger_disk) option" where
  "record_entry e = (\<lambda>(l, d). compact_if_needed (put_entry e l) (append_to_disk e d))"

text \<open>A writer killed while it appends leaves any part of the line behind.\<close>

definition killed_append :: "nat \<Rightarrow> ledger_entry \<Rightarrow> ledger_disk \<Rightarrow> ledger_disk" where
  "killed_append k e d = d\<lparr>ld_file := Some (case_option [] id (ld_file d) @ take k (entry_line e))\<rparr>"

subsection \<open>Lines of the file\<close>

definition plain_entry :: "ledger_entry \<Rightarrow> bool" where
  "plain_entry e \<longleftrightarrow> plain_json (entry_json e) \<and> hashable (le_idempotency_key e)"

lemma plain_operation_entry [simp]: "plain_entry (operation_entry key kind target g r)"
  by (simp add: plain_entry_def operation_entry_def entry_json_def)

lemma entry_json_shape: "\<exists>body. dumps (entry_json e) = CHR ''{'' # body @ ''}''"
  by (simp add: dumps_def entry_json_def line_gap_def)

lemma entry_json_plain: "plain_entry e \<Longrightarrow> c \<in> set (dumps (entry_json e)) \<Longrightarrow> \<not> line_break c \<and> c \<noteq> CHR 0x0D"
  unfolding dumps_def by (rule printable_plain, rule dumps_printable(1)) (simp_all add: plain_entry_def)

lemma loads_entry_json: "plain_entry e \<Longrightarrow> loads (dumps (entry_json e)) = Inr (entry_json e)"
  unfolding dumps_def by (rule loads_dumps_at) (simp add: plain_entry_def)

lemma parse_entry_json: "plain_entry e \<Longrightarrow> parse_entry (dumps (entry_json e)) = Some e"
  unfolding parse_entry_def by (drule loads_entry_json) (auto simp: entry_json_def LEDGER_FIELDS_def member_def)

lemma load_entry_line:
  "plain_entry e \<Longrightarrow> load_lines [dumps (entry_json e)] l = Some (put_entry e l)"
  using strip_keeps [of "CHR ''{''" "dumps (entry_json e)"] entry_json_shape [of e]
  by (auto simp: parse_entry_json plain_entry_def is_space_def)

lemma load_lines_append: "load_lines (xs @ ys) l = Option.bind (load_lines xs l) (load_lines ys)"
  by (induction xs arbitrary: l) (auto split: option.splits)

text \<open>A file that is empty or ends its last line.\<close>

definition ends_line :: "string \<Rightarrow> bool" where
  "ends_line s \<longleftrightarrow> s = [] \<or> last s = NL"

lemma drop_newline_append: "s \<noteq> [] \<Longrightarrow> drop_newline (s @ t) = drop_newline s @ t"
  by (cases s) auto

lemma ends_line_drop: "ends_line s \<Longrightarrow> ends_line (drop_newline s)"
  by (cases s) (auto simp: ends_line_def split: if_splits)

lemma ends_line_Cons: "ends_line (c # s) \<Longrightarrow> ends_line s"
  by (simp add: ends_line_def split: if_splits)

lemma universal_newlines_append:
  "ends_line s \<Longrightarrow> universal_newlines (s @ t) = universal_newlines s @ universal_newlines t"
proof (induction s rule: universal_newlines.induct)
  case (2 c cs)
  note rest = ends_line_Cons [OF "2.prems"]
  show ?case
  proof (cases "c = CHR 0x0D")
    case True
    then have "cs \<noteq> []" using "2.prems" by (auto simp: ends_line_def)
    then show ?thesis using "2.IH"(1) [OF True ends_line_drop [OF rest]] True by (simp add: drop_newline_append)
  next
    case False
    then show ?thesis using "2.IH"(2) [OF False rest] by simp
  qed
qed simp

lemma universal_newlines_Nil: "universal_newlines s = [] \<longleftrightarrow> s = []"
  by (cases s) simp_all

lemma universal_newlines_ends: "ends_line s \<Longrightarrow> ends_line (universal_newlines s)"
proof (induction s rule: universal_newlines.induct)
  case (2 c cs)
  note rest = ends_line_Cons [OF "2.prems"]
  show ?case
  proof (cases "c = CHR 0x0D")
    case True
    then show ?thesis using "2.IH"(1) [OF True ends_line_drop [OF rest]] by (auto simp: ends_line_def)
  next
    case False
    then show ?thesis
      using "2.IH"(2) [OF False rest] "2.prems" by (cases "cs = []") (auto simp: ends_line_def universal_newlines_Nil)
  qed
qed simp

lemma splitlines_from_append:
  "ends_line s \<Longrightarrow> s \<noteq> [] \<Longrightarrow> splitlines_from cur (s @ t) = splitlines_from cur s @ splitlines_from [] t"
proof (induction cur s rule: splitlines_from.induct)
  case (2 cur c cs)
  note rest = ends_line_Cons [OF "2.prems"(1)]
  show ?case
  proof (cases "cs = []")
    case True
    then have "c = NL" using "2.prems"(1) by (simp add: ends_line_def)
    then show ?thesis using True by (simp add: line_break_def)
  next
    case False
    show ?thesis
    proof (cases "line_break c")
      case True
      then show ?thesis
        using "2.IH"(1) [OF True] False ends_line_drop [OF rest] rest
        by (cases "c = CHR 0x0D"; cases "drop_newline cs = []") (simp_all add: drop_newline_append)
    next
      case no: False
      then show ?thesis using "2.IH"(2) [OF no rest False] by simp
    qed
  qed
qed simp

lemma file_lines_append:
  assumes "ends_line s"
  shows "splitlines (universal_newlines (s @ t)) = splitlines (universal_newlines s) @ splitlines (universal_newlines t)"
  using splitlines_from_append [OF universal_newlines_ends [OF assms], of "[]" "universal_newlines t"]
  by (cases "universal_newlines s = []") (simp_all add: universal_newlines_append [OF assms] splitlines_def)

lemma entry_line_lines:
  assumes "plain_entry e"
  shows "splitlines (universal_newlines (entry_line e)) = [dumps (entry_json e)]"
proof -
  have plain: "\<forall>c\<in>set (dumps (entry_json e)). \<not> line_break c" "CHR 0x0D \<notin> set (entry_line e)"
    using entry_json_plain [OF assms] by (auto simp: entry_line_def)
  show ?thesis
    unfolding universal_newlines_id [OF plain(2)] splitlines_def
    using splitlines_from_line [OF plain(1), of "[]" "[]"] by (simp add: entry_line_def)
qed

lemma load_append:
  assumes "plain_entry e" and "ends_line (case_option [] id f)" and "load_ledger mx f = Some l"
  shows "load_ledger mx (Some (case_option [] id f @ entry_line e)) = Some (put_entry e l)"
proof -
  have "load_lines (splitlines (universal_newlines (case_option [] id f))) (empty_ledger mx) = Some l"
    using assms(3) by (cases f) (simp_all add: load_ledger_def splitlines_def)
  then show ?thesis
    using load_entry_line [OF assms(1), of l]
    by (simp add: load_ledger_def file_lines_append [OF assms(2)] load_lines_append entry_line_lines [OF assms(1)]
        del: load_lines.simps)
qed

subsection \<open>The file and the memory agree\<close>

definition ledger_ok :: "nat \<Rightarrow> operation_ledger \<times> ledger_disk \<Rightarrow> bool" where
  "ledger_ok mx = (\<lambda>(l, d).
     load_ledger mx (ld_file d) = Some l \<and> ends_line (case_option [] id (ld_file d)) \<and> ol_max_entries l = mx \<and>
     distinct (ol_order l) \<and> dom (ol_entries l) = set (ol_order l) \<and>
     (\<forall>k e. ol_entries l k = Some e \<longrightarrow> le_idempotency_key e = k \<and> plain_entry e))"

lemma put_entry_fresh:
  "ol_entries l (le_idempotency_key e) = None \<Longrightarrow>
     put_entry e l = l\<lparr>ol_entries := (ol_entries l)(le_idempotency_key e \<mapsto> e), ol_order := ol_order l @ [le_idempotency_key e]\<rparr>"
  by (simp add: put_entry_def Let_def)

lemma put_entries:
  "distinct (map le_idempotency_key es) \<Longrightarrow>
     fold put_entry es (empty_ledger mx) =
       \<lparr>ol_entries = (\<lambda>k. find (\<lambda>e. le_idempotency_key e = k) es), ol_order = map le_idempotency_key es, ol_max_entries = mx\<rparr>"
proof (induction es rule: rev_induct)
  case (snoc e es)
  have "find (\<lambda>x. le_idempotency_key x = k) (es @ [e]) =
      (if le_idempotency_key e = k then (case find (\<lambda>x. le_idempotency_key x = k) es of None \<Rightarrow> Some e | y \<Rightarrow> y)
       else find (\<lambda>x. le_idempotency_key x = k) es)" for k
    by (induction es) auto
  moreover have "\<forall>x\<in>set es. le_idempotency_key x \<noteq> le_idempotency_key e" using snoc.prems by (auto simp: image_iff)
  then have "find (\<lambda>x. le_idempotency_key x = le_idempotency_key e) es = None" by (simp add: find_None_iff)
  ultimately show ?case using snoc by (auto simp: put_entry_def Let_def fun_eq_iff)
qed (simp add: empty_ledger_def)

lemma load_entry_lines:
  "\<forall>e\<in>set es. plain_entry e \<Longrightarrow>
     load_ledger mx (Some (concat (map entry_line es))) = Some (fold put_entry es (empty_ledger mx)) \<and>
     ends_line (concat (map entry_line es))"
proof (induction es rule: rev_induct)
  case (snoc e es)
  then have "load_ledger mx (Some (concat (map entry_line es) @ entry_line e)) = Some (put_entry e (fold put_entry es (empty_ledger mx)))"
    using load_append [of e "Some (concat (map entry_line es))" mx "fold put_entry es (empty_ledger mx)"] by simp
  moreover have "last (entry_line e) = NL" "entry_line e \<noteq> []" by (simp_all add: entry_line_def)
  ultimately show ?case by (simp add: ends_line_def)
qed (simp add: load_ledger_def splitlines_def ends_line_def)

lemma put_entry_simps [simp]:
  "ol_entries (put_entry e l) = (ol_entries l)(le_idempotency_key e \<mapsto> e)"
  "ol_order (put_entry e l) =
     (if ol_entries l (le_idempotency_key e) = None then ol_order l @ [le_idempotency_key e] else ol_order l)"
  "ol_max_entries (put_entry e l) = ol_max_entries l"
  by (simp_all add: put_entry_def Let_def)

definition keyed :: "operation_ledger \<Rightarrow> bool" where
  "keyed l \<longleftrightarrow> distinct (ol_order l) \<and> dom (ol_entries l) = set (ol_order l) \<and>
     (\<forall>k e. ol_entries l k = Some e \<longrightarrow> le_idempotency_key e = k \<and> plain_entry e)"

lemma ledger_ok_iff:
  "ledger_ok mx (l, d) \<longleftrightarrow> load_ledger mx (ld_file d) = Some l \<and> ends_line (case_option [] id (ld_file d)) \<and>
     ol_max_entries l = mx \<and> keyed l"
  by (auto simp: ledger_ok_def keyed_def)

lemma keyed_put: "keyed l \<Longrightarrow> plain_entry e \<Longrightarrow> keyed (put_entry e l)"
  by (auto simp: keyed_def)

lemma keyed_drop:
  assumes "keyed l"
  shows "keyed (l\<lparr>ol_entries := (ol_entries l) |` (- set (take n (ol_order l))), ol_order := drop n (ol_order l)\<rparr>)"
proof -
  have l: "distinct (ol_order l)" "dom (ol_entries l) = set (ol_order l)"
      "\<And>k e. ol_entries l k = Some e \<Longrightarrow> le_idempotency_key e = k \<and> plain_entry e"
    using assms by (auto simp: keyed_def)
  have "set (take n (ol_order l)) \<inter> set (drop n (ol_order l)) = {}"
    using l(1) by (simp add: set_take_disj_set_drop_if_distinct)
  moreover have "set (ol_order l) = set (take n (ol_order l)) \<union> set (drop n (ol_order l))"
    by (simp only: set_append [symmetric] append_take_drop_id)
  ultimately have "set (ol_order l) \<inter> - set (take n (ol_order l)) = set (drop n (ol_order l))" by blast
  then have "dom ((ol_entries l) |` (- set (take n (ol_order l)))) = set (drop n (ol_order l))"
    using l(2) by (simp add: dom_restrict)
  then show ?thesis using l(1,3) by (simp add: keyed_def restrict_map_def)
qed

lemma find_keyed:
  "\<forall>k\<in>set ks. \<exists>e. f k = Some e \<and> le_idempotency_key e = k \<Longrightarrow>
     find (\<lambda>e. le_idempotency_key e = k) (map (\<lambda>k. the (f k)) ks) = (if k \<in> set ks then f k else None)"
  by (induction ks) auto

lemma rewrite_ok:
  assumes l: "keyed l" "ol_max_entries l = mx"
  shows "\<exists>d'. rewrite_ledger l d = Some d' \<and> ledger_ok mx (l, d')"
proof -
  let ?es = "map (\<lambda>k. the (ol_entries l k)) (ol_order l)"
  have known: "\<forall>k\<in>set (ol_order l). \<exists>e. ol_entries l k = Some e \<and> le_idempotency_key e = k \<and> plain_entry e"
    using l(1) by (fastforce simp: keyed_def)
  then have es: "all_some (map (ol_entries l) (ol_order l)) = Some ?es" by (intro all_some_map) force
  have keys: "map le_idempotency_key ?es = ol_order l" unfolding map_map using known by (intro map_idI) auto
  have "fold put_entry ?es (empty_ledger mx) = l"
  proof -
    have "find (\<lambda>e. le_idempotency_key e = k) ?es = ol_entries l k" for k
    proof -
      have "find (\<lambda>e. le_idempotency_key e = k) ?es = (if k \<in> set (ol_order l) then ol_entries l k else None)"
        using known by (intro find_keyed) blast
      moreover have "k \<notin> set (ol_order l) \<Longrightarrow> ol_entries l k = None" using l(1) by (auto simp: keyed_def)
      ultimately show ?thesis by simp
    qed
    then show ?thesis using put_entries [of ?es mx] keys l by (simp add: keyed_def)
  qed
  moreover have "\<forall>e\<in>set ?es. plain_entry e" using known by auto
  ultimately show ?thesis using load_entry_lines [of ?es mx] es l by (simp add: rewrite_ledger_def ledger_ok_iff)
qed

lemma record_ok:
  assumes ok: "ledger_ok mx (l, d)" and e: "plain_entry e"
  shows "\<exists>l' d'. record_entry e (l, d) = Some (l', d') \<and> ledger_ok mx (l', d') \<and> length (ol_order l') \<le> mx"
proof -
  let ?l = "put_entry e l"
  have l: "keyed ?l" "ol_max_entries ?l = mx" using ok keyed_put [OF _ e] by (simp_all add: ledger_ok_iff)
  show ?thesis
  proof (cases "length (ol_order ?l) \<le> mx")
    case True
    have "load_ledger mx (ld_file (append_to_disk e d)) = Some ?l"
      using ok load_append [OF e, of "ld_file d" mx l] by (simp add: ledger_ok_iff append_to_disk_def)
    moreover have "ends_line (case_option [] id (ld_file (append_to_disk e d)))"
      by (simp add: append_to_disk_def ends_line_def entry_line_def)
    ultimately have "ledger_ok mx (?l, append_to_disk e d)" using l by (simp add: ledger_ok_iff)
    then show ?thesis using True l(2) by (simp add: record_entry_def compact_if_needed_def)
  next
    case False
    let ?n = "length (ol_order ?l) - mx"
    let ?m = "?l\<lparr>ol_entries := (ol_entries ?l) |` (- set (take ?n (ol_order ?l))), ol_order := drop ?n (ol_order ?l)\<rparr>"
    have "keyed ?m" by (rule keyed_drop [OF l(1)])
    moreover have "ol_max_entries ?m = mx" using l(2) by simp
    ultimately obtain d' where "rewrite_ledger ?m (append_to_disk e d) = Some d'" "ledger_ok mx (?m, d')"
      using rewrite_ok by blast
    moreover have "length (ol_order ?m) \<le> mx" using False by (simp del: put_entry_simps)
    ultimately show ?thesis
      using False l(2) unfolding record_entry_def compact_if_needed_def by (simp add: Let_def del: put_entry_simps)
  qed
qed

lemma restart_ok: "ledger_ok mx (l, d) \<Longrightarrow> load_ledger mx (ld_file d) = Some l"
  by (simp add: ledger_ok_iff)

lemma ledger_ok_fresh: "ledger_ok mx (empty_ledger mx, \<lparr>ld_file = None, ld_compact = c\<rparr>)"
  by (simp add: ledger_ok_iff load_ledger_def ends_line_def keyed_def empty_ledger_def)

subsection \<open>How long an entry is kept\<close>

text \<open>The keys that came after a key, and how many more may come before compaction drops it.\<close>

definition later_keys :: "json \<Rightarrow> json list \<Rightarrow> nat" where
  "later_keys k xs = length (takeWhile (\<lambda>x. x \<noteq> k) (rev xs))"

definition room :: "nat \<Rightarrow> uuid \<Rightarrow> operation_ledger \<times> ledger_disk \<Rightarrow> nat" where
  "room mx k s = mx - Suc (later_keys (JStr (uuid_text k)) (ol_order (fst s)))"

lemma later_keys_split: "k \<notin> set post \<Longrightarrow> later_keys k (pre @ k # post) = length post"
proof -
  assume "k \<notin> set post"
  then have "takeWhile (\<lambda>x. x \<noteq> k) (rev post @ k # rev pre) = rev post" by (subst takeWhile_append2) auto
  then show ?thesis by (simp add: later_keys_def)
qed

lemma later_keys_drop:
  assumes "k \<in> set xs" and "n + Suc (later_keys k xs) \<le> length xs"
  shows "k \<in> set (drop n xs)" "later_keys k (drop n xs) = later_keys k xs"
proof -
  obtain pre post where xs: "xs = pre @ k # post" "k \<notin> set post" using split_list_last [OF assms(1)] by blast
  then have "n \<le> length pre" using assms(2) by (simp add: later_keys_split)
  then have "drop n xs = drop n pre @ k # post" using xs(1) by simp
  then show "k \<in> set (drop n xs)" "later_keys k (drop n xs) = later_keys k xs"
    using xs by (simp_all add: later_keys_split)
qed

lemma later_keys_snoc: "x \<noteq> k \<Longrightarrow> later_keys k (xs @ [x]) = Suc (later_keys k xs)" "later_keys k (xs @ [k]) = 0"
  by (simp_all add: later_keys_def)

lemma record_keeps:
  assumes ok: "ledger_ok mx (l, d)" and e: "plain_entry e" and rec: "record_entry e (l, d) = Some (l', d')"
    and k: "ol_entries (put_entry e l) k = Some x" and fits: "Suc (later_keys k (ol_order (put_entry e l))) \<le> mx"
  shows "ol_entries l' k = Some x \<and> later_keys k (ol_order l') = later_keys k (ol_order (put_entry e l))"
proof -
  let ?l = "put_entry e l"
  have l: "keyed ?l" "ol_max_entries ?l = mx" using ok keyed_put [OF _ e] by (simp_all add: ledger_ok_iff)
  show ?thesis
  proof (cases "length (ol_order ?l) \<le> mx")
    case True
    then have "l' = ?l" using rec l(2) by (simp add: record_entry_def compact_if_needed_def del: put_entry_simps)
    then show ?thesis using k by simp
  next
    case False
    define n where "n = length (ol_order ?l) - mx"
    have l': "l' = ?l\<lparr>ol_entries := (ol_entries ?l) |` (- set (take n (ol_order ?l))), ol_order := drop n (ol_order ?l)\<rparr>"
      using rec l(2) False by (auto simp: record_entry_def compact_if_needed_def Let_def n_def simp del: put_entry_simps)
    have "k \<in> set (ol_order ?l)" using k l(1) unfolding keyed_def by blast
    moreover have "n + Suc (later_keys k (ol_order ?l)) \<le> length (ol_order ?l)" using fits False unfolding n_def by linarith
    ultimately have kept: "k \<in> set (drop n (ol_order ?l))" "later_keys k (drop n (ol_order ?l)) = later_keys k (ol_order ?l)"
      by (rule later_keys_drop)+
    have "set (take n (ol_order ?l)) \<inter> set (drop n (ol_order ?l)) = {}"
      using l(1) by (simp add: keyed_def set_take_disj_set_drop_if_distinct del: put_entry_simps)
    then have "k \<notin> set (take n (ol_order ?l))" using kept(1) by blast
    then show ?thesis using k kept(2) unfolding l' by (simp add: restrict_map_def del: put_entry_simps)
  qed
qed

subsection \<open>A writer that was killed\<close>

lemma load_killed:
  assumes ok: "ledger_ok mx (l, d)" and e: "plain_entry e"
  shows "load_ledger mx (ld_file (killed_append k e d)) \<in> {Some l, Some (put_entry e l)}"
proof -
  let ?f = "case_option [] id (ld_file d)" and ?j = "dumps (entry_json e)"
  define cut where "cut = take k (entry_line e)"
  have f: "load_lines (splitlines (universal_newlines ?f)) (empty_ledger mx) = Some l" "ends_line ?f"
    using ok by (cases "ld_file d"; simp add: ledger_ok_iff load_ledger_def splitlines_def)+
  have split: "load_ledger mx (ld_file (killed_append k e d)) = load_lines (splitlines (universal_newlines cut)) l"
    unfolding killed_append_def cut_def [symmetric]
    by (simp add: load_ledger_def file_lines_append [OF f(2)] load_lines_append f(1))
  show ?thesis
  proof (cases "k \<le> length ?j")
    case True
    then have cut: "cut = take k ?j" by (simp add: cut_def entry_line_def)
    have "\<forall>c\<in>set cut. \<not> line_break c \<and> c \<noteq> CHR 0x0D"
      using entry_json_plain [OF e] set_take_subset [of k ?j] unfolding cut by blast
    then have "universal_newlines cut = cut" "splitlines_from [] cut = (if cut = [] then [] else [cut])"
      by (blast intro: universal_newlines_id, simp add: splitlines_from_last)
    then have lines: "splitlines (universal_newlines cut) = (if cut = [] then [] else [cut])"
      by (simp only: splitlines_def)
    show ?thesis
    proof (cases "k = length ?j")
      case True
      then have "cut = ?j" using cut by simp
      then show ?thesis
        using load_entry_line [OF e, of l] entry_json_shape [of e] unfolding split lines by (auto simp del: load_lines.simps)
    next
      case False
      obtain body where body: "?j = CHR ''{'' # body @ ''}''" using entry_json_shape by blast
      have rest: "drop k ?j \<noteq> []" "last (drop k ?j) = CHR ''}''"
        using True False body by (simp_all add: last_drop)
      have "loads cut = Inl JSONDecodeError \<or> loads cut = Inl CharacterOutOfRange"
        unfolding cut
        by (rule cut_object_unreadable [OF _ _ rest]; simp only: append_take_drop_id loads_entry_json [OF e])
          (simp only: body list.sel)
      then have "parse_entry cut = None" by (auto simp: parse_entry_def)
      then show ?thesis unfolding split lines by simp
    qed
  next
    case False
    then have "cut = entry_line e" by (simp add: cut_def entry_line_def)
    then show ?thesis using load_entry_line [OF e, of l] unfolding split by (simp add: entry_line_lines [OF e])
  qed
qed

end
