(* ===== verification/Agent_IO.thy ===== *)
theory Agent_IO
  imports Address_Text
begin

text \<open>
  Effects of the agent's code. An operation takes the world it runs in to its value or the
  exception it raises, and to the world it leaves: unlike a database transaction, what was
  done before an exception stays done. \<open>try_io\<close> is \<open>try ... except\<close>: the handler decides by
  the exception whether it takes over. The exceptions are those of \<open>drivers/errors.py\<close>, of
  \<open>drivers/_exec.py\<close>, and the ones of the file system and of Python's parsers; \<open>NotReturned\<close>
  stands for a loop that used up the rounds the model gives it.
\<close>

named_theorems io_simps

datatype driver_error =
    ValidationError string
  | ApplyError string
  | RollbackFailedError string
  | SubprocessTimeoutError
  | OSError
  | ValueError
  | TypeError
  | AttributeError
  | KeyError
  | NotReturned

text \<open>\<open>CompletedRun\<close>, or the timeout of \<open>run_fixed_argv\<close>.\<close>

datatype run_result = CompletedRun (returncode: int) (stdout: string) (stderr: string) | TimedOut

type_synonym ('w, 'a) io = "'w \<Rightarrow> (driver_error, 'a) result \<times> 'w"

definition return_io :: "'a \<Rightarrow> ('w, 'a) io" where
  "return_io a w = (Inr a, w)"

definition raise_io :: "driver_error \<Rightarrow> ('w, 'a) io" where
  "raise_io e w = (Inl e, w)"

definition bind_io :: "('w, 'a) io \<Rightarrow> ('a \<Rightarrow> ('w, 'b) io) \<Rightarrow> ('w, 'b) io" where
  "bind_io m k w = (case m w of (Inl e, w1) \<Rightarrow> (Inl e, w1) | (Inr a, w1) \<Rightarrow> k a w1)"

definition try_io :: "('w, 'a) io \<Rightarrow> (driver_error \<Rightarrow> ('w, 'a) io option) \<Rightarrow> ('w, 'a) io" where
  "try_io m handler w =
     (case m w of
        (Inr a, w1) \<Rightarrow> (Inr a, w1)
      | (Inl e, w1) \<Rightarrow> (case handler e of None \<Rightarrow> (Inl e, w1) | Some h \<Rightarrow> h w1))"

definition reads_io :: "('w \<Rightarrow> 'a) \<Rightarrow> ('w, 'a) io" where
  "reads_io f w = (Inr (f w), w)"

definition modify_io :: "('w \<Rightarrow> 'w) \<Rightarrow> ('w, unit) io" where
  "modify_io f w = (Inr (), f w)"

definition unless_io :: "bool \<Rightarrow> driver_error \<Rightarrow> ('w, unit) io" where
  "unless_io ok e = (if ok then return_io () else raise_io e)"

text \<open>A value that may be missing, as the exception its absence raises.\<close>

definition the_io :: "driver_error \<Rightarrow> 'a option \<Rightarrow> ('w, 'a) io" where
  "the_io e x = (case x of None \<Rightarrow> raise_io e | Some a \<Rightarrow> return_io a)"

text \<open>A subprocess that was waited for: a timeout raises.\<close>

definition completed_io :: "run_result \<Rightarrow> ('w, run_result) io" where
  "completed_io r = (case r of TimedOut \<Rightarrow> raise_io SubprocessTimeoutError | _ \<Rightarrow> return_io r)"

lemma return_io_simp [io_simps]: "return_io a w = (Inr a, w)"
  by (simp add: return_io_def)

lemma raise_io_simp [io_simps]: "raise_io e w = (Inl e, w)"
  by (simp add: raise_io_def)

lemma reads_io_simp [io_simps]: "reads_io f w = (Inr (f w), w)"
  by (simp add: reads_io_def)

lemma modify_io_simp [io_simps]: "modify_io f w = (Inr (), f w)"
  by (simp add: modify_io_def)

lemma unless_io_simp [io_simps]: "unless_io ok e w = ((if ok then Inr () else Inl e), w)"
  by (simp add: unless_io_def io_simps)

lemma the_io_simp [io_simps]: "the_io e x w = ((case x of None \<Rightarrow> Inl e | Some a \<Rightarrow> Inr a), w)"
  by (simp add: the_io_def io_simps split: option.splits)

lemma bind_io_Inr [io_simps]: "m w = (Inr a, w1) \<Longrightarrow> bind_io m k w = k a w1"
  by (simp add: bind_io_def)

lemma bind_io_Inl [io_simps]: "m w = (Inl e, w1) \<Longrightarrow> bind_io m k w = (Inl e, w1)"
  by (simp add: bind_io_def)

lemma try_io_Inr [io_simps]: "m w = (Inr a, w1) \<Longrightarrow> try_io m h w = (Inr a, w1)"
  by (simp add: try_io_def)

lemma try_io_Inl [io_simps]:
  "m w = (Inl e, w1) \<Longrightarrow> try_io m h w = (case h e of None \<Rightarrow> (Inl e, w1) | Some k \<Rightarrow> k w1)"
  by (simp add: try_io_def)

lemma bind_io_cases:
  assumes "bind_io m k w = (r, w')"
  obtains (raised) e where "m w = (Inl e, w')" "r = Inl e"
    | (went_on) a w1 where "m w = (Inr a, w1)" "k a w1 = (r, w')"
  using assms by (auto simp: bind_io_def split: prod.splits sum.splits)

end
