(* ===== verification/Wireguard_Config.thy ===== *)
theory Wireguard_Config
  imports Agent_IO
begin

text \<open>
  The WireGuard configuration of the agent (\<open>drivers/config_store.py\<close>): the peer set, the text
  \<open>wg syncconf\<close> is given, and the parser that reads the peers back from the last-known-good
  file after a restart. The file is the agent's only record of its peers and of the generation
  each is at, so the theorem is that parsing undoes rendering. What a request's public key
  must look like is \<open>_validate_public_key\<close> of \<open>drivers/base.py\<close>.
\<close>

subsection \<open>Peers\<close>

record rendered_peer =
  rp_public_key :: string
  rp_assigned_address :: ip_address
  rp_persistent_keepalive_seconds :: "int option"
  rp_generation :: int

record desired_interface_state =
  dis_peers :: "rendered_peer list"

definition no_peers :: desired_interface_state where
  "no_peers = \<lparr>dis_peers = []\<rparr>"

definition without_peer :: "desired_interface_state \<Rightarrow> string \<Rightarrow> desired_interface_state" where
  "without_peer d key = \<lparr>dis_peers = filter (\<lambda>p. rp_public_key p \<noteq> key) (dis_peers d)\<rparr>"

definition with_peer :: "desired_interface_state \<Rightarrow> rendered_peer \<Rightarrow> desired_interface_state" where
  "with_peer d peer =
     \<lparr>dis_peers = filter (\<lambda>p. rp_public_key p \<noteq> rp_public_key peer) (dis_peers d) @ [peer]\<rparr>"

definition peer_named :: "desired_interface_state \<Rightarrow> string \<Rightarrow> rendered_peer option" where
  "peer_named d key = find (\<lambda>p. rp_public_key p = key) (dis_peers d)"

record wireguard_interface_identity =
  wi_private_key :: string
  wi_listen_port :: int

subsection \<open>Public keys of a request\<close>

definition is_base64 :: "char \<Rightarrow> bool" where
  "is_base64 c = (let n = of_char c :: nat in
     65 \<le> n \<and> n \<le> 90 \<or> 97 \<le> n \<and> n \<le> 122 \<or> 48 \<le> n \<and> n \<le> 57 \<or> n = 43 \<or> n = 47)"

definition ALL_ZERO_PUBLIC_KEY :: string where
  "ALL_ZERO_PUBLIC_KEY = replicate 43 CHR ''A'' @ ''=''"

definition validate_public_key :: "string \<Rightarrow> bool" where
  "validate_public_key value \<longleftrightarrow>
     length value = 44 \<and> list_all is_base64 (take 43 value) \<and> last value = CHR ''='' \<and>
     value \<noteq> ALL_ZERO_PUBLIC_KEY"

subsection \<open>Rendering\<close>

fun host_cidr :: "ip_address \<Rightarrow> string" where
  "host_cidr (IPv4Address n) = ip_text (IPv4Address n) @ ''/32''"
| "host_cidr (IPv6Address n) = ip_text (IPv6Address n) @ ''/128''"

definition interface_lines :: "wireguard_interface_identity \<Rightarrow> string list" where
  "interface_lines i =
     [''[Interface]'', ''PrivateKey = '' @ wi_private_key i, ''ListenPort = '' @ int_text (wi_listen_port i), []]"

definition peer_lines :: "rendered_peer \<Rightarrow> string list" where
  "peer_lines p =
     [''[Peer]'', ''PublicKey = '' @ rp_public_key p, ''AllowedIPs = '' @ host_cidr (rp_assigned_address p)] @
     (case rp_persistent_keepalive_seconds p of None \<Rightarrow> [] | Some k \<Rightarrow> [''PersistentKeepalive = '' @ int_text k]) @
     [''# Generation = '' @ int_text (rp_generation p), []]"

definition render_wireguard_config ::
  "desired_interface_state \<Rightarrow> wireguard_interface_identity option \<Rightarrow> string" where
  "render_wireguard_config desired interface =
     join_text [NL]
       ((case interface of None \<Rightarrow> [] | Some i \<Rightarrow> interface_lines i) @ concat (map peer_lines (dis_peers desired)))"

subsection \<open>Parsing\<close>

record config_parser =
  cp_peers :: "rendered_peer list"
  cp_public_key :: "string option"
  cp_address :: "ip_address option"
  cp_keepalive :: "int option"
  cp_generation :: int

definition flush_peer :: "config_parser \<Rightarrow> config_parser" where
  "flush_peer s =
     \<lparr>cp_peers = cp_peers s @
        (case (cp_public_key s, cp_address s) of
           (Some key, Some address) \<Rightarrow>
             [\<lparr>rp_public_key = key, rp_assigned_address = address,
               rp_persistent_keepalive_seconds = cp_keepalive s, rp_generation = cp_generation s\<rparr>]
         | _ \<Rightarrow> []),
      cp_public_key = None, cp_address = None, cp_keepalive = None, cp_generation = 0\<rparr>"

text \<open>One line; \<open>None\<close> is the \<open>ValueError\<close> of \<open>int\<close> or \<open>ip_address\<close>.\<close>

definition parse_config_line :: "string \<Rightarrow> config_parser \<Rightarrow> config_parser option" where
  "parse_config_line raw s =
     (let line = strip raw in
      if line = [] then Some s
      else if line = ''[Peer]'' then Some (flush_peer s)
      else if starts_with ''# Generation'' line
        then map_option (\<lambda>g. s\<lparr>cp_generation := g\<rparr>) (py_int (strip (after_char CHR ''='' line)))
      else if starts_with ''#'' line \<or> CHR ''='' \<notin> set line then Some s
      else (let key = strip (before_char CHR ''='' line); value = strip (after_char CHR ''='' line) in
        if key = ''PublicKey'' then Some (s\<lparr>cp_public_key := Some value\<rparr>)
        else if key = ''AllowedIPs''
          then map_option (\<lambda>a. s\<lparr>cp_address := Some a\<rparr>) (parse_ip_address (before_char CHR ''/'' value))
        else if key = ''PersistentKeepalive''
          then map_option (\<lambda>k. s\<lparr>cp_keepalive := Some k\<rparr>) (py_int value)
        else Some s))"

fun parse_config_lines :: "string list \<Rightarrow> config_parser \<Rightarrow> config_parser option" where
  "parse_config_lines [] s = Some s"
| "parse_config_lines (l # ls) s =
     (case parse_config_line l s of None \<Rightarrow> None | Some s' \<Rightarrow> parse_config_lines ls s')"

definition start_parser :: config_parser where
  "start_parser = \<lparr>cp_peers = [], cp_public_key = None, cp_address = None, cp_keepalive = None, cp_generation = 0\<rparr>"

definition parse_wireguard_config :: "string \<Rightarrow> desired_interface_state option" where
  "parse_wireguard_config config =
     map_option (\<lambda>s. \<lparr>dis_peers = cp_peers (flush_peer s)\<rparr>) (parse_config_lines (splitlines config) start_parser)"

subsection \<open>Parsing undoes rendering\<close>

text \<open>What a value must be to survive as the rest of a line: one line, no blanks around it.\<close>

definition line_value :: "string \<Rightarrow> bool" where
  "line_value v \<longleftrightarrow> v \<noteq> [] \<and> \<not> is_space (hd v) \<and> \<not> is_space (last v) \<and> (\<forall>c\<in>set v. \<not> line_break c)"

definition peer_ok :: "rendered_peer \<Rightarrow> bool" where
  "peer_ok p \<longleftrightarrow> line_value (rp_public_key p) \<and> ip_ok (rp_assigned_address p)"

definition config_ok :: "desired_interface_state \<Rightarrow> bool" where
  "config_ok d \<longleftrightarrow> list_all peer_ok (dis_peers d) \<and> distinct (map rp_public_key (dis_peers d))"

lemma line_valueI: "v \<noteq> [] \<Longrightarrow> (\<And>c. c \<in> set v \<Longrightarrow> \<not> is_space c \<and> \<not> line_break c) \<Longrightarrow> line_value v"
  by (simp add: line_value_def)

lemma line_value_int_text [text_simps]: "line_value (int_text i)"
proof (rule line_valueI)
  show "int_text i \<noteq> []" by (simp add: int_text_def)
qed (rule int_text_plain)

lemma validated_key_line_value: "validate_public_key key \<Longrightarrow> line_value key"
proof -
  assume v: "validate_public_key key"
  then have "key \<noteq> []" and len: "length key = 44" by (auto simp: validate_public_key_def)
  then have key: "key = take 43 key @ [last key]"
    by (metis append_butlast_last_id butlast_conv_take diff_Suc_1 eval_nat_numeral(2) eval_nat_numeral(3)
        numeral_eq_Suc pred_numeral_simps(2) semiring_norm(26,27,28))
  have "is_base64 c \<or> c = CHR ''=''" if "c \<in> set key" for c
  proof -
    have "c \<in> set (take 43 key @ [last key])" using that key by metis
    with v show ?thesis by (auto simp: validate_public_key_def list_all_iff)
  qed
  then have "\<not> is_space c \<and> \<not> line_break c" if "c \<in> set key" for c
    using that by (force simp: is_base64_def is_space_def line_break_def Let_def)
  with \<open>key \<noteq> []\<close> show ?thesis by (rule line_valueI)
qed

lemma starts_with_hd: "s \<noteq> [] \<Longrightarrow> p \<noteq> [] \<Longrightarrow> hd s \<noteq> hd p \<Longrightarrow> \<not> starts_with p s"
  by (cases s; cases p) (auto simp: starts_with_def)

text \<open>A line \<open>name = value\<close> is taken apart into its name and its value.\<close>

definition line_name :: "string \<Rightarrow> bool" where
  "line_name n \<longleftrightarrow> n \<noteq> [] \<and> \<not> is_space (hd n) \<and> \<not> is_space (last n) \<and> hd n \<noteq> CHR ''#'' \<and> hd n \<noteq> CHR ''['' \<and> CHR ''='' \<notin> set n"

lemma setting_line:
  assumes n: "line_name n" and v: "line_value v"
  shows "strip (n @ '' = '' @ v) = n @ '' = '' @ v"
    and "strip (before_char CHR ''='' (n @ '' = '' @ v)) = n"
    and "strip (after_char CHR ''='' (n @ '' = '' @ v)) = v"
proof -
  show "strip (n @ '' = '' @ v) = n @ '' = '' @ v"
    using n v by (intro strip_stripped) (simp add: stripped_def line_name_def line_value_def)
  have eq: "n @ '' = '' @ v = (n @ '' '') @ CHR ''='' # ('' '' @ v)" by simp
  have fresh: "CHR ''='' \<notin> set (n @ '' '')" using n by (simp add: line_name_def)
  have sp: "is_space CHR '' ''" by (simp add: is_space_def)
  have "strip (n @ '' '') = strip n"
  proof -
    have "dropWhile is_space m = m" if "m \<noteq> []" "\<not> is_space (hd m)" for m
      using that by (cases m) auto
    then have "dropWhile is_space n = n" "dropWhile is_space (n @ '' '') = n @ '' ''"
      using n by (simp_all add: line_name_def)
    then show ?thesis by (simp add: strip_def strip_chars_def sp)
  qed
  then show "strip (before_char CHR ''='' (n @ '' = '' @ v)) = n"
    unfolding eq before_after_char(1) [OF fresh] using n by (simp add: strip_stripped stripped_def line_name_def)
  show "strip (after_char CHR ''='' (n @ '' = '' @ v)) = v"
    unfolding eq before_after_char(2) [OF fresh]
    using v by (simp add: strip_blank_before [OF sp] strip_stripped stripped_def line_value_def)
qed

lemma parse_setting:
  assumes n: "line_name n" and v: "line_value v"
  shows "parse_config_line (n @ '' = '' @ v) s =
    (if n = ''PublicKey'' then Some (s\<lparr>cp_public_key := Some v\<rparr>)
     else if n = ''AllowedIPs''
       then map_option (\<lambda>a. s\<lparr>cp_address := Some a\<rparr>) (parse_ip_address (before_char CHR ''/'' v))
     else if n = ''PersistentKeepalive'' then map_option (\<lambda>k. s\<lparr>cp_keepalive := Some k\<rparr>) (py_int v)
     else Some s)"
proof -
  let ?line = "n @ '' = '' @ v"
  have ne: "?line \<noteq> []" by simp
  have hd: "hd ?line = hd n" using n by (simp add: line_name_def)
  have "?line \<noteq> ''[Peer]''"
  proof
    assume "?line = ''[Peer]''"
    then have "hd ?line = CHR ''[''" by (metis list.sel(1))
    with hd n show False by (simp add: line_name_def)
  qed
  moreover have "\<not> starts_with ''# Generation'' ?line" "\<not> starts_with ''#'' ?line"
    using n by (intro starts_with_hd ne; simp add: hd [simplified] line_name_def)+
  ultimately show ?thesis
    unfolding parse_config_line_def setting_line [OF assms] Let_def if_not_P [OF ne] by simp
qed

lemma parse_generation: "parse_config_line (''# Generation = '' @ int_text g) s = Some (s\<lparr>cp_generation := g\<rparr>)"
proof -
  let ?line = "''# Generation = '' @ int_text g"
  have v: "line_value (int_text g)" by (rule line_value_int_text)
  then have "strip ?line = ?line"
    by (intro strip_stripped) (simp add: stripped_def line_value_def is_space_def)
  moreover have "?line \<noteq> ''[Peer]''" by simp
  moreover have "starts_with ''# Generation'' ?line" by (simp add: starts_with_def)
  moreover have "after_char CHR ''='' ?line = '' '' @ int_text g"
    using before_after_char(2) [of "CHR ''=''" "''# Generation ''" "'' '' @ int_text g"] by simp
  moreover have "strip ('' '' @ int_text g) = int_text g"
    using v by (simp add: strip_blank_before is_space_def strip_stripped stripped_def line_value_def)
  ultimately show ?thesis
    unfolding parse_config_line_def Let_def by (simp add: py_int_text)
qed

lemma parse_peer_mark: "parse_config_line ''[Peer]'' s = Some (flush_peer s)"
proof -
  have "strip ''[Peer]'' = ''[Peer]''" by (rule strip_stripped) (simp add: stripped_def is_space_def)
  then show ?thesis by (simp add: parse_config_line_def)
qed

lemma parse_interface_mark: "parse_config_line ''[Interface]'' s = Some s"
proof -
  have "strip ''[Interface]'' = ''[Interface]''" by (rule strip_stripped) (simp add: stripped_def is_space_def)
  then show ?thesis by (simp add: parse_config_line_def starts_with_def)
qed

lemma parse_blank: "parse_config_line [] s = Some s"
  by (simp add: parse_config_line_def strip_def strip_chars_def)

text \<open>Addresses print without blanks, line ends and slashes.\<close>

lemma set_join_text: "set (join_text sep gs) \<subseteq> set sep \<union> \<Union>(set ` set gs)"
  by (induction sep gs rule: join_text.induct) auto

lemma compressed_text_chars: "c \<in> set (compressed_text hs) \<Longrightarrow> is_hex c \<or> c = CHR '':''"
proof -
  have "c \<in> set (join_text '':'' (map hextet_text xs)) \<Longrightarrow> is_hex c \<or> c = CHR '':''" for xs
    using set_join_text [of "'':''" "map hextet_text xs"] by (auto dest: hextet_text_hex)
  then show "c \<in> set (compressed_text hs) \<Longrightarrow> is_hex c \<or> c = CHR '':''"
    by (cases "best_run 0 hs") (auto simp: compressed_text_def split: if_splits)
qed

lemma ip_text_chars: "c \<in> set (ip_text a) \<Longrightarrow> is_hex c \<or> is_digit c \<or> c = CHR ''.'' \<or> c = CHR '':''"
  by (cases a) (auto simp: ipv6_text_def split: if_splits dest: ipv4_text_chars compressed_text_chars)

lemma ip_text_plain: "c \<in> set (ip_text a) \<Longrightarrow> \<not> is_space c \<and> \<not> line_break c \<and> c \<noteq> CHR ''/''"
proof -
  assume "c \<in> set (ip_text a)"
  then consider "is_hex c" | "is_digit c" | "c = CHR ''.''" | "c = CHR '':''" using ip_text_chars by blast
  then show ?thesis
    by cases (use is_hex_plain digit_plain in \<open>blast | simp add: is_space_def line_break_def\<close>)+
qed

lemma line_value_host_cidr: "line_value (host_cidr a)"
proof (rule line_valueI)
  show "host_cidr a \<noteq> []" by (cases a) auto
  fix c
  assume "c \<in> set (host_cidr a)"
  then have "c \<in> set (ip_text a) \<or> c \<in> set ''/12348''" by (cases a) auto
  then show "\<not> is_space c \<and> \<not> line_break c"
    by (auto simp: is_space_def line_break_def dest: ip_text_plain)
qed

lemma before_slash_host_cidr: "before_char CHR ''/'' (host_cidr a) = ip_text a"
proof -
  have "CHR ''/'' \<notin> set (ip_text a)" using ip_text_plain by blast
  then show ?thesis by (cases a) (auto simp: before_after_char)
qed

lemma line_names:
  "line_name ''PublicKey''" "line_name ''AllowedIPs''" "line_name ''PersistentKeepalive''"
  "line_name ''PrivateKey''" "line_name ''ListenPort''"
  by (simp_all add: line_name_def is_space_def)

lemmas parse_setting_named = line_names [THEN parse_setting, simplified]

text \<open>A peer that has been read but not yet added, and its lines.\<close>

definition pending :: "rendered_peer list \<Rightarrow> rendered_peer \<Rightarrow> config_parser" where
  "pending ps p = \<lparr>cp_peers = ps, cp_public_key = Some (rp_public_key p), cp_address = Some (rp_assigned_address p),
     cp_keepalive = rp_persistent_keepalive_seconds p, cp_generation = rp_generation p\<rparr>"

lemma flush_pending: "cp_peers (flush_peer (pending ps p)) = ps @ [p]"
  by (simp add: flush_peer_def pending_def)

lemma parse_peer_lines:
  assumes "peer_ok p"
  shows "parse_config_lines (peer_lines p @ ls) s = parse_config_lines ls (pending (cp_peers (flush_peer s)) p)"
proof -
  have ok: "line_value (rp_public_key p)" "ip_ok (rp_assigned_address p)" using assms by (auto simp: peer_ok_def)
  note steps = parse_peer_mark parse_blank parse_generation [simplified]
    parse_setting_named(1) [OF ok(1)] parse_setting_named(2) [OF line_value_host_cidr]
    parse_setting_named(3) [OF line_value_int_text] before_slash_host_cidr parse_ip_text [OF ok(2)] py_int_text
  obtain ps where fl: "flush_peer s = \<lparr>cp_peers = ps, cp_public_key = None, cp_address = None, cp_keepalive = None, cp_generation = 0\<rparr>"
    by (simp add: flush_peer_def)
  show ?thesis
    by (cases "rp_persistent_keepalive_seconds p") (simp_all add: peer_lines_def steps pending_def fl)
qed

lemma parse_all_peer_lines:
  "list_all peer_ok ps \<Longrightarrow>
     map_option (\<lambda>s. cp_peers (flush_peer s)) (parse_config_lines (concat (map peer_lines ps)) s) =
       Some (cp_peers (flush_peer s) @ ps)"
proof (induction ps arbitrary: s)
  case (Cons p ps)
  then show ?case
    using Cons.IH [of "pending (cp_peers (flush_peer s)) p"] by (simp add: parse_peer_lines flush_pending)
qed simp

definition identity_ok :: "wireguard_interface_identity \<Rightarrow> bool" where
  "identity_ok i \<longleftrightarrow> line_value (wi_private_key i)"

lemma parse_interface_lines:
  "identity_ok i \<Longrightarrow> parse_config_lines (interface_lines i @ ls) s = parse_config_lines ls s"
  by (simp add: identity_ok_def interface_lines_def parse_interface_mark parse_blank line_value_int_text
      parse_setting_named(4,5))

lemma line_break_names:
  "\<forall>c\<in>set ''[Interface][Peer]PrivateKey = ListenPort = PublicKey = AllowedIPs = PersistentKeepalive = # Generation = ''.
     \<not> line_break c"
  by (simp add: line_break_def)

lemma line_value_unbroken: "line_value v \<Longrightarrow> \<forall>c\<in>set v. \<not> line_break c"
  by (simp add: line_value_def)

lemma peer_lines_unbroken: "peer_ok p \<Longrightarrow> \<forall>l\<in>set (peer_lines p). \<forall>c\<in>set l. \<not> line_break c"
  using line_value_unbroken [of "rp_public_key p"] line_value_unbroken [OF line_value_host_cidr [of "rp_assigned_address p"]]
    line_value_unbroken [OF line_value_int_text [of "rp_generation p"]] line_break_names
    line_value_unbroken [OF line_value_int_text [of "the (rp_persistent_keepalive_seconds p)"]]
  by (cases "rp_persistent_keepalive_seconds p") (simp_all add: peer_lines_def peer_ok_def)

lemma interface_lines_unbroken: "identity_ok i \<Longrightarrow> \<forall>l\<in>set (interface_lines i). \<forall>c\<in>set l. \<not> line_break c"
  using line_value_unbroken [of "wi_private_key i"] line_value_unbroken [OF line_value_int_text [of "wi_listen_port i"]]
    line_break_names
  by (simp add: interface_lines_def identity_ok_def)

definition config_lines :: "desired_interface_state \<Rightarrow> wireguard_interface_identity option \<Rightarrow> string list" where
  "config_lines d iface =
     (case iface of None \<Rightarrow> [] | Some i \<Rightarrow> interface_lines i) @ concat (map peer_lines (dis_peers d))"

lemma render_config_lines: "render_wireguard_config d iface = join_text [NL] (config_lines d iface)"
  by (simp add: render_wireguard_config_def config_lines_def)

definition renderable :: "desired_interface_state \<Rightarrow> wireguard_interface_identity option \<Rightarrow> bool" where
  "renderable d iface \<longleftrightarrow> list_all peer_ok (dis_peers d) \<and> (\<forall>i. iface = Some i \<longrightarrow> identity_ok i)"

lemma lines_unbroken: "renderable d iface \<Longrightarrow> \<forall>l\<in>set (config_lines d iface). \<forall>c\<in>set l. \<not> line_break c"
  using peer_lines_unbroken interface_lines_unbroken
  by (cases iface) (fastforce simp: renderable_def config_lines_def list_all_iff)+

text \<open>A rendered text is its lines, each ended by a line feed.\<close>

lemma config_lines_end: "config_lines d iface = [] \<or> (\<exists>ls. config_lines d iface = ls @ [[]])"
proof (cases "dis_peers d" rule: rev_cases)
  case Nil
  then show ?thesis by (cases iface) (auto simp: config_lines_def interface_lines_def)
next
  case (snoc qs q)
  obtain ks where "peer_lines q = ks @ [[]]" by (simp add: peer_lines_def)
  then show ?thesis by (auto simp: config_lines_def snoc)
qed

lemma parse_lines_snoc_blank: "parse_config_lines (ls @ [[]]) s = parse_config_lines ls s"
  by (induction ls arbitrary: s) (auto simp: parse_blank split: option.splits)

lemma rendered_no_return:
  assumes "renderable d iface"
  shows "CHR 0x0D \<notin> set (render_wireguard_config d iface)"
proof
  assume "CHR 0x0D \<in> set (render_wireguard_config d iface)"
  then have "CHR 0x0D \<in> set [NL] \<union> \<Union>(set ` set (config_lines d iface))"
    unfolding render_config_lines using set_join_text by blast
  with lines_unbroken [OF assms] have "\<not> line_break CHR 0x0D" by auto
  then show False by (simp add: line_break_def)
qed

lemma parse_render:
  assumes ok: "renderable d iface"
  shows "parse_wireguard_config (universal_newlines (render_wireguard_config d iface)) = Some d"
proof -
  have split: "parse_config_lines (splitlines (render_wireguard_config d iface)) start_parser =
      parse_config_lines (config_lines d iface) start_parser"
    using config_lines_end [of d iface]
  proof (elim disjE exE)
    fix ls
    assume ls: "config_lines d iface = ls @ [[]]"
    have "\<forall>l\<in>set ls. \<forall>c\<in>set l. \<not> line_break c" using lines_unbroken [OF ok] unfolding ls by auto
    then show ?thesis
      unfolding render_config_lines ls by (simp add: splitlines_join parse_lines_snoc_blank)
  qed (simp add: render_config_lines splitlines_def)
  have "parse_config_lines (config_lines d iface) start_parser =
      parse_config_lines (concat (map peer_lines (dis_peers d))) start_parser"
    using ok by (cases iface) (simp_all add: config_lines_def parse_interface_lines renderable_def)
  moreover have "cp_peers (flush_peer start_parser) = []" by (simp add: flush_peer_def start_parser_def)
  moreover have "list_all peer_ok (dis_peers d)" using ok by (simp add: renderable_def)
  ultimately have "map_option (\<lambda>s. cp_peers (flush_peer s)) (parse_config_lines (config_lines d iface) start_parser) =
      Some (dis_peers d)"
    using parse_all_peer_lines [of "dis_peers d" start_parser] by simp
  then show ?thesis
    unfolding parse_wireguard_config_def universal_newlines_id [OF rendered_no_return [OF ok]] split by auto
qed

subsection \<open>Changing the peer set\<close>

lemma with_peer_ok: "config_ok d \<Longrightarrow> peer_ok p \<Longrightarrow> config_ok (with_peer d p)"
  by (auto simp: config_ok_def with_peer_def list_all_iff distinct_map_filterI)

lemma without_peer_ok: "config_ok d \<Longrightarrow> config_ok (without_peer d key)"
  by (auto simp: config_ok_def without_peer_def list_all_iff distinct_map_filterI)

lemma find_filter_key:
  "find (\<lambda>q. k q = key) (filter (\<lambda>q. k q \<noteq> a) ps) = (if key = a then None else find (\<lambda>q. k q = key) ps)"
  by (induction ps) auto

lemma peer_named_with: "peer_named (with_peer d p) key = (if key = rp_public_key p then Some p else peer_named d key)"
  by (simp add: peer_named_def with_peer_def find_append find_filter_key split: option.splits)

lemma peer_named_without: "peer_named (without_peer d k) key = (if key = k then None else peer_named d key)"
  by (simp add: peer_named_def without_peer_def find_filter_key)

end
