(* ===== verification/Wireguard_Driver.thy ===== *)
theory Wireguard_Driver
  imports Wireguard_Config Allocator
begin

text \<open>
  The WireGuard driver of the agent (\<open>drivers/wireguard.py\<close>) with the files of its
  \<open>ConfigStore\<close> (\<open>drivers/config_store.py\<close>): every change renders the whole peer set, writes it
  as a candidate, runs \<open>wg syncconf\<close>, and on success promotes the candidate to the
  last-known-good file; on failure it applies the last-known-good text again.

  The \<open>wg\<close> binary, the clock and the outcome of writing a file are a parameter, \<open>wg_host\<close>, over
  a host state of any type. What the theorems of \<open>Wireguard_Safety\<close> need of \<open>wg\<close> is stated
  there.
\<close>

subsection \<open>The world of the driver\<close>

record 'k wg_host =
  wh_syncconf :: "string option \<Rightarrow> 'k \<Rightarrow> run_result \<times> 'k"
  wh_show_dump :: "'k \<Rightarrow> run_result \<times> 'k"
  wh_pubkey :: "string \<Rightarrow> 'k \<Rightarrow> run_result \<times> 'k"
  wh_write :: "'k \<Rightarrow> bool \<times> 'k"
  wh_now :: "'k \<Rightarrow> time"

record wg_settings =
  wgs_client_pool :: ip_network
  wgs_listen_port :: int
  wgs_public_endpoint :: string
  wgs_client_dns :: string
  wgs_client_allowed_ips :: string
  wgs_persistent_keepalive_seconds :: int

record 'k wg_driver =
  wd_settings :: wg_settings
  wd_host :: "'k wg_host"

record 'k wg_world =
  ww_last_known_good :: "string option"
  ww_candidate :: "string option"
  ww_private_key_file :: "string option"
  ww_server_public_key :: "string option"
  ww_host :: 'k

text \<open>One use of the host: its answer, with the host's new state.\<close>

definition asking_host :: "('k \<Rightarrow> 'r \<times> 'k) \<Rightarrow> ('k wg_world, 'r) io" where
  "asking_host f w = (let (r, k) = f (ww_host w) in (Inr r, w\<lparr>ww_host := k\<rparr>))"

definition run_tool :: "('k \<Rightarrow> run_result \<times> 'k) \<Rightarrow> ('k wg_world, run_result) io" where
  "run_tool f = bind_io (asking_host f) completed_io"

subsection \<open>The store\<close>

definition read_last_known_good :: "('k wg_world, desired_interface_state) io" where
  "read_last_known_good w =
     (case ww_last_known_good w of
        None \<Rightarrow> (Inr no_peers, w)
      | Some content \<Rightarrow> the_io ValueError (parse_wireguard_config (universal_newlines content)) w)"

text \<open>A write that fails leaves the old candidate: the new text was in a temporary file.\<close>

definition write_candidate_atomically :: "'k wg_driver \<Rightarrow> string \<Rightarrow> ('k wg_world, unit) io" where
  "write_candidate_atomically dr content =
     bind_io (asking_host (wh_write (wd_host dr))) (\<lambda>written.
     bind_io (unless_io written OSError) (\<lambda>_.
     modify_io (\<lambda>w. w\<lparr>ww_candidate := Some content\<rparr>)))"

definition promote_candidate_to_last_known_good :: "('k wg_world, unit) io" where
  "promote_candidate_to_last_known_good w =
     (case ww_candidate w of
        None \<Rightarrow> (Inl OSError, w)
      | Some content \<Rightarrow> (Inr (), w\<lparr>ww_last_known_good := Some content, ww_candidate := None\<rparr>))"

definition rollback_text :: "wireguard_interface_identity \<Rightarrow> 'k wg_world \<Rightarrow> string" where
  "rollback_text interface w =
     (case ww_last_known_good w of
        None \<Rightarrow> render_wireguard_config no_peers (Some interface)
      | Some content \<Rightarrow> universal_newlines content)"

subsection \<open>Applying a peer set\<close>

definition address_in_network :: "ip_address \<Rightarrow> ip_network \<Rightarrow> bool" where
  "address_in_network a net =
     (case a of
        IPv4Address n \<Rightarrow> net_version net = V4 \<and> n div net_size net = net_address net div net_size net
      | IPv6Address n \<Rightarrow> net_version net = V6 \<and> n div net_size net = net_address net div net_size net)"

definition validate_address_in_client_pool :: "wg_settings \<Rightarrow> rendered_peer \<Rightarrow> ('k wg_world, unit) io" where
  "validate_address_in_client_pool settings peer =
     unless_io (address_in_network (rp_assigned_address peer) (wgs_client_pool settings))
       (ValidationError ''assigned_address is outside wg_client_pool'')"

definition server_pubkey :: "'k wg_driver \<Rightarrow> ('k wg_world, string) io" where
  "server_pubkey dr w =
     (case ww_server_public_key w of
        Some key \<Rightarrow> (Inr key, w)
      | None \<Rightarrow>
          bind_io (the_io OSError (ww_private_key_file w)) (\<lambda>private_key.
          bind_io (run_tool (wh_pubkey (wd_host dr) private_key)) (\<lambda>result.
          bind_io (unless_io (returncode result = 0) (ApplyError ''failed to derive the server public key'')) (\<lambda>_.
          bind_io (modify_io (\<lambda>w. w\<lparr>ww_server_public_key := Some (strip (stdout result))\<rparr>)) (\<lambda>_.
          return_io (strip (stdout result)))))) w)"

definition last_applied_generation :: "desired_interface_state \<Rightarrow> string \<Rightarrow> int" where
  "last_applied_generation current key =
     (case peer_named current key of None \<Rightarrow> 0 | Some previous \<Rightarrow> rp_generation previous)"

definition interface_identity :: "'k wg_driver \<Rightarrow> ('k wg_world, wireguard_interface_identity) io" where
  "interface_identity dr w =
     (case ww_private_key_file w of
        None \<Rightarrow> (Inl OSError, w)
      | Some content \<Rightarrow>
          (Inr \<lparr>wi_private_key = strip (universal_newlines content),
                wi_listen_port = wgs_listen_port (wd_settings dr)\<rparr>, w))"

text \<open>\<open>wg syncconf\<close> reads the candidate file as it is when the tool runs.\<close>

definition run_syncconf :: "'k wg_driver \<Rightarrow> ('k wg_world, run_result) io" where
  "run_syncconf dr w = run_tool (wh_syncconf (wd_host dr) (ww_candidate w)) w"

definition rollback :: "'k wg_driver \<Rightarrow> ('k wg_world, unit) io" where
  "rollback dr =
     bind_io (interface_identity dr) (\<lambda>interface.
     bind_io (reads_io (rollback_text interface)) (\<lambda>content.
     bind_io (write_candidate_atomically dr content) (\<lambda>_.
     bind_io (run_syncconf dr) (\<lambda>result.
     unless_io (returncode result = 0) (RollbackFailedError (strip (stderr result)))))))"

text \<open>\<open>_apply_delta\<close>, in the three parts its two suspensions separate.\<close>

definition apply_prepare :: "'k wg_driver \<Rightarrow> desired_interface_state \<Rightarrow> ('k wg_world, unit) io" where
  "apply_prepare dr desired =
     bind_io (interface_identity dr) (\<lambda>interface.
     write_candidate_atomically dr (render_wireguard_config desired (Some interface)))"

definition apply_settle :: "'k wg_driver \<Rightarrow> run_result \<Rightarrow> ('k wg_world, unit) io" where
  "apply_settle dr result =
     (if returncode result \<noteq> 0
      then bind_io (rollback dr) (\<lambda>_. raise_io (ApplyError (strip (stderr result))))
      else promote_candidate_to_last_known_good)"

definition apply_delta :: "'k wg_driver \<Rightarrow> desired_interface_state \<Rightarrow> ('k wg_world, unit) io" where
  "apply_delta dr desired =
     bind_io (apply_prepare dr desired) (\<lambda>_.
     bind_io (run_syncconf dr) (\<lambda>result.
     apply_settle dr result))"

text \<open>\<open>except (ValidationError, ApplyError)\<close>: what a handler answers instead.\<close>

fun apply_failure :: "'a \<Rightarrow> driver_error \<Rightarrow> ('w, 'a) io option" where
  "apply_failure answer (ValidationError _) = Some (return_io answer)"
| "apply_failure answer (ApplyError _) = Some (return_io answer)"
| "apply_failure answer _ = None"

subsection \<open>Requests and responses\<close>

record agent_provision_request =
  apq_idempotency_key :: uuid
  apq_target_id :: uuid
  apq_desired_generation :: int
  apq_public_key :: string
  apq_assigned_address :: ip_address
  apq_persistent_keepalive_seconds :: "int option"

record agent_revoke_request =
  avq_idempotency_key :: uuid
  avq_target_id :: uuid
  avq_public_key :: string
  avq_desired_generation :: int

record agent_enable_request =
  aeq_idempotency_key :: uuid
  aeq_target_id :: uuid
  aeq_public_key :: string
  aeq_assigned_address :: ip_address
  aeq_desired_generation :: int

record agent_reconcile_request =
  arq_target_id :: uuid
  arq_public_key :: string
  arq_assigned_address :: ip_address
  arq_desired_generation :: int

record agent_response =
  ar_state :: string
  ar_applied_generation :: int
  ar_error_code :: "string option"

record agent_provision_response = agent_response +
  apr_server_public_key :: string
  apr_listen_port :: int
  apr_public_endpoint :: string
  apr_client_dns :: string
  apr_client_allowed_ips :: string
  apr_persistent_keepalive_seconds :: int

record agent_revoke_response = agent_response +
  avr_revoked_at :: time

record agent_reconcile_response =
  arr_outcome :: string
  arr_observed_generation :: "int option"
  arr_error_code :: "string option"

record agent_health_response =
  ahr_state :: string
  ahr_observed_at :: time
  ahr_interface_up :: bool
  ahr_peer_count :: nat
  ahr_error_code :: "string option"

subsection \<open>The operations\<close>

definition requested_peer :: "agent_provision_request \<Rightarrow> rendered_peer" where
  "requested_peer q =
     \<lparr>rp_public_key = apq_public_key q, rp_assigned_address = apq_assigned_address q,
      rp_persistent_keepalive_seconds = apq_persistent_keepalive_seconds q,
      rp_generation = apq_desired_generation q\<rparr>"

definition provision_response ::
  "wg_settings \<Rightarrow> string \<Rightarrow> string \<Rightarrow> int \<Rightarrow> string option \<Rightarrow> agent_provision_response" where
  "provision_response settings server_key state generation error =
     \<lparr>ar_state = state, ar_applied_generation = generation, ar_error_code = error,
      apr_server_public_key = server_key,
      apr_listen_port = wgs_listen_port settings,
      apr_public_endpoint = wgs_public_endpoint settings,
      apr_client_dns = wgs_client_dns settings,
      apr_client_allowed_ips = wgs_client_allowed_ips settings,
      apr_persistent_keepalive_seconds = wgs_persistent_keepalive_seconds settings\<rparr>"

text \<open>\<open>provision_device\<close> before its \<open>try\<close>, and the \<open>try\<close> around what it applies.\<close>

definition provision_begin ::
  "'k wg_driver \<Rightarrow> agent_provision_request \<Rightarrow> ('k wg_world, desired_interface_state \<times> string) io" where
  "provision_begin dr q =
     bind_io (validate_address_in_client_pool (wd_settings dr) (requested_peer q)) (\<lambda>_.
     bind_io read_last_known_good (\<lambda>current.
     bind_io (server_pubkey dr) (\<lambda>key. return_io (current, key))))"

definition provision_apply ::
  "'k wg_driver \<Rightarrow> agent_provision_request \<Rightarrow> desired_interface_state \<Rightarrow> string \<Rightarrow> ('k wg_world, unit) io \<Rightarrow>
   ('k wg_world, agent_provision_response) io" where
  "provision_apply dr q current key body =
     try_io
       (bind_io body (\<lambda>_.
        return_io (provision_response (wd_settings dr) key ''active'' (apq_desired_generation q) None)))
       (apply_failure
         (provision_response (wd_settings dr) key ''failed''
            (last_applied_generation current (apq_public_key q)) (Some ''apply_failed'')))"

definition provision_device ::
  "'k wg_driver \<Rightarrow> agent_provision_request \<Rightarrow> ('k wg_world, agent_provision_response) io" where
  "provision_device dr q =
     bind_io (provision_begin dr q) (\<lambda>(current, key).
     provision_apply dr q current key (apply_delta dr (with_peer current (requested_peer q))))"

definition revoke_device :: "'k wg_driver \<Rightarrow> agent_revoke_request \<Rightarrow> ('k wg_world, agent_revoke_response) io" where
  "revoke_device dr q =
     bind_io read_last_known_good (\<lambda>current.
     try_io
       (bind_io (apply_delta dr (without_peer current (avq_public_key q))) (\<lambda>_.
        reads_io (\<lambda>w. \<lparr>ar_state = ''revoked'', ar_applied_generation = avq_desired_generation q,
          ar_error_code = None, avr_revoked_at = wh_now (wd_host dr) (ww_host w)\<rparr>)))
       (\<lambda>e. map_option (\<lambda>_. reads_io (\<lambda>w. \<lparr>ar_state = ''failed'',
          ar_applied_generation = last_applied_generation current (avq_public_key q),
          ar_error_code = Some ''apply_failed'', avr_revoked_at = wh_now (wd_host dr) (ww_host w)\<rparr>))
          (apply_failure () e :: ('k wg_world, unit) io option)))"

definition change_response :: "string \<Rightarrow> int \<Rightarrow> string option \<Rightarrow> agent_response" where
  "change_response state generation error =
     \<lparr>ar_state = state, ar_applied_generation = generation, ar_error_code = error\<rparr>"

definition enabled_peer :: "agent_enable_request \<Rightarrow> rendered_peer" where
  "enabled_peer q =
     \<lparr>rp_public_key = aeq_public_key q, rp_assigned_address = aeq_assigned_address q,
      rp_persistent_keepalive_seconds = None, rp_generation = aeq_desired_generation q\<rparr>"

definition enable_device :: "'k wg_driver \<Rightarrow> agent_enable_request \<Rightarrow> ('k wg_world, agent_response) io" where
  "enable_device dr q =
     bind_io (validate_address_in_client_pool (wd_settings dr) (enabled_peer q)) (\<lambda>_.
     bind_io read_last_known_good (\<lambda>current.
     try_io
       (bind_io (apply_delta dr (with_peer current (enabled_peer q))) (\<lambda>_.
        return_io (change_response ''enabled'' (aeq_desired_generation q) None)))
       (apply_failure (change_response ''failed''
          (last_applied_generation current (aeq_public_key q)) (Some ''apply_failed'')))))"

definition disable_device :: "'k wg_driver \<Rightarrow> agent_revoke_request \<Rightarrow> ('k wg_world, agent_response) io" where
  "disable_device dr q =
     bind_io read_last_known_good (\<lambda>current.
     try_io
       (bind_io (apply_delta dr (without_peer current (avq_public_key q))) (\<lambda>_.
        return_io (change_response ''disabled'' (avq_desired_generation q) None)))
       (apply_failure (change_response ''failed''
          (last_applied_generation current (avq_public_key q)) (Some ''apply_failed''))))"

text \<open>
  \<open>parse_show_dump\<close>: the first line is the interface; a peer line has at least four fields. A
  key that occurs twice keeps its last line.
\<close>

definition peer_field :: "string \<Rightarrow> (string \<times> string) list" where
  "peer_field line =
     (let fields = split_on CHR 0x09 line in
      if line = [] \<or> length fields < 4 then [] else [(fields ! 0, fields ! 3)])"

definition parse_show_dump :: "string \<Rightarrow> (string \<times> string) list" where
  "parse_show_dump output =
     concat (map peer_field (drop 1 (split_on NL (strip_chars (\<lambda>c. c = NL) output))))"

definition live_allowed_ips :: "(string \<times> string) list \<Rightarrow> string \<Rightarrow> string option" where
  "live_allowed_ips dump key = map_of (rev dump) key"

definition health :: "'k wg_driver \<Rightarrow> ('k wg_world, agent_health_response) io" where
  "health dr =
     bind_io (run_tool (wh_show_dump (wd_host dr))) (\<lambda>result.
     reads_io (\<lambda>w.
       if returncode result \<noteq> 0
       then \<lparr>ahr_state = ''unreachable'', ahr_observed_at = wh_now (wd_host dr) (ww_host w),
             ahr_interface_up = False, ahr_peer_count = 0, ahr_error_code = Some ''show_failed''\<rparr>
       else \<lparr>ahr_state = ''healthy'', ahr_observed_at = wh_now (wd_host dr) (ww_host w),
             ahr_interface_up = True,
             ahr_peer_count = length (remdups (map fst (parse_show_dump (stdout result)))),
             ahr_error_code = None\<rparr>))"

definition reconcile_answer :: "string \<Rightarrow> int option \<Rightarrow> string option \<Rightarrow> agent_reconcile_response" where
  "reconcile_answer outcome generation error =
     \<lparr>arr_outcome = outcome, arr_observed_generation = generation, arr_error_code = error\<rparr>"

definition expected_allowed_ips :: "ip_address \<Rightarrow> string" where
  "expected_allowed_ips address =
     (case address of IPv4Address _ \<Rightarrow> ip_text address @ ''/32'' | IPv6Address _ \<Rightarrow> ip_text address @ ''/128'')"

definition compare_views ::
  "agent_reconcile_request \<Rightarrow> string option \<Rightarrow> rendered_peer option \<Rightarrow> agent_reconcile_response" where
  "compare_views q live recorded =
     (case (live, recorded) of
        (Some allowed_ips, Some peer) \<Rightarrow>
          if allowed_ips = expected_allowed_ips (arq_assigned_address q) \<and>
             rp_assigned_address peer = arq_assigned_address q
          then reconcile_answer ''in_sync'' (Some (rp_generation peer)) None
          else reconcile_answer ''ambiguous'' (Some (rp_generation peer)) None
      | _ \<Rightarrow> reconcile_answer ''drift_detected'' None None)"

definition reconcile :: "'k wg_driver \<Rightarrow> agent_reconcile_request \<Rightarrow> ('k wg_world, agent_reconcile_response) io" where
  "reconcile dr q =
     bind_io (run_tool (wh_show_dump (wd_host dr))) (\<lambda>result.
     if returncode result \<noteq> 0 then return_io (reconcile_answer ''ambiguous'' None (Some ''show_failed''))
     else bind_io read_last_known_good (\<lambda>recorded.
       return_io (compare_views q (live_allowed_ips (parse_show_dump (stdout result)) (arq_public_key q))
         (peer_named recorded (arq_public_key q)))))"

end
