(* ===== verification/Agent_Dispatch.thy ===== *)
theory Agent_Dispatch
  imports Agent_Ledger Wireguard_Driver
begin

text \<open>
  The agent's operation routes (\<open>api/_dispatch.py\<close>, \<open>api/v1.py\<close>): the limit on a body's size, the
  ledgered dispatch that answers a repeated idempotency key from the ledger, and the WireGuard
  routes over it. How a response is written to JSON and validated again is pydantic's, a parameter
  of the model (\<open>response_codec\<close>); what is relied on is that a response it wrote validates to
  itself.

  The contract of the ledger is the locale \<open>operation_store\<close>: what was saved is found again, however
  often the process restarts, until as many later keys came as the store has room for. The client's
  argument, that a repeated request is answered without running anything, is proved there once, and
  the ledger of \<open>ledger.py\<close> is shown to meet the contract.
\<close>

subsection \<open>Dispatch\<close>

definition MAX_OPERATION_BODY_BYTES :: int where
  "MAX_OPERATION_BODY_BYTES = 16 * 1024"

text \<open>An answer of a route, or the status of the exception it ended with.\<close>

datatype 'r http_answer = Ok200 'r | HttpStatus nat

text \<open>\<open>int(content_length)\<close> of a header that is no number raises, which is answered with 500.\<close>

definition enforce_body_size_limit :: "string option \<Rightarrow> nat option" where
  "enforce_body_size_limit content_length =
     (case content_length of
        None \<Rightarrow> None
      | Some t \<Rightarrow> (case py_int t of
                    None \<Rightarrow> Some 500
                  | Some n \<Rightarrow> if MAX_OPERATION_BODY_BYTES < n then Some 413 else None))"

record 'r response_codec =
  model_dump_json :: "'r \<Rightarrow> string"
  model_validate_json :: "json \<Rightarrow> 'r option"
  applied_generation :: "'r \<Rightarrow> int"

type_synonym 'w agent_state = "'w \<times> operation_ledger \<times> ledger_disk"

text \<open>The lookup comes before the operation runs, the record after it: other requests may run between.\<close>

definition dispatch_cached :: "'r response_codec \<Rightarrow> string \<Rightarrow> uuid \<Rightarrow> ledger_entry \<Rightarrow> 'r http_answer" where
  "dispatch_cached codec kind target cached =
     (if le_operation_kind cached \<noteq> JStr kind \<or> le_target_id cached \<noteq> JStr (uuid_text target) then HttpStatus 409
      else (case model_validate_json codec (le_response_json cached) of
              None \<Rightarrow> HttpStatus 500
            | Some r \<Rightarrow> Ok200 r))"

definition dispatch_run ::
  "'r response_codec \<Rightarrow> uuid \<Rightarrow> string \<Rightarrow> uuid \<Rightarrow> ('w, 'r) io \<Rightarrow> 'w agent_state \<Rightarrow> 'r http_answer \<times> 'w agent_state" where
  "dispatch_run codec key kind target run = (\<lambda>(w, s).
     (case run w of
        (Inl e, w1) \<Rightarrow> (HttpStatus 500, (w1, s))
      | (Inr r, w1) \<Rightarrow>
          (case record_entry (operation_entry key kind target (applied_generation codec r) (model_dump_json codec r)) s of
             None \<Rightarrow> (HttpStatus 500, (w1, s))
           | Some s1 \<Rightarrow> (Ok200 r, (w1, s1)))))"

definition dispatch_ledgered ::
  "'r response_codec \<Rightarrow> uuid \<Rightarrow> string \<Rightarrow> uuid \<Rightarrow> ('w, 'r) io \<Rightarrow> 'w agent_state \<Rightarrow> 'r http_answer \<times> 'w agent_state" where
  "dispatch_ledgered codec key kind target run = (\<lambda>(w, s).
     (case lookup_entry key (fst s) of
        Some cached \<Rightarrow> (dispatch_cached codec kind target cached, (w, s))
      | None \<Rightarrow> dispatch_run codec key kind target run (w, s)))"

subsection \<open>The routes\<close>

definition ledgered_route ::
  "'r response_codec \<Rightarrow> string option \<Rightarrow> uuid \<Rightarrow> string \<Rightarrow> uuid \<Rightarrow> ('w, 'r) io \<Rightarrow> 'w agent_state \<Rightarrow>
   'r http_answer \<times> 'w agent_state" where
  "ledgered_route codec content_length key kind target run st =
     (case enforce_body_size_limit content_length of
        Some status \<Rightarrow> (HttpStatus status, st)
      | None \<Rightarrow> dispatch_ledgered codec key kind target run st)"

definition plain_route :: "string option \<Rightarrow> ('w, 'r) io \<Rightarrow> 'w agent_state \<Rightarrow> 'r http_answer \<times> 'w agent_state" where
  "plain_route content_length run = (\<lambda>(w, s).
     (case enforce_body_size_limit content_length of
        Some status \<Rightarrow> (HttpStatus status, (w, s))
      | None \<Rightarrow> (case run w of (Inl e, w1) \<Rightarrow> (HttpStatus 500, (w1, s)) | (Inr r, w1) \<Rightarrow> (Ok200 r, (w1, s)))))"

definition route_provision_device ::
  "agent_provision_response response_codec \<Rightarrow> 'k wg_driver \<Rightarrow> string option \<Rightarrow> agent_provision_request \<Rightarrow>
   'k wg_world agent_state \<Rightarrow> agent_provision_response http_answer \<times> 'k wg_world agent_state" where
  "route_provision_device codec dr content_length q =
     ledgered_route codec content_length (apq_idempotency_key q) ''provision_device'' (apq_target_id q) (provision_device dr q)"

definition route_revoke_device ::
  "agent_revoke_response response_codec \<Rightarrow> 'k wg_driver \<Rightarrow> string option \<Rightarrow> agent_revoke_request \<Rightarrow>
   'k wg_world agent_state \<Rightarrow> agent_revoke_response http_answer \<times> 'k wg_world agent_state" where
  "route_revoke_device codec dr content_length q =
     ledgered_route codec content_length (avq_idempotency_key q) ''revoke_device'' (avq_target_id q) (revoke_device dr q)"

definition route_enable_device ::
  "agent_response response_codec \<Rightarrow> 'k wg_driver \<Rightarrow> string option \<Rightarrow> agent_enable_request \<Rightarrow>
   'k wg_world agent_state \<Rightarrow> agent_response http_answer \<times> 'k wg_world agent_state" where
  "route_enable_device codec dr content_length q =
     ledgered_route codec content_length (aeq_idempotency_key q) ''enable_device'' (aeq_target_id q) (enable_device dr q)"

definition route_disable_device ::
  "agent_response response_codec \<Rightarrow> 'k wg_driver \<Rightarrow> string option \<Rightarrow> agent_revoke_request \<Rightarrow>
   'k wg_world agent_state \<Rightarrow> agent_response http_answer \<times> 'k wg_world agent_state" where
  "route_disable_device codec dr content_length q =
     ledgered_route codec content_length (avq_idempotency_key q) ''disable_device'' (avq_target_id q) (disable_device dr q)"

definition route_health ::
  "'k wg_driver \<Rightarrow> string option \<Rightarrow> 'k wg_world agent_state \<Rightarrow> agent_health_response http_answer \<times> 'k wg_world agent_state" where
  "route_health dr content_length = plain_route content_length (health dr)"

definition route_reconcile ::
  "'k wg_driver \<Rightarrow> string option \<Rightarrow> agent_reconcile_request \<Rightarrow> 'k wg_world agent_state \<Rightarrow>
   agent_reconcile_response http_answer \<times> 'k wg_world agent_state" where
  "route_reconcile dr content_length q = plain_route content_length (reconcile dr q)"

subsection \<open>The contract of the ledger\<close>

text \<open>What may happen to a store between two requests.\<close>

datatype store_event = Saved ledger_entry | Restarted

primrec store_after ::
  "(ledger_entry \<Rightarrow> 's \<Rightarrow> 's option) \<Rightarrow> ('s \<Rightarrow> 's option) \<Rightarrow> store_event list \<Rightarrow> 's \<Rightarrow> 's option" where
  "store_after save restart [] s = Some s"
| "store_after save restart (ev # evs) s =
     (case (case ev of Saved e \<Rightarrow> save e s | Restarted \<Rightarrow> restart s) of
        None \<Rightarrow> None
      | Some s1 \<Rightarrow> store_after save restart evs s1)"

primrec saves :: "store_event list \<Rightarrow> ledger_entry list" where
  "saves [] = []"
| "saves (ev # evs) = (case ev of Saved e \<Rightarrow> e # saves evs | Restarted \<Rightarrow> saves evs)"

locale operation_store =
  fixes ok :: "'s \<Rightarrow> bool"
    and find :: "uuid \<Rightarrow> 's \<Rightarrow> ledger_entry option"
    and save :: "ledger_entry \<Rightarrow> 's \<Rightarrow> 's option"
    and restart :: "'s \<Rightarrow> 's option"
    and room :: "uuid \<Rightarrow> 's \<Rightarrow> nat"
    and capacity :: nat
  assumes save_ok: "ok s \<Longrightarrow> plain_entry e \<Longrightarrow> \<exists>s'. save e s = Some s' \<and> ok s'"
    and saved: "ok s \<Longrightarrow> find k s = None \<Longrightarrow> 0 < capacity \<Longrightarrow> save (operation_entry k kind target g r) s = Some s' \<Longrightarrow>
      find k s' = Some (operation_entry k kind target g r) \<and> room k s' = capacity - 1"
    and kept: "ok s \<Longrightarrow> plain_entry e \<Longrightarrow> find k s = Some x \<Longrightarrow> save e s = Some s' \<Longrightarrow>
      le_idempotency_key e \<noteq> JStr (uuid_text k) \<Longrightarrow> 0 < room k s \<Longrightarrow>
      find k s' = Some x \<and> room k s \<le> Suc (room k s')"
    and restart_same: "ok s \<Longrightarrow> restart s = Some s"
begin

lemma after_ok:
  "ok s \<Longrightarrow> \<forall>e\<in>set (saves evs). plain_entry e \<Longrightarrow> \<exists>s'. store_after save restart evs s = Some s' \<and> ok s'"
proof (induction evs arbitrary: s)
  case (Cons ev evs)
  then show ?case
    using save_ok [of s] restart_same [of s] by (cases ev) fastforce+
qed simp

lemma after_kept:
  assumes "ok s" and "find k s = Some x" and "\<forall>e\<in>set (saves evs). plain_entry e \<and> le_idempotency_key e \<noteq> JStr (uuid_text k)"
    and "length (saves evs) \<le> room k s" and "store_after save restart evs s = Some s'"
  shows "find k s' = Some x"
  using assms
proof (induction evs arbitrary: s)
  case (Cons ev evs)
  show ?case
  proof (cases ev)
    case Restarted
    then show ?thesis using Cons restart_same [OF Cons.prems(1)] by simp
  next
    case (Saved e)
    then have e: "plain_entry e" "le_idempotency_key e \<noteq> JStr (uuid_text k)" "0 < room k s" using Cons.prems(3,4) by auto
    obtain s1 where s1: "save e s = Some s1" "ok s1" using save_ok [OF Cons.prems(1) e(1)] by blast
    note k = kept [OF Cons.prems(1) e(1) Cons.prems(2) s1(1) e(2,3)]
    show ?thesis
    proof (rule Cons.IH [OF s1(2)])
      show "find k s1 = Some x" using k by simp
      show "length (saves evs) \<le> room k s1" using k Cons.prems(4) Saved by simp
    qed (use Cons.prems(3,5) Saved s1(1) in auto)
  qed
qed simp

text \<open>What was saved under a new key is found as long as fewer other operations came than the store holds.\<close>

lemma saved_found:
  assumes "ok s" and "find k s = None" and "save (operation_entry k kind target g r) s = Some s1"
    and "\<forall>e\<in>set (saves evs). plain_entry e \<and> le_idempotency_key e \<noteq> JStr (uuid_text k)" and "length (saves evs) < capacity"
  shows "\<exists>s2. store_after save restart evs s1 = Some s2 \<and> ok s2 \<and> find k s2 = Some (operation_entry k kind target g r)"
proof -
  have s1: "ok s1" using save_ok [OF assms(1) plain_operation_entry [of k kind target g r]] assms(3) by auto
  have f: "find k s1 = Some (operation_entry k kind target g r)" "room k s1 = capacity - 1"
    using saved [OF assms(1,2) _ assms(3)] assms(5) by auto
  obtain s2 where "store_after save restart evs s1 = Some s2" "ok s2" using after_ok [OF s1, of evs] assms(4) by blast
  then show ?thesis using after_kept [OF s1 f(1) assms(4)] f(2) assms(5) by fastforce
qed

end

definition restart_ledger :: "nat \<Rightarrow> operation_ledger \<times> ledger_disk \<Rightarrow> (operation_ledger \<times> ledger_disk) option" where
  "restart_ledger mx = (\<lambda>(l, d). map_option (\<lambda>l1. (l1, d)) (load_ledger mx (ld_file d)))"

lemma record_saved:
  assumes "ledger_ok mx s" and "lookup_entry k (fst s) = None" and "0 < mx"
    and "record_entry (operation_entry k kind target g r) s = Some s'"
  shows "lookup_entry k (fst s') = Some (operation_entry k kind target g r) \<and> room mx k s' = mx - 1"
proof -
  obtain l d l' d' where s: "s = (l, d)" "s' = (l', d')" by (cases s; cases s')
  let ?e = "operation_entry k kind target g r" and ?k = "JStr (uuid_text k)"
  have key: "le_idempotency_key ?e = ?k" by (simp add: operation_entry_def)
  have "ol_entries (put_entry ?e l) ?k = Some ?e" "later_keys ?k (ol_order (put_entry ?e l)) = 0"
    using assms(2) by (simp_all add: key s lookup_entry_def later_keys_snoc)
  then have "ol_entries l' ?k = Some ?e \<and> later_keys ?k (ol_order l') = 0"
    using record_keeps [of mx l d ?e l' d' ?k ?e] assms(1,3,4) by (simp add: s)
  then show ?thesis by (simp add: s lookup_entry_def room_def)
qed

lemma record_kept:
  assumes "ledger_ok mx s" and "plain_entry e" and "lookup_entry k (fst s) = Some x" and "record_entry e s = Some s'"
    and "le_idempotency_key e \<noteq> JStr (uuid_text k)" and "0 < room mx k s"
  shows "lookup_entry k (fst s') = Some x \<and> room mx k s \<le> Suc (room mx k s')"
proof -
  obtain l d l' d' where s: "s = (l, d)" "s' = (l', d')" by (cases s; cases s')
  let ?k = "JStr (uuid_text k)"
  have later: "later_keys ?k (ol_order (put_entry e l)) \<le> Suc (later_keys ?k (ol_order l))"
    using assms(5) by (simp add: later_keys_snoc)
  then have "Suc (later_keys ?k (ol_order (put_entry e l))) \<le> mx" using assms(6) by (simp add: s room_def)
  moreover have "ol_entries (put_entry e l) ?k = Some x" using assms(3,5) by (simp add: s lookup_entry_def)
  ultimately have "ol_entries l' ?k = Some x \<and> later_keys ?k (ol_order l') = later_keys ?k (ol_order (put_entry e l))"
    using record_keeps [of mx l d e l' d' ?k x] assms(1,2,4) by (simp add: s)
  then show ?thesis using later by (simp add: s lookup_entry_def room_def)
qed

interpretation ledger: operation_store "ledger_ok mx" "\<lambda>k s. lookup_entry k (fst s)" record_entry
  "restart_ledger mx" "room mx" mx for mx
proof unfold_locales
  show "\<exists>s'. record_entry e s = Some s' \<and> ledger_ok mx s'" if "ledger_ok mx s" "plain_entry e" for s e
    using record_ok [of mx "fst s" "snd s" e] that by auto
  show "restart_ledger mx s = Some s" if "ledger_ok mx s" for s
    using restart_ok [of mx "fst s" "snd s"] that by (cases s) (simp add: restart_ledger_def)
qed (use record_saved record_kept in blast)+

end
