(* ===== verification/Wireguard_Safety.thy ===== *)
theory Wireguard_Safety
  imports Wireguard_Driver
begin

text \<open>
  What the WireGuard driver promises. The record is the last-known-good file; the interface is
  in step with it when its live peers are exactly the recorded ones. Under the documented
  behaviour of \<open>wg\<close> (\<open>wg_law\<close>), requests that are served one after the other keep the two in
  step, on success with the changed peer set and on a reported failure with the old one; an
  exception leaves at least the record as it was. Served at the same time, two requests can
  undo each other, because the driver has no lock.
\<close>

subsection \<open>What \<open>wg\<close> does\<close>

definition live_of :: "desired_interface_state \<Rightarrow> string \<Rightarrow> string option" where
  "live_of d key = map_option (\<lambda>p. host_cidr (rp_assigned_address p)) (peer_named d key)"

text \<open>An address belongs to one peer of an interface.\<close>

definition exclusive :: "desired_interface_state \<Rightarrow> bool" where
  "exclusive d \<longleftrightarrow> config_ok d \<and> distinct (map rp_assigned_address (dis_peers d))"

definition wg_law :: "'k wg_host \<Rightarrow> ('k \<Rightarrow> string \<Rightarrow> string option) \<Rightarrow> bool" where
  "wg_law host live \<longleftrightarrow>
     (\<forall>content k out err k' d. wh_syncconf host (Some content) k = (CompletedRun 0 out err, k') \<longrightarrow>
        parse_wireguard_config content = Some d \<longrightarrow> exclusive d \<longrightarrow> live k' = live_of d) \<and>
     (\<forall>k r k'. wh_show_dump host k = (r, k') \<longrightarrow> live k' = live k \<and>
        (\<forall>out err. r = CompletedRun 0 out err \<longrightarrow> live_allowed_ips (parse_show_dump out) = live k)) \<and>
     (\<forall>secret k r k'. wh_pubkey host secret k = (r, k') \<longrightarrow> live k' = live k) \<and>
     (\<forall>k b k'. wh_write host k = (b, k') \<longrightarrow> live k' = live k)"

lemma wg_lawD:
  assumes "wg_law host live"
  shows "wh_syncconf host (Some content) k = (CompletedRun 0 out err, k') \<Longrightarrow>
        parse_wireguard_config content = Some d \<Longrightarrow> exclusive d \<Longrightarrow> live k' = live_of d"
    and "wh_show_dump host k = (r, k') \<Longrightarrow> live k' = live k"
    and "wh_show_dump host k = (CompletedRun 0 out err, k') \<Longrightarrow> live_allowed_ips (parse_show_dump out) = live k"
    and "wh_pubkey host secret k = (r, k') \<Longrightarrow> live k' = live k"
    and "wh_write host k = (b, k') \<Longrightarrow> live k' = live k"
proof -
  note law = assms [unfolded wg_law_def]
  show "wh_syncconf host (Some content) k = (CompletedRun 0 out err, k') \<Longrightarrow>
        parse_wireguard_config content = Some d \<Longrightarrow> exclusive d \<Longrightarrow> live k' = live_of d"
    by (rule law [THEN conjunct1, rule_format])
  show "wh_show_dump host k = (r, k') \<Longrightarrow> live k' = live k"
    by (rule law [THEN conjunct2, THEN conjunct1, rule_format, THEN conjunct1])
  show "wh_show_dump host k = (CompletedRun 0 out err, k') \<Longrightarrow> live_allowed_ips (parse_show_dump out) = live k"
    by (rule law [THEN conjunct2, THEN conjunct1, rule_format, THEN conjunct2, rule_format, OF _ refl])
  show "wh_pubkey host secret k = (r, k') \<Longrightarrow> live k' = live k"
    by (rule law [THEN conjunct2, THEN conjunct2, THEN conjunct1, rule_format])
  show "wh_write host k = (b, k') \<Longrightarrow> live k' = live k"
    by (rule law [THEN conjunct2, THEN conjunct2, THEN conjunct2, rule_format])
qed

subsection \<open>The record and the interface\<close>

definition wg_recorded :: "'k wg_world \<Rightarrow> desired_interface_state \<Rightarrow> bool" where
  "wg_recorded w d \<longleftrightarrow> exclusive d \<and>
     (case ww_last_known_good w of
        None \<Rightarrow> d = no_peers
      | Some content \<Rightarrow> \<exists>i. identity_ok i \<and> content = render_wireguard_config d (Some i))"

definition key_ready :: "'k wg_world \<Rightarrow> bool" where
  "key_ready w \<longleftrightarrow>
     (\<exists>content. ww_private_key_file w = Some content \<and> line_value (strip (universal_newlines content)))"

definition in_step :: "('k \<Rightarrow> string \<Rightarrow> string option) \<Rightarrow> 'k wg_world \<Rightarrow> desired_interface_state \<Rightarrow> bool" where
  "in_step live w d \<longleftrightarrow> wg_recorded w d \<and> key_ready w \<and> live (ww_host w) = live_of d"

lemma exclusive_no_peers: "exclusive no_peers"
  by (simp add: exclusive_def config_ok_def no_peers_def)

lemma exclusive_without: "exclusive d \<Longrightarrow> exclusive (without_peer d key)"
  by (auto simp: exclusive_def without_peer_ok) (simp add: without_peer_def distinct_map_filterI)

lemma parse_rendered:
  assumes "exclusive d" and "identity_ok i"
  shows "parse_wireguard_config (render_wireguard_config d (Some i)) = Some d"
    and "universal_newlines (render_wireguard_config d (Some i)) = render_wireguard_config d (Some i)"
proof -
  have r: "renderable d (Some i)" using assms by (simp add: renderable_def exclusive_def config_ok_def)
  show "universal_newlines (render_wireguard_config d (Some i)) = render_wireguard_config d (Some i)"
    by (rule universal_newlines_id [OF rendered_no_return [OF r]])
  with parse_render [OF r] show "parse_wireguard_config (render_wireguard_config d (Some i)) = Some d" by simp
qed

lemma read_recorded: "wg_recorded w d \<Longrightarrow> read_last_known_good w = (Inr d, w)"
  by (auto simp: wg_recorded_def read_last_known_good_def the_io_simp parse_rendered split: option.splits)

lemma read_bind: "wg_recorded w d \<Longrightarrow> bind_io read_last_known_good k w = k d w"
  by (simp add: bind_io_def read_recorded)

lemma identity_ready:
  assumes "key_ready w"
  obtains i where "interface_identity dr w = (Inr i, w)" "identity_ok i"
  using assms by (auto simp: key_ready_def interface_identity_def identity_ok_def)

text \<open>The text of a rollback is that of the recorded peers.\<close>

lemma rollback_text_recorded:
  assumes "wg_recorded w d" and "identity_ok i"
  shows "parse_wireguard_config (rollback_text i w) = Some d"
  using assms by (auto simp: wg_recorded_def rollback_text_def parse_rendered exclusive_no_peers split: option.splits)

subsection \<open>Steps\<close>

lemma run_tool_cases:
  assumes "run_tool f w = (r, w')"
  obtains (timeout) k where "f (ww_host w) = (TimedOut, k)" "r = Inl SubprocessTimeoutError" "w' = w\<lparr>ww_host := k\<rparr>"
    | (finished) c out err k where "f (ww_host w) = (CompletedRun c out err, k)" "r = Inr (CompletedRun c out err)" "w' = w\<lparr>ww_host := k\<rparr>"
proof (cases "f (ww_host w)")
  case (Pair res k)
  show ?thesis
  proof (cases res)
    case (CompletedRun c out err)
    with Pair assms show ?thesis
      by (intro finished [of c out err k]) (simp_all add: run_tool_def bind_io_def asking_host_def completed_io_def return_io_def)
  next
    case TimedOut
    with Pair assms show ?thesis
      by (intro timeout [of k]) (simp_all add: run_tool_def bind_io_def asking_host_def completed_io_def raise_io_def)
  qed
qed

lemma write_candidate_cases:
  assumes "write_candidate_atomically dr content w = (r, w')"
  obtains (failed) k where "wh_write (wd_host dr) (ww_host w) = (False, k)" "r = Inl OSError" "w' = w\<lparr>ww_host := k\<rparr>"
    | (written) k where "wh_write (wd_host dr) (ww_host w) = (True, k)" "r = Inr ()" "w' = w\<lparr>ww_host := k, ww_candidate := Some content\<rparr>"
proof (cases "wh_write (wd_host dr) (ww_host w)")
  case (Pair b k)
  with assms that show ?thesis
    by (cases b) (auto simp: write_candidate_atomically_def bind_io_def asking_host_def unless_io_simp modify_io_simp)
qed

text \<open>What a step that only touches the candidate and the host keeps.\<close>

lemma recorded_host [simp]:
  "wg_recorded (w\<lparr>ww_host := k\<rparr>) d = wg_recorded w d"
  "wg_recorded (w\<lparr>ww_candidate := c\<rparr>) d = wg_recorded w d"
  "wg_recorded (w\<lparr>ww_server_public_key := s\<rparr>) d = wg_recorded w d"
  "key_ready (w\<lparr>ww_host := k\<rparr>) = key_ready w"
  "key_ready (w\<lparr>ww_candidate := c\<rparr>) = key_ready w"
  "key_ready (w\<lparr>ww_last_known_good := l\<rparr>) = key_ready w"
  "key_ready (w\<lparr>ww_server_public_key := s\<rparr>) = key_ready w"
  by (simp_all add: wg_recorded_def key_ready_def)

lemma rollback_outcome:
  assumes law: "wg_law (wd_host dr) live" and rec: "wg_recorded w d" and key: "key_ready w"
    and run: "rollback dr w = (r, w')"
  shows "wg_recorded w' d \<and> key_ready w' \<and> (r = Inr () \<longrightarrow> in_step live w' d) \<and>
    (\<forall>e. r = Inl e \<longrightarrow> e \<in> {OSError, SubprocessTimeoutError} \<or> (\<exists>m. e = RollbackFailedError m))"
proof -
  obtain i where i: "interface_identity dr w = (Inr i, w)" "identity_ok i" using identity_ready [OF key] .
  obtain r1 w1 where wr: "write_candidate_atomically dr (rollback_text i w) w = (r1, w1)" by fastforce
  show ?thesis
    using wr
  proof (cases rule: write_candidate_cases)
    case (failed k)
    then show ?thesis using run i wr rec key by (auto simp: rollback_def bind_io_def reads_io_def)
  next
    case (written k)
    obtain r2 w2 where sy: "run_tool (wh_syncconf (wd_host dr) (Some (rollback_text i w))) w1 = (r2, w2)" by fastforce
    have sc: "run_syncconf dr w1 = (r2, w2)" using sy written(3) by (simp add: run_syncconf_def)
    show ?thesis
      using sy
    proof (cases rule: run_tool_cases)
      case (timeout k2)
      then show ?thesis
        using run i wr sc written rec key by (auto simp: rollback_def bind_io_def reads_io_def)
    next
      case (finished c out err k2)
      have "live k2 = live_of d" if "c = 0"
        using wg_lawD(1) [OF law] finished(1) that rollback_text_recorded [OF rec i(2)] rec
        by (auto simp: wg_recorded_def)
      moreover have "(r, w') = (if c = 0 then Inr () else Inl (RollbackFailedError (strip err)), w2)"
        using run i wr sc written(2) finished(2) by (simp add: rollback_def bind_io_def reads_io_def unless_io_simp)
      moreover have "wg_recorded w2 d" "key_ready w2" "ww_host w2 = k2" using finished(3) written(3) rec key by simp_all
      ultimately show ?thesis by (auto simp: in_step_def split: if_splits)
    qed
  qed
qed

text \<open>Applying a peer set: it is in force, or the old one is, or an exception left the record alone.\<close>

lemma apply_delta_outcome:
  assumes law: "wg_law (wd_host dr) live" and step: "in_step live w d" and new: "exclusive d'"
    and run: "apply_delta dr d' w = (r, w')"
  shows "(r = Inr () \<longrightarrow> in_step live w' d') \<and> (\<forall>m. r = Inl (ApplyError m) \<longrightarrow> in_step live w' d) \<and>
    (\<forall>e. r = Inl e \<longrightarrow> wg_recorded w' d \<and> key_ready w' \<and> (\<forall>m. e \<noteq> ValidationError m) \<and>
      e \<notin> {ValueError, TypeError, AttributeError, KeyError, NotReturned})"
proof -
  have rec: "wg_recorded w d" and key: "key_ready w" using step by (auto simp: in_step_def)
  obtain i where i: "interface_identity dr w = (Inr i, w)" "identity_ok i" using identity_ready [OF key] .
  let ?t = "render_wireguard_config d' (Some i)"
  obtain r1 w1 where wr: "write_candidate_atomically dr ?t w = (r1, w1)" by fastforce
  have prep: "apply_prepare dr d' w = (r1, w1)" using i wr by (simp add: apply_prepare_def bind_io_def)
  show ?thesis
    using wr
  proof (cases rule: write_candidate_cases)
    case (failed k)
    then show ?thesis using run prep rec key by (auto simp: apply_delta_def bind_io_def)
  next
    case (written k)
    obtain r2 w2 where sy: "run_tool (wh_syncconf (wd_host dr) (Some ?t)) w1 = (r2, w2)" by fastforce
    have sc: "run_syncconf dr w1 = (r2, w2)" using sy written(3) by (simp add: run_syncconf_def)
    show ?thesis
      using sy
    proof (cases rule: run_tool_cases)
      case (timeout k2)
      then show ?thesis using run prep sc written rec key by (auto simp: apply_delta_def bind_io_def)
    next
      case (finished c out err k2)
      show ?thesis
      proof (cases "c = 0")
        case True
        have live: "live k2 = live_of d'"
          using wg_lawD(1) [OF law] finished(1) True parse_rendered(1) [OF new i(2)] new by blast
        have w': "r = Inr ()" "w' = w2\<lparr>ww_last_known_good := Some ?t, ww_candidate := None\<rparr>"
          using run prep sc written finished True
          by (auto simp: apply_delta_def bind_io_def apply_settle_def promote_candidate_to_last_known_good_def)
        have "wg_recorded w' d'" using new i(2) by (auto simp: wg_recorded_def w')
        with live key w' finished written show ?thesis by (simp add: in_step_def)
      next
        case False
        obtain r3 w3 where rb: "rollback dr w2 = (r3, w3)" by fastforce
        have "wg_recorded w2 d" "key_ready w2" using finished written rec key by simp_all
        note out = rollback_outcome [OF law this rb]
        have "apply_delta dr d' w = bind_io (rollback dr) (\<lambda>_. raise_io (ApplyError (strip err))) w2"
          using prep sc written(2) finished(2) False by (simp add: apply_delta_def bind_io_def apply_settle_def)
        then have "(r, w') = (case r3 of Inl e \<Rightarrow> (Inl e, w3) | Inr _ \<Rightarrow> (Inl (ApplyError (strip err)), w3))"
          using run rb by (cases r3) (simp_all add: bind_io_def raise_io_simp)
        note result = this
        show ?thesis
        proof (cases r3)
          case (Inl e)
          with out result show ?thesis by (elim conjE) auto
        next
          case (Inr u)
          with out result show ?thesis by simp
        qed
      qed
    qed
  qed
qed

subsection \<open>Requests\<close>

datatype wg_request =
    ProvisionDevice agent_provision_request
  | RevokeDevice agent_revoke_request
  | EnableDevice agent_enable_request
  | DisableDevice agent_revoke_request

definition plain_response :: "'a agent_response_scheme \<Rightarrow> agent_response" where
  "plain_response r = change_response (ar_state r) (ar_applied_generation r) (ar_error_code r)"

fun serve :: "'k wg_driver \<Rightarrow> wg_request \<Rightarrow> ('k wg_world, agent_response) io" where
  "serve dr (ProvisionDevice q) = bind_io (provision_device dr q) (\<lambda>r. return_io (plain_response r))"
| "serve dr (RevokeDevice q) = bind_io (revoke_device dr q) (\<lambda>r. return_io (plain_response r))"
| "serve dr (EnableDevice q) = enable_device dr q"
| "serve dr (DisableDevice q) = disable_device dr q"

text \<open>What a request asks for, as a change of the peer set.\<close>

fun requested_change :: "wg_request \<Rightarrow> desired_interface_state \<Rightarrow> desired_interface_state" where
  "requested_change (ProvisionDevice q) d = with_peer d (requested_peer q)"
| "requested_change (RevokeDevice q) d = without_peer d (avq_public_key q)"
| "requested_change (EnableDevice q) d = with_peer d (enabled_peer q)"
| "requested_change (DisableDevice q) d = without_peer d (avq_public_key q)"

fun request_key :: "wg_request \<Rightarrow> string" where
  "request_key (ProvisionDevice q) = apq_public_key q"
| "request_key (RevokeDevice q) = avq_public_key q"
| "request_key (EnableDevice q) = aeq_public_key q"
| "request_key (DisableDevice q) = avq_public_key q"

fun request_generation :: "wg_request \<Rightarrow> int" where
  "request_generation (ProvisionDevice q) = apq_desired_generation q"
| "request_generation (RevokeDevice q) = avq_desired_generation q"
| "request_generation (EnableDevice q) = aeq_desired_generation q"
| "request_generation (DisableDevice q) = avq_desired_generation q"

text \<open>
  A request fits the peers it meets when its key passed validation and its address belongs to no
  other peer: the control plane gives an address to one live peer of a server only.
\<close>

definition peer_fits :: "rendered_peer \<Rightarrow> desired_interface_state \<Rightarrow> bool" where
  "peer_fits p d \<longleftrightarrow> validate_public_key (rp_public_key p) \<and> ip_ok (rp_assigned_address p) \<and>
     (\<forall>q\<in>set (dis_peers d). rp_assigned_address q = rp_assigned_address p \<longrightarrow> rp_public_key q = rp_public_key p)"

fun request_fits :: "wg_request \<Rightarrow> desired_interface_state \<Rightarrow> bool" where
  "request_fits (ProvisionDevice q) d = peer_fits (requested_peer q) d"
| "request_fits (RevokeDevice q) d = True"
| "request_fits (EnableDevice q) d = peer_fits (enabled_peer q) d"
| "request_fits (DisableDevice q) d = True"

lemma exclusive_with: "exclusive d \<Longrightarrow> peer_fits p d \<Longrightarrow> exclusive (with_peer d p)"
proof -
  assume d: "exclusive d" and p: "peer_fits p d"
  then have "peer_ok p" by (simp add: peer_fits_def peer_ok_def validated_key_line_value)
  then have "config_ok (with_peer d p)" using d by (simp add: exclusive_def with_peer_ok)
  moreover have "distinct (map rp_assigned_address (dis_peers (with_peer d p)))"
    using d p by (auto simp: exclusive_def with_peer_def peer_fits_def distinct_map_filterI)
  ultimately show ?thesis by (simp add: exclusive_def)
qed

lemma exclusive_change: "exclusive d \<Longrightarrow> request_fits req d \<Longrightarrow> exclusive (requested_change req d)"
  by (cases req) (simp_all add: exclusive_with exclusive_without)

lemma server_pubkey_outcome:
  assumes law: "wg_law (wd_host dr) live" and step: "in_step live w d" and run: "server_pubkey dr w = (r, w')"
  shows "in_step live w' d"
proof (cases "ww_server_public_key w")
  case (Some key)
  with run step show ?thesis by (simp add: server_pubkey_def)
next
  case None
  obtain secret where s: "ww_private_key_file w = Some secret" using step by (auto simp: in_step_def key_ready_def)
  obtain r1 w1 where t: "run_tool (wh_pubkey (wd_host dr) secret) w = (r1, w1)" by fastforce
  then have "in_step live w1 d"
    by (cases rule: run_tool_cases) (use step wg_lawD(4) [OF law] in \<open>auto simp: in_step_def\<close>)
  moreover have "w' = w1 \<or> (\<exists>x. w' = w1\<lparr>ww_server_public_key := x\<rparr>)"
    using run None s t
    by (cases r1) (auto simp: server_pubkey_def bind_io_def the_io_simp unless_io_simp modify_io_simp return_io_simp
        split: if_splits)
  ultimately show ?thesis by (auto simp: in_step_def)
qed

text \<open>Trying to apply a peer set and answering for it, common to the four requests.\<close>

lemma try_apply_outcome:
  assumes law: "wg_law (wd_host dr) live" and step: "in_step live w d" and new: "exclusive d'"
    and run: "try_io (bind_io (apply_delta dr d') (\<lambda>_. good)) handler w = (r, w')"
    and handler: "\<And>m. handler (ApplyError m) = Some bad" "handler OSError = None"
      "handler SubprocessTimeoutError = None" "\<And>m. handler (RollbackFailedError m) = None"
    and good: "\<And>w1. good w1 = (Inr (g w1), w1)" and bad: "\<And>w1. bad w1 = (Inr (b w1), w1)"
  shows "(r = Inr (g w') \<and> in_step live w' d') \<or> (r = Inr (b w') \<and> in_step live w' d) \<or>
    (\<exists>e. r = Inl e \<and> wg_recorded w' d)"
proof -
  obtain r1 w1 where a: "apply_delta dr d' w = (r1, w1)" by fastforce
  note out = apply_delta_outcome [OF law step new a]
  show ?thesis
  proof (cases r1)
    case (Inr u)
    then have "r = Inr (g w')" "w' = w1" using run a good by (auto simp: try_io_def bind_io_def)
    with out Inr show ?thesis by simp
  next
    case (Inl e)
    then have res: "(r, w') = (case handler e of None \<Rightarrow> (Inl e, w1) | Some h \<Rightarrow> h w1)"
      using run a by (simp add: try_io_def bind_io_def)
    show ?thesis
    proof (cases e)
      case (ApplyError m)
      with res handler bad have "r = Inr (b w')" "w' = w1" by simp_all
      with out Inl ApplyError show ?thesis by simp
    qed (use out Inl res handler in auto)
  qed
qed

fun success_state :: "wg_request \<Rightarrow> string" where
  "success_state (ProvisionDevice q) = ''active''"
| "success_state (RevokeDevice q) = ''revoked''"
| "success_state (EnableDevice q) = ''enabled''"
| "success_state (DisableDevice q) = ''disabled''"

text \<open>A request that is served ends in one of three ways.\<close>

definition served_well ::
  "('k \<Rightarrow> string \<Rightarrow> string option) \<Rightarrow> wg_request \<Rightarrow> desired_interface_state \<Rightarrow>
   (driver_error, agent_response) result \<Rightarrow> 'k wg_world \<Rightarrow> bool" where
  "served_well live req d r w' \<longleftrightarrow>
     (case r of
        Inr a \<Rightarrow>
          a = change_response (success_state req) (request_generation req) None \<and>
            in_step live w' (requested_change req d) \<or>
          a = change_response ''failed'' (last_applied_generation d (request_key req)) (Some ''apply_failed'') \<and>
            in_step live w' d
      | Inl e \<Rightarrow> wg_recorded w' d)"

lemma served_wellI:
  assumes "(r = Inr (change_response (success_state req) (request_generation req) None) \<and> in_step live w' (requested_change req d)) \<or>
      (r = Inr (change_response ''failed'' (last_applied_generation d (request_key req)) (Some ''apply_failed'')) \<and>
       in_step live w' d) \<or> (\<exists>e. r = Inl e \<and> wg_recorded w' d)"
  shows "served_well live req d r w'"
  using assms by (auto simp: served_well_def)

lemma serve_change:
  assumes law: "wg_law (wd_host dr) live" and step: "in_step live w d" and fits: "request_fits req d"
    and run: "serve dr req w = (r, w')"
  shows "served_well live req d r w'"
proof -
  have rec: "wg_recorded w d" using step by (simp add: in_step_def)
  note read = read_recorded [OF rec]
  have excl: "exclusive (requested_change req d)"
    using rec fits by (intro exclusive_change) (auto simp: wg_recorded_def)
  show ?thesis
  proof (cases req)
    case (ProvisionDevice q)
    show ?thesis
    proof (cases "address_in_network (rp_assigned_address (requested_peer q)) (wgs_client_pool (wd_settings dr))")
      case False
      then have "r = Inl (ValidationError ''assigned_address is outside wg_client_pool'') \<and> w' = w"
        using run ProvisionDevice
        by (simp add: provision_device_def provision_begin_def validate_address_in_client_pool_def bind_io_def unless_io_simp)
      with rec show ?thesis by (simp add: served_well_def)
    next
      case True
      obtain rk wk where pk: "server_pubkey dr w = (rk, wk)" by fastforce
      note stepk = server_pubkey_outcome [OF law step pk]
      have begun: "provision_begin dr q w = (case rk of Inl e \<Rightarrow> (Inl e, wk) | Inr key \<Rightarrow> (Inr (d, key), wk))"
        using True read pk
        by (cases rk) (simp_all add: provision_begin_def validate_address_in_client_pool_def bind_io_def unless_io_simp return_io_simp)
      show ?thesis
      proof (cases rk)
        case (Inl e)
        then have "r = Inl e \<and> w' = wk"
          using run ProvisionDevice begun by (simp add: provision_device_def bind_io_def)
        with stepk show ?thesis by (simp add: served_well_def in_step_def)
      next
        case (Inr key)
        let ?good = "provision_response (wd_settings dr) key ''active'' (apq_desired_generation q) None"
        let ?bad = "provision_response (wd_settings dr) key ''failed'' (last_applied_generation d (apq_public_key q)) (Some ''apply_failed'')"
        obtain rp wp where t: "try_io (bind_io (apply_delta dr (requested_change req d)) (\<lambda>_. return_io ?good))
            (apply_failure ?bad) wk = (rp, wp)" by fastforce
        have out: "(rp = Inr ?good \<and> in_step live wp (requested_change req d)) \<or> (rp = Inr ?bad \<and> in_step live wp d) \<or>
            (\<exists>e. rp = Inl e \<and> wg_recorded wp d)"
          by (rule try_apply_outcome [OF law stepk excl t, where bad = "return_io ?bad"]) (simp_all add: return_io_simp)
        have "r = map_sum id plain_response rp \<and> w' = wp"
          using run ProvisionDevice begun Inr t
          by (cases rp) (auto simp: provision_device_def provision_apply_def bind_io_def return_io_simp)
        with out show ?thesis
          by (intro served_wellI)
             (auto simp: ProvisionDevice plain_response_def provision_response_def)
      qed
    qed
  next
    case (RevokeDevice q)
    let ?good = "\<lambda>w. \<lparr>ar_state = ''revoked'', ar_applied_generation = avq_desired_generation q,
          ar_error_code = None, avr_revoked_at = wh_now (wd_host dr) (ww_host w)\<rparr>"
    let ?bad = "\<lambda>w. \<lparr>ar_state = ''failed'',
          ar_applied_generation = last_applied_generation d (avq_public_key q),
          ar_error_code = Some ''apply_failed'', avr_revoked_at = wh_now (wd_host dr) (ww_host w)\<rparr>"
    let ?h = "\<lambda>e. map_option (\<lambda>_. reads_io ?bad) (apply_failure () e :: ('a wg_world, unit) io option)"
    obtain rp wp where t: "try_io (bind_io (apply_delta dr (requested_change req d)) (\<lambda>_. reads_io ?good)) ?h w = (rp, wp)"
      by fastforce
    have out: "(rp = Inr (?good wp) \<and> in_step live wp (requested_change req d)) \<or> (rp = Inr (?bad wp) \<and> in_step live wp d) \<or>
        (\<exists>e. rp = Inl e \<and> wg_recorded wp d)"
      by (rule try_apply_outcome [OF law step excl t, where bad = "reads_io ?bad"]) (simp_all add: reads_io_simp)
    have "revoke_device dr q w = (rp, wp)"
      using t RevokeDevice by (simp add: revoke_device_def read_bind [OF rec])
    then have "r = map_sum id plain_response rp \<and> w' = wp"
      using run RevokeDevice by (cases rp) (auto simp: bind_io_def return_io_simp)
    with out show ?thesis
      by (intro served_wellI) (auto simp: RevokeDevice plain_response_def)
  next
    case (EnableDevice q)
    let ?good = "change_response ''enabled'' (aeq_desired_generation q) None"
    let ?bad = "change_response ''failed'' (last_applied_generation d (aeq_public_key q)) (Some ''apply_failed'')"
    show ?thesis
    proof (cases "address_in_network (rp_assigned_address (enabled_peer q)) (wgs_client_pool (wd_settings dr))")
      case False
      then have "r = Inl (ValidationError ''assigned_address is outside wg_client_pool'') \<and> w' = w"
        using run EnableDevice
        by (simp add: enable_device_def validate_address_in_client_pool_def bind_io_def unless_io_simp)
      with rec show ?thesis by (simp add: served_well_def)
    next
      case True
      then have "validate_address_in_client_pool (wd_settings dr) (enabled_peer q) w = (Inr (), w)"
        by (simp add: validate_address_in_client_pool_def unless_io_simp)
      then have t: "try_io (bind_io (apply_delta dr (requested_change req d)) (\<lambda>_. return_io ?good)) (apply_failure ?bad) w = (r, w')"
        using run EnableDevice by (simp add: enable_device_def read_bind [OF rec] bind_io_Inr)
      show ?thesis
        using try_apply_outcome [OF law step excl t, where bad = "return_io ?bad"]
        by (intro served_wellI) (simp_all add: return_io_simp EnableDevice)
    qed
  next
    case (DisableDevice q)
    let ?good = "change_response ''disabled'' (avq_desired_generation q) None"
    let ?bad = "change_response ''failed'' (last_applied_generation d (avq_public_key q)) (Some ''apply_failed'')"
    have t: "try_io (bind_io (apply_delta dr (requested_change req d)) (\<lambda>_. return_io ?good)) (apply_failure ?bad) w = (r, w')"
      using run DisableDevice by (simp add: disable_device_def read_bind [OF rec])
    show ?thesis
      using try_apply_outcome [OF law step excl t, where bad = "return_io ?bad"]
      by (intro served_wellI) (simp_all add: return_io_simp DisableDevice)
  qed
qed

end
