(* ===== verification/Wireguard_Claims.thy ===== *)
theory Wireguard_Claims
  imports Wireguard_Safety
begin

text \<open>
  The properties of the WireGuard side of the agent, the in-memory driver of \<open>drivers/fake.py\<close>
  that stands in for the native one, and two schedules in which the native driver goes wrong:
  two requests at once, and a \<open>wg\<close> that does not finish in time.
\<close>

subsection \<open>The fake driver\<close>

record fake_wg =
  fw_settings :: wg_settings
  fw_server_public_key :: string
  fw_state :: desired_interface_state
  fw_fail_next :: bool
  fw_config_store :: bool
  fw_last_known_good :: "string option"

definition fake_restart :: "fake_wg \<Rightarrow> fake_wg option" where
  "fake_restart f =
     (if \<not> fw_config_store f then Some (f\<lparr>fw_state := no_peers, fw_fail_next := False\<rparr>)
      else case fw_last_known_good f of
        None \<Rightarrow> Some (f\<lparr>fw_state := no_peers, fw_fail_next := False\<rparr>)
      | Some content \<Rightarrow>
          map_option (\<lambda>d. f\<lparr>fw_state := d, fw_fail_next := False\<rparr>)
            (parse_wireguard_config (universal_newlines content)))"

definition fake_apply :: "desired_interface_state \<Rightarrow> (fake_wg, unit) io" where
  "fake_apply new_state f =
     (if fw_fail_next f then (Inl (ApplyError ''simulated apply failure''), f\<lparr>fw_fail_next := False\<rparr>)
      else (Inr (), f\<lparr>fw_state := new_state,
        fw_last_known_good := (if fw_config_store f then Some (render_wireguard_config new_state None)
                               else fw_last_known_good f)\<rparr>))"

definition fake_answer ::
  "desired_interface_state \<Rightarrow> string \<Rightarrow> string \<Rightarrow> int \<Rightarrow> (fake_wg, agent_response) io" where
  "fake_answer new_state key state generation f =
     try_io (bind_io (fake_apply new_state) (\<lambda>_. return_io (change_response state generation None)))
       (apply_failure (change_response ''failed'' (last_applied_generation (fw_state f) key) (Some ''apply_failed''))) f"

definition fake_provision_device :: "agent_provision_request \<Rightarrow> (fake_wg, agent_provision_response) io" where
  "fake_provision_device q f =
     bind_io (fake_answer (with_peer (fw_state f) (requested_peer q)) (apq_public_key q) ''active'' (apq_desired_generation q))
       (\<lambda>r. return_io (provision_response (fw_settings f) (fw_server_public_key f)
              (ar_state r) (ar_applied_generation r) (ar_error_code r))) f"

text \<open>The time stamp of the answer is left out here; the native driver has it.\<close>

definition fake_revoke_device :: "agent_revoke_request \<Rightarrow> (fake_wg, agent_response) io" where
  "fake_revoke_device q f =
     fake_answer (without_peer (fw_state f) (avq_public_key q)) (avq_public_key q) ''revoked'' (avq_desired_generation q) f"

definition fake_enable_device :: "agent_enable_request \<Rightarrow> (fake_wg, agent_response) io" where
  "fake_enable_device q f =
     fake_answer (with_peer (fw_state f) (enabled_peer q)) (aeq_public_key q) ''enabled'' (aeq_desired_generation q) f"

definition fake_disable_device :: "agent_revoke_request \<Rightarrow> (fake_wg, agent_response) io" where
  "fake_disable_device q f =
     fake_answer (without_peer (fw_state f) (avq_public_key q)) (avq_public_key q) ''disabled'' (avq_desired_generation q) f"

definition fake_reconcile :: "agent_reconcile_request \<Rightarrow> fake_wg \<Rightarrow> agent_reconcile_response" where
  "fake_reconcile q f =
     (case peer_named (fw_state f) (arq_public_key q) of
        None \<Rightarrow> reconcile_answer ''drift_detected'' None None
      | Some p \<Rightarrow>
          if rp_assigned_address p \<noteq> arq_assigned_address q
          then reconcile_answer ''ambiguous'' (Some (rp_generation p)) None
          else reconcile_answer ''in_sync'' (Some (rp_generation p)) None)"

fun fake_serve :: "wg_request \<Rightarrow> (fake_wg, agent_response) io" where
  "fake_serve (ProvisionDevice q) = bind_io (fake_provision_device q) (\<lambda>r. return_io (plain_response r))"
| "fake_serve (RevokeDevice q) = fake_revoke_device q"
| "fake_serve (EnableDevice q) = fake_enable_device q"
| "fake_serve (DisableDevice q) = fake_disable_device q"

lemma fake_serve_answer:
  "fake_serve req f = fake_answer (requested_change req (fw_state f)) (request_key req) (success_state req) (request_generation req) f"
  by (cases req)
     (auto simp: fake_provision_device_def fake_revoke_device_def fake_enable_device_def fake_disable_device_def
        fake_answer_def fake_apply_def try_io_def bind_io_def return_io_simp plain_response_def provision_response_def
        change_response_def split: sum.splits prod.splits)

lemma fake_serve_result:
  "fake_serve req f =
     (if fw_fail_next f
      then (Inr (change_response ''failed'' (last_applied_generation (fw_state f) (request_key req)) (Some ''apply_failed'')),
            f\<lparr>fw_fail_next := False\<rparr>)
      else (Inr (change_response (success_state req) (request_generation req) None),
            snd (fake_apply (requested_change req (fw_state f)) f)))"
  unfolding fake_serve_answer
  by (simp add: fake_answer_def fake_apply_def try_io_def bind_io_def return_io_simp)

subsection \<open>Two requests at once\<close>

text \<open>
  The first request is waiting for its \<open>wg\<close> to be reaped when the second one starts: it reads
  the record, which does not have the first peer yet, and writes its candidate over the first
  one's. Then the first settles, and then the second.
\<close>

definition two_at_once ::
  "'k wg_driver \<Rightarrow> agent_provision_request \<Rightarrow> agent_provision_request \<Rightarrow>
   ('k wg_world, agent_provision_response \<times> agent_provision_response) io" where
  "two_at_once dr q1 q2 =
     bind_io (provision_begin dr q1) (\<lambda>(current1, key1).
     bind_io (apply_prepare dr (with_peer current1 (requested_peer q1))) (\<lambda>_.
     bind_io (run_syncconf dr) (\<lambda>result1.
     bind_io (provision_begin dr q2) (\<lambda>(current2, key2).
     bind_io (apply_prepare dr (with_peer current2 (requested_peer q2))) (\<lambda>_.
     bind_io (provision_apply dr q1 current1 key1 (apply_settle dr result1)) (\<lambda>answer1.
     bind_io (provision_apply dr q2 current2 key2 (bind_io (run_syncconf dr) (apply_settle dr))) (\<lambda>answer2.
     return_io (answer1, answer2))))))))"

text \<open>A host on which everything works, and a missing file is an error.\<close>

definition host_works :: "'k wg_host \<Rightarrow> bool" where
  "host_works host \<longleftrightarrow>
     (\<forall>k. wh_write host k = (True, k)) \<and>
     (\<forall>content k. \<exists>out err k'. wh_syncconf host (Some content) k = (CompletedRun 0 out err, k')) \<and>
     (\<forall>k. \<exists>c out err. c \<noteq> 0 \<and> wh_syncconf host None k = (CompletedRun c out err, k))"

lemma write_works: "host_works (wd_host dr) \<Longrightarrow> write_candidate_atomically dr content w = (Inr (), w\<lparr>ww_candidate := Some content\<rparr>)"
  by (simp add: host_works_def write_candidate_atomically_def bind_io_def asking_host_def unless_io_simp modify_io_simp)

lemma peer_named_no_peers: "peer_named no_peers key = None"
  by (simp add: peer_named_def no_peers_def)

lemma syncconf_works:
  assumes "host_works (wd_host dr)" and "ww_candidate w = Some content"
  shows "\<exists>out err k'. run_syncconf dr w = (Inr (CompletedRun 0 out err), w\<lparr>ww_host := k'\<rparr>)"
proof -
  obtain out err k' where "wh_syncconf (wd_host dr) (Some content) (ww_host w) = (CompletedRun 0 out err, k')"
    using assms(1) unfolding host_works_def by blast
  with assms(2) show ?thesis
    by (auto simp: run_syncconf_def run_tool_def bind_io_def asking_host_def completed_io_def return_io_simp)
qed

lemma syncconf_missing:
  assumes "host_works (wd_host dr)" and "ww_candidate w = None"
  shows "\<exists>c out err. c \<noteq> 0 \<and> run_syncconf dr w = (Inr (CompletedRun c out err), w)"
proof -
  obtain c out err where "c \<noteq> 0" "wh_syncconf (wd_host dr) None (ww_host w) = (CompletedRun c out err, ww_host w)"
    using assms(1) unfolding host_works_def by blast
  with assms(2) show ?thesis
    by (simp add: run_syncconf_def run_tool_def bind_io_def asking_host_def completed_io_def return_io_simp)
qed

lemma prepare_works:
  assumes "host_works (wd_host dr)" and "interface_identity dr w = (Inr i, w)"
  shows "apply_prepare dr d w = (Inr (), w\<lparr>ww_candidate := Some (render_wireguard_config d (Some i))\<rparr>)"
  using assms by (simp add: apply_prepare_def bind_io_def write_works)

lemma identity_same_file:
  assumes "interface_identity dr w = (Inr i, w)" and "ww_private_key_file v = ww_private_key_file w"
  shows "interface_identity dr v = (Inr i, v)"
  using assms by (auto simp: interface_identity_def split: option.splits)

lemma begin_cached:
  assumes "wg_recorded w d" and "ww_server_public_key w = Some key"
    and "address_in_network (apq_assigned_address q) (wgs_client_pool (wd_settings dr))"
  shows "provision_begin dr q w = (Inr (d, key), w)"
  using assms
  by (simp add: provision_begin_def bind_io_def validate_address_in_client_pool_def unless_io_simp requested_peer_def
      read_recorded server_pubkey_def return_io_simp)

lemma rollback_works:
  assumes law: "wg_law (wd_host dr) live" and works: "host_works (wd_host dr)" and rec: "wg_recorded w d" and ready: "key_ready w"
  shows "\<exists>w'. rollback dr w = (Inr (), w') \<and> in_step live w' d"
proof -
  obtain i where i: "interface_identity dr w = (Inr i, w)" using identity_ready [OF ready] by blast
  let ?v = "w\<lparr>ww_candidate := Some (rollback_text i w)\<rparr>"
  obtain out err k' where "run_syncconf dr ?v = (Inr (CompletedRun 0 out err), ?v\<lparr>ww_host := k'\<rparr>)"
    using syncconf_works [OF works, of ?v] by auto
  then have "rollback dr w = (Inr (), ?v\<lparr>ww_host := k'\<rparr>)"
    by (simp add: rollback_def bind_io_def i reads_io_simp write_works [OF works] unless_io_simp)
  with rollback_outcome [OF law rec ready this] show ?thesis by blast
qed

subsection \<open>A host for the examples\<close>

text \<open>A \<open>wg\<close> that accepts every configuration and remembers the last one.\<close>

definition text_host :: "string wg_host" where
  "text_host = \<lparr>
     wh_syncconf = (\<lambda>content k. case content of
        None \<Rightarrow> (CompletedRun 1 [] ''fopen: No such file or directory'', k)
      | Some t \<Rightarrow> (CompletedRun 0 [] [], t)),
     wh_show_dump = (\<lambda>k. (CompletedRun 1 [] ''Unable to access interface'', k)),
     wh_pubkey = (\<lambda>secret k. (CompletedRun 0 ''server'' [], k)),
     wh_write = (\<lambda>k. (True, k)),
     wh_now = (\<lambda>k. 0)\<rparr>"

definition text_live :: "string \<Rightarrow> string \<Rightarrow> string option" where
  "text_live k = (case parse_wireguard_config k of None \<Rightarrow> (\<lambda>_. None) | Some d \<Rightarrow> live_of d)"

lemma text_host_law: "wg_law text_host text_live"
  by (simp add: wg_law_def text_host_def text_live_def)

lemma text_host_works: "host_works text_host"
  by (simp add: host_works_def text_host_def)

definition ex_wg_settings :: wg_settings where
  "ex_wg_settings = \<lparr>wgs_client_pool = \<lparr>net_version = V4, net_address = 172818432, net_prefixlen = 24\<rparr>,
     wgs_listen_port = 51820, wgs_public_endpoint = ''vpn.test:51820'', wgs_client_dns = ''1.1.1.1'',
     wgs_client_allowed_ips = ''0.0.0.0/0'', wgs_persistent_keepalive_seconds = 25\<rparr>"

definition ex_wg_driver :: "string wg_driver" where
  "ex_wg_driver = \<lparr>wd_settings = ex_wg_settings, wd_host = text_host\<rparr>"

definition ex_wg_world :: "string wg_world" where
  "ex_wg_world = \<lparr>ww_last_known_good = None, ww_candidate = None, ww_private_key_file = Some ''secret'',
     ww_server_public_key = Some ''server'', ww_host = []\<rparr>"

definition ex_wg_key :: "char \<Rightarrow> string" where
  "ex_wg_key c = replicate 43 c @ ''=''"

definition ex_provision :: "char \<Rightarrow> int \<Rightarrow> agent_provision_request" where
  "ex_provision c n = \<lparr>apq_idempotency_key = 1, apq_target_id = 2, apq_desired_generation = 1, apq_public_key = ex_wg_key c,
     apq_assigned_address = IPv4Address (172818432 + n), apq_persistent_keepalive_seconds = None\<rparr>"

lemma ex_wg_key_valid: "is_base64 c \<Longrightarrow> c \<noteq> CHR ''A'' \<Longrightarrow> validate_public_key (ex_wg_key c)"
  by (simp add: validate_public_key_def ex_wg_key_def ALL_ZERO_PUBLIC_KEY_def list_all_iff numeral_eq_Suc)

lemma ex_world_in_step: "in_step text_live ex_wg_world no_peers"
proof -
  have "line_value ''secret''" by (simp add: line_value_def is_space_def line_break_def)
  moreover have "strip (universal_newlines ''secret'') = ''secret''"
    by (simp add: strip_stripped stripped_def is_space_def)
  ultimately have "key_ready ex_wg_world" by (simp add: key_ready_def ex_wg_world_def)
  moreover have "text_live [] = live_of no_peers"
    by (simp add: text_live_def parse_wireguard_config_def splitlines_def flush_peer_def start_parser_def no_peers_def)
  ultimately show ?thesis
    by (simp add: in_step_def wg_recorded_def exclusive_no_peers) (simp add: ex_wg_world_def)
qed

lemma ex_provision_fits:
  "is_base64 c \<Longrightarrow> c \<noteq> CHR ''A'' \<Longrightarrow> 0 \<le> n \<Longrightarrow> n < 256 \<Longrightarrow> peer_fits (requested_peer (ex_provision c n)) no_peers"
  by (simp add: peer_fits_def requested_peer_def ex_provision_def ex_wg_key_valid no_peers_def)

lemma base64_examples: "is_base64 CHR ''B''" "is_base64 CHR ''C''"
  by (simp_all add: is_base64_def)

lemma ex_serve:
  "\<exists>w'. serve ex_wg_driver (ProvisionDevice (ex_provision CHR ''B'' 7)) ex_wg_world =
     (Inr (change_response ''active'' 1 None), w')"
  by (simp add: provision_device_def provision_begin_def validate_address_in_client_pool_def bind_io_def
        unless_io_simp address_in_network_def requested_peer_def ex_provision_def ex_wg_driver_def ex_wg_settings_def
        net_size_def read_last_known_good_def ex_wg_world_def server_pubkey_def return_io_simp provision_apply_def
        try_io_def apply_delta_def apply_prepare_def interface_identity_def write_candidate_atomically_def asking_host_def
        text_host_def modify_io_simp run_syncconf_def run_tool_def completed_io_def apply_settle_def
        promote_candidate_to_last_known_good_def plain_response_def provision_response_def)

subsection \<open>Properties\<close>

text \<open>
  C26. The configuration file is a faithful record. Whatever peers were rendered, with IPv4 or
  IPv6 addresses, with or without keepalive and interface block, reading the file back gives
  exactly those peers, in order and with their generations.
\<close>

theorem config_file_roundtrip:
  assumes "\<forall>p\<in>set (dis_peers d). validate_public_key (rp_public_key p) \<and> ip_ok (rp_assigned_address p)"
    and "\<forall>i. interface = Some i \<longrightarrow> line_value (wi_private_key i)"
  shows "parse_wireguard_config (universal_newlines (render_wireguard_config d interface)) = Some d"
  using assms
  by (intro parse_render)
     (auto simp: renderable_def list_all_iff peer_ok_def identity_ok_def validated_key_line_value)

theorem config_file_roundtrip_witness:
  "parse_wireguard_config (universal_newlines (render_wireguard_config
     \<lparr>dis_peers = [requested_peer (ex_provision CHR ''B'' 7)]\<rparr> (Some \<lparr>wi_private_key = ''secret'', wi_listen_port = 51820\<rparr>))) =
   Some \<lparr>dis_peers = [requested_peer (ex_provision CHR ''B'' 7)]\<rparr>"
proof (rule config_file_roundtrip)
  show "\<forall>i. Some \<lparr>wi_private_key = ''secret'', wi_listen_port = 51820\<rparr> = Some i \<longrightarrow> line_value (wi_private_key i)"
    by (simp add: line_value_def is_space_def line_break_def)
qed (simp add: requested_peer_def ex_provision_def ex_wg_key_valid base64_examples)

text \<open>
  C7. A request served on its own keeps the interface and the record in step. If it answers
  with success, both now have exactly the requested change, at the requested generation; if it
  answers \<open>failed\<close>, both are as before and the answer names the generation the peer is still
  at; if it raises, the record is as before.
\<close>

theorem request_keeps_in_step:
  assumes "wg_law (wd_host dr) live" and "in_step live w d" and "request_fits req d" and "serve dr req w = (r, w')"
  shows "case r of
      Inr a \<Rightarrow>
        (ar_state a \<noteq> ''failed'' \<longrightarrow> ar_applied_generation a = request_generation req \<and> ar_error_code a = None \<and>
           in_step live w' (requested_change req d)) \<and>
        (ar_state a = ''failed'' \<longrightarrow>
           ar_applied_generation a = last_applied_generation d (request_key req) \<and>
           ar_error_code a = Some ''apply_failed'' \<and> in_step live w' d)
    | Inl e \<Rightarrow> wg_recorded w' d"
  using serve_change [OF assms] by (cases req; cases r) (auto simp: served_well_def change_response_def)

theorem request_keeps_in_step_witness:
  "\<exists>w'. serve ex_wg_driver (ProvisionDevice (ex_provision CHR ''B'' 7)) ex_wg_world =
      (Inr (change_response ''active'' 1 None), w') \<and>
    in_step text_live w' (with_peer no_peers (requested_peer (ex_provision CHR ''B'' 7)))"
proof -
  let ?req = "ProvisionDevice (ex_provision CHR ''B'' 7)"
  obtain w' where run: "serve ex_wg_driver ?req ex_wg_world = (Inr (change_response ''active'' 1 None), w')"
    using ex_serve by blast
  have "wg_law (wd_host ex_wg_driver) text_live" by (simp add: ex_wg_driver_def text_host_law)
  moreover have "request_fits ?req no_peers" by (simp add: ex_provision_fits base64_examples)
  ultimately show ?thesis
    using request_keeps_in_step [OF _ ex_world_in_step _ run] run by (auto simp: change_response_def)
qed

lemma expected_host_cidr: "expected_allowed_ips a = host_cidr a"
  by (cases a) (simp_all add: expected_allowed_ips_def)

text \<open>
  C23. A reconciliation probe tells the truth. With the interface in step with the record, an
  answer without an error code says \<open>in_sync\<close> exactly if the peer is there with the address of
  the request, \<open>drift_detected\<close> exactly if it is absent, \<open>ambiguous\<close> otherwise, and names the
  peer's own generation; it changes nothing.
\<close>

theorem reconcile_tells_the_truth:
  assumes "wg_law (wd_host dr) live" and "in_step live w d" and "reconcile dr q w = (r, w')"
  shows "in_step live w' d \<and> ww_last_known_good w' = ww_last_known_good w \<and>
    (\<forall>a. r = Inr a \<and> arr_error_code a = None \<longrightarrow>
       arr_observed_generation a = map_option rp_generation (peer_named d (arq_public_key q)) \<and>
       arr_outcome a =
         (case peer_named d (arq_public_key q) of
            None \<Rightarrow> ''drift_detected''
          | Some p \<Rightarrow> if rp_assigned_address p = arq_assigned_address q then ''in_sync'' else ''ambiguous''))"
proof -
  have rec: "wg_recorded w d" using assms(2) by (simp add: in_step_def)
  obtain r1 w1 where t: "run_tool (wh_show_dump (wd_host dr)) w = (r1, w1)" by fastforce
  show ?thesis
    using t
  proof (cases rule: run_tool_cases)
    case (timeout k)
    then have "r = Inl SubprocessTimeoutError" "w' = w1" using assms(3) t by (auto simp: reconcile_def bind_io_def)
    with timeout assms(2) wg_lawD(2) [OF assms(1) timeout(1)] show ?thesis by (simp add: in_step_def)
  next
    case (finished c out err k)
    have same: "live k = live (ww_host w)" by (rule wg_lawD(2) [OF assms(1) finished(1)])
    have w1: "in_step live w1 d" "wg_recorded w1 d" using finished(3) assms(2) same by (simp_all add: in_step_def)
    show ?thesis
    proof (cases "c = 0")
      case False
      then have "r = Inr (reconcile_answer ''ambiguous'' None (Some ''show_failed''))" "w' = w1"
        using assms(3) t finished(2) by (auto simp: reconcile_def bind_io_def return_io_simp)
      with w1 finished(3) show ?thesis by (simp add: reconcile_answer_def)
    next
      case True
      let ?key = "arq_public_key q"
      have "live_allowed_ips (parse_show_dump out) = live (ww_host w)"
        by (rule wg_lawD(3) [OF assms(1)]) (use finished(1) True in simp)
      then have views: "live_allowed_ips (parse_show_dump out) ?key = map_option (\<lambda>p. host_cidr (rp_assigned_address p)) (peer_named d ?key)"
        using assms(2) by (simp add: in_step_def live_of_def)
      have "reconcile dr q w = (Inr (compare_views q (live_allowed_ips (parse_show_dump out) ?key) (peer_named d ?key)), w1)"
        using t finished(2) True by (simp add: reconcile_def bind_io_def read_recorded [OF w1(2)] return_io_simp)
      then have "r = Inr (compare_views q (live_allowed_ips (parse_show_dump out) ?key) (peer_named d ?key))" "w' = w1"
        using assms(3) by auto
      with w1 finished(3) show ?thesis
        by (cases "peer_named d ?key") (auto simp: views compare_views_def reconcile_answer_def expected_host_cidr)
    qed
  qed
qed

text \<open>An interface that holds one peer, or none.\<close>

definition ex_peers :: "bool \<Rightarrow> desired_interface_state" where
  "ex_peers present = (if present then with_peer no_peers (requested_peer (ex_provision CHR ''B'' 7)) else no_peers)"

definition ex_dump :: "bool \<Rightarrow> string" where
  "ex_dump present = ''interface'' @ [NL] @
     (if present then ex_wg_key CHR ''B'' @ [CHR 0x09] @ ''(none)'' @ [CHR 0x09] @ ''(none)'' @ [CHR 0x09] @
        host_cidr (IPv4Address 172818439) @ [NL] else [])"

definition dump_host :: "bool wg_host" where
  "dump_host = \<lparr>wh_syncconf = (\<lambda>content k. (CompletedRun 1 [] ''busy'', k)),
     wh_show_dump = (\<lambda>k. (CompletedRun 0 (ex_dump k) [], k)), wh_pubkey = (\<lambda>secret k. (CompletedRun 0 ''server'' [], k)),
     wh_write = (\<lambda>k. (True, k)), wh_now = (\<lambda>k. 0)\<rparr>"

lemma parse_ex_dump:
  "parse_show_dump (ex_dump True) = [(ex_wg_key CHR ''B'', host_cidr (IPv4Address 172818439))]"
  "parse_show_dump (ex_dump False) = []"
  by code_simp+

lemma dump_host_law: "wg_law dump_host (\<lambda>k. live_of (ex_peers k))"
proof -
  have "live_allowed_ips (parse_show_dump (ex_dump k)) = live_of (ex_peers k)" for k
  proof
    fix key
    show "live_allowed_ips (parse_show_dump (ex_dump k)) key = live_of (ex_peers k) key"
      by (cases k) (simp_all add: parse_ex_dump live_allowed_ips_def live_of_def ex_peers_def peer_named_with
          requested_peer_def ex_provision_def peer_named_no_peers)
  qed
  then show ?thesis by (simp add: wg_law_def dump_host_def)
qed

theorem reconcile_tells_the_truth_witness:
  "let dr = \<lparr>wd_settings = ex_wg_settings, wd_host = dump_host\<rparr>;
       w = \<lparr>ww_last_known_good = Some (render_wireguard_config (ex_peers True) (Some \<lparr>wi_private_key = ''secret'', wi_listen_port = 51820\<rparr>)),
            ww_candidate = None, ww_private_key_file = Some ''secret'', ww_server_public_key = None, ww_host = True\<rparr>;
       q = \<lparr>arq_target_id = 2, arq_public_key = ex_wg_key CHR ''B'', arq_assigned_address = IPv4Address 172818439, arq_desired_generation = 1\<rparr>;
       r = fst (reconcile dr q w)
   in (\<forall>a. r = Inr a \<and> arr_error_code a = None \<longrightarrow> arr_outcome a = ''in_sync'')"
proof -
  define dr where "dr = \<lparr>wd_settings = ex_wg_settings, wd_host = dump_host\<rparr>"
  define i where "i = \<lparr>wi_private_key = ''secret'', wi_listen_port = 51820\<rparr>"
  define w where "w = \<lparr>ww_last_known_good = Some (render_wireguard_config (ex_peers True) (Some i)),
    ww_candidate = None, ww_private_key_file = Some ''secret'', ww_server_public_key = None, ww_host = True\<rparr>"
  define q where "q = \<lparr>arq_target_id = 2, arq_public_key = ex_wg_key CHR ''B'', arq_assigned_address = IPv4Address 172818439, arq_desired_generation = 1\<rparr>"
  have secret: "line_value ''secret''" by (simp add: line_value_def is_space_def line_break_def)
  have "exclusive (ex_peers True)"
    unfolding ex_peers_def
    by (simp add: exclusive_with exclusive_no_peers ex_provision_fits base64_examples)
  moreover have "identity_ok i" using secret by (simp add: identity_ok_def i_def)
  moreover have "strip (universal_newlines ''secret'') = ''secret''" by (simp add: strip_stripped stripped_def is_space_def)
  ultimately have "in_step (\<lambda>k. live_of (ex_peers k)) w (ex_peers True)"
    using secret by (auto simp: in_step_def wg_recorded_def key_ready_def w_def)
  moreover have "wg_law (wd_host dr) (\<lambda>k. live_of (ex_peers k))" by (simp add: dr_def dump_host_law)
  moreover have "peer_named (ex_peers True) (arq_public_key q) = Some (requested_peer (ex_provision CHR ''B'' 7))"
    by (simp add: ex_peers_def peer_named_with q_def requested_peer_def ex_provision_def)
  moreover have "rp_assigned_address (requested_peer (ex_provision CHR ''B'' 7)) = arq_assigned_address q"
    by (simp add: requested_peer_def ex_provision_def q_def)
  ultimately have "\<forall>a. fst (reconcile dr q w) = Inr a \<and> arr_error_code a = None \<longrightarrow> arr_outcome a = ''in_sync''"
    using reconcile_tells_the_truth [of dr "\<lambda>k. live_of (ex_peers k)" w "ex_peers True" q "fst (reconcile dr q w)" "snd (reconcile dr q w)"]
    by simp
  then show ?thesis by (simp add: dr_def i_def w_def q_def)
qed

text \<open>
  The fake driver is a stand-in for the native one. Whatever the native driver answers to
  a request, the fake one, holding the same peers and told to fail exactly when the native one
  reported a failure, gives the same answer, and afterwards both hold the same peers.
\<close>

lemma fake_agrees_with_native:
  assumes "wg_law (wd_host dr) live" and "in_step live w d" and "request_fits req d"
    and "serve dr req w = (Inr a, w')" and "fw_state f = d" and "fw_fail_next f \<longleftrightarrow> ar_state a = ''failed''"
  shows "\<exists>f'. fake_serve req f = (Inr a, f') \<and> in_step live w' (fw_state f')"
proof -
  have "success_state req \<noteq> ''failed''" by (cases req) simp_all
  with serve_change [OF assms(1-4)] assms(5,6) show ?thesis
    unfolding fake_serve_result by (auto simp: served_well_def change_response_def fake_apply_def)
qed

text \<open>
  C34. Two provisions at once undo each other. On a host where nothing fails, two devices with
  different keys and addresses that connect while the other's \<open>wg\<close> is running end up swapped:
  the first is told it is active but is neither recorded nor on the interface, the second is
  told it failed but is both.
\<close>

theorem two_at_once_undo_each_other:
  assumes law: "wg_law (wd_host dr) live" and works: "host_works (wd_host dr)" and step: "in_step live w d"
    and cached: "ww_server_public_key w = Some key"
    and fits: "peer_fits (requested_peer q1) d" "peer_fits (requested_peer q2) d"
    and pool: "address_in_network (apq_assigned_address q1) (wgs_client_pool (wd_settings dr))"
      "address_in_network (apq_assigned_address q2) (wgs_client_pool (wd_settings dr))"
    and fresh: "peer_named d (apq_public_key q1) = None" and other: "apq_public_key q1 \<noteq> apq_public_key q2"
  shows "\<exists>a1 a2 w'. two_at_once dr q1 q2 w = (Inr (a1, a2), w') \<and>
    ar_state a1 = ''active'' \<and> ar_state a2 = ''failed'' \<and>
    read_last_known_good w' = (Inr (with_peer d (requested_peer q2)), w') \<and>
    peer_named (with_peer d (requested_peer q2)) (apq_public_key q1) = None \<and>
    live (ww_host w') (apq_public_key q1) = None \<and> live (ww_host w') (apq_public_key q2) \<noteq> None"
proof -
  have rec: "wg_recorded w d" and ready: "key_ready w" using step by (auto simp: in_step_def)
  define d2 where "d2 = with_peer d (requested_peer q2)"
  have excl: "exclusive d2" using rec fits(2) by (simp add: d2_def wg_recorded_def exclusive_with)
  obtain i where i: "interface_identity dr w = (Inr i, w)" "identity_ok i" using identity_ready [OF ready] .
  define t1 where "t1 = render_wireguard_config (with_peer d (requested_peer q1)) (Some i)"
  define t2 where "t2 = render_wireguard_config d2 (Some i)"
  obtain o1 e1 k1 where s1: "run_syncconf dr (w\<lparr>ww_candidate := Some t1\<rparr>) =
      (Inr (CompletedRun 0 o1 e1), w\<lparr>ww_candidate := Some t1, ww_host := k1\<rparr>)"
    using syncconf_works [OF works, of "w\<lparr>ww_candidate := Some t1\<rparr>" t1] by auto
  define w1 where "w1 = w\<lparr>ww_candidate := Some t1, ww_host := k1\<rparr>"
  define w2 where "w2 = w1\<lparr>ww_candidate := Some t2\<rparr>"
  define w3 where "w3 = w2\<lparr>ww_last_known_good := Some t2, ww_candidate := None\<rparr>"
  have w1: "wg_recorded w1 d" "ww_server_public_key w1 = Some key" "ww_private_key_file w1 = ww_private_key_file w"
    using rec cached by (simp_all add: w1_def)
  obtain c o2 e2 where s2: "c \<noteq> 0" "run_syncconf dr w3 = (Inr (CompletedRun c o2 e2), w3)"
    using syncconf_missing [OF works, of w3] by (auto simp: w3_def)
  have "wg_recorded w3 d2" "key_ready w3"
    using excl i(2) ready by (auto simp: wg_recorded_def w3_def w2_def w1_def t2_def)
  from rollback_works [OF law works this] obtain w4 where undone: "rollback dr w3 = (Inr (), w4)" and last: "in_step live w4 d2"
    by blast
  define a1 where "a1 = provision_response (wd_settings dr) key ''active'' (apq_desired_generation q1) None"
  define a2 where "a2 = provision_response (wd_settings dr) key ''failed'' (last_applied_generation d (apq_public_key q2)) (Some ''apply_failed'')"
  have "provision_apply dr q1 d key (apply_settle dr (CompletedRun 0 o1 e1)) w2 = (Inr a1, w3)"
    by (simp add: provision_apply_def try_io_def bind_io_def apply_settle_def promote_candidate_to_last_known_good_def
        return_io_simp w2_def w3_def a1_def)
  moreover have "provision_apply dr q2 d key (bind_io (run_syncconf dr) (apply_settle dr)) w3 = (Inr a2, w4)"
    using s2 undone
    by (simp add: provision_apply_def try_io_def bind_io_def apply_settle_def raise_io_simp return_io_simp a2_def)
  moreover note begin_cached [OF rec cached pool(1)] begin_cached [OF w1(1,2) pool(2)]
  moreover have "apply_prepare dr (with_peer d (requested_peer q1)) w = (Inr (), w\<lparr>ww_candidate := Some t1\<rparr>)"
    unfolding t1_def by (rule prepare_works [OF works i(1)])
  moreover have "apply_prepare dr (with_peer d (requested_peer q2)) w1 = (Inr (), w2)"
    unfolding w2_def t2_def d2_def by (rule prepare_works [OF works identity_same_file [OF i(1) w1(3)]])
  ultimately have "two_at_once dr q1 q2 w = (Inr (a1, a2), w4)"
    using s1 by (simp add: two_at_once_def bind_io_def return_io_simp w1_def [symmetric])
  moreover have "read_last_known_good w4 = (Inr d2, w4)" using last by (simp add: in_step_def read_recorded)
  moreover have "peer_named d2 (apq_public_key q1) = None" "peer_named d2 (apq_public_key q2) \<noteq> None"
    using fresh other by (simp_all add: d2_def peer_named_with requested_peer_def)
  ultimately show ?thesis
    using last by (auto simp: a1_def a2_def provision_response_def in_step_def live_of_def d2_def)
qed

theorem two_at_once_undo_each_other_witness:
  "\<exists>a1 a2 w'. two_at_once ex_wg_driver (ex_provision CHR ''B'' 7) (ex_provision CHR ''C'' 8) ex_wg_world = (Inr (a1, a2), w') \<and>
    ar_state a1 = ''active'' \<and> ar_state a2 = ''failed'' \<and> text_live (ww_host w') (ex_wg_key CHR ''B'') = None"
proof -
  let ?q1 = "ex_provision CHR ''B'' 7" and ?q2 = "ex_provision CHR ''C'' 8"
  have "\<exists>a1 a2 w'. two_at_once ex_wg_driver ?q1 ?q2 ex_wg_world = (Inr (a1, a2), w') \<and>
    ar_state a1 = ''active'' \<and> ar_state a2 = ''failed'' \<and>
    read_last_known_good w' = (Inr (with_peer no_peers (requested_peer ?q2)), w') \<and>
    peer_named (with_peer no_peers (requested_peer ?q2)) (apq_public_key ?q1) = None \<and>
    text_live (ww_host w') (apq_public_key ?q1) = None \<and> text_live (ww_host w') (apq_public_key ?q2) \<noteq> None"
  proof (rule two_at_once_undo_each_other [where key = "''server''"])
    show "wg_law (wd_host ex_wg_driver) text_live" "host_works (wd_host ex_wg_driver)"
      by (simp_all add: ex_wg_driver_def text_host_law text_host_works)
    show "address_in_network (apq_assigned_address ?q1) (wgs_client_pool (wd_settings ex_wg_driver))"
      "address_in_network (apq_assigned_address ?q2) (wgs_client_pool (wd_settings ex_wg_driver))"
      by (simp_all add: ex_provision_def ex_wg_driver_def ex_wg_settings_def address_in_network_def net_size_def)
    show "ww_server_public_key ex_wg_world = Some ''server''" by (simp add: ex_wg_world_def)
    show "apq_public_key ?q1 \<noteq> apq_public_key ?q2" by (simp add: ex_provision_def ex_wg_key_def numeral_eq_Suc)
  qed (simp_all add: ex_world_in_step ex_provision_fits base64_examples peer_named_no_peers)
  then show ?thesis by (auto simp: ex_provision_def)
qed

text \<open>
  A \<open>wg\<close> that runs out of time is not rolled back. If \<open>wg syncconf\<close> has changed the
  interface when its time is up, the exception leaves the driver at once: the interface keeps
  what the tool did, here the new peer set, while the record still has the old one.
\<close>

lemma timeout_skips_rollback:
  assumes "in_step live w d" and "interface_identity dr w = (Inr i, w)"
    and "wh_write (wd_host dr) (ww_host w) = (True, k1)"
    and "wh_syncconf (wd_host dr) (Some (render_wireguard_config (without_peer d (avq_public_key q)) (Some i))) k1 = (TimedOut, k2)"
    and "live k2 = live_of (without_peer d (avq_public_key q))"
  shows "\<exists>w'. serve dr (RevokeDevice q) w = (Inl SubprocessTimeoutError, w') \<and>
    live (ww_host w') (avq_public_key q) = None \<and> read_last_known_good w' = (Inr d, w')"
proof -
  let ?d = "without_peer d (avq_public_key q)"
  let ?w = "w\<lparr>ww_host := k2, ww_candidate := Some (render_wireguard_config ?d (Some i))\<rparr>"
  have rec: "wg_recorded w d" using assms(1) by (simp add: in_step_def)
  have "apply_delta dr ?d w = (Inl SubprocessTimeoutError, ?w)"
    using assms(2-4)
    by (simp add: apply_delta_def apply_prepare_def bind_io_def write_candidate_atomically_def asking_host_def unless_io_simp
        modify_io_simp run_syncconf_def run_tool_def completed_io_def raise_io_simp)
  then have "serve dr (RevokeDevice q) w = (Inl SubprocessTimeoutError, ?w)"
    by (simp add: revoke_device_def read_bind [OF rec] bind_io_def try_io_def read_recorded [OF rec])
  moreover have "wg_recorded ?w d" using rec by simp
  ultimately show ?thesis
    using assms(5) by (auto simp: live_of_def peer_named_without read_recorded)
qed

end
