(* ===== verification/Agent_Claims.thy ===== *)
theory Agent_Claims
  imports Agent_Dispatch Wireguard_Claims
begin

text \<open>
  The properties of the agent's ledger and of its ledgered routes: what a restart finds, what a
  repeated request does, alone and together with the WireGuard driver behind it, and what a writer
  that was killed costs.
\<close>

subsection \<open>A codec for the examples\<close>

definition json_text :: "json option \<Rightarrow> string" where
  "json_text j = (case j of Some (JStr s) \<Rightarrow> s | _ \<Rightarrow> [])"

definition json_int :: "json option \<Rightarrow> int" where
  "json_int j = (case j of Some (JInt i) \<Rightarrow> i | _ \<Rightarrow> 0)"

definition json_optional :: "json option \<Rightarrow> string option" where
  "json_optional j = (case j of Some (JStr s) \<Rightarrow> Some s | _ \<Rightarrow> None)"

definition ex_fields :: "agent_provision_response \<Rightarrow> (string \<times> json) list" where
  "ex_fields r =
     [(''state'', JStr (ar_state r)), (''applied_generation'', JInt (ar_applied_generation r)),
      (''error_code'', case ar_error_code r of None \<Rightarrow> JNull | Some e \<Rightarrow> JStr e),
      (''server_public_key'', JStr (apr_server_public_key r)), (''listen_port'', JInt (apr_listen_port r)),
      (''public_endpoint'', JStr (apr_public_endpoint r)), (''client_dns'', JStr (apr_client_dns r)),
      (''client_allowed_ips'', JStr (apr_client_allowed_ips r)),
      (''persistent_keepalive_seconds'', JInt (apr_persistent_keepalive_seconds r))]"

definition ex_response :: "(string \<times> json) list \<Rightarrow> agent_provision_response" where
  "ex_response ms =
     \<lparr>ar_state = json_text (member ''state'' ms), ar_applied_generation = json_int (member ''applied_generation'' ms),
      ar_error_code = json_optional (member ''error_code'' ms),
      apr_server_public_key = json_text (member ''server_public_key'' ms), apr_listen_port = json_int (member ''listen_port'' ms),
      apr_public_endpoint = json_text (member ''public_endpoint'' ms), apr_client_dns = json_text (member ''client_dns'' ms),
      apr_client_allowed_ips = json_text (member ''client_allowed_ips'' ms),
      apr_persistent_keepalive_seconds = json_int (member ''persistent_keepalive_seconds'' ms)\<rparr>"

definition ex_codec :: "agent_provision_response response_codec" where
  "ex_codec = \<lparr>
     model_dump_json = (\<lambda>r. dumps (JObj (ex_fields r))),
     model_validate_json = (\<lambda>j. case loads (json_text (Some j)) of Inr (JObj ms) \<Rightarrow> Some (ex_response ms) | _ \<Rightarrow> None),
     applied_generation = ar_applied_generation\<rparr>"

lemma ex_response_fields: "ex_response (ex_fields r) = r"
  by (cases r) (auto simp: ex_response_def ex_fields_def member_def json_text_def json_int_def json_optional_def
      split: option.splits)

lemma ex_codec_law: "model_validate_json ex_codec (JStr (model_dump_json ex_codec r)) = Some r"
proof -
  have "plain_json (JObj (ex_fields r))" by (simp add: ex_fields_def split: option.splits)
  then show ?thesis
    using loads_dumps_at [of "JObj (ex_fields r)" None 0] by (simp add: ex_codec_def json_text_def dumps_def ex_response_fields)
qed

abbreviation fresh_disk :: ledger_disk where
  "fresh_disk \<equiv> \<lparr>ld_file = None, ld_compact = None\<rparr>"

text \<open>The same request twice, the second while the first is running.\<close>

definition dispatch_overlapping ::
  "'r response_codec \<Rightarrow> uuid \<Rightarrow> string \<Rightarrow> uuid \<Rightarrow> ('w, 'r) io \<Rightarrow> 'w agent_state \<Rightarrow>
   ('r http_answer \<times> 'r http_answer \<times> 'w agent_state) option" where
  "dispatch_overlapping codec key kind target run = (\<lambda>(w, s).
     (case (lookup_entry key (fst s), lookup_entry key (fst s)) of
        (None, None) \<Rightarrow>
          (let (a1, st1) = dispatch_run codec key kind target run (w, s);
               (a2, st2) = dispatch_run codec key kind target run st1
           in Some (a1, a2, st2))
      | _ \<Rightarrow> None))"

lemma brace_brace: "parse_entry (CHR ''{'' # CHR ''{'' # s) = None"
  by (simp add: parse_entry_def loads_def skip_ws_def json_space_def)

subsection \<open>Properties\<close>

lemma order_bounded:
  assumes "ledger_ok mx s" and "length (ol_order (fst s)) \<le> mx" and "\<forall>e\<in>set (saves evs). plain_entry e"
  shows "\<exists>s'. store_after record_entry (restart_ledger mx) evs s = Some s' \<and> ledger_ok mx s' \<and> length (ol_order (fst s')) \<le> mx"
  using assms
proof (induction evs arbitrary: s)
  case (Cons ev evs)
  show ?case
  proof (cases ev)
    case (Saved e)
    then obtain l d where "record_entry e s = Some (l, d)" "ledger_ok mx (l, d)" "length (ol_order l) \<le> mx"
      using record_ok [of mx "fst s" "snd s" e] Cons.prems by auto
    then show ?thesis using Cons.IH [of "(l, d)"] Cons.prems(3) Saved by simp
  next
    case Restarted
    then show ?thesis using Cons ledger.restart_same [OF Cons.prems(1)] by simp
  qed
qed simp

text \<open>
  C12. The ledger's file is the ledger. After any sequence of recorded operations, compactions and
  restarts on a fresh disk, the process is running, the ledger holds no more entries than its
  bound, and the next restart reads back exactly the ledger that is in memory.
\<close>

theorem ledger_survives_restart:
  assumes "\<forall>e\<in>set (saves evs). \<exists>key kind target g r. e = operation_entry key kind target g r"
  shows "\<exists>l d. store_after record_entry (restart_ledger mx) evs (empty_ledger mx, \<lparr>ld_file = None, ld_compact = c\<rparr>) = Some (l, d) \<and>
    length (ol_order l) \<le> mx \<and> load_ledger mx (ld_file d) = Some l"
proof -
  have "\<forall>e\<in>set (saves evs). plain_entry e" using assms by auto
  from order_bounded [OF ledger_ok_fresh _ this, of mx c] show ?thesis
    by (auto simp: empty_ledger_def intro: restart_ok)
qed

theorem ledger_survives_restart_witness:
  "let evs = [Saved (operation_entry 1 ''revoke_device'' 2 3 ''{}''), Restarted, Saved (operation_entry 4 ''revoke_device'' 5 6 ''{}'')]
   in \<exists>l d. store_after record_entry (restart_ledger 1) evs (empty_ledger 1, fresh_disk) = Some (l, d) \<and>
     length (ol_order l) \<le> 1 \<and> load_ledger 1 (ld_file d) = Some l"
  unfolding Let_def by (rule ledger_survives_restart) (simp, blast)

lemma route_recorded:
  assumes "ledgered_route codec len key kind target run (w, l, d) = (Ok200 r, (w1, s1))"
    and "enforce_body_size_limit len = None" and "lookup_entry key l = None"
  shows "run w = (Inr r, w1) \<and>
    record_entry (operation_entry key kind target (applied_generation codec r) (model_dump_json codec r)) (l, d) = Some s1"
  using assms
  by (auto simp: ledgered_route_def dispatch_ledgered_def dispatch_run_def split: prod.splits sum.splits option.splits)

text \<open>
  C13. A repeated request runs once. If a request was answered, then however often the agent
  restarts, and as long as fewer other operations than the ledger's bound came since, the same
  request is answered with the same response and nothing is run: the world is as the request finds
  it. The same key with another kind of operation is refused with 409.
\<close>

theorem retried_request_runs_once:
  assumes codec: "\<forall>r. model_validate_json codec (JStr (model_dump_json codec r)) = Some r"
    and ok: "ledger_ok mx (l, d)" and new: "lookup_entry key l = None" and small: "enforce_body_size_limit len = None"
    and first: "ledgered_route codec len key kind target run (w, l, d) = (Ok200 r, (w1, s1))"
    and others: "\<forall>e\<in>set (saves evs). plain_entry e \<and> le_idempotency_key e \<noteq> JStr (uuid_text key)" "length (saves evs) < mx"
  shows "\<exists>s2. store_after record_entry (restart_ledger mx) evs s1 = Some s2 \<and>
    ledgered_route codec len key kind target run (v, s2) = (Ok200 r, (v, s2)) \<and>
    (\<forall>kind'. kind' \<noteq> kind \<longrightarrow> ledgered_route codec len key kind' target run (v, s2) = (HttpStatus 409, (v, s2)))"
proof -
  let ?e = "operation_entry key kind target (applied_generation codec r) (model_dump_json codec r)"
  have "record_entry ?e (l, d) = Some s1" using route_recorded [OF first small new] by simp
  then obtain s2 where s2: "store_after record_entry (restart_ledger mx) evs s1 = Some s2" "lookup_entry key (fst s2) = Some ?e"
    using ledger.saved_found [OF ok, of key kind target "applied_generation codec r" "model_dump_json codec r" s1 evs] new others
    by auto
  then show ?thesis
    using small codec by (simp add: ledgered_route_def dispatch_ledgered_def dispatch_cached_def operation_entry_def)
qed

lemma ex_disable:
  "ledgered_route ex_codec None 1 ''provision_device'' 2 (\<lambda>w. (Inr (ex_response []), Suc w)) (0, empty_ledger 2, fresh_disk) =
     (Ok200 (ex_response []), (1, the (record_entry (operation_entry 1 ''provision_device'' 2 0 (model_dump_json ex_codec (ex_response [])))
        (empty_ledger 2, fresh_disk))))"
proof -
  obtain l d where "record_entry (operation_entry 1 ''provision_device'' 2 0 (model_dump_json ex_codec (ex_response [])))
      (empty_ledger 2, fresh_disk) = Some (l, d)"
    using record_ok [OF ledger_ok_fresh plain_operation_entry] by blast
  moreover have "applied_generation ex_codec (ex_response []) = 0"
    by (simp add: ex_codec_def ex_response_def member_def json_int_def)
  ultimately show ?thesis
    by (simp add: ledgered_route_def enforce_body_size_limit_def dispatch_ledgered_def lookup_entry_def empty_ledger_def dispatch_run_def)
qed

theorem retried_request_runs_once_witness:
  "\<exists>r s1 s2. ledgered_route ex_codec None 1 ''provision_device'' 2 (\<lambda>w. (Inr (ex_response []), Suc w)) (0, empty_ledger 2, fresh_disk) =
      (Ok200 r, (1, s1)) \<and>
    store_after record_entry (restart_ledger 2) [Restarted, Saved (operation_entry 7 ''revoke_device'' 2 1 ''{}'')] s1 = Some s2 \<and>
    ledgered_route ex_codec None 1 ''provision_device'' 2 (\<lambda>w. (Inr (ex_response []), Suc w)) (5, s2) = (Ok200 r, (5, s2))"
proof -
  have "uuid_text 7 \<noteq> uuid_text 1" by code_simp
  then have others: "\<forall>e\<in>set (saves [Restarted, Saved (operation_entry 7 ''revoke_device'' 2 1 ''{}'')]).
      plain_entry e \<and> le_idempotency_key e \<noteq> JStr (uuid_text 1)"
    by (simp add: operation_entry_def plain_entry_def entry_json_def)
  have "lookup_entry 1 (empty_ledger 2) = None" by (simp add: lookup_entry_def empty_ledger_def)
  from retried_request_runs_once [OF _ ledger_ok_fresh this _ ex_disable others, where v = 5] show ?thesis
    using ex_disable by (auto simp: ex_codec_law enforce_body_size_limit_def)
qed





text \<open>
  A cut line swallows the next entry. When an append was cut after its first character, the
  entry that the restarted agent records next is appended to the same line: the agent answers it
  and holds it in memory, but the following restart reads neither.
\<close>

lemma cut_line_swallows_next:
  assumes "ledger_ok mx (l, d)" and "lookup_entry key l = None"
  shows "let d1 = killed_append 1 (operation_entry key0 kind0 target0 g0 r0) d;
             d2 = append_to_disk (operation_entry key kind target g r) d1
         in load_ledger mx (ld_file d1) = Some l \<and> load_ledger mx (ld_file d2) = Some l \<and> lookup_entry key l = None"
proof -
  let ?f = "case_option [] id (ld_file d)" and ?e = "operation_entry key kind target g r"
  let ?old = "operation_entry key0 kind0 target0 g0 r0"
  have f: "load_lines (splitlines (universal_newlines ?f)) (empty_ledger mx) = Some l" "ends_line ?f"
    using assms(1) by (cases "ld_file d"; simp add: ledger_ok_iff load_ledger_def splitlines_def)+
  have one: "take 1 (entry_line ?old) = ''{''" using entry_json_shape [of ?old] by (auto simp: entry_line_def)
  let ?j = "dumps (entry_json ?e)"
  have plain: "\<forall>c\<in>set (CHR ''{'' # ?j). \<not> line_break c \<and> c \<noteq> CHR 0x0D"
    using entry_json_plain [OF plain_operation_entry] by (auto simp: line_break_def)
  then have "universal_newlines (CHR ''{'' # ?j @ [NL]) = CHR ''{'' # ?j @ [NL]" by (intro universal_newlines_id) auto
  then have lines: "splitlines (universal_newlines (CHR ''{'' # ?j @ [NL])) = [CHR ''{'' # ?j]"
    using splitlines_from_line [of "CHR ''{'' # ?j" "[]" "[]"] plain by (simp add: splitlines_def del: splitlines_from.simps(2))
  have "parse_entry (CHR ''{'' # ?j) = None" using entry_json_shape [of ?e] brace_brace by auto
  then have both: "load_lines [CHR ''{'' # ?j] l = Some l" by simp
  have cut: "load_lines (splitlines (universal_newlines ''{'')) l = Some l"
    by (simp add: splitlines_def line_break_def parse_entry_def loads_def skip_ws_def json_space_def numeral_3_eq_3)
  show ?thesis
    unfolding Let_def killed_append_def append_to_disk_def one
    using assms(2) cut both
    by (simp add: load_ledger_def file_lines_append [OF f(2)] load_lines_append f(1) entry_line_def lines del: load_lines.simps universal_newlines.simps)
qed

text \<open>
  A repeated request that overlaps with the first runs again. The ledger is consulted before
  the operation runs and written after: if the same request arrives while the first is running, its
  lookup finds nothing, the operation is run a second time on what the first left, and each gets
  an answer of its own.
\<close>

lemma overlapping_retry_runs_twice:
  assumes ok: "ledger_ok mx (l, d)" and "lookup_entry key l = None" and "run w = (Inr r1, w1)" and "run w1 = (Inr r2, w2)"
  shows "\<exists>s'. dispatch_overlapping codec key kind target run (w, l, d) = Some (Ok200 r1, Ok200 r2, (w2, s'))"
proof -
  let ?e = "\<lambda>r. operation_entry key kind target (applied_generation codec r) (model_dump_json codec r)"
  obtain l1 d1 where s1: "record_entry (?e r1) (l, d) = Some (l1, d1)" "ledger_ok mx (l1, d1)"
    using record_ok [OF ok plain_operation_entry [of key kind target "applied_generation codec r1" "model_dump_json codec r1"]] by blast
  obtain s2 where "record_entry (?e r2) (l1, d1) = Some s2"
    using record_ok [OF s1(2) plain_operation_entry [of key kind target "applied_generation codec r2" "model_dump_json codec r2"]] by blast
  then show ?thesis using assms(2-4) s1(1) by (simp add: dispatch_overlapping_def dispatch_run_def)
qed


end
