(* ===== verification/Python_Encoding.thy ===== *)
theory Python_Encoding
  imports Json_Text
begin

text \<open>
  What the Xray side of the agent uses of Python's standard library beyond the other text theories:
  \<open>str.replace\<close>, \<open>str.rpartition\<close>, \<open>str.lower\<close>, the constructor of \<open>UUID\<close> from a text, and
  \<open>base64\<close>. \<open>b64decode\<close> is the decoder of the \<open>binascii\<close> module as it runs by default: characters
  outside the alphabet are skipped, and what follows a complete padding is not read. The lemmas are
  the round trips of printing and reading identifiers and bytes.
\<close>

subsection \<open>Strings\<close>

text \<open>\<open>s.replace(old, new)\<close> for an \<open>old\<close> that is not empty.\<close>

function replace_text :: "string \<Rightarrow> string \<Rightarrow> string \<Rightarrow> string" where
  "replace_text old new s =
     (if old = [] \<or> s = [] then s
      else if starts_with old s then new @ replace_text old new (drop (length old) s)
      else hd s # replace_text old new (tl s))"
  by pat_completeness auto
termination
  by (relation "measure (\<lambda>(old, new, s). length s)") auto

declare replace_text.simps [simp del]

text \<open>\<open>s.rpartition(c)\<close>: what is before the last \<open>c\<close>, empty without one, and what is after it.\<close>

definition rpartition_before :: "char \<Rightarrow> string \<Rightarrow> string" where
  "rpartition_before c s = (if c \<in> set s then rev (drop 1 (dropWhile (\<lambda>x. x \<noteq> c) (rev s))) else [])"

definition rpartition_after :: "char \<Rightarrow> string \<Rightarrow> string" where
  "rpartition_after c s = rev (takeWhile (\<lambda>x. x \<noteq> c) (rev s))"

text \<open>Lower case, for the letters of ASCII and of Latin-1.\<close>

definition lower_char :: "char \<Rightarrow> char" where
  "lower_char c = (let n = of_char c :: nat in
     if 65 \<le> n \<and> n \<le> 90 \<or> 192 \<le> n \<and> n \<le> 222 \<and> n \<noteq> 215 then char_of (n + 32) else c)"

definition lower_text :: "string \<Rightarrow> string" where
  "lower_text s = map lower_char s"

text \<open>\<open>sub in s\<close>\<close>

fun contains_text :: "string \<Rightarrow> string \<Rightarrow> bool" where
  "contains_text sub [] = (sub = [])"
| "contains_text sub (c # cs) = (starts_with sub (c # cs) \<or> contains_text sub cs)"

text \<open>\<open>s.split(sep)\<close> for a \<open>sep\<close> that is not empty.\<close>

function split_text_from :: "string \<Rightarrow> string \<Rightarrow> string \<Rightarrow> string list" where
  "split_text_from sep part s =
     (if sep = [] \<or> s = [] then [part @ s]
      else if starts_with sep s then part # split_text_from sep [] (drop (length sep) s)
      else split_text_from sep (part @ [hd s]) (tl s))"
  by pat_completeness auto
termination
  by (relation "measure (\<lambda>(sep, part, s). length s)") auto

declare split_text_from.simps [simp del]

definition split_text :: "string \<Rightarrow> string \<Rightarrow> string list" where
  "split_text sep s = split_text_from sep [] s"

subsection \<open>Identifiers\<close>

text \<open>\<open>int(text, 16)\<close>: blanks around, a sign, a prefix, digits with single underscores between them.\<close>

fun int_hex_digits :: "nat \<Rightarrow> bool \<Rightarrow> string \<Rightarrow> nat option" where
  "int_hex_digits acc after_digit [] = (if after_digit then Some acc else None)"
| "int_hex_digits acc after_digit (c # cs) =
     (case hex_value c of
        Some d \<Rightarrow> int_hex_digits (16 * acc + d) True cs
      | None \<Rightarrow> if c = CHR ''_'' \<and> after_digit then int_hex_digits acc False cs else None)"

definition unsigned_hex :: "string \<Rightarrow> nat option" where
  "unsigned_hex s =
     (if starts_with ''0x'' s \<or> starts_with ''0X'' s
      then int_hex_digits 0 False (if starts_with ''_'' (drop 2 s) then drop 3 s else drop 2 s)
      else int_hex_digits 0 False s)"

definition py_int_hex :: "string \<Rightarrow> int option" where
  "py_int_hex s =
     (case strip s of
        [] \<Rightarrow> None
      | c # cs \<Rightarrow>
          if c = CHR ''-'' then map_option (\<lambda>n. - int n) (unsigned_hex cs)
          else if c = CHR ''+'' then map_option int (unsigned_hex cs)
          else map_option int (unsigned_hex (c # cs)))"

text \<open>\<open>UUID(text)\<close>; \<open>None\<close> is its \<open>ValueError\<close>.\<close>

definition parse_uuid :: "string \<Rightarrow> uuid option" where
  "parse_uuid s =
     (let h = replace_text ''-'' [] (strip_chars (\<lambda>c. c = CHR ''{'' \<or> c = CHR ''}'')
                (replace_text ''uuid:'' [] (replace_text ''urn:'' [] s)))
      in if length h \<noteq> 32 then None
         else (case py_int_hex h of
                 None \<Rightarrow> None
               | Some n \<Rightarrow> if 0 \<le> n \<and> n < 2 ^ 128 then Some (nat n) else None))"

subsection \<open>Base64\<close>

definition BASE64 :: string where
  "BASE64 = ''ABCDEFGHIJKLMNOPQRSTUVWXYZabcdefghijklmnopqrstuvwxyz0123456789+/''"

definition base64_char :: "nat \<Rightarrow> char" where
  "base64_char v = BASE64 ! v"

definition base64_value :: "char \<Rightarrow> nat option" where
  "base64_value c = (let n = of_char c :: nat in
     if 65 \<le> n \<and> n \<le> 90 then Some (n - 65)
     else if 97 \<le> n \<and> n \<le> 122 then Some (n - 71)
     else if 48 \<le> n \<and> n \<le> 57 then Some (n + 4)
     else if n = 43 then Some 62 else if n = 47 then Some 63 else None)"

fun b64encode :: "nat list \<Rightarrow> string" where
  "b64encode [] = []"
| "b64encode [a] = [base64_char (a div 4), base64_char (a mod 4 * 16), CHR ''='', CHR ''='']"
| "b64encode [a, b] =
     [base64_char (a div 4), base64_char (a mod 4 * 16 + b div 16), base64_char (b mod 16 * 4), CHR ''='']"
| "b64encode (a # b # c # bs) =
     [base64_char (a div 4), base64_char (a mod 4 * 16 + b div 16), base64_char (b mod 16 * 4 + c div 64),
      base64_char (c mod 64)] @ b64encode bs"

text \<open>
  The decoder's state: how many characters of the current four it has seen, the bits left over
  from the last one, and the padding characters in a row.
\<close>

fun b64decode_from :: "nat \<Rightarrow> nat \<Rightarrow> nat \<Rightarrow> string \<Rightarrow> nat list option" where
  "b64decode_from quad left pads [] = (if quad = 0 then Some [] else None)"
| "b64decode_from quad left pads (c # cs) =
     (if c = CHR ''='' then
        (if 2 \<le> quad then (if 4 \<le> quad + Suc pads then Some [] else b64decode_from quad left (Suc pads) cs)
         else b64decode_from quad left pads cs)
      else (case base64_value c of
              None \<Rightarrow> b64decode_from quad left pads cs
            | Some v \<Rightarrow>
                if quad = 0 then b64decode_from 1 v 0 cs
                else if quad = 1 then map_option (\<lambda>bs. (left * 4 + v div 16) # bs) (b64decode_from 2 (v mod 16) 0 cs)
                else if quad = 2 then map_option (\<lambda>bs. (left * 16 + v div 4) # bs) (b64decode_from 3 (v mod 4) 0 cs)
                else map_option (\<lambda>bs. (left * 64 + v) # bs) (b64decode_from 0 0 0 cs)))"

definition b64decode :: "string \<Rightarrow> nat list option" where
  "b64decode s = b64decode_from 0 0 0 s"

text \<open>\<open>uuid.bytes\<close>, and the identifier of sixteen bytes.\<close>

fun bytes_of :: "nat \<Rightarrow> nat \<Rightarrow> nat list" where
  "bytes_of 0 n = []"
| "bytes_of (Suc k) n = bytes_of k (n div 256) @ [n mod 256]"

definition uuid_of_bytes :: "nat list \<Rightarrow> uuid option" where
  "uuid_of_bytes bs = (if length bs = 16 then Some (foldl (\<lambda>a b. 256 * a + b) 0 bs) else None)"

subsection \<open>Round trips\<close>

lemma base64_alphabet: "map base64_value BASE64 = map Some [0..<64]" "CHR ''='' \<notin> set BASE64" "length BASE64 = 64"
proof -
  have "[0..<64] = 0 # 1 # [2..<64]" by (subst upt_conv_Cons, simp, subst upt_conv_Cons, simp, simp add: numeral_2_eq_2)
  then show "map base64_value BASE64 = map Some [0..<64]" by (simp add: BASE64_def base64_value_def upt_rec_numeral)
qed (simp_all add: BASE64_def)

lemma base64_value_char:
  assumes "v < 64"
  shows "base64_value (base64_char v) = Some v \<and> base64_char v \<noteq> CHR ''=''"
proof -
  have "base64_value (base64_char v) = map base64_value BASE64 ! v" using assms base64_alphabet(3) by (simp add: base64_char_def)
  moreover have "base64_char v \<in> set BASE64" using assms base64_alphabet(3) by (simp add: base64_char_def)
  ultimately show ?thesis using assms base64_alphabet(1,2) by auto
qed

lemma b64decode_char:
  "v < 64 \<Longrightarrow> b64decode_from 0 0 0 (base64_char v # cs) = b64decode_from 1 v 0 cs"
  "v < 64 \<Longrightarrow> b64decode_from 1 l 0 (base64_char v # cs) =
     map_option (\<lambda>bs. (l * 4 + v div 16) # bs) (b64decode_from 2 (v mod 16) 0 cs)"
  "v < 64 \<Longrightarrow> b64decode_from 2 l 0 (base64_char v # cs) =
     map_option (\<lambda>bs. (l * 16 + v div 4) # bs) (b64decode_from 3 (v mod 4) 0 cs)"
  "v < 64 \<Longrightarrow> b64decode_from 3 l 0 (base64_char v # cs) =
     map_option (\<lambda>bs. (l * 64 + v) # bs) (b64decode_from 0 0 0 cs)"
  by (simp_all add: base64_value_char)

lemma b64decode_pads:
  "b64decode_from 2 l 0 ''=='' = Some []" "b64decode_from 3 l 0 ''='' = Some []"
  by simp_all

lemma pack_unpack:
  fixes x y k :: nat
  assumes "y < k"
  shows "(x * k + y) div k = x" "(x * k + y) mod k = y"
  using assms by simp_all

lemma six_bits:
  fixes a b c :: nat
  assumes "a < 256" "b < 256" "c < 256"
  shows "a div 4 < 64" "a mod 4 * 16 + b div 16 < 64" "b mod 16 * 4 + c div 64 < 64" "c mod 64 < 64"
    "a mod 4 * 16 < 64" "b mod 16 * 4 < 64"
    "a div 4 * 4 + (a mod 4 * 16 + b div 16) div 16 = a"
    "(a mod 4 * 16 + b div 16) mod 16 * 16 + (b mod 16 * 4 + c div 64) div 4 = b"
    "(b mod 16 * 4 + c div 64) mod 4 * 64 + c mod 64 = c"
    "a div 4 * 4 + (a mod 4 * 16) div 16 = a"
    "(a mod 4 * 16 + b div 16) mod 16 * 16 + (b mod 16 * 4) div 4 = b"
proof -
  have quarters: "b div 16 < 16" "c div 64 < 4" "a mod 4 < 4" "b mod 16 < 16" using assms by simp_all
  show "a div 4 < 64" "c mod 64 < 64" using assms by simp_all
  show "a mod 4 * 16 + b div 16 < 64" "b mod 16 * 4 + c div 64 < 64" "a mod 4 * 16 < 64" "b mod 16 * 4 < 64"
    using quarters by linarith+
  show "a div 4 * 4 + (a mod 4 * 16 + b div 16) div 16 = a"
    unfolding pack_unpack(1) [OF quarters(1)] by (rule div_mult_mod_eq)
  show "(a mod 4 * 16 + b div 16) mod 16 * 16 + (b mod 16 * 4 + c div 64) div 4 = b"
    unfolding pack_unpack(2) [OF quarters(1)] pack_unpack(1) [OF quarters(2)] by (rule div_mult_mod_eq)
  show "(b mod 16 * 4 + c div 64) mod 4 * 64 + c mod 64 = c"
    unfolding pack_unpack(2) [OF quarters(2)] by (rule div_mult_mod_eq)
  show "a div 4 * 4 + (a mod 4 * 16) div 16 = a" by simp
  show "(a mod 4 * 16 + b div 16) mod 16 * 16 + (b mod 16 * 4) div 4 = b"
    unfolding pack_unpack(2) [OF quarters(1)] by simp
qed

lemma b64_roundtrip: "\<forall>b\<in>set bs. b < 256 \<Longrightarrow> b64decode (b64encode bs) = Some bs"
  unfolding b64decode_def
proof (induction bs rule: b64encode.induct)
  case (2 a)
  then show ?case
    using six_bits(1,5,10) [of a] by (simp only: b64encode.simps b64decode_char b64decode_pads list.set ball_simps option.map simp_thms)
next
  case (3 a b)
  then show ?case
    using six_bits [of a b 0] by (simp only: b64encode.simps b64decode_char b64decode_pads list.set ball_simps option.map simp_thms)
next
  case (4 a b c bs)
  then have "b64decode_from 0 0 0 (b64encode bs) = Some bs" by simp
  then show ?case
    using six_bits [of a b c] 4(2)
    by (simp only: b64encode.simps append.simps b64decode_char b64decode_pads list.set ball_simps option.map simp_thms)
qed simp

lemma bytes_of_value:
  "length (bytes_of k n) = k \<and> (\<forall>b\<in>set (bytes_of k n). b < 256) \<and> foldl (\<lambda>a b. 256 * a + b) 0 (bytes_of k n) = n mod 256 ^ k"
proof (induction k arbitrary: n)
  case (Suc k)
  have "n mod (256 * 256 ^ k) = 256 * (n div 256 mod 256 ^ k) + n mod 256" by (rule mod_mult2_eq)
  then show ?case using Suc [of "n div 256"] by simp
qed simp

lemma uuid_of_bytes_of: "u < 2 ^ 128 \<Longrightarrow> uuid_of_bytes (bytes_of 16 u) = Some u"
proof -
  assume "u < 2 ^ 128"
  moreover have "(2::nat) ^ 128 = 256 ^ 16" by simp
  ultimately show ?thesis using bytes_of_value [of 16 u] unfolding uuid_of_bytes_def by (simp only: mod_less simp_thms if_True)
qed

lemma replace_absent: "c \<in> set old \<Longrightarrow> c \<notin> set s \<Longrightarrow> replace_text old new s = s"
proof (induction s)
  case (Cons x s)
  have "\<not> starts_with old (x # s)"
  proof
    assume "starts_with old (x # s)"
    then have "set old \<subseteq> set (x # s)" unfolding starts_with_def by (metis set_take_subset)
    then show False using Cons.prems by blast
  qed
  then show ?case using Cons by (subst replace_text.simps) auto
qed (simp add: replace_text.simps)

lemma replace_char: "replace_text [c] [] s = filter (\<lambda>x. x \<noteq> c) s"
proof (induction s)
  case (Cons x s)
  then show ?case by (subst replace_text.simps) (auto simp: starts_with_def)
qed (simp add: replace_text.simps)

lemma uuid_text_chars:
  assumes "c \<in> set (uuid_text u)"
  shows "is_hex c \<or> c = CHR ''-''"
  using assms hex_digits_hex [of c 32 u]
  by (auto simp: uuid_text_def Let_def dest: in_set_takeD in_set_dropD)

lemma uuid_text_digits: "filter (\<lambda>x. x \<noteq> CHR ''-'') (uuid_text u) = hex_digits 32 u"
proof -
  let ?h = "hex_digits 32 u"
  have no: "x \<in> set ?h \<Longrightarrow> x \<noteq> CHR ''-''" for x using hex_digits_hex [of x 32 u] by (auto simp: is_hex_def)
  have id: "filter (\<lambda>x. x \<noteq> CHR ''-'') (take n (drop k ?h)) = take n (drop k ?h)"
    "filter (\<lambda>x. x \<noteq> CHR ''-'') (drop k ?h) = drop k ?h" for n k
    by (auto simp: filter_id_conv dest!: in_set_takeD in_set_dropD no)
  have "filter (\<lambda>x. x \<noteq> CHR ''-'') (uuid_text u) =
      take 8 ?h @ take 4 (drop 8 ?h) @ take 4 (drop 12 ?h) @ take 4 (drop 16 ?h) @ drop 20 ?h"
    using id(1) [of 8 0] by (simp only: uuid_text_def Let_def filter_append id drop_0) simp
  also have "\<dots> = ?h"
    using append_take_drop_id [of 4 "drop 16 ?h"] append_take_drop_id [of 4 "drop 12 ?h"] append_take_drop_id [of 4 "drop 8 ?h"]
    by simp
  finally show ?thesis .
qed

lemma int_hex_digits_value:
  "all_some (map hex_value s) = Some ds \<Longrightarrow> s \<noteq> [] \<or> b \<Longrightarrow>
     int_hex_digits acc b s = Some (foldl (\<lambda>a d. 16 * a + d) acc ds)"
proof (induction s arbitrary: acc b ds)
  case (Cons c s)
  then obtain d es where "hex_value c = Some d" "all_some (map hex_value s) = Some es" "ds = d # es"
    by (auto split: option.splits)
  then show ?case using Cons.IH [of es True "16 * acc + d"] by simp
qed simp

lemma is_hex_unsigned: "is_hex c \<Longrightarrow> \<not> is_space c \<and> c \<noteq> CHR ''-'' \<and> c \<noteq> CHR ''+'' \<and> c \<noteq> CHR ''x'' \<and> c \<noteq> CHR ''X''"
  by (auto simp: is_hex_def is_space_def)

lemma py_int_hex_digits:
  assumes "u < 16 ^ 32"
  shows "py_int_hex (hex_digits 32 u) = Some (int u)"
proof -
  let ?h = "hex_digits 32 u"
  obtain ds where ds: "all_some (map hex_value ?h) = Some ds" "foldl (\<lambda>a d. 16 * a + d) 0 ds = u mod 16 ^ 32"
    using hex_digits_value by blast
  have len: "length ?h = 32" by simp
  obtain c d cs where h: "?h = c # d # cs"
    using len by (cases ?h; cases "tl ?h") (auto simp del: length_hex_digits hex_digits.simps)
  have hex: "is_hex x" if "x \<in> set ?h" for x using that hex_digits_hex by blast
  have c: "\<not> is_space c" "c \<noteq> CHR ''-''" "c \<noteq> CHR ''+''" and d: "d \<noteq> CHR ''x''" "d \<noteq> CHR ''X''"
    using is_hex_unsigned [OF hex [of c]] is_hex_unsigned [OF hex [of d]] by (simp_all add: h)
  have "stripped ?h" by (rule no_space_stripped) (use hex is_hex_unsigned in blast)
  then have strip: "strip ?h = ?h" by (rule strip_stripped)
  have "unsigned_hex ?h = int_hex_digits 0 False ?h" using d by (simp add: unsigned_hex_def starts_with_def h)
  also have "\<dots> = Some (u mod 16 ^ 32)" using int_hex_digits_value [OF ds(1), of False 0] ds(2) len by fastforce
  finally have "unsigned_hex ?h = Some u" using assms by simp
  then show ?thesis using c by (simp add: py_int_hex_def strip) (simp add: h)
qed

lemma parse_uuid_text:
  assumes "u < 2 ^ 128"
  shows "parse_uuid (uuid_text u) = Some u"
proof -
  let ?t = "uuid_text u"
  have chars: "x \<in> set ?t \<Longrightarrow> x \<noteq> CHR '':'' \<and> x \<noteq> CHR ''{'' \<and> x \<noteq> CHR ''}''" for x
    using uuid_text_chars [of x u] by (auto simp: is_hex_def)
  have urn: "replace_text ''urn:'' [] ?t = ?t" "replace_text ''uuid:'' [] ?t = ?t"
    by (rule replace_absent [of "CHR '':''"]; use chars in auto)+
  have ne: "?t \<noteq> []" by (simp add: uuid_text_def Let_def)
  have braces: "strip_chars (\<lambda>c. c = CHR ''{'' \<or> c = CHR ''}'') ?t = ?t"
    using ne chars [of "hd ?t"] chars [of "last ?t"] by (intro strip_chars_id) auto
  have big: "u < 16 ^ 32" using assms by simp
  have "int u < 2 ^ 128" using assms by (metis of_nat_less_numeral_power_cancel_iff)
  then show ?thesis
    unfolding parse_uuid_def urn braces replace_char uuid_text_digits Let_def py_int_hex_digits [OF big] by simp
qed

end
