(* ===== verification/Xray_Config.thy ===== *)
theory Xray_Config
  imports Python_Encoding Agent_IO "HOL-Library.List_Lexorder"
begin

text \<open>
  The client set of the Xray side and the configuration files rendered from it
  (\<open>drivers/xray_config_store.py\<close>, \<open>drivers/egress.py\<close>): the bookkeeping file, the configuration
  the Xray process reads, and how the driver reads clients back from such a file
  (\<open>drivers/xray.py\<close>, \<open>_live_client_uuids\<close>, \<open>_shape_without_clients\<close>, \<open>_live_inbounds_by_tag\<close>).

  SHA-256 is a parameter. A set of strings is a list whose order and repetitions do not matter. In
  the bookkeeping file a profile code is a string and a generation a number; other JSON there is
  refused. \<open>str\<close> of a JSON list or object, which no file of ours asks for, is its JSON text.
\<close>

subsection \<open>Profiles\<close>

datatype xray_transport = Xhttp | Grpc | Websocket | RawTcp | HysteriaUdp

fun transport_text :: "xray_transport \<Rightarrow> string" where
  "transport_text Xhttp = ''xhttp''"
| "transport_text Grpc = ''grpc''"
| "transport_text Websocket = ''websocket''"
| "transport_text RawTcp = ''raw''"
| "transport_text HysteriaUdp = ''hysteria''"

datatype xray_security = SecurityNone | SecurityTls | SecurityReality

fun security_text :: "xray_security \<Rightarrow> string" where
  "security_text SecurityNone = ''none''"
| "security_text SecurityTls = ''tls''"
| "security_text SecurityReality = ''reality''"

record xray_profile =
  xp_code :: string
  xp_transport :: xray_transport
  xp_listen :: string
  xp_port :: int
  xp_security :: xray_security
  xp_xhttp_path :: "string option"
  xp_grpc_service_name :: "string option"
  xp_ws_path :: "string option"
  xp_hysteria_up_mbps :: "int option"
  xp_hysteria_down_mbps :: "int option"
  xp_hysteria_obfs_password :: "string option"
  xp_ss2022_server_key :: "string option"
  xp_vless_decryption :: "string option"
  xp_vless_encryption :: "string option"
  xp_vmess :: bool
  xp_reality_private_key :: "string option"
  xp_reality_public_key :: "string option"
  xp_reality_dest :: "string option"
  xp_reality_server_name :: "string option"
  xp_reality_short_id :: "string option"
  xp_vision :: bool

definition xp_direct :: "xray_profile \<Rightarrow> bool" where
  "xp_direct p \<longleftrightarrow> xp_ss2022_server_key p \<noteq> None \<or> xp_vless_decryption p \<noteq> None \<or> xp_vmess p"

definition SS2022_METHOD :: string where
  "SS2022_METHOD = ''2022-blake3-aes-128-gcm''"

definition ss2022_user_key :: "uuid \<Rightarrow> string" where
  "ss2022_user_key client_uuid = b64encode (bytes_of 16 client_uuid)"

text \<open>\<open>None\<close> is the \<open>ValueError\<close> of a key that is no base64 or not sixteen bytes.\<close>

definition uuid_from_ss2022_key :: "string \<Rightarrow> uuid option" where
  "uuid_from_ss2022_key key = Option.bind (b64decode key) uuid_of_bytes"

subsection \<open>Clients\<close>

record rendered_xray_client =
  xc_client_uuid :: uuid
  xc_profile_code :: string
  xc_generation :: int

record desired_xray_state =
  dx_clients :: "rendered_xray_client list"

definition no_clients :: desired_xray_state where
  "no_clients = \<lparr>dx_clients = []\<rparr>"

definition without_client :: "desired_xray_state \<Rightarrow> uuid \<Rightarrow> desired_xray_state" where
  "without_client d u = \<lparr>dx_clients = filter (\<lambda>c. xc_client_uuid c \<noteq> u) (dx_clients d)\<rparr>"

definition with_client :: "desired_xray_state \<Rightarrow> rendered_xray_client \<Rightarrow> desired_xray_state" where
  "with_client d c = \<lparr>dx_clients = filter (\<lambda>x. xc_client_uuid x \<noteq> xc_client_uuid c) (dx_clients d) @ [c]\<rparr>"

definition client_named :: "desired_xray_state \<Rightarrow> uuid \<Rightarrow> rendered_xray_client option" where
  "client_named d u = find (\<lambda>c. xc_client_uuid c = u) (dx_clients d)"

definition clients_for :: "desired_xray_state \<Rightarrow> string \<Rightarrow> rendered_xray_client list" where
  "clients_for d code = filter (\<lambda>c. xc_profile_code c = code) (dx_clients d)"

subsection \<open>The bookkeeping file\<close>

text \<open>\<open>json.dumps(payload, indent=2, sort_keys=True)\<close>: the keys of an entry in order.\<close>

definition client_json :: "rendered_xray_client \<Rightarrow> json" where
  "client_json c = JObj
     [(''generation'', JInt (xc_generation c)), (''profile'', JStr (xc_profile_code c)),
      (''uuid'', JStr (uuid_text (xc_client_uuid c)))]"

definition render_state_json :: "desired_xray_state \<Rightarrow> string" where
  "render_state_json d = dumps_indent 2 (JList (map client_json (dx_clients d)))"

text \<open>What a \<open>for\<close> loop runs over; \<open>None\<close> is the \<open>TypeError\<close> of a value that is not iterable.\<close>

fun json_iter :: "json \<Rightarrow> json list option" where
  "json_iter (JList xs) = Some xs"
| "json_iter (JObj ms) = Some (map (\<lambda>k. JStr k) (remdups (map fst ms)))"
| "json_iter (JStr s) = Some (map (\<lambda>c. JStr [c]) s)"
| "json_iter _ = None"

definition parse_state_entry :: "json \<Rightarrow> (driver_error, rendered_xray_client) result" where
  "parse_state_entry entry =
     (case entry of
        JObj ms \<Rightarrow>
          (case (member ''uuid'' ms, member ''profile'' ms, member ''generation'' ms) of
             (None, _, _) \<Rightarrow> Inl KeyError
           | (Some (JStr u), profile, generation) \<Rightarrow>
               (case (parse_uuid u, profile, generation) of
                  (None, _, _) \<Rightarrow> Inl ValueError
                | (Some n, Some (JStr code), Some (JInt g)) \<Rightarrow>
                    Inr \<lparr>xc_client_uuid = n, xc_profile_code = code, xc_generation = g\<rparr>
                | (Some n, None, _) \<Rightarrow> Inl KeyError
                | (Some n, Some _, None) \<Rightarrow> Inl KeyError
                | _ \<Rightarrow> Inl TypeError)
           | (Some _, _, _) \<Rightarrow> Inl AttributeError)
      | _ \<Rightarrow> Inl TypeError)"

fun all_results :: "(driver_error, 'a) result list \<Rightarrow> (driver_error, 'a list) result" where
  "all_results [] = Inr []"
| "all_results (Inl e # rs) = Inl e"
| "all_results (Inr a # rs) = (case all_results rs of Inl e \<Rightarrow> Inl e | Inr as \<Rightarrow> Inr (a # as))"

definition parse_state_json :: "string \<Rightarrow> (driver_error, desired_xray_state) result" where
  "parse_state_json t =
     (if strip t = [] then Inr no_clients
      else (case loads t of
              Inl e \<Rightarrow> Inl ValueError
            | Inr payload \<Rightarrow>
                (case json_iter payload of
                   None \<Rightarrow> Inl TypeError
                 | Some entries \<Rightarrow>
                     (case all_results (map parse_state_entry entries) of
                        Inl e \<Rightarrow> Inl e
                      | Inr cs \<Rightarrow> Inr \<lparr>dx_clients = cs\<rparr>))))"

subsection \<open>The configuration Xray reads\<close>

definition client_email :: "(string \<Rightarrow> string) \<Rightarrow> uuid \<Rightarrow> string" where
  "client_email sha256 client_uuid = sha256 (uuid_text client_uuid)"

definition json_opt :: "string option \<Rightarrow> json" where
  "json_opt s = (case s of None \<Rightarrow> JNull | Some t \<Rightarrow> JStr t)"

text \<open>\<open>str(value)\<close> of an optional number, and \<open>value or default\<close> of an optional string.\<close>

definition str_opt_int :: "int option \<Rightarrow> string" where
  "str_opt_int i = (case i of None \<Rightarrow> ''None'' | Some n \<Rightarrow> int_text n)"

definition or_else :: "string option \<Rightarrow> string \<Rightarrow> string" where
  "or_else s t = (case s of None \<Rightarrow> t | Some v \<Rightarrow> if v = [] then t else v)"

definition transport_settings :: "xray_profile \<Rightarrow> (string \<times> json) list" where
  "transport_settings p =
     (case xp_transport p of
        Xhttp \<Rightarrow> [(''xhttpSettings'', JObj [(''path'', json_opt (xp_xhttp_path p))])]
      | Grpc \<Rightarrow> [(''grpcSettings'', JObj [(''serviceName'', json_opt (xp_grpc_service_name p))])]
      | Websocket \<Rightarrow> [(''wsSettings'', JObj [(''path'', json_opt (xp_ws_path p))])]
      | RawTcp \<Rightarrow> []
      | HysteriaUdp \<Rightarrow>
          (''hysteriaSettings'', JObj
             [(''version'', JInt 2), (''up'', JStr (str_opt_int (xp_hysteria_up_mbps p))),
              (''down'', JStr (str_opt_int (xp_hysteria_down_mbps p)))]) #
          (if or_else (xp_hysteria_obfs_password p) [] = [] then []
           else [(''udpmasks'', JList [JObj
                   [(''type'', JStr ''salamander''),
                    (''settings'', JObj [(''password'', json_opt (xp_hysteria_obfs_password p))])]])]))"

definition stream_settings :: "xray_profile \<Rightarrow> (string \<times> json) list" where
  "stream_settings p =
     [(''network'', JStr (transport_text (xp_transport p)))] @ transport_settings p @
     [(''security'', JStr (security_text (xp_security p)))] @
     (if xp_security p = SecurityReality
      then [(''realitySettings'', JObj
              [(''dest'', json_opt (xp_reality_dest p)), (''serverNames'', JList [json_opt (xp_reality_server_name p)]),
               (''privateKey'', json_opt (xp_reality_private_key p)), (''shortIds'', JList [json_opt (xp_reality_short_id p)])])]
      else [])"

definition VISION_FLOW :: string where
  "VISION_FLOW = ''xtls-rprx-vision''"

definition BLOCKED_DESTINATIONS :: "string list" where
  "BLOCKED_DESTINATIONS =
     [''0.0.0.0/8'', ''10.0.0.0/8'', ''100.64.0.0/10'', ''127.0.0.0/8'', ''169.254.0.0/16'', ''172.16.0.0/12'',
      ''192.0.0.0/24'', ''192.168.0.0/16'', ''198.18.0.0/15'', ''224.0.0.0/4'', ''240.0.0.0/4'',
      ''::1/128'', ''fc00::/7'', ''fe80::/10'', ''ff00::/8'']"

definition RESOLVERS :: "string list" where
  "RESOLVERS = [''1.1.1.1'', ''8.8.8.8'']"

definition STATS_API_TAG :: string where
  "STATS_API_TAG = ''nebula-stats-api''"

definition STATS_API_PORT :: int where
  "STATS_API_PORT = 25414"

definition stats_api_inbound :: "string \<Rightarrow> json" where
  "stats_api_inbound api_host = JObj
     [(''tag'', JStr STATS_API_TAG), (''listen'', JStr api_host), (''port'', JInt STATS_API_PORT),
      (''protocol'', JStr ''dokodemo-door''), (''settings'', JObj [(''address'', JStr api_host)])]"

text \<open>What the driver's settings contribute to the files it renders.\<close>

record xray_settings =
  xst_tls_cert_file :: "string option"
  xst_tls_key_file :: "string option"
  xst_api_host :: string
  xst_live_client_updates :: bool
  xst_dns_redirect :: "(string \<times> string) option"
  xst_public_host :: string
  xst_sni :: string
  xst_public_port :: int
  xst_hysteria_hop_ports :: "string option"

definition tls_settings :: "xray_settings \<Rightarrow> xray_profile \<Rightarrow> (string \<times> json) list" where
  "tls_settings st p =
     (if xp_security p = SecurityTls
      then [(''tlsSettings'', JObj
              ((''certificates'', JList [JObj [(''certificateFile'', json_opt (xst_tls_cert_file st)),
                                               (''keyFile'', json_opt (xst_tls_key_file st))]]) #
               (if xp_transport p = HysteriaUdp
                then [(''alpn'', JList [JStr ''h3'']), (''minVersion'', JStr ''1.3''), (''maxVersion'', JStr ''1.3'')]
                else [])))]
      else [])"

definition inbound_protocol :: "xray_profile \<Rightarrow> string" where
  "inbound_protocol p =
     (if xp_transport p = HysteriaUdp then ''hysteria''
      else if xp_vmess p then ''vmess''
      else if xp_ss2022_server_key p \<noteq> None then ''shadowsocks''
      else ''vless'')"

definition inbound_client :: "(string \<Rightarrow> string) \<Rightarrow> xray_profile \<Rightarrow> rendered_xray_client \<Rightarrow> json" where
  "inbound_client sha256 p c =
     (let u = xc_client_uuid c; email = (''email'', JStr (client_email sha256 u)) in
      if xp_transport p = HysteriaUdp then JObj [(''auth'', JStr (uuid_text u))]
      else if xp_vmess p then JObj [(''id'', JStr (uuid_text u)), email]
      else if xp_ss2022_server_key p \<noteq> None then JObj [(''password'', JStr (ss2022_user_key u)), email]
      else JObj ([(''id'', JStr (uuid_text u)), email] @ (if xp_vision p then [(''flow'', JStr VISION_FLOW)] else [])))"

definition inbound_settings :: "xray_profile \<Rightarrow> json list \<Rightarrow> (string \<times> json) list" where
  "inbound_settings p clients =
     (if xp_transport p = HysteriaUdp then [(''version'', JInt 2), (''clients'', JList clients)]
      else if xp_vmess p then [(''clients'', JList clients)]
      else (case xp_ss2022_server_key p of
              Some key \<Rightarrow>
                [(''method'', JStr SS2022_METHOD), (''password'', JStr key), (''network'', JStr ''tcp,udp''),
                 (''clients'', JList clients)]
            | None \<Rightarrow> [(''clients'', JList clients), (''decryption'', JStr (or_else (xp_vless_decryption p) ''none''))]))"

definition inbound_json :: "(string \<Rightarrow> string) \<Rightarrow> xray_settings \<Rightarrow> desired_xray_state \<Rightarrow> xray_profile \<Rightarrow> json" where
  "inbound_json sha256 st d p = JObj
     [(''tag'', JStr (xp_code p)), (''listen'', JStr (xp_listen p)), (''port'', JInt (xp_port p)),
      (''protocol'', JStr (inbound_protocol p)),
      (''settings'', JObj (inbound_settings p (map (inbound_client sha256 p) (clients_for d (xp_code p))))),
      (''streamSettings'', JObj (stream_settings p @ tls_settings st p))]"

definition outbounds_json :: "xray_settings \<Rightarrow> json list" where
  "outbounds_json st =
     [JObj [(''tag'', JStr ''internet''), (''protocol'', JStr ''freedom''),
            (''streamSettings'', JObj [(''sockopt'', JObj [(''domainStrategy'', JStr ''UseIPv4'')])])],
      JObj [(''tag'', JStr ''blocked''), (''protocol'', JStr ''blackhole'')]] @
     (case xst_dns_redirect st of
        None \<Rightarrow> []
      | Some (address, resolver) \<Rightarrow>
          [JObj [(''tag'', JStr ''nebula-dns''), (''protocol'', JStr ''freedom''),
                 (''settings'', JObj
                    [(''redirect'', JStr resolver),
                     (''finalRules'', JList [JObj
                        [(''action'', JStr ''allow''), (''network'', JStr ''tcp,udp''),
                         (''ip'', JList [JStr (rpartition_before CHR '':'' resolver)]),
                         (''port'', JStr (rpartition_after CHR '':'' resolver))]])])]])"

definition routing_rules :: "xray_settings \<Rightarrow> json list" where
  "routing_rules st =
     [JObj [(''type'', JStr ''field''), (''inboundTag'', JList [JStr STATS_API_TAG]), (''outboundTag'', JStr STATS_API_TAG)]] @
     (case xst_dns_redirect st of
        None \<Rightarrow> []
      | Some (address, resolver) \<Rightarrow>
          [JObj [(''type'', JStr ''field''), (''ip'', JList [JStr address]), (''port'', JStr ''53''),
                 (''outboundTag'', JStr ''nebula-dns'')]]) @
     [JObj [(''type'', JStr ''field''), (''ip'', JList (map (\<lambda>a. JStr a) BLOCKED_DESTINATIONS)), (''outboundTag'', JStr ''blocked'')],
      JObj [(''type'', JStr ''field''), (''domain'', JList [JStr ''full:localhost'', JStr ''domain:localhost'']),
            (''outboundTag'', JStr ''blocked'')]]"

definition server_config_json ::
  "(string \<Rightarrow> string) \<Rightarrow> xray_settings \<Rightarrow> xray_profile list \<Rightarrow> desired_xray_state \<Rightarrow> json" where
  "server_config_json sha256 st profiles d = JObj
     [(''inbounds'', JList (map (inbound_json sha256 st d) profiles @ [stats_api_inbound (xst_api_host st)])),
      (''outbounds'', JList (outbounds_json st)),
      (''dns'', JObj [(''servers'', JList (map (\<lambda>a. JStr a) RESOLVERS))]),
      (''stats'', JObj []),
      (''api'', JObj [(''tag'', JStr STATS_API_TAG),
                      (''services'', JList (if xst_live_client_updates st
                                            then [JStr ''HandlerService'', JStr ''StatsService''] else [JStr ''StatsService'']))]),
      (''policy'', JObj
         [(''levels'', JObj [(''0'', JObj [(''statsUserUplink'', JBool True), (''statsUserDownlink'', JBool True)])]),
          (''system'', JObj [(''statsInboundUplink'', JBool True), (''statsInboundDownlink'', JBool True)])]),
      (''routing'', JObj [(''domainStrategy'', JStr ''IPIfNonMatch''), (''rules'', JList (routing_rules st))])]"

definition render_xray_server_config ::
  "(string \<Rightarrow> string) \<Rightarrow> xray_settings \<Rightarrow> xray_profile list \<Rightarrow> desired_xray_state \<Rightarrow> string" where
  "render_xray_server_config sha256 st profiles d = dumps_indent 2 (server_config_json sha256 st profiles d)"

end
