(* ===== verification/Xray_Files.thy ===== *)
theory Xray_Files
  imports Xray_Config
begin

text \<open>
  How the Xray driver reads a served configuration back (\<open>drivers/xray.py\<close>): the identities of the
  clients of one inbound, the configuration without its clients, and the inbounds whose clients can
  be changed while Xray runs. The files may hold anything, so every way such a file can be wrong is
  an exception of the model.

  The lemmas show that these readers undo the renderer: of a rendered configuration they return
  exactly the clients it was rendered from, and two configurations that were rendered from
  different clients have the same shape.
\<close>

subsection \<open>Values of a JSON file\<close>

fun json_truthy :: "json \<Rightarrow> bool" where
  "json_truthy JNull = False"
| "json_truthy (JBool b) = b"
| "json_truthy (JInt i) = (i \<noteq> 0)"
| "json_truthy (JFloat f) = (\<exists>c\<in>set (takeWhile (\<lambda>c. c \<noteq> CHR ''e'' \<and> c \<noteq> CHR ''E'') f). c \<notin> {CHR ''0'', CHR ''.'', CHR ''-''})"
| "json_truthy (JStr s) = (s \<noteq> [])"
| "json_truthy (JList xs) = (xs \<noteq> [])"
| "json_truthy (JObj ms) = (ms \<noteq> [])"

fun py_str :: "json \<Rightarrow> string" where
  "py_str JNull = ''None''"
| "py_str (JBool b) = (if b then ''True'' else ''False'')"
| "py_str (JInt i) = int_text i"
| "py_str (JFloat f) = f"
| "py_str (JStr s) = s"
| "py_str j = dumps j"

definition json_get :: "string \<Rightarrow> json \<Rightarrow> (string \<times> json) list \<Rightarrow> json" where
  "json_get key other ms = (case member key ms of None \<Rightarrow> other | Some j \<Rightarrow> j)"

text \<open>The members as a dictionary: each key once, where it came first, with its last value.\<close>

definition dict_of :: "(string \<times> json) list \<Rightarrow> (string \<times> json) list" where
  "dict_of ms = map (\<lambda>k. (k, the (member k ms))) (rev (remdups (rev (map fst ms))))"

text \<open>\<open>d[key] = value\<close>\<close>

definition dict_put :: "'k \<Rightarrow> 'v \<Rightarrow> ('k \<times> 'v) list \<Rightarrow> ('k \<times> 'v) list" where
  "dict_put key v ms =
     (if key \<in> fst ` set ms then map (\<lambda>(k, x). (k, if k = key then v else x)) ms else ms @ [(key, v)])"

text \<open>What \<open>sort_keys=True\<close> prints.\<close>

fun sorted_json :: "json \<Rightarrow> json"
and sorted_items :: "json list \<Rightarrow> json list"
and sorted_members :: "(string \<times> json) list \<Rightarrow> (string \<times> json) list" where
  "sorted_json (JList xs) = JList (sorted_items xs)"
| "sorted_json (JObj ms) = JObj (sort_key fst (dict_of (sorted_members ms)))"
| "sorted_json j = j"
| "sorted_items [] = []"
| "sorted_items (x # xs) = sorted_json x # sorted_items xs"
| "sorted_members [] = []"
| "sorted_members ((k, v) # ms) = (k, sorted_json v) # sorted_members ms"

subsection \<open>Clients of an inbound\<close>

definition client_identity :: "xray_profile \<Rightarrow> json \<Rightarrow> (driver_error, string) result" where
  "client_identity p c =
     (case c of
        JObj ms \<Rightarrow>
          if xp_ss2022_server_key p \<noteq> None
          then (case uuid_from_ss2022_key (py_str (json_get ''password'' JNull ms)) of
                  None \<Rightarrow> Inl ValueError
                | Some u \<Rightarrow> Inr (uuid_text u))
          else (let i = json_get ''id'' JNull ms
                in Inr (py_str (if json_truthy i then i else json_get ''auth'' JNull ms)))
      | _ \<Rightarrow> Inl AttributeError)"

fun inbound_clients :: "int \<Rightarrow> json list \<Rightarrow> (driver_error, json list) result" where
  "inbound_clients port [] = Inr []"
| "inbound_clients port (JObj ms # rest) =
     (if json_get ''port'' JNull ms \<noteq> JInt port then inbound_clients port rest
      else (case json_get ''settings'' (JObj []) ms of
              JObj ss \<Rightarrow>
                (case json_iter (json_get ''clients'' (JList []) ss) of None \<Rightarrow> Inl TypeError | Some cs \<Rightarrow> Inr cs)
            | _ \<Rightarrow> Inl AttributeError))"
| "inbound_clients port (j # rest) = Inl AttributeError"

definition live_client_uuids :: "xray_profile \<Rightarrow> string \<Rightarrow> (driver_error, string list) result" where
  "live_client_uuids p t =
     (case loads t of
        Inl e \<Rightarrow> Inl ValueError
      | Inr (JObj ms) \<Rightarrow>
          (case json_iter (json_get ''inbounds'' (JList []) ms) of
             None \<Rightarrow> Inl TypeError
           | Some inbounds \<Rightarrow>
               (case inbound_clients (xp_port p) inbounds of
                  Inl e \<Rightarrow> Inl e
                | Inr cs \<Rightarrow> all_results (map (client_identity p) cs)))
      | Inr _ \<Rightarrow> Inl AttributeError)"

subsection \<open>Changing clients while Xray runs\<close>

definition LIVE_PROTOCOLS :: "string list" where
  "LIVE_PROTOCOLS = [''vless'', ''shadowsocks'', ''vmess'']"

definition live_protocol :: "(string \<times> json) list \<Rightarrow> bool" where
  "live_protocol ms \<longleftrightarrow> json_get ''protocol'' JNull ms \<in> set (map (\<lambda>t. JStr t) LIVE_PROTOCOLS)"

definition without_clients :: "json \<Rightarrow> json" where
  "without_clients inbound =
     (case inbound of
        JObj ms \<Rightarrow>
          if live_protocol ms
          then (case json_get ''settings'' JNull ms of
                  JObj ss \<Rightarrow> JObj (dict_put ''settings'' (JObj (dict_put ''clients'' (JList []) (dict_of ss))) (dict_of ms))
                | _ \<Rightarrow> inbound)
          else inbound
      | _ \<Rightarrow> inbound)"

text \<open>
  Only the elements of a list can be changed by the loop; the keys of an object and the characters
  of a string pass through it untouched.
\<close>

definition emptied_inbounds :: "json \<Rightarrow> (driver_error, json) result" where
  "emptied_inbounds j =
     (case j of
        JList xs \<Rightarrow> Inr (JList (map without_clients xs))
      | JObj _ \<Rightarrow> Inr j
      | JStr _ \<Rightarrow> Inr j
      | _ \<Rightarrow> Inl TypeError)"

definition shape_without_clients :: "string \<Rightarrow> (driver_error, string option) result" where
  "shape_without_clients t =
     (case loads t of
        Inr (JObj ms) \<Rightarrow>
          (case member ''inbounds'' ms of
             None \<Rightarrow> Inr (Some (dumps (sorted_json (JObj ms))))
           | Some j \<Rightarrow>
               (case emptied_inbounds j of
                  Inl e \<Rightarrow> Inl e
                | Inr k \<Rightarrow> Inr (Some (dumps (sorted_json (JObj (dict_put ''inbounds'' k (dict_of ms))))))))
      | _ \<Rightarrow> Inr None)"

record live_inbound =
  li_port :: int
  li_protocol :: string
  li_settings :: "(string \<times> json) list"
  li_clients :: "(string \<times> (string \<times> string) list) list"

text \<open>Any exception, which a configuration of ours does not raise, is \<open>None\<close>.\<close>

fun clients_by_email :: "json list \<Rightarrow> (string \<times> (string \<times> string) list) list option" where
  "clients_by_email [] = Some []"
| "clients_by_email (JObj ms # cs) =
     (case (member ''email'' ms, clients_by_email cs) of
        (Some e, Some rest) \<Rightarrow>
          Some (if py_str e \<in> fst ` set rest then rest
                else (py_str e, map (\<lambda>(k, v). (k, py_str v)) (dict_of ms)) # rest)
      | _ \<Rightarrow> None)"
| "clients_by_email _ = None"

definition live_inbound_of :: "(string \<times> json) list \<Rightarrow> (string \<times> live_inbound) option" where
  "live_inbound_of ms =
     (case (json_get ''settings'' (JObj []) ms, member ''tag'' ms, member ''port'' ms) of
        (JObj ss, Some tag, Some (JInt port)) \<Rightarrow>
          (case Option.bind (json_iter (json_get ''clients'' (JList []) ss)) clients_by_email of
             None \<Rightarrow> None
           | Some cs \<Rightarrow>
               Some (py_str tag, \<lparr>li_port = port, li_protocol = py_str (json_get ''protocol'' JNull ms),
                 li_settings = filter (\<lambda>m. fst m \<noteq> ''clients'') (dict_of ss), li_clients = cs\<rparr>))
      | _ \<Rightarrow> None)"

fun live_inbounds :: "json list \<Rightarrow> (string \<times> live_inbound) list \<Rightarrow> (string \<times> live_inbound) list option" where
  "live_inbounds [] acc = Some acc"
| "live_inbounds (JObj ms # rest) acc =
     (if \<not> live_protocol ms then live_inbounds rest acc
      else (case live_inbound_of ms of
              None \<Rightarrow> None
            | Some (tag, li) \<Rightarrow> live_inbounds rest (dict_put tag li acc)))"
| "live_inbounds (j # rest) acc = None"

definition live_inbounds_by_tag :: "string \<Rightarrow> (string \<times> live_inbound) list option" where
  "live_inbounds_by_tag t =
     (case loads t of
        Inr (JObj ms) \<Rightarrow> Option.bind (json_iter (json_get ''inbounds'' (JList []) ms)) (\<lambda>xs. live_inbounds xs [])
      | _ \<Rightarrow> None)"

subsection \<open>Reading back what was rendered\<close>

named_theorems rendered_simps

lemma ss2022_roundtrip: "u < 2 ^ 128 \<Longrightarrow> uuid_from_ss2022_key (ss2022_user_key u) = Some u"
  using bytes_of_value [of 16 u] by (simp add: uuid_from_ss2022_key_def ss2022_user_key_def b64_roundtrip uuid_of_bytes_of)

lemma json_opt_plain [rendered_simps]: "plain_json (json_opt s)"
  by (simp add: json_opt_def split: option.splits)

lemma plain_config: "plain_json (server_config_json sha256 st profiles d)"
proof -
  have "plain_json (inbound_json sha256 st d p)" for p
  proof -
    have "\<forall>m\<in>set (stream_settings p @ tls_settings st p). plain_json (snd m)"
      by (auto simp: stream_settings_def transport_settings_def tls_settings_def rendered_simps
          split: xray_transport.splits if_splits)
    moreover have "\<forall>m\<in>set (inbound_settings p (map (inbound_client sha256 p) (clients_for d (xp_code p)))). plain_json (snd m)"
      by (auto simp: inbound_settings_def inbound_client_def Let_def split: option.splits if_splits)
    ultimately show ?thesis by (simp add: inbound_json_def)
  qed
  moreover have "\<forall>j\<in>set (outbounds_json st). plain_json j" "\<forall>j\<in>set (routing_rules st). plain_json j"
    by (auto simp: outbounds_json_def routing_rules_def split: option.splits prod.splits)
  ultimately show ?thesis by (auto simp: server_config_json_def stats_api_inbound_def)
qed

lemma loads_config [rendered_simps]:
  "loads (render_xray_server_config sha256 st profiles d) = Inr (server_config_json sha256 st profiles d)"
  unfolding render_xray_server_config_def dumps_indent_def by (rule loads_dumps_at [OF plain_config])

lemma config_inbounds:
  assumes "server_config_json sha256 st profiles d = JObj ms"
  shows "member ''inbounds'' ms = Some (JList (map (inbound_json sha256 st d) profiles @ [stats_api_inbound (xst_api_host st)]))"
  using assms by (auto simp: server_config_json_def member_def)

lemma inbound_members:
  assumes "inbound_json sha256 st d p = JObj ms"
  shows "json_get ''port'' JNull ms = JInt (xp_port p)"
    "json_get ''settings'' j ms = JObj (inbound_settings p (map (inbound_client sha256 p) (clients_for d (xp_code p))))"
    "json_get ''protocol'' JNull ms = JStr (inbound_protocol p)"
    "member ''tag'' ms = Some (JStr (xp_code p))" "member ''port'' ms = Some (JInt (xp_port p))"
  using assms by (auto simp: inbound_json_def json_get_def member_def)

lemma settings_clients [rendered_simps]: "json_get ''clients'' (JList []) (inbound_settings p cs) = JList cs"
  by (simp add: inbound_settings_def json_get_def member_def split: option.splits)

lemma inbound_clients_config:
  "p \<in> set profiles \<Longrightarrow> distinct (map xp_port profiles) \<Longrightarrow>
     inbound_clients (xp_port p) (map (inbound_json sha256 st d) profiles @ rest) =
       Inr (map (inbound_client sha256 p) (clients_for d (xp_code p)))"
proof (induction profiles)
  case (Cons q qs)
  obtain ms where q: "inbound_json sha256 st d q = JObj ms" by (simp add: inbound_json_def)
  show ?case
  proof (cases "xp_port q = xp_port p")
    case True
    then have "q = p" using Cons.prems by auto
    then show ?thesis using q by (simp add: inbound_members [OF q] rendered_simps)
  next
    case False
    then show ?thesis using Cons q by (auto simp: inbound_members [OF q])
  qed
qed simp

text \<open>A profile speaks one protocol.\<close>

definition one_protocol :: "xray_profile \<Rightarrow> bool" where
  "one_protocol p \<longleftrightarrow> xp_ss2022_server_key p \<noteq> None \<longrightarrow> xp_transport p \<noteq> HysteriaUdp \<and> \<not> xp_vmess p"

lemma client_identity_inbound:
  assumes "one_protocol p" and "xc_client_uuid c < 2 ^ 128"
  shows "client_identity p (inbound_client sha256 p c) = Inr (uuid_text (xc_client_uuid c))"
proof -
  have "uuid_text u \<noteq> []" for u by (simp add: uuid_text_def Let_def)
  then show ?thesis
    using assms ss2022_roundtrip [OF assms(2)]
    by (auto simp: client_identity_def inbound_client_def Let_def json_get_def member_def one_protocol_def)
qed

lemma all_results_Inr: "\<forall>x\<in>set xs. f x = Inr (g x) \<Longrightarrow> all_results (map f xs) = Inr (map g xs)"
  by (induction xs) auto

lemma live_clients_rendered:
  assumes "p \<in> set profiles" and "distinct (map xp_port profiles)" and "one_protocol p"
    and "\<forall>c\<in>set (dx_clients d). xc_client_uuid c < 2 ^ 128"
  shows "live_client_uuids p (render_xray_server_config sha256 st profiles d) =
    Inr (map (\<lambda>c. uuid_text (xc_client_uuid c)) (clients_for d (xp_code p)))"
proof -
  obtain ms where ms: "server_config_json sha256 st profiles d = JObj ms" by (simp add: server_config_json_def)
  have "\<forall>c\<in>set (clients_for d (xp_code p)). client_identity p (inbound_client sha256 p c) = Inr (uuid_text (xc_client_uuid c))"
    using assms(3,4) by (auto simp: clients_for_def intro!: client_identity_inbound)
  then show ?thesis
    by (simp add: live_client_uuids_def rendered_simps ms json_get_def config_inbounds [OF ms]
        inbound_clients_config [OF assms(1,2)] all_results_Inr o_def)
qed

subsection \<open>The shape of a rendered configuration\<close>

lemma dict_of_distinct:
  assumes "distinct (map fst ms)"
  shows "dict_of ms = ms"
proof -
  have "rev (remdups (rev (map fst ms))) = map fst ms" using assms by (simp add: distinct_remdups_id)
  moreover have "the (member (fst m) ms) = snd m" if "m \<in> set ms" for m
    using assms that by (cases m) (simp add: member_def map_of_eq_Some_iff distinct_map rev_map)
  ultimately show ?thesis by (simp add: dict_of_def comp_def map_idI)
qed

lemma inbound_settings_dict:
  "dict_of (inbound_settings p cs) = inbound_settings p cs"
  "dict_put ''clients'' (JList []) (inbound_settings p cs) = inbound_settings p []"
  by (simp add: inbound_settings_def dict_of_distinct split: option.splits)
     (simp add: inbound_settings_def dict_put_def split: option.splits)

lemma clients_for_none [simp]: "clients_for no_clients code = []"
  by (simp add: clients_for_def no_clients_def)

lemma without_clients_inbound:
  assumes "xp_transport p \<noteq> HysteriaUdp"
  shows "without_clients (inbound_json sha256 st d p) = inbound_json sha256 st no_clients p"
proof -
  obtain ms where ms: "inbound_json sha256 st d p = JObj ms" by (simp add: inbound_json_def)
  have live: "live_protocol ms"
    using assms by (auto simp: live_protocol_def inbound_members [OF ms] inbound_protocol_def LIVE_PROTOCOLS_def)
  have "distinct (map fst ms)" using ms by (auto simp: inbound_json_def)
  then have dict: "dict_of ms = ms" by (rule dict_of_distinct)
  have "without_clients (JObj ms) = JObj (dict_put ''settings'' (JObj (inbound_settings p [])) ms)"
    using live by (simp add: without_clients_def inbound_members [OF ms] dict inbound_settings_dict)
  also have "\<dots> = inbound_json sha256 st no_clients p"
    using ms [symmetric] unfolding inbound_json_def by (simp only: json.inject) (simp add: dict_put_def)
  finally show ?thesis using ms by simp
qed

lemma shape_rendered:
  assumes "\<forall>p\<in>set profiles. xp_transport p \<noteq> HysteriaUdp"
  shows "shape_without_clients (render_xray_server_config sha256 st profiles d) =
    Inr (Some (dumps (sorted_json (server_config_json sha256 st profiles no_clients))))"
proof -
  obtain ms where ms: "server_config_json sha256 st profiles d = JObj ms" by (simp add: server_config_json_def)
  have "distinct (map fst ms)" using ms by (auto simp: server_config_json_def)
  then have dict: "dict_of ms = ms" by (rule dict_of_distinct)
  have "without_clients (stats_api_inbound h) = stats_api_inbound h" for h
    by (simp add: without_clients_def stats_api_inbound_def live_protocol_def json_get_def member_def LIVE_PROTOCOLS_def)
  then have emptied: "map without_clients (map (inbound_json sha256 st d) profiles @ [stats_api_inbound (xst_api_host st)]) =
      map (inbound_json sha256 st no_clients) profiles @ [stats_api_inbound (xst_api_host st)]"
    using assms by (simp add: without_clients_inbound)
  have "JObj (dict_put ''inbounds'' (JList (map without_clients
      (map (inbound_json sha256 st d) profiles @ [stats_api_inbound (xst_api_host st)]))) ms) =
      server_config_json sha256 st profiles no_clients"
    unfolding emptied using ms [symmetric] unfolding server_config_json_def by (simp only: json.inject) (simp add: dict_put_def)
  then show ?thesis
    by (simp add: shape_without_clients_def rendered_simps ms config_inbounds [OF ms] emptied_inbounds_def dict
        del: map_append)
qed

subsection \<open>The inbounds of a rendered configuration\<close>

definition emails_for :: "(string \<Rightarrow> string) \<Rightarrow> desired_xray_state \<Rightarrow> string \<Rightarrow> string set" where
  "emails_for sha256 d code = (\<lambda>c. client_email sha256 (xc_client_uuid c)) ` set (clients_for d code)"

lemma clients_by_email_inbound:
  assumes "xp_transport p \<noteq> HysteriaUdp"
  shows "\<exists>cs'. clients_by_email (map (inbound_client sha256 p) cs) = Some cs' \<and>
    fst ` set cs' = (\<lambda>c. client_email sha256 (xc_client_uuid c)) ` set cs"
proof (induction cs)
  case (Cons c cs)
  have "\<exists>ms. inbound_client sha256 p c = JObj ms \<and> member ''email'' ms = Some (JStr (client_email sha256 (xc_client_uuid c)))"
    using assms
    by (cases "xp_vmess p"; cases "xp_ss2022_server_key p = None"; cases "xp_vision p")
       (simp_all add: inbound_client_def Let_def member_def)
  then show ?case using Cons by (auto simp: insert_absorb)
qed simp

lemma live_inbound_of_inbound:
  assumes "xp_transport p \<noteq> HysteriaUdp" and "inbound_json sha256 st d p = JObj ms"
  shows "\<exists>li. live_inbound_of ms = Some (xp_code p, li) \<and> fst ` set (li_clients li) = emails_for sha256 d (xp_code p)"
proof -
  obtain cs' where "clients_by_email (map (inbound_client sha256 p) (clients_for d (xp_code p))) = Some cs'"
      "fst ` set cs' = emails_for sha256 d (xp_code p)"
    using clients_by_email_inbound [OF assms(1)] unfolding emails_for_def by blast
  then show ?thesis by (simp add: live_inbound_of_def inbound_members [OF assms(2)] rendered_simps)
qed

text \<open>Each inbound whose clients can be changed live, once, with exactly the emails of its clients.\<close>

definition live_codes :: "xray_profile list \<Rightarrow> string list" where
  "live_codes profiles = map xp_code (filter (\<lambda>p. xp_transport p \<noteq> HysteriaUdp) profiles)"

lemma live_inbounds_config:
  "distinct (map fst acc @ map xp_code profiles) \<Longrightarrow>
     \<exists>tis. live_inbounds (map (inbound_json sha256 st d) profiles @ [stats_api_inbound h]) acc = Some (acc @ tis) \<and>
       map fst tis = live_codes profiles \<and>
       (\<forall>(tag, li)\<in>set tis. fst ` set (li_clients li) = emails_for sha256 d tag)"
proof (induction profiles arbitrary: acc)
  case Nil
  then show ?case
    by (simp add: stats_api_inbound_def live_protocol_def json_get_def member_def LIVE_PROTOCOLS_def live_codes_def)
next
  case (Cons p ps)
  obtain ms where ms: "inbound_json sha256 st d p = JObj ms" by (simp add: inbound_json_def)
  show ?case
  proof (cases "xp_transport p = HysteriaUdp")
    case True
    then have "\<not> live_protocol ms" by (simp add: live_protocol_def inbound_members [OF ms] inbound_protocol_def LIVE_PROTOCOLS_def)
    then show ?thesis using Cons ms True by (simp add: live_codes_def)
  next
    case False
    then have live: "live_protocol ms"
      by (auto simp: live_protocol_def inbound_members [OF ms] inbound_protocol_def LIVE_PROTOCOLS_def)
    obtain li where li: "live_inbound_of ms = Some (xp_code p, li)" "fst ` set (li_clients li) = emails_for sha256 d (xp_code p)"
      using live_inbound_of_inbound [OF False ms] by blast
    have put: "dict_put (xp_code p) li acc = acc @ [(xp_code p, li)]" using Cons.prems by (auto simp: dict_put_def)
    have "distinct (map fst (acc @ [(xp_code p, li)]) @ map xp_code ps)" using Cons.prems by auto
    from Cons.IH [OF this] obtain tis where
      "live_inbounds (map (inbound_json sha256 st d) ps @ [stats_api_inbound h]) (acc @ [(xp_code p, li)]) =
         Some ((acc @ [(xp_code p, li)]) @ tis)" "map fst tis = live_codes ps"
      "\<forall>(tag, li)\<in>set tis. fst ` set (li_clients li) = emails_for sha256 d tag"
      by blast
    then show ?thesis using ms live li put False by (auto simp: live_codes_def intro!: exI [of _ "(xp_code p, li) # tis"])
  qed
qed

lemma live_inbounds_rendered:
  assumes "distinct (map xp_code profiles)"
  shows "\<exists>tis. live_inbounds_by_tag (render_xray_server_config sha256 st profiles d) = Some tis \<and>
    map fst tis = live_codes profiles \<and> (\<forall>(tag, li)\<in>set tis. fst ` set (li_clients li) = emails_for sha256 d tag)"
proof -
  obtain ms where ms: "server_config_json sha256 st profiles d = JObj ms" by (simp add: server_config_json_def)
  show ?thesis
    using live_inbounds_config [of "[]" profiles sha256 st d "xst_api_host st"] assms
    by (simp add: live_inbounds_by_tag_def rendered_simps ms json_get_def config_inbounds [OF ms])
qed

subsection \<open>The bookkeeping file\<close>

lemma parse_client_json:
  "xc_client_uuid c < 2 ^ 128 \<Longrightarrow> parse_state_entry (client_json c) = Inr c"
  by (simp add: parse_state_entry_def client_json_def member_def parse_uuid_text)

lemma parse_rendered_state:
  assumes "\<forall>c\<in>set (dx_clients d). xc_client_uuid c < 2 ^ 128"
  shows "parse_state_json (render_state_json d) = Inr d"
proof -
  let ?j = "JList (map client_json (dx_clients d))"
  have "plain_json ?j" by (simp add: client_json_def)
  then have l: "loads (render_state_json d) = Inr ?j"
    unfolding render_state_json_def dumps_indent_def by (rule loads_dumps_at)
  have "hd (render_state_json d) = CHR ''[''" "render_state_json d \<noteq> []"
    by (simp_all add: render_state_json_def dumps_indent_def)
  then have "CHR ''['' \<in> set (render_state_json d)" by (metis list.set_sel(1))
  moreover have "\<not> is_space CHR ''[''" by (simp add: is_space_def)
  ultimately have "strip (render_state_json d) \<noteq> []" by (rule strip_keeps)
  then show ?thesis
    using assms all_results_Inr [of "dx_clients d" "\<lambda>c. parse_state_entry (client_json c)" "\<lambda>c. c"]
    by (simp add: parse_state_json_def l parse_client_json o_def)
qed

end
