(* ===== verification/Hysteria_Config.thy ===== *)
theory Hysteria_Config
  imports Xray_Files
begin

text \<open>
  The configuration of the Hysteria2 server (\<open>drivers/hysteria_config_store.py\<close>) and how the
  driver reads the clients of the served file back (\<open>drivers/xray.py\<close>, \<open>_live_hysteria_uuids\<close>). The
  file lists the clients, or sends Hysteria to the agent for each new connection; in the second
  form it does not depend on the clients at all.
\<close>

subsection \<open>Rendering\<close>

definition NO_CLIENTS_USER :: string where
  "NO_CLIENTS_USER = ''__no_clients__''"

record hysteria_profile =
  hp_code :: string
  hp_port :: int
  hp_tls_cert_file :: string
  hp_tls_key_file :: string
  hp_obfs_password :: string
  hp_up_mbps :: int
  hp_down_mbps :: int
  hp_masquerade_url :: string

definition TRAFFIC_STATS_PORT :: int where
  "TRAFFIC_STATS_PORT = 25413"

definition HYSTERIA_AUTH_PORT :: int where
  "HYSTERIA_AUTH_PORT = 25415"

definition HYSTERIA_AUTH_PATH :: string where
  "HYSTERIA_AUTH_PATH = ''/hysteria/auth''"

definition traffic_stats_secret :: "(string \<Rightarrow> string) \<Rightarrow> hysteria_profile \<Rightarrow> string" where
  "traffic_stats_secret sha256 hp = sha256 (''nebula-hysteria-traffic-stats:'' @ hp_obfs_password hp)"

definition no_clients_secret :: "(string \<Rightarrow> string) \<Rightarrow> hysteria_profile \<Rightarrow> string" where
  "no_clients_secret sha256 hp = sha256 (''nebula-no-clients:'' @ hp_obfs_password hp)"

definition yaml_quote :: "string \<Rightarrow> string" where
  "yaml_quote v =
     [QUOTE] @ replace_text [QUOTE] [BACKSLASH, QUOTE] (replace_text [BACKSLASH] [BACKSLASH, BACKSLASH] v) @ [QUOTE]"

definition userpass_entry :: "string \<Rightarrow> string \<Rightarrow> string" where
  "userpass_entry user password = ''    '' @ yaml_quote user @ '': '' @ yaml_quote password"

definition userpass_entries :: "(string \<Rightarrow> string) \<Rightarrow> uuid list \<Rightarrow> hysteria_profile \<Rightarrow> string list" where
  "userpass_entries sha256 client_uuids hp =
     (if client_uuids \<noteq> []
      then map (\<lambda>u. userpass_entry (uuid_text u) (uuid_text u)) (sort_key uuid_text client_uuids)
      else [userpass_entry NO_CLIENTS_USER (no_clients_secret sha256 hp)])"

definition after_auth :: "(string \<Rightarrow> string) \<Rightarrow> hysteria_profile \<Rightarrow> string \<Rightarrow> (string \<times> string) option \<Rightarrow> string list" where
  "after_auth sha256 hp api_host dns_redirect =
     ['''', ''acl:'', ''  inline:''] @
     (case dns_redirect of
        Some (address, _) \<Rightarrow>
          if address = [] then []
          else [''    - direct('' @ address @ '', udp/53)'', ''    - direct('' @ address @ '', tcp/53)'']
      | None \<Rightarrow> []) @
     map (\<lambda>destination. ''    - reject('' @ destination @ '')'') BLOCKED_DESTINATIONS @
     [''    - direct(all)'', '''',
      ''trafficStats:'',
      ''  listen: '' @ api_host @ '':'' @ int_text TRAFFIC_STATS_PORT,
      ''  secret: '' @ yaml_quote (traffic_stats_secret sha256 hp), '''',
      ''obfs:'', ''  type: salamander'', ''  salamander:'',
      ''    password: '' @ yaml_quote (hp_obfs_password hp), '''',
      ''quic:'', ''  initStreamReceiveWindow: 8388608'', ''  maxStreamReceiveWindow: 8388608'',
      ''  initConnReceiveWindow: 20971520'', ''  maxConnReceiveWindow: 20971520'', ''  maxIdleTimeout: 60s'',
      ''  keepAlivePeriod: 10s'', ''  disablePathMTUDiscovery: false'', '''',
      ''# Advisory only: ignoreClientBandwidth below puts BBR in charge, which'',
      ''# measures the path instead of trusting a declared number. Hysteria2'' @ [CHR 0x27] @ ''s'',
      ''# default Brutal sender transmits at whatever the client claims, which'',
      ''# on a real link that is nothing like the claim means continuous'',
      ''# overshoot -- observed live as unusable jitter until this was set.'',
      ''bandwidth:'', ''  up: '' @ int_text (hp_up_mbps hp) @ '' mbps'', ''  down: '' @ int_text (hp_down_mbps hp) @ '' mbps'', '''',
      ''ignoreClientBandwidth: true'', '''',
      ''resolver:'', ''  type: udp'', ''  udp:'',
      ''    addr: '' @ or_else (map_option snd dns_redirect) ''8.8.8.8:53'', ''    timeout: 10s'', '''',
      ''# Anything failing authentication is transparently proxied to a real'',
      ''# site, so an active prober sees a working website rather than a port'',
      ''# that answers nothing.'',
      ''masquerade:'', ''  type: proxy'', ''  proxy:'', ''    url: '' @ yaml_quote (hp_masquerade_url hp),
      ''    rewriteHost: true'', '''']"

definition hysteria_head :: "hysteria_profile \<Rightarrow> string list" where
  "hysteria_head hp =
     [''# Rendered by nebula-agent. Do not edit by hand -- every change is a'',
      ''# full re-render from the provisioned client set.'', '''',
      ''listen: :'' @ int_text (hp_port hp), '''',
      ''tls:'', ''  cert: '' @ yaml_quote (hp_tls_cert_file hp), ''  key: '' @ yaml_quote (hp_tls_key_file hp), '''',
      ''auth:'']"

definition auth_lines :: "(string \<Rightarrow> string) \<Rightarrow> uuid list \<Rightarrow> hysteria_profile \<Rightarrow> string option \<Rightarrow> string list" where
  "auth_lines sha256 client_uuids hp auth_url =
     (case auth_url of
        Some url \<Rightarrow> [''  type: http'', ''  http:'', ''    url: '' @ yaml_quote url]
      | None \<Rightarrow> [''  type: userpass'', ''  userpass:''] @ userpass_entries sha256 client_uuids hp)"

definition render_hysteria_server_config ::
  "(string \<Rightarrow> string) \<Rightarrow> uuid list \<Rightarrow> hysteria_profile \<Rightarrow> string \<Rightarrow> string option \<Rightarrow> (string \<times> string) option \<Rightarrow> string" where
  "render_hysteria_server_config sha256 client_uuids hp api_host auth_url dns_redirect =
     join_text [NL] (hysteria_head hp @ auth_lines sha256 client_uuids hp auth_url @ after_auth sha256 hp api_host dns_redirect)"

subsection \<open>Reading\<close>

definition HTTP_AUTH_LINE :: string where
  "HTTP_AUTH_LINE = ''  type: http''"

definition userpass_key :: "string \<Rightarrow> string" where
  "userpass_key line = strip_chars (\<lambda>c. c = QUOTE) (strip (before_char CHR '':'' (strip line)))"

fun userpass_keys :: "bool \<Rightarrow> string list \<Rightarrow> string list" where
  "userpass_keys inside [] = []"
| "userpass_keys inside (line # rest) =
     (if starts_with ''  userpass:'' line then userpass_keys True rest
      else if \<not> inside then userpass_keys False rest
      else if \<not> starts_with ''    '' line \<or> strip line \<in> {'''', ''{}''} then []
      else (let key = userpass_key line
            in (if key \<noteq> [] \<and> key \<noteq> NO_CLIENTS_USER then [key] else []) @ userpass_keys True rest))"

definition live_hysteria_uuids :: "hysteria_profile \<Rightarrow> desired_xray_state \<Rightarrow> string \<Rightarrow> string list" where
  "live_hysteria_uuids hp recorded t =
     (if contains_text (NL # HTTP_AUTH_LINE @ [NL]) t
      then map (\<lambda>c. uuid_text (xc_client_uuid c)) (clients_for recorded (hp_code hp))
      else userpass_keys False (splitlines t))"

subsection \<open>Reading back what was rendered\<close>

lemma contains_text_split: "contains_text sub s \<Longrightarrow> \<exists>a b. s = a @ sub @ b"
proof (induction s)
  case (Cons c s)
  show ?case
  proof (cases "starts_with sub (c # s)")
    case True
    then have "c # s = [] @ sub @ drop (length sub) (c # s)" unfolding starts_with_def by (metis append.left_neutral append_take_drop_id)
    then show ?thesis by blast
  next
    case False
    then obtain a b where "s = a @ sub @ b" using Cons by auto
    then show ?thesis by (metis append_Cons)
  qed
qed simp

lemma contains_text_append: "contains_text sub (a @ sub @ b)"
proof (induction a)
  case Nil
  have "starts_with sub (sub @ b)" by (simp add: starts_with_def)
  then show ?case by (cases "sub @ b") auto
qed simp

text \<open>A text contains a whole line only if it is one of its lines.\<close>

lemma contains_line:
  assumes "contains_text (NL # l @ [NL]) s" and "NL \<notin> set l"
  shows "l \<in> set (split_on NL s)"
proof -
  obtain a b where s: "s = a @ NL # (l @ NL # b)" using contains_text_split [OF assms(1)] by auto
  show ?thesis unfolding s split_on_append split_on_fresh [OF assms(2)] by simp
qed

definition one_line :: "string \<Rightarrow> bool" where
  "one_line s \<longleftrightarrow> (\<forall>c\<in>set s. \<not> line_break c)"

text \<open>The texts of the settings are single lines, and so is what SHA-256 prints.\<close>

definition hysteria_texts_ok :: "(string \<Rightarrow> string) \<Rightarrow> hysteria_profile \<Rightarrow> string \<Rightarrow> (string \<times> string) option \<Rightarrow> bool" where
  "hysteria_texts_ok sha256 hp api_host dns_redirect \<longleftrightarrow>
     (\<forall>s. one_line (sha256 s)) \<and> one_line (hp_tls_cert_file hp) \<and> one_line (hp_tls_key_file hp) \<and>
     one_line (hp_obfs_password hp) \<and> one_line (hp_masquerade_url hp) \<and> one_line api_host \<and>
     (\<forall>a r. dns_redirect = Some (a, r) \<longrightarrow> one_line a \<and> one_line r)"

lemma replace_chars: "x \<in> set (replace_text old new s) \<Longrightarrow> x \<in> set s \<union> set new"
proof (induction old new s rule: replace_text.induct)
  case (1 old new s)
  show ?case
  proof (cases "old = [] \<or> s = []")
    case True
    then show ?thesis using 1 by (subst (asm) replace_text.simps) auto
  next
    case False
    then show ?thesis
      using 1 by (subst (asm) (2) replace_text.simps) (auto split: if_splits dest: in_set_dropD list.set_sel(2))
  qed
qed

lemma yaml_quote_line: "one_line s \<Longrightarrow> one_line (yaml_quote s)"
  by (auto simp: one_line_def yaml_quote_def line_break_def dest!: replace_chars)

lemma one_line_append [simp]: "one_line (s @ t) \<longleftrightarrow> one_line s \<and> one_line t"
  by (auto simp: one_line_def)

lemma one_line_Cons [simp]: "one_line (c # s) \<longleftrightarrow> \<not> line_break c \<and> one_line s" "one_line []"
  by (auto simp: one_line_def)

lemma one_line_int [simp]: "one_line (int_text i)"
  using int_text_plain by (simp add: one_line_def)

lemma one_line_uuid [simp]: "one_line (uuid_text u)"
  using uuid_text_chars [of _ u] by (fastforce simp: one_line_def is_hex_def line_break_def)

lemma NO_CLIENTS_line [simp]: "one_line NO_CLIENTS_USER"
  by (simp add: NO_CLIENTS_USER_def line_break_def)

lemma hysteria_head_lines: "hysteria_texts_ok sha256 hp h dns \<Longrightarrow> l \<in> set (hysteria_head hp) \<Longrightarrow> one_line l"
  by (auto simp: hysteria_head_def hysteria_texts_ok_def yaml_quote_line line_break_def)

lemma after_auth_lines: "hysteria_texts_ok sha256 hp h dns \<Longrightarrow> l \<in> set (after_auth sha256 hp h dns) \<Longrightarrow> one_line l"
  by (cases dns)
     (auto simp: after_auth_def hysteria_texts_ok_def yaml_quote_line line_break_def or_else_def BLOCKED_DESTINATIONS_def
        traffic_stats_secret_def split: if_splits)

lemma auth_entries_lines:
  "hysteria_texts_ok sha256 hp h dns \<Longrightarrow> l \<in> set (auth_lines sha256 us hp None) \<Longrightarrow> one_line l"
  by (auto simp: auth_lines_def userpass_entries_def userpass_entry_def hysteria_texts_ok_def yaml_quote_line line_break_def
        no_clients_secret_def split: if_splits)

lemma after_auth_shape: "\<exists>ls. after_auth sha256 hp h dns = [] # ls @ [[]]"
  by (simp add: after_auth_def)

text \<open>A user name that quotes to itself.\<close>

definition plain_name :: "string \<Rightarrow> bool" where
  "plain_name u \<longleftrightarrow> u \<noteq> [] \<and> (\<forall>c\<in>set u. c \<noteq> QUOTE \<and> c \<noteq> BACKSLASH \<and> c \<noteq> CHR '':'' \<and> \<not> is_space c)"

lemma plain_name_uuid [simp]: "plain_name (uuid_text u)"
proof -
  have "uuid_text u \<noteq> []" by (simp add: uuid_text_def Let_def)
  moreover have "c \<noteq> QUOTE \<and> c \<noteq> BACKSLASH \<and> c \<noteq> CHR '':'' \<and> \<not> is_space c" if "c \<in> set (uuid_text u)" for c
    using uuid_text_chars [OF that] by (auto simp: is_hex_def is_space_def)
  ultimately show ?thesis by (simp add: plain_name_def)
qed

lemma plain_name_placeholder [simp]: "plain_name NO_CLIENTS_USER"
  by (simp add: plain_name_def NO_CLIENTS_USER_def is_space_def)

lemma dropWhile_absent: "x \<notin> set u \<Longrightarrow> dropWhile (\<lambda>c. c = x) u = u"
  by (cases u) auto

lemma strip_quotes:
  assumes "u \<noteq> []" "x \<notin> set u"
  shows "strip_chars (\<lambda>c. c = x) (x # u @ [x]) = u"
proof -
  have "dropWhile (\<lambda>c. c = x) (u @ [x]) = u @ [x]" using assms by (cases u) auto
  moreover have "dropWhile (\<lambda>c. c = x) (rev u) = rev u" using assms by (intro dropWhile_absent) simp
  ultimately show ?thesis by (simp add: strip_chars_def)
qed

lemma userpass_entry_read:
  assumes "plain_name u"
  shows "userpass_key (userpass_entry u p) = u" "strip (userpass_entry u p) \<notin> {'''', ''{}''}"
    "starts_with ''    '' (userpass_entry u p)" "\<not> starts_with ''  userpass:'' (userpass_entry u p)"
proof -
  have u: "u \<noteq> []" "QUOTE \<notin> set u" "BACKSLASH \<notin> set u" "CHR '':'' \<notin> set u" "\<forall>c\<in>set u. \<not> is_space c"
    using assms by (auto simp: plain_name_def)
  have q: "yaml_quote u = QUOTE # u @ [QUOTE]"
    using u(2,3) by (simp add: yaml_quote_def replace_absent [of QUOTE] replace_absent [of BACKSLASH])
  define rest where "rest = QUOTE # u @ QUOTE # '': '' @ yaml_quote p"
  have e: "userpass_entry u p = ''    '' @ rest" by (simp add: userpass_entry_def q rest_def)
  have "stripped rest" by (simp add: rest_def stripped_def yaml_quote_def is_space_def)
  then have strip: "strip (userpass_entry u p) = rest"
    unfolding e by (simp add: strip_blank_before is_space_def strip_stripped)
  have "before_char CHR '':'' rest = QUOTE # u @ [QUOTE]"
    unfolding rest_def before_char_def using u(4) by (simp, subst takeWhile_append2) auto
  moreover have "strip (QUOTE # u @ [QUOTE]) = QUOTE # u @ [QUOTE]"
    by (rule strip_stripped) (simp add: stripped_def is_space_def)
  moreover have "strip_chars (\<lambda>c. c = QUOTE) (QUOTE # u @ [QUOTE]) = u"
    by (rule strip_quotes [OF u(1,2)])
  ultimately show "userpass_key (userpass_entry u p) = u" by (simp add: userpass_key_def strip)
  show "strip (userpass_entry u p) \<notin> {'''', ''{}''}" unfolding strip rest_def by simp
  show "starts_with ''    '' (userpass_entry u p)" "\<not> starts_with ''  userpass:'' (userpass_entry u p)"
    unfolding e by (simp_all add: starts_with_def)
qed

lemma userpass_skip:
  "\<forall>l\<in>set xs. \<not> starts_with ''  userpass:'' l \<Longrightarrow> userpass_keys False (xs @ ys) = userpass_keys False ys"
  by (induction xs) auto

lemma userpass_entry_step:
  "plain_name u \<Longrightarrow> userpass_keys True (userpass_entry u p # rest) =
     (if u = NO_CLIENTS_USER then [] else [u]) @ userpass_keys True rest"
  using userpass_entry_read [of u p] by (simp add: Let_def plain_name_def)

lemma userpass_list:
  "userpass_keys True (map (\<lambda>u. userpass_entry (uuid_text u) (uuid_text u)) us @ [] # rest) = map uuid_text us"
proof (induction us)
  case Nil
  show ?case by (simp add: starts_with_def)
next
  case (Cons u us)
  have "uuid_text u \<noteq> NO_CLIENTS_USER"
  proof
    assume "uuid_text u = NO_CLIENTS_USER"
    then have "CHR ''_'' \<in> set (uuid_text u)" by (simp add: NO_CLIENTS_USER_def)
    then show False using uuid_text_chars by (fastforce simp: is_hex_def)
  qed
  then show ?case using Cons by (simp add: userpass_entry_step del: userpass_keys.simps)
qed

lemma auth_lines_read:
  "userpass_keys False (auth_lines sha256 us hp None @ [] # rest) = map uuid_text (sort_key uuid_text us)"
proof -
  have "userpass_keys True (userpass_entries sha256 us hp @ [] # rest) = map uuid_text (sort_key uuid_text us)"
  proof (cases "us = []")
    case True
    then show ?thesis
      by (simp add: userpass_entries_def userpass_entry_step del: userpass_keys.simps) (simp add: starts_with_def)
  next
    case False
    then show ?thesis by (simp add: userpass_entries_def userpass_list)
  qed
  then show ?thesis by (simp add: auth_lines_def starts_with_def)
qed

lemma head_not_userpass: "\<forall>l\<in>set (hysteria_head hp). \<not> starts_with ''  userpass:'' l \<and> l \<noteq> HTTP_AUTH_LINE"
  by (simp add: hysteria_head_def starts_with_def HTTP_AUTH_LINE_def)

lemma rest_not_http:
  "HTTP_AUTH_LINE \<notin> set (auth_lines sha256 us hp None)" "HTTP_AUTH_LINE \<notin> set (after_auth sha256 hp h dns)"
  by (auto simp: auth_lines_def userpass_entries_def userpass_entry_def HTTP_AUTH_LINE_def after_auth_def BLOCKED_DESTINATIONS_def
      split: option.splits prod.splits)

lemma live_hysteria_listed:
  assumes ok: "hysteria_texts_ok sha256 hp h dns"
  shows "live_hysteria_uuids hp d (universal_newlines (render_hysteria_server_config sha256 us hp h None dns)) =
    map uuid_text (sort_key uuid_text us)"
proof -
  obtain after where after: "after_auth sha256 hp h dns = [] # after @ [[]]" using after_auth_shape by blast
  define ls where "ls = hysteria_head hp @ auth_lines sha256 us hp None @ [] # after"
  have whole: "render_hysteria_server_config sha256 us hp h None dns = join_text [NL] (ls @ [[]])"
    by (simp add: render_hysteria_server_config_def ls_def after)
  have lines: "one_line l" if "l \<in> set (ls @ [[]])" for l
    using that hysteria_head_lines [OF ok] auth_entries_lines [OF ok, of l us] after_auth_lines [OF ok, of l] after
    by (auto simp: ls_def)
  have nl: "\<forall>l\<in>set (ls @ [[]]). NL \<notin> set l" "CHR 0x0D \<notin> set (join_text [NL] (ls @ [[]]))"
    using lines join_set [of "[NL]" "ls @ [[]]"] by (fastforce simp: one_line_def line_break_def)+
  have "HTTP_AUTH_LINE \<notin> set (ls @ [[]])"
    using head_not_userpass [of hp] rest_not_http(1) [of sha256 us hp] rest_not_http(2) [of sha256 hp h dns] after by (auto simp: ls_def HTTP_AUTH_LINE_def)
  then have no: "\<not> contains_text (NL # HTTP_AUTH_LINE @ [NL]) (join_text [NL] (ls @ [[]]))"
    using contains_line [of HTTP_AUTH_LINE "join_text [NL] (ls @ [[]])"] split_on_join [of "ls @ [[]]" NL] nl(1)
    by (auto simp: HTTP_AUTH_LINE_def)
  have split: "splitlines (join_text [NL] (ls @ [[]])) = ls" using lines by (intro splitlines_join) (auto simp: one_line_def)
  have "userpass_keys False ls = map uuid_text (sort_key uuid_text us)"
    using head_not_userpass [of hp] by (simp add: ls_def userpass_skip auth_lines_read)
  then show ?thesis unfolding whole universal_newlines_id [OF nl(2)] live_hysteria_uuids_def using no split by simp
qed

text \<open>
  With the agent as authenticator the file does not name a client: it is the same for every client
  set, and the served set is the recorded one.
\<close>

lemma hysteria_file_same_for_all:
  "render_hysteria_server_config sha256 us hp h (Some url) dns = render_hysteria_server_config sha256 vs hp h (Some url) dns"
  by (simp add: render_hysteria_server_config_def auth_lines_def)

lemma join_text_middle:
  "xs \<noteq> [] \<Longrightarrow> ys \<noteq> [] \<Longrightarrow> join_text sep (xs @ l # ys) = join_text sep xs @ sep @ l @ sep @ join_text sep ys"
proof (induction xs)
  case (Cons x xs)
  then show ?case by (cases xs; cases ys) auto
qed simp

lemma http_auth_recognised:
  "contains_text (NL # HTTP_AUTH_LINE @ [NL]) (render_hysteria_server_config sha256 us hp h (Some url) dns)"
proof -
  have "render_hysteria_server_config sha256 us hp h (Some url) dns =
      join_text [NL] (hysteria_head hp @ HTTP_AUTH_LINE # ''  http:'' # (''    url: '' @ yaml_quote url) # after_auth sha256 hp h dns)"
    by (simp add: render_hysteria_server_config_def auth_lines_def HTTP_AUTH_LINE_def)
  also have "\<dots> = join_text [NL] (hysteria_head hp) @ (NL # HTTP_AUTH_LINE @ [NL]) @
      join_text [NL] (''  http:'' # (''    url: '' @ yaml_quote url) # after_auth sha256 hp h dns)"
    by (subst join_text_middle) (simp_all add: hysteria_head_def)
  finally show ?thesis by (simp only: contains_text_append)
qed

text \<open>A rendered file has no carriage return, so reading it as text gives it back.\<close>

lemma one_line_no_return: "one_line l \<Longrightarrow> CHR 0x0D \<notin> set l"
  by (auto simp: one_line_def line_break_def)

lemma hysteria_newlines:
  assumes "hysteria_texts_ok sha256 hp h dns" and "\<And>url. auth_url = Some url \<Longrightarrow> one_line url"
  shows "universal_newlines (render_hysteria_server_config sha256 us hp h auth_url dns) =
    render_hysteria_server_config sha256 us hp h auth_url dns"
proof (rule universal_newlines_id)
  have "one_line l" if "l \<in> set (auth_lines sha256 us hp auth_url)" for l
    using that auth_entries_lines [OF assms(1)] assms(2)
    by (cases auth_url) (auto simp: auth_lines_def yaml_quote_line line_break_def)
  then have "\<forall>l\<in>set (hysteria_head hp @ auth_lines sha256 us hp auth_url @ after_auth sha256 hp h dns). CHR 0x0D \<notin> set l"
    using hysteria_head_lines [OF assms(1)] after_auth_lines [OF assms(1)] by (auto dest: one_line_no_return)
  then show "CHR 0x0D \<notin> set (render_hysteria_server_config sha256 us hp h auth_url dns)"
    unfolding render_hysteria_server_config_def using subsetD [OF join_set] by fastforce
qed

end
