(* ===== verification/Xray_Driver.thy ===== *)
theory Xray_Driver
  imports Hysteria_Config
begin

text \<open>
  The Xray driver of the agent (\<open>drivers/xray.py\<close>) with the files of its \<open>XrayConfigStore\<close>
  (\<open>drivers/xray_config_store.py\<close>). A change renders the whole client set, validates it with
  \<open>xray run -test\<close> on a scratch copy, writes the file Xray reads, and brings the running processes
  to it: by a restart, or through Xray's API where only clients changed. On success the candidate of
  the bookkeeping file is promoted; on failure the recorded client set is served again.

  The \<open>xray\<close> and \<open>systemctl\<close> binaries, the management endpoint of Hysteria, the clocks and the
  outcome of writing a file are a parameter, \<open>xray_host\<close>, over a host state of any type. What the
  theorems need of them is stated in \<open>Xray_Safety\<close>. The driver's lock makes its changes run one
  after the other, so each is one function here. Monotonic time is in milliseconds.
\<close>

subsection \<open>The world of the driver\<close>

record 'k xray_host =
  xh_validate :: "string option \<Rightarrow> 'k \<Rightarrow> run_result \<times> 'k"
  xh_restart_xray :: "string option \<Rightarrow> 'k \<Rightarrow> run_result \<times> 'k"
  xh_restart_hysteria :: "string option \<Rightarrow> 'k \<Rightarrow> run_result \<times> 'k"
  xh_hysteria_is_active :: "'k \<Rightarrow> run_result \<times> 'k"
  xh_api :: "string \<Rightarrow> string list \<Rightarrow> string option \<Rightarrow> 'k \<Rightarrow> run_result \<times> 'k"
  xh_kick :: "string \<Rightarrow> string \<Rightarrow> string \<Rightarrow> 'k \<Rightarrow> int option \<times> 'k"
  xh_connect :: "'k \<Rightarrow> bool \<times> 'k"
  xh_write :: "'k \<Rightarrow> bool \<times> 'k"
  xh_sleep :: "int \<Rightarrow> 'k \<Rightarrow> unit \<times> 'k"
  xh_monotonic :: "'k \<Rightarrow> int"
  xh_now :: "'k \<Rightarrow> time"

record 'k xray_driver =
  xd_settings :: xray_settings
  xd_profiles :: "xray_profile list"
  xd_hysteria_profile :: "hysteria_profile option"
  xd_sha256 :: "string \<Rightarrow> string"
  xd_host :: "'k xray_host"

record lingering =
  lg_removed_at :: int
  lg_baseline :: "int option"

record 'k xray_world =
  xw_state_file :: "string option"
  xw_candidate :: "string option"
  xw_scratch :: "string option"
  xw_config_file :: "string option"
  xw_hysteria_file :: "string option"
  xw_lingering :: "(string \<times> lingering) list"
  xw_linger_task :: bool
  xw_host :: 'k

definition asking_xray :: "('k \<Rightarrow> 'r \<times> 'k) \<Rightarrow> ('k xray_world, 'r) io" where
  "asking_xray f w = (let (r, k) = f (xw_host w) in (Inr r, w\<lparr>xw_host := k\<rparr>))"

definition run_xray_tool :: "('k \<Rightarrow> run_result \<times> 'k) \<Rightarrow> ('k xray_world, run_result) io" where
  "run_xray_tool f = bind_io (asking_xray f) completed_io"

text \<open>\<open>except ApplyError\<close> and \<open>except (ValidationError, ApplyError)\<close>.\<close>

fun on_apply_error :: "(string \<Rightarrow> ('w, 'a) io) \<Rightarrow> driver_error \<Rightarrow> ('w, 'a) io option" where
  "on_apply_error h (ApplyError m) = Some (h m)"
| "on_apply_error h _ = None"

fun on_refusal :: "('w, 'a) io \<Rightarrow> driver_error \<Rightarrow> ('w, 'a) io option" where
  "on_refusal h (ValidationError m) = Some h"
| "on_refusal h (ApplyError m) = Some h"
| "on_refusal h _ = None"

text \<open>\<open>except (OSError, ValueError)\<close>\<close>

fun on_unreadable :: "('w, 'a) io \<Rightarrow> driver_error \<Rightarrow> ('w, 'a) io option" where
  "on_unreadable h OSError = Some h"
| "on_unreadable h ValueError = Some h"
| "on_unreadable h _ = None"

definition result_io :: "(driver_error, 'a) result \<Rightarrow> ('w, 'a) io" where
  "result_io r w = (r, w)"

definition for_each_io :: "('a \<Rightarrow> ('w, unit) io) \<Rightarrow> 'a list \<Rightarrow> ('w, unit) io" where
  "for_each_io f xs = foldr (\<lambda>x rest. bind_io (f x) (\<lambda>_. rest)) xs (return_io ())"

subsection \<open>The store\<close>

text \<open>A write that fails leaves the old file: the new text was in a temporary one.\<close>

definition write_atomically ::
  "'k xray_driver \<Rightarrow> (string option \<Rightarrow> 'k xray_world \<Rightarrow> 'k xray_world) \<Rightarrow> string \<Rightarrow> ('k xray_world, unit) io" where
  "write_atomically dr put content =
     bind_io (asking_xray (xh_write (xd_host dr))) (\<lambda>written.
     bind_io (unless_io written OSError) (\<lambda>_.
     modify_io (put (Some content))))"

definition xray_last_known_good :: "('k xray_world, desired_xray_state) io" where
  "xray_last_known_good w =
     (case xw_state_file w of
        None \<Rightarrow> (Inr no_clients, w)
      | Some content \<Rightarrow> (parse_state_json (universal_newlines content), w))"

definition write_xray_candidate :: "'k xray_driver \<Rightarrow> string \<Rightarrow> ('k xray_world, unit) io" where
  "write_xray_candidate dr = write_atomically dr (\<lambda>c. xw_candidate_update (\<lambda>_. c))"

definition promote_xray_candidate :: "('k xray_world, unit) io" where
  "promote_xray_candidate w =
     (case xw_candidate w of
        None \<Rightarrow> (Inl OSError, w)
      | Some content \<Rightarrow> (Inr (), w\<lparr>xw_state_file := Some content, xw_candidate := None\<rparr>))"

definition write_validate_scratch :: "'k xray_driver \<Rightarrow> string \<Rightarrow> ('k xray_world, unit) io" where
  "write_validate_scratch dr = write_atomically dr (\<lambda>c. xw_scratch_update (\<lambda>_. c))"

definition write_xray_config :: "'k xray_driver \<Rightarrow> string \<Rightarrow> ('k xray_world, unit) io" where
  "write_xray_config dr = write_atomically dr (\<lambda>c. xw_config_file_update (\<lambda>_. c))"

definition write_hysteria_config :: "'k xray_driver \<Rightarrow> string \<Rightarrow> ('k xray_world, unit) io" where
  "write_hysteria_config dr = write_atomically dr (\<lambda>c. xw_hysteria_file_update (\<lambda>_. c))"

text \<open>\<open>read_text\<close>; a missing file is an \<open>OSError\<close>.\<close>

definition served_xray_config :: "'k xray_world \<Rightarrow> string option" where
  "served_xray_config w = map_option universal_newlines (xw_config_file w)"

definition served_hysteria_config :: "'k xray_world \<Rightarrow> string option" where
  "served_hysteria_config w = map_option universal_newlines (xw_hysteria_file w)"

subsection \<open>Profiles\<close>

definition serves_hysteria :: "'k xray_driver \<Rightarrow> string \<Rightarrow> bool" where
  "serves_hysteria dr code = (case xd_hysteria_profile dr of None \<Rightarrow> False | Some hp \<Rightarrow> hp_code hp = code)"

definition serves :: "'k xray_driver \<Rightarrow> string \<Rightarrow> bool" where
  "serves dr code \<longleftrightarrow> serves_hysteria dr code \<or> (\<exists>p\<in>set (xd_profiles dr). xp_code p = code)"

definition profile_for :: "'k xray_driver \<Rightarrow> string \<Rightarrow> xray_profile option" where
  "profile_for dr code = find (\<lambda>p. xp_code p = code) (xd_profiles dr)"

definition xray_last_applied_generation :: "desired_xray_state \<Rightarrow> uuid \<Rightarrow> int" where
  "xray_last_applied_generation current client_uuid =
     (case client_named current client_uuid of None \<Rightarrow> 0 | Some previous \<Rightarrow> xc_generation previous)"

subsection \<open>Rendering, validating, restarting\<close>

definition xray_render :: "'k xray_driver \<Rightarrow> desired_xray_state \<Rightarrow> string" where
  "xray_render dr desired = render_xray_server_config (xd_sha256 dr) (xd_settings dr) (xd_profiles dr) desired"

definition hysteria_auth_url :: "'k xray_driver \<Rightarrow> string" where
  "hysteria_auth_url dr =
     ''http://'' @ xst_api_host (xd_settings dr) @ '':'' @ int_text HYSTERIA_AUTH_PORT @ HYSTERIA_AUTH_PATH"

definition render_hysteria :: "'k xray_driver \<Rightarrow> hysteria_profile \<Rightarrow> desired_xray_state \<Rightarrow> string" where
  "render_hysteria dr hp desired =
     render_hysteria_server_config (xd_sha256 dr) (map xc_client_uuid (clients_for desired (hp_code hp))) hp
       (xst_api_host (xd_settings dr))
       (if xst_live_client_updates (xd_settings dr) then Some (hysteria_auth_url dr) else None)
       (xst_dns_redirect (xd_settings dr))"

definition xray_validate :: "'k xray_driver \<Rightarrow> string \<Rightarrow> ('k xray_world, unit) io" where
  "xray_validate dr server_config_text =
     bind_io (write_validate_scratch dr server_config_text) (\<lambda>_.
     bind_io (\<lambda>w. run_xray_tool (xh_validate (xd_host dr) (xw_scratch w)) w) (\<lambda>result.
     unless_io (returncode result = 0) (ValidationError (strip (stderr result)))))"

text \<open>The process reads its file as it is when the unit is restarted.\<close>

definition xray_reload :: "'k xray_driver \<Rightarrow> ('k xray_world, unit) io" where
  "xray_reload dr =
     bind_io (\<lambda>w. run_xray_tool (xh_restart_xray (xd_host dr) (xw_config_file w)) w) (\<lambda>result.
     unless_io (returncode result = 0) (ApplyError (strip (stderr result))))"

subsection \<open>Hysteria\<close>

definition HYSTERIA_ACTIVE_TIMEOUT :: int where
  "HYSTERIA_ACTIVE_TIMEOUT = 15000"

definition HYSTERIA_ACTIVE_POLL :: int where
  "HYSTERIA_ACTIVE_POLL = 500"

text \<open>The rounds of the loop that waits for the unit; that they are enough is a theorem.\<close>

definition POLL_ROUNDS :: nat where
  "POLL_ROUNDS = 31"

fun await_hysteria :: "nat \<Rightarrow> 'k xray_driver \<Rightarrow> int \<Rightarrow> ('k xray_world, unit) io" where
  "await_hysteria 0 dr deadline = raise_io NotReturned"
| "await_hysteria (Suc rounds) dr deadline =
     bind_io (run_xray_tool (xh_hysteria_is_active (xd_host dr))) (\<lambda>active.
       (let status = strip (stdout active); last_status = (if status = [] then ''inactive'' else status) in
        if returncode active = 0 then return_io ()
        else bind_io (reads_io (\<lambda>w. xh_monotonic (xd_host dr) (xw_host w))) (\<lambda>now.
          if last_status = ''failed'' \<or> deadline \<le> now
          then raise_io (ApplyError (''nebula-hysteria did not come up: '' @ last_status))
          else bind_io (asking_xray (xh_sleep (xd_host dr) HYSTERIA_ACTIVE_POLL)) (\<lambda>_.
            await_hysteria rounds dr deadline))))"

text \<open>The restart of \<open>_apply_hysteria\<close> and the wait after it.\<close>

definition restart_hysteria :: "'k xray_driver \<Rightarrow> ('k xray_world, unit) io" where
  "restart_hysteria dr =
     bind_io (\<lambda>w. run_xray_tool (xh_restart_hysteria (xd_host dr) (xw_hysteria_file w)) w) (\<lambda>result.
     bind_io (unless_io (returncode result = 0) (ApplyError (strip (stderr result)))) (\<lambda>_.
     bind_io (reads_io (\<lambda>w. xh_monotonic (xd_host dr) (xw_host w) + HYSTERIA_ACTIVE_TIMEOUT)) (\<lambda>deadline.
     await_hysteria POLL_ROUNDS dr deadline)))"

definition apply_hysteria :: "'k xray_driver \<Rightarrow> desired_xray_state \<Rightarrow> ('k xray_world, unit) io" where
  "apply_hysteria dr desired =
     (case xd_hysteria_profile dr of
        None \<Rightarrow> return_io ()
      | Some hp \<Rightarrow>
          let rendered = render_hysteria dr hp desired in
          bind_io (reads_io served_hysteria_config) (\<lambda>served.
          if served = Some rendered then return_io ()
          else bind_io (write_hysteria_config dr rendered) (\<lambda>_. restart_hysteria dr)))"

text \<open>\<open>auth.partition(":")\<close>: without a colon the whole text is the user.\<close>

definition authorize_hysteria :: "'k xray_driver \<Rightarrow> string \<Rightarrow> ('k xray_world, string option) io" where
  "authorize_hysteria dr auth =
     (case xd_hysteria_profile dr of
        None \<Rightarrow> return_io None
      | Some hp \<Rightarrow>
          let user = before_char CHR '':'' auth in
          if CHR '':'' \<in> set auth \<and> user \<noteq> after_char CHR '':'' auth then return_io None
          else (case parse_uuid user of
                  None \<Rightarrow> return_io None
                | Some client_uuid \<Rightarrow>
                    if uuid_text client_uuid \<noteq> lower_text user then return_io None
                    else bind_io xray_last_known_good (\<lambda>current.
                      return_io (case client_named current client_uuid of
                        None \<Rightarrow> None
                      | Some recorded \<Rightarrow>
                          if xc_profile_code recorded \<noteq> hp_code hp then None
                          else Some (client_email (xd_sha256 dr) client_uuid)))))"

text \<open>\<open>_post_hysteria_kick\<close> and its caller: what goes wrong is logged and dropped.\<close>

definition kick_labels :: "'k xray_driver \<Rightarrow> hysteria_profile \<Rightarrow> desired_xray_state \<Rightarrow> desired_xray_state \<Rightarrow> string list" where
  "kick_labels dr hp previous desired =
     sort (map (\<lambda>c. client_email (xd_sha256 dr) (xc_client_uuid c))
       (filter (\<lambda>c. xc_client_uuid c \<notin> set (map xc_client_uuid (clients_for desired (hp_code hp))))
         (clients_for previous (hp_code hp))))"

definition kick_removed_hysteria_clients ::
  "'k xray_driver \<Rightarrow> desired_xray_state \<Rightarrow> desired_xray_state \<Rightarrow> ('k xray_world, unit) io" where
  "kick_removed_hysteria_clients dr previous desired =
     (case xd_hysteria_profile dr of
        None \<Rightarrow> return_io ()
      | Some hp \<Rightarrow>
          if \<not> xst_live_client_updates (xd_settings dr) then return_io ()
          else (let labels = kick_labels dr hp previous desired;
                    url = ''http://'' @ xst_api_host (xd_settings dr) @ '':'' @ int_text TRAFFIC_STATS_PORT @ ''/kick'' in
                if labels = [] then return_io ()
                else bind_io (asking_xray (xh_kick (xd_host dr) url (traffic_stats_secret (xd_sha256 dr) hp)
                       (dumps (JList (map (\<lambda>l. JStr l) labels))))) (\<lambda>_. return_io ())))"

subsection \<open>Changing clients while Xray runs\<close>

definition xray_api :: "'k xray_driver \<Rightarrow> string \<Rightarrow> string list \<Rightarrow> string option \<Rightarrow> ('k xray_world, string) io" where
  "xray_api dr command arguments stdin =
     bind_io (run_xray_tool (xh_api (xd_host dr) command arguments stdin)) (\<lambda>result.
     bind_io (unless_io (returncode result = 0)
       (ApplyError (''xray api '' @ command @ '' failed: '' @ take 200 (strip (stderr result))))) (\<lambda>_.
     return_io (stdout result)))"

definition tag_argument :: "string \<Rightarrow> string" where
  "tag_argument tag = ''-tag='' @ tag"

definition user_email :: "json \<Rightarrow> string list" where
  "user_email user =
     (case user of
        JObj ms \<Rightarrow> (let e = json_get ''email'' JNull ms in if json_truthy e then [py_str e] else [])
      | _ \<Rightarrow> [])"

definition emails_in :: "string \<Rightarrow> (driver_error, string list) result" where
  "emails_in output =
     (case loads (if output = [] then ''{}'' else output) of
        Inl e \<Rightarrow> Inl (ApplyError ''xray api inbounduser returned unparseable output'')
      | Inr payload \<Rightarrow>
          (case json_iter (case payload of JObj ms \<Rightarrow> json_get ''users'' (JList []) ms | _ \<Rightarrow> JList []) of
             None \<Rightarrow> Inl TypeError
           | Some users \<Rightarrow> Inr (remdups (concat (map user_email users)))))"

definition live_emails :: "'k xray_driver \<Rightarrow> string \<Rightarrow> ('k xray_world, string list) io" where
  "live_emails dr tag =
     bind_io (xray_api dr ''inbounduser'' [tag_argument tag] None) (\<lambda>output.
     result_io (emails_in output))"

definition addition_json :: "string \<Rightarrow> live_inbound \<Rightarrow> (string \<times> string) list list \<Rightarrow> json" where
  "addition_json tag inbound new = JObj
     [(''tag'', JStr tag), (''protocol'', JStr (li_protocol inbound)), (''port'', JInt (li_port inbound)),
      (''settings'', JObj (dict_put ''clients'' (JList (map (\<lambda>c. JObj (map (\<lambda>(k, v). (k, JStr v)) c)) new)) (li_settings inbound)))]"

text \<open>The loop over the inbounds that removes what is gone and collects what is new.\<close>

definition new_clients :: "live_inbound \<Rightarrow> string list \<Rightarrow> (string \<times> string) list list" where
  "new_clients inbound live =
     map (\<lambda>email. the (map_of (li_clients inbound) email))
       (sort (filter (\<lambda>e. e \<notin> set live) (map fst (li_clients inbound))))"

definition gone_emails :: "live_inbound \<Rightarrow> string list \<Rightarrow> string list" where
  "gone_emails inbound live = filter (\<lambda>e. e \<notin> fst ` set (li_clients inbound)) live"

fun remove_gone ::
  "'k xray_driver \<Rightarrow> (string \<times> live_inbound) list \<Rightarrow> string list \<Rightarrow> json list \<Rightarrow>
   ('k xray_world, string list \<times> json list) io" where
  "remove_gone dr [] removed additions = return_io (removed, additions)"
| "remove_gone dr ((tag, inbound) # rest) removed additions =
     bind_io (live_emails dr tag) (\<lambda>live.
       (let gone = gone_emails inbound live; new = new_clients inbound live in
        bind_io (if gone = [] then return_io () else
            bind_io (xray_api dr ''rmu'' (tag_argument tag # sort gone) None) (\<lambda>_. return_io ())) (\<lambda>_.
        remove_gone dr rest (removed @ gone)
          (if new = [] then additions else additions @ [addition_json tag inbound new]))))"

definition forget_lingering :: "string list \<Rightarrow> 'k xray_world \<Rightarrow> 'k xray_world" where
  "forget_lingering emails w = w\<lparr>xw_lingering := filter (\<lambda>x. fst x \<notin> set emails) (xw_lingering w)\<rparr>"

text \<open>What Xray holds afterwards is the only evidence that the change took.\<close>

definition confirm_live :: "'k xray_driver \<Rightarrow> string \<times> live_inbound \<Rightarrow> ('k xray_world, unit) io" where
  "confirm_live dr = (\<lambda>(tag, inbound).
     bind_io (live_emails dr tag) (\<lambda>live.
     bind_io (unless_io (set live = fst ` set (li_clients inbound))
       (ApplyError (''Xray's live clients for '' @ tag @ '' do not match the rendered set''))) (\<lambda>_.
     modify_io (forget_lingering (map fst (li_clients inbound))))))"

definition apply_clients_live :: "'k xray_driver \<Rightarrow> string \<Rightarrow> ('k xray_world, string list) io" where
  "apply_clients_live dr rendered =
     bind_io (the_io KeyError (live_inbounds_by_tag rendered)) (\<lambda>wanted.
     bind_io (remove_gone dr wanted [] []) (\<lambda>(removed, additions).
     bind_io (if additions = [] then return_io () else
         bind_io (xray_api dr ''adu'' [''stdin:''] (Some (dumps (JObj [(''inbounds'', JList additions)])))) (\<lambda>_. return_io ())) (\<lambda>_.
     bind_io (for_each_io (confirm_live dr) wanted) (\<lambda>_.
     return_io removed))))"

definition reload_instead :: "'k xray_driver \<Rightarrow> ('k xray_world, string list) io" where
  "reload_instead dr = bind_io (xray_reload dr) (\<lambda>_. return_io [])"

definition apply_xray :: "'k xray_driver \<Rightarrow> string option \<Rightarrow> string \<Rightarrow> ('k xray_world, string list) io" where
  "apply_xray dr served rendered =
     (if \<not> xst_live_client_updates (xd_settings dr) then reload_instead dr
      else bind_io (case served of None \<Rightarrow> return_io None | Some t \<Rightarrow> result_io (shape_without_clients t)) (\<lambda>before.
        if before = None then reload_instead dr
        else bind_io (result_io (shape_without_clients rendered)) (\<lambda>after.
          if before \<noteq> after then reload_instead dr
          else try_io (apply_clients_live dr rendered) (on_apply_error (\<lambda>_. reload_instead dr)))))"

definition watch_for_lingering :: "'k xray_driver \<Rightarrow> string list \<Rightarrow> ('k xray_world, unit) io" where
  "watch_for_lingering dr removed =
     (if removed = [] then return_io ()
      else modify_io (\<lambda>w.
        w\<lparr>xw_lingering := foldl (\<lambda>l e. dict_put e \<lparr>lg_removed_at = xh_monotonic (xd_host dr) (xw_host w), lg_baseline = None\<rparr> l)
            (xw_lingering w) removed,
          xw_linger_task := True\<rparr>))"

subsection \<open>Applying a client set\<close>

definition xray_rollback :: "'k xray_driver \<Rightarrow> ('k xray_world, unit) io" where
  "xray_rollback dr =
     bind_io xray_last_known_good (\<lambda>last_known_good.
     bind_io (write_xray_config dr (xray_render dr last_known_good)) (\<lambda>_.
     try_io (bind_io (xray_reload dr) (\<lambda>_. apply_hysteria dr last_known_good))
       (on_apply_error (\<lambda>m. raise_io (RollbackFailedError m)))))"

definition apply_or_roll_back :: "'k xray_driver \<Rightarrow> string option \<Rightarrow> desired_xray_state \<Rightarrow> ('k xray_world, string list) io" where
  "apply_or_roll_back dr served desired =
     try_io
       (bind_io (apply_xray dr served (xray_render dr desired)) (\<lambda>removed.
        bind_io (apply_hysteria dr desired) (\<lambda>_. return_io removed)))
       (on_apply_error (\<lambda>m. bind_io (xray_rollback dr) (\<lambda>_. raise_io (ApplyError m))))"

definition xray_apply_delta :: "'k xray_driver \<Rightarrow> desired_xray_state \<Rightarrow> ('k xray_world, unit) io" where
  "xray_apply_delta dr desired =
     bind_io xray_last_known_good (\<lambda>previous.
     bind_io (write_xray_candidate dr (render_state_json desired)) (\<lambda>_.
     bind_io (xray_validate dr (xray_render dr desired)) (\<lambda>_.
     bind_io (reads_io served_xray_config) (\<lambda>served.
     bind_io (write_xray_config dr (xray_render dr desired)) (\<lambda>_.
     bind_io (apply_or_roll_back dr served desired) (\<lambda>removed.
     bind_io promote_xray_candidate (\<lambda>_.
     bind_io (watch_for_lingering dr removed) (\<lambda>_.
     kick_removed_hysteria_clients dr previous desired))))))))"

definition resync_served_config :: "'k xray_driver \<Rightarrow> ('k xray_world, bool) io" where
  "resync_served_config dr =
     bind_io xray_last_known_good (\<lambda>desired.
     bind_io (reads_io served_xray_config) (\<lambda>served.
     if served = Some (xray_render dr desired)
     then bind_io (apply_hysteria dr desired) (\<lambda>_. return_io False)
     else bind_io (xray_validate dr (xray_render dr desired)) (\<lambda>_.
       bind_io (reads_io served_xray_config) (\<lambda>previous.
       bind_io (write_xray_config dr (xray_render dr desired)) (\<lambda>_.
       bind_io
         (try_io (xray_reload dr)
           (on_apply_error (\<lambda>m.
              bind_io (case previous of
                  None \<Rightarrow> return_io ()
                | Some t \<Rightarrow> bind_io (write_xray_config dr t) (\<lambda>_. xray_reload dr)) (\<lambda>_.
              raise_io (ApplyError m))))) (\<lambda>_.
       bind_io (apply_hysteria dr desired) (\<lambda>_. return_io True)))))))"

subsection \<open>Removed clients that still transfer\<close>

definition LINGER_WATCH :: int where
  "LINGER_WATCH = 330000"

definition LINGER_POLL :: int where
  "LINGER_POLL = 10000"

text \<open>\<open>int(value or 0)\<close>; a number with a fraction or an exponent is taken at its decimal value.\<close>

definition float_int :: "string \<Rightarrow> int option" where
  "float_int f =
     (let mantissa = takeWhile (\<lambda>c. c \<noteq> CHR ''e'' \<and> c \<noteq> CHR ''E'') f;
          exponent = drop (Suc (length mantissa)) f;
          whole = before_char CHR ''.'' mantissa; fraction = after_char CHR ''.'' mantissa in
      case (py_int (whole @ fraction), if exponent = [] then Some 0 else py_int exponent) of
        (Some n, Some e) \<Rightarrow>
          (let k = e - int (length fraction) in
           Some (if 0 \<le> k then n * 10 ^ nat k else sgn n * (\<bar>n\<bar> div 10 ^ nat (- k))))
      | _ \<Rightarrow> None)"

definition json_int_or_zero :: "json \<Rightarrow> (driver_error, int) result" where
  "json_int_or_zero j =
     (if \<not> json_truthy j then Inr 0
      else (case j of
              JInt i \<Rightarrow> Inr i
            | JBool b \<Rightarrow> Inr 1
            | JStr s \<Rightarrow> (case py_int s of None \<Rightarrow> Inl ValueError | Some i \<Rightarrow> Inr i)
            | JFloat f \<Rightarrow> (case float_int f of None \<Rightarrow> Inl ValueError | Some i \<Rightarrow> Inr i)
            | _ \<Rightarrow> Inl TypeError))"

definition counter_of :: "(string \<times> int) list \<Rightarrow> string \<Rightarrow> int" where
  "counter_of totals email = (case map_of totals email of None \<Rightarrow> 0 | Some n \<Rightarrow> n)"

definition add_traffic_row :: "json \<Rightarrow> (string \<times> int) list \<Rightarrow> (driver_error, (string \<times> int) list) result" where
  "add_traffic_row row totals =
     (case row of
        JObj ms \<Rightarrow>
          (let parts = split_text ''>>>'' (py_str (json_get ''name'' (JStr []) ms)) in
           if length parts \<noteq> 4 \<or> parts ! 0 \<noteq> ''user'' \<or> parts ! 2 \<noteq> ''traffic'' then Inr totals
           else (case json_int_or_zero (json_get ''value'' (JInt 0) ms) of
                   Inl e \<Rightarrow> Inl e
                 | Inr n \<Rightarrow> Inr (dict_put (parts ! 1) (counter_of totals (parts ! 1) + n) totals)))
      | _ \<Rightarrow> Inr totals)"

fun add_traffic_rows :: "json list \<Rightarrow> (string \<times> int) list \<Rightarrow> (driver_error, (string \<times> int) list) result" where
  "add_traffic_rows [] totals = Inr totals"
| "add_traffic_rows (row # rows) totals =
     (case add_traffic_row row totals of Inl e \<Rightarrow> Inl e | Inr t \<Rightarrow> add_traffic_rows rows t)"

definition traffic_totals_in :: "string \<Rightarrow> (driver_error, (string \<times> int) list) result" where
  "traffic_totals_in output =
     (case loads (if output = [] then ''{}'' else output) of
        Inl e \<Rightarrow> Inl (ApplyError ''xray api statsquery returned unparseable output'')
      | Inr payload \<Rightarrow>
          (case json_iter (case payload of JObj ms \<Rightarrow> json_get ''stat'' (JList []) ms | _ \<Rightarrow> JList []) of
             None \<Rightarrow> Inl TypeError
           | Some rows \<Rightarrow> add_traffic_rows rows []))"

definition user_traffic_totals :: "'k xray_driver \<Rightarrow> ('k xray_world, (string \<times> int) list) io" where
  "user_traffic_totals dr =
     bind_io (xray_api dr ''statsquery'' [''-pattern'', ''user>>>''] None) (\<lambda>output.
     result_io (traffic_totals_in output))"

text \<open>One watched client: what is watched of it from now on, and whether its counter moved.\<close>

definition linger_step :: "(string \<times> int) list \<Rightarrow> int \<Rightarrow> string \<times> lingering \<Rightarrow> lingering option \<times> bool" where
  "linger_step totals now = (\<lambda>(email, watch).
     (let total = counter_of totals email in
      case lg_baseline watch of
        None \<Rightarrow> (Some (watch\<lparr>lg_baseline := Some total\<rparr>), False)
      | Some baseline \<Rightarrow>
          if baseline < total then (Some watch, True)
          else if LINGER_WATCH \<le> now - lg_removed_at watch then (None, False)
          else (Some watch, False)))"

definition watched_on :: "(string \<times> int) list \<Rightarrow> int \<Rightarrow> (string \<times> lingering) list \<Rightarrow> (string \<times> lingering) list" where
  "watched_on totals now l =
     concat (map (\<lambda>x. case fst (linger_step totals now x) of None \<Rightarrow> [] | Some watch \<Rightarrow> [(fst x, watch)]) l)"

definition has_moved :: "(string \<times> int) list \<Rightarrow> int \<Rightarrow> (string \<times> lingering) list \<Rightarrow> bool" where
  "has_moved totals now l = (\<exists>x\<in>set l. snd (linger_step totals now x))"

definition restart_for_lingering :: "'k xray_driver \<Rightarrow> ('k xray_world, unit) io" where
  "restart_for_lingering dr =
     bind_io (reads_io xw_lingering) (\<lambda>l.
     if l = [] then return_io ()
     else bind_io (modify_io (\<lambda>w. w\<lparr>xw_lingering := []\<rparr>)) (\<lambda>_.
       try_io (xray_reload dr) (on_apply_error (\<lambda>_. return_io ()))))"

text \<open>A round of the watching task; its value says whether the loop goes on.\<close>

definition linger_round :: "'k xray_driver \<Rightarrow> ('k xray_world, bool) io" where
  "linger_round dr =
     bind_io (asking_xray (xh_sleep (xd_host dr) LINGER_POLL)) (\<lambda>_.
     bind_io (try_io (bind_io (user_traffic_totals dr) (\<lambda>t. return_io (Some t))) (on_apply_error (\<lambda>_. return_io None))) (\<lambda>read.
     case read of
       None \<Rightarrow> return_io True
     | Some totals \<Rightarrow>
         bind_io (reads_io (\<lambda>w. (xh_monotonic (xd_host dr) (xw_host w), xw_lingering w))) (\<lambda>(now, l).
         bind_io (modify_io (\<lambda>w. w\<lparr>xw_lingering := watched_on totals now l\<rparr>)) (\<lambda>_.
         if has_moved totals now l then bind_io (restart_for_lingering dr) (\<lambda>_. return_io False)
         else return_io True))))"

text \<open>The task, run without another operation of the driver in between.\<close>

fun cut_off_lingering :: "nat \<Rightarrow> 'k xray_driver \<Rightarrow> ('k xray_world, unit) io" where
  "cut_off_lingering 0 dr = raise_io NotReturned"
| "cut_off_lingering (Suc rounds) dr =
     bind_io (reads_io xw_lingering) (\<lambda>l.
     if l = [] then return_io ()
     else bind_io (linger_round dr) (\<lambda>again. if again then cut_off_lingering rounds dr else return_io ()))"

subsection \<open>What a client is told\<close>

record xray_endpoint =
  xe_server_address :: string
  xe_sni :: "string option"
  xe_port :: int
  xe_transport :: string
  xe_transport_security :: string
  xe_path :: "string option"
  xe_service_name :: "string option"
  xe_obfs_password :: "string option"
  xe_port_hop :: "string option"
  xe_reality_public_key :: "string option"
  xe_reality_short_id :: "string option"
  xe_flow :: "string option"
  xe_protocol :: string
  xe_method :: "string option"
  xe_password :: "string option"
  xe_encryption :: "string option"

definition hysteria_endpoint :: "'k xray_driver \<Rightarrow> hysteria_profile \<Rightarrow> xray_endpoint" where
  "hysteria_endpoint dr hp =
     \<lparr>xe_server_address = xst_public_host (xd_settings dr), xe_sni = Some (xst_sni (xd_settings dr)),
      xe_port = hp_port hp, xe_transport = ''hysteria'', xe_transport_security = ''tls'',
      xe_path = None, xe_service_name = None, xe_obfs_password = Some (hp_obfs_password hp),
      xe_port_hop = xst_hysteria_hop_ports (xd_settings dr),
      xe_reality_public_key = None, xe_reality_short_id = None, xe_flow = None,
      xe_protocol = ''vless'', xe_method = None, xe_password = None, xe_encryption = None\<rparr>"

definition fronted :: "xray_profile \<Rightarrow> bool" where
  "fronted p \<longleftrightarrow> xp_security p = SecurityNone \<and> \<not> xp_direct p"

definition xray_endpoint_of :: "'k xray_driver \<Rightarrow> xray_profile \<Rightarrow> xray_endpoint" where
  "xray_endpoint_of dr p =
     (let reality = xp_security p = SecurityReality in
      \<lparr>xe_server_address = xst_public_host (xd_settings dr),
       xe_sni = (if reality then xp_reality_server_name p else Some (xst_sni (xd_settings dr))),
       xe_port = (if fronted p then xst_public_port (xd_settings dr) else xp_port p),
       xe_transport = transport_text (xp_transport p),
       xe_transport_security = (if fronted p then ''tls'' else security_text (xp_security p)),
       xe_path = (if or_else (xp_xhttp_path p) [] = [] then xp_ws_path p else xp_xhttp_path p),
       xe_service_name = xp_grpc_service_name p, xe_obfs_password = xp_hysteria_obfs_password p, xe_port_hop = None,
       xe_reality_public_key = (if reality then xp_reality_public_key p else None),
       xe_reality_short_id = (if reality then xp_reality_short_id p else None),
       xe_flow = (if xp_vision p then Some VISION_FLOW else None),
       xe_protocol = ''vless'', xe_method = None, xe_password = None, xe_encryption = None\<rparr>)"

definition no_inbound :: "string \<Rightarrow> driver_error" where
  "no_inbound code = ValidationError (''no configured Xray inbound for profile '' @ [CHR 0x27] @ code @ [CHR 0x27])"

definition response_common :: "'k xray_driver \<Rightarrow> string \<Rightarrow> (driver_error, xray_endpoint) result" where
  "response_common dr code =
     (if serves_hysteria dr code then Inr (hysteria_endpoint dr (the (xd_hysteria_profile dr)))
      else (case profile_for dr code of None \<Rightarrow> Inl (no_inbound code) | Some p \<Rightarrow> Inr (xray_endpoint_of dr p)))"

definition client_fields :: "'k xray_driver \<Rightarrow> string \<Rightarrow> uuid \<Rightarrow> xray_endpoint \<Rightarrow> xray_endpoint" where
  "client_fields dr code client_uuid e =
     (case profile_for dr code of
        None \<Rightarrow> e
      | Some p \<Rightarrow>
          (case xp_ss2022_server_key p of
             Some key \<Rightarrow>
               e\<lparr>xe_protocol := ''shadowsocks'', xe_method := Some SS2022_METHOD,
                 xe_password := Some (key @ '':'' @ ss2022_user_key client_uuid)\<rparr>
           | None \<Rightarrow>
               if xp_vmess p then e\<lparr>xe_protocol := ''vmess''\<rparr>
               else (case xp_vless_encryption p of None \<Rightarrow> e | Some s \<Rightarrow> e\<lparr>xe_encryption := Some s\<rparr>)))"

definition advertised_endpoints :: "'k xray_driver \<Rightarrow> (driver_error, (string \<times> string \<times> int \<times> string) list) result" where
  "advertised_endpoints dr =
     all_results (map (\<lambda>code.
       (case response_common dr code of
          Inl e \<Rightarrow> Inl e
        | Inr c \<Rightarrow> Inr (code, xe_server_address c, xe_port c, xe_transport c)))
       (map xp_code (xd_profiles dr) @ (case xd_hysteria_profile dr of None \<Rightarrow> [] | Some hp \<Rightarrow> [hp_code hp])))"

subsection \<open>The operations\<close>

record xray_provision_request =
  xpq_idempotency_key :: uuid
  xpq_target_id :: uuid
  xpq_desired_generation :: int
  xpq_client_uuid :: uuid
  xpq_profile_code :: string

record xray_revoke_request =
  xvq_idempotency_key :: uuid
  xvq_target_id :: uuid
  xvq_client_uuid :: uuid
  xvq_profile_code :: string
  xvq_desired_generation :: int

record xray_reconcile_request =
  xrq_target_id :: uuid
  xrq_client_uuid :: uuid
  xrq_profile_code :: string
  xrq_desired_generation :: int

record expected_client =
  exc_client_uuid :: uuid
  exc_profile_code :: string

record xray_prune_request =
  xnq_expected :: "expected_client list"

record xray_provision_response =
  xpr_state :: string
  xpr_applied_generation :: int
  xpr_endpoint :: xray_endpoint
  xpr_error_code :: "string option"

record xray_revoke_response =
  xvr_state :: string
  xvr_applied_generation :: int
  xvr_revoked_at :: time
  xvr_error_code :: "string option"

record xray_reconcile_response =
  xrr_outcome :: string
  xrr_observed_generation :: "int option"
  xrr_error_code :: "string option"

record xray_prune_response =
  xnr_state :: string
  xnr_removed :: int
  xnr_kept :: int
  xnr_error_code :: "string option"

record xray_health_response =
  xhr_state :: string
  xhr_observed_at :: time
  xhr_listener_up :: bool
  xhr_client_count :: nat
  xhr_error_code :: "string option"

definition requested_client :: "xray_provision_request \<Rightarrow> rendered_xray_client" where
  "requested_client q =
     \<lparr>xc_client_uuid = xpq_client_uuid q, xc_profile_code = xpq_profile_code q, xc_generation = xpq_desired_generation q\<rparr>"

definition refused_profile :: "string \<Rightarrow> driver_error" where
  "refused_profile code = ValidationError (''no configured inbound for profile '' @ [CHR 0x27] @ code @ [CHR 0x27])"

definition provision_client :: "'k xray_driver \<Rightarrow> xray_provision_request \<Rightarrow> ('k xray_world, xray_provision_response) io" where
  "provision_client dr q =
     bind_io (unless_io (serves dr (xpq_profile_code q)) (refused_profile (xpq_profile_code q))) (\<lambda>_.
     bind_io xray_last_known_good (\<lambda>current.
     bind_io (result_io (response_common dr (xpq_profile_code q))) (\<lambda>endpoint.
     (let common = client_fields dr (xpq_profile_code q) (xpq_client_uuid q) endpoint in
      try_io
        (bind_io (xray_apply_delta dr (with_client current (requested_client q))) (\<lambda>_.
         return_io \<lparr>xpr_state = ''active'', xpr_applied_generation = xpq_desired_generation q,
           xpr_endpoint = common, xpr_error_code = None\<rparr>))
        (on_refusal (return_io \<lparr>xpr_state = ''failed'',
           xpr_applied_generation = xray_last_applied_generation current (xpq_client_uuid q),
           xpr_endpoint = common, xpr_error_code = Some ''apply_failed''\<rparr>))))))"

definition revoke_client :: "'k xray_driver \<Rightarrow> xray_revoke_request \<Rightarrow> ('k xray_world, xray_revoke_response) io" where
  "revoke_client dr q =
     bind_io (unless_io (serves dr (xvq_profile_code q)) (refused_profile (xvq_profile_code q))) (\<lambda>_.
     bind_io xray_last_known_good (\<lambda>current.
     try_io
       (bind_io (xray_apply_delta dr (without_client current (xvq_client_uuid q))) (\<lambda>_.
        reads_io (\<lambda>w. \<lparr>xvr_state = ''revoked'', xvr_applied_generation = xvq_desired_generation q,
          xvr_revoked_at = xh_now (xd_host dr) (xw_host w), xvr_error_code = None\<rparr>)))
       (on_refusal (reads_io (\<lambda>w. \<lparr>xvr_state = ''failed'',
          xvr_applied_generation = xray_last_applied_generation current (xvq_client_uuid q),
          xvr_revoked_at = xh_now (xd_host dr) (xw_host w), xvr_error_code = Some ''apply_failed''\<rparr>)))))"

definition live_client_uuids_io :: "xray_profile \<Rightarrow> ('k xray_world, string list) io" where
  "live_client_uuids_io p =
     bind_io (reads_io served_xray_config) (\<lambda>served.
     bind_io (the_io OSError served) (\<lambda>t. result_io (live_client_uuids p t)))"

definition live_hysteria_uuids_io :: "hysteria_profile \<Rightarrow> ('k xray_world, string list) io" where
  "live_hysteria_uuids_io hp =
     bind_io (reads_io served_hysteria_config) (\<lambda>served.
     bind_io (the_io OSError served) (\<lambda>t.
     if contains_text (NL # HTTP_AUTH_LINE @ [NL]) t
     then bind_io xray_last_known_good (\<lambda>recorded. return_io (live_hysteria_uuids hp recorded t))
     else return_io (live_hysteria_uuids hp no_clients t)))"

fun live_of_profiles :: "xray_profile list \<Rightarrow> ('k xray_world, string list) io" where
  "live_of_profiles [] = return_io []"
| "live_of_profiles (p # ps) =
     bind_io (live_client_uuids_io p) (\<lambda>live. bind_io (live_of_profiles ps) (\<lambda>rest. return_io (live @ rest)))"

text \<open>An unreadable file gives the empty set.\<close>

definition unaccounted_live_uuids ::
  "'k xray_driver \<Rightarrow> uuid list \<Rightarrow> rendered_xray_client list \<Rightarrow> ('k xray_world, string list) io" where
  "unaccounted_live_uuids dr keep recorded =
     (let known = map uuid_text keep @ map (\<lambda>c. uuid_text (xc_client_uuid c)) recorded in
      try_io
        (bind_io (live_of_profiles (xd_profiles dr)) (\<lambda>live.
         bind_io (case xd_hysteria_profile dr of None \<Rightarrow> return_io [] | Some hp \<Rightarrow> live_hysteria_uuids_io hp) (\<lambda>more.
         return_io (filter (\<lambda>u. u \<notin> set known) (remdups (live @ more))))))
        (on_unreadable (return_io [])))"

definition prune_clients :: "'k xray_driver \<Rightarrow> xray_prune_request \<Rightarrow> ('k xray_world, xray_prune_response) io" where
  "prune_clients dr q =
     bind_io xray_last_known_good (\<lambda>current.
     (let keep = map exc_client_uuid (xnq_expected q);
          survivors = filter (\<lambda>c. xc_client_uuid c \<in> set keep) (dx_clients current);
          removed = int (length (dx_clients current)) - int (length survivors) in
      bind_io (unaccounted_live_uuids dr keep (dx_clients current)) (\<lambda>unaccounted.
      if removed = 0 \<and> unaccounted = []
      then return_io \<lparr>xnr_state = ''pruned'', xnr_removed = 0, xnr_kept = int (length survivors), xnr_error_code = None\<rparr>
      else try_io
        (bind_io (xray_apply_delta dr \<lparr>dx_clients = survivors\<rparr>) (\<lambda>_.
         return_io \<lparr>xnr_state = ''pruned'', xnr_removed = removed + int (length unaccounted),
           xnr_kept = int (length survivors), xnr_error_code = None\<rparr>))
        (on_refusal (return_io \<lparr>xnr_state = ''failed'', xnr_removed = 0,
           xnr_kept = int (length (dx_clients current)), xnr_error_code = Some ''apply_failed''\<rparr>)))))"

definition xray_reconcile_answer :: "string \<Rightarrow> int option \<Rightarrow> string option \<Rightarrow> xray_reconcile_response" where
  "xray_reconcile_answer outcome generation error =
     \<lparr>xrr_outcome = outcome, xrr_observed_generation = generation, xrr_error_code = error\<rparr>"

definition xray_compare_views ::
  "xray_reconcile_request \<Rightarrow> rendered_xray_client option \<Rightarrow> bool \<Rightarrow> xray_reconcile_response" where
  "xray_compare_views q recorded present_live =
     (case (recorded, present_live) of
        (None, False) \<Rightarrow> xray_reconcile_answer ''drift_detected'' None None
      | (None, True) \<Rightarrow> xray_reconcile_answer ''ambiguous'' None None
      | (Some c, False) \<Rightarrow> xray_reconcile_answer ''ambiguous'' (Some (xc_generation c)) None
      | (Some c, True) \<Rightarrow>
          if xc_profile_code c \<noteq> xrq_profile_code q
          then xray_reconcile_answer ''ambiguous'' (Some (xc_generation c)) None
          else xray_reconcile_answer ''in_sync'' (Some (xc_generation c)) None)"

definition reconcile_client :: "'k xray_driver \<Rightarrow> xray_reconcile_request \<Rightarrow> ('k xray_world, xray_reconcile_response) io" where
  "reconcile_client dr q =
     (let is_hysteria = serves_hysteria dr (xrq_profile_code q); profile = profile_for dr (xrq_profile_code q) in
      if \<not> is_hysteria \<and> profile = None then return_io (xray_reconcile_answer ''ambiguous'' None None)
      else bind_io xray_last_known_good (\<lambda>current.
        try_io
          (bind_io (if is_hysteria then live_hysteria_uuids_io (the (xd_hysteria_profile dr)) else live_client_uuids_io (the profile))
            (\<lambda>live. return_io (xray_compare_views q (client_named current (xrq_client_uuid q))
               (uuid_text (xrq_client_uuid q) \<in> set live))))
          (on_unreadable (return_io (xray_reconcile_answer ''ambiguous'' None (Some ''config_unreadable''))))))"

definition xray_health :: "'k xray_driver \<Rightarrow> ('k xray_world, xray_health_response) io" where
  "xray_health dr =
     bind_io xray_last_known_good (\<lambda>current.
     bind_io (asking_xray (xh_connect (xd_host dr))) (\<lambda>connected.
     reads_io (\<lambda>w.
       if connected
       then \<lparr>xhr_state = ''healthy'', xhr_observed_at = xh_now (xd_host dr) (xw_host w), xhr_listener_up = True,
             xhr_client_count = length (dx_clients current), xhr_error_code = None\<rparr>
       else \<lparr>xhr_state = ''unreachable'', xhr_observed_at = xh_now (xd_host dr) (xw_host w), xhr_listener_up = False,
             xhr_client_count = length (dx_clients current), xhr_error_code = Some ''listener_unreachable''\<rparr>)))"

end
