(* ===== verification/Agent_Triples.thy ===== *)
theory Agent_Triples
  imports Agent_IO
begin

text \<open>
  Triples for the operations of \<open>Agent_IO\<close>: from a world in which \<open>P\<close> holds, an operation that
  returns leaves \<open>Q\<close>, and one that raises leaves \<open>E\<close>. One rule per combinator, so that the proof of
  an operation follows its text.
\<close>

definition triple :: "('w \<Rightarrow> bool) \<Rightarrow> ('w, 'a) io \<Rightarrow> ('a \<Rightarrow> 'w \<Rightarrow> bool) \<Rightarrow> (driver_error \<Rightarrow> 'w \<Rightarrow> bool) \<Rightarrow> bool" where
  "triple P m Q E \<longleftrightarrow> (\<forall>w. P w \<longrightarrow> (case m w of (Inr a, w') \<Rightarrow> Q a w' | (Inl e, w') \<Rightarrow> E e w'))"

lemma tripleI:
  "(\<And>w a w'. P w \<Longrightarrow> m w = (Inr a, w') \<Longrightarrow> Q a w') \<Longrightarrow> (\<And>w e w'. P w \<Longrightarrow> m w = (Inl e, w') \<Longrightarrow> E e w') \<Longrightarrow>
     triple P m Q E"
  by (simp add: triple_def split: prod.splits sum.splits)

lemma tripleD:
  assumes "triple P m Q E" "P w"
  shows "m w = (Inr a, w') \<Longrightarrow> Q a w'" "m w = (Inl e, w') \<Longrightarrow> E e w'"
  using assms unfolding triple_def by fastforce+

lemma triple_weaken:
  assumes "triple P' m Q' E'" and "\<And>w. P w \<Longrightarrow> P' w" and "\<And>a w. Q' a w \<Longrightarrow> Q a w" and "\<And>e w. E' e w \<Longrightarrow> E e w"
  shows "triple P m Q E"
  using tripleD [OF assms(1)] assms(2-4) by (blast intro: tripleI)

lemma triple_pre: "triple P' m Q E \<Longrightarrow> (\<And>w. P w \<Longrightarrow> P' w) \<Longrightarrow> triple P m Q E"
  by (rule triple_weaken)

lemma triple_return: "(\<And>w. P w \<Longrightarrow> Q a w) \<Longrightarrow> triple P (return_io a) Q E"
  by (simp add: triple_def return_io_def)

lemma triple_raise: "(\<And>w. P w \<Longrightarrow> E e w) \<Longrightarrow> triple P (raise_io e) Q E"
  by (simp add: triple_def raise_io_def)

lemma triple_reads: "(\<And>w. P w \<Longrightarrow> Q (f w) w) \<Longrightarrow> triple P (reads_io f) Q E"
  by (simp add: triple_def reads_io_def)

lemma triple_modify: "(\<And>w. P w \<Longrightarrow> Q () (f w)) \<Longrightarrow> triple P (modify_io f) Q E"
  by (simp add: triple_def modify_io_def)

lemma triple_unless:
  "(\<And>w. P w \<Longrightarrow> ok \<Longrightarrow> Q () w) \<Longrightarrow> (\<And>w. P w \<Longrightarrow> \<not> ok \<Longrightarrow> E e w) \<Longrightarrow> triple P (unless_io ok e) Q E"
  by (simp add: triple_def unless_io_simp)

lemma triple_the:
  "(\<And>w a. P w \<Longrightarrow> x = Some a \<Longrightarrow> Q a w) \<Longrightarrow> (\<And>w. P w \<Longrightarrow> x = None \<Longrightarrow> E e w) \<Longrightarrow> triple P (the_io e x) Q E"
  by (simp add: triple_def the_io_simp split: option.splits)

lemma triple_bind:
  assumes m: "triple P m R E" and k: "\<And>a. triple (R a) (k a) Q E"
  shows "triple P (bind_io m k) Q E"
proof (rule tripleI)
  show "Q a w'" if "P w" "bind_io m k w = (Inr a, w')" for w a w'
    using that(2)
  proof (cases rule: bind_io_cases)
    case (went_on b w1)
    then show ?thesis using tripleD [OF m that(1)] tripleD [OF k] by blast
  qed simp
  show "E e w'" if "P w" "bind_io m k w = (Inl e, w')" for w e w'
    using that(2)
  proof (cases rule: bind_io_cases)
    case (raised e')
    then show ?thesis using tripleD [OF m that(1)] by simp
  next
    case (went_on b w1)
    then show ?thesis using tripleD [OF m that(1)] tripleD [OF k] by blast
  qed
qed

lemma triple_try:
  assumes m: "triple P m Q E'" and h: "\<And>e k. h e = Some k \<Longrightarrow> triple (E' e) k Q E"
    and n: "\<And>e w. h e = None \<Longrightarrow> E' e w \<Longrightarrow> E e w"
  shows "triple P (try_io m h) Q E"
proof (rule tripleI)
  show "Q a w'" if "P w" "try_io m h w = (Inr a, w')" for w a w'
    using that(2) tripleD [OF m that(1)] tripleD [OF h]
    by (auto simp: try_io_def split: prod.splits sum.splits option.splits)
  show "E e w'" if "P w" "try_io m h w = (Inl e, w')" for w e w'
    using that(2) tripleD [OF m that(1)] tripleD [OF h] n
    by (auto simp: try_io_def split: prod.splits sum.splits option.splits)
qed

lemma triple_if: "(c \<Longrightarrow> triple P m Q E) \<Longrightarrow> (\<not> c \<Longrightarrow> triple P n Q E) \<Longrightarrow> triple P (if c then m else n) Q E"
  by simp

text \<open>A fact that does not depend on the world can be used for the rest.\<close>

lemma triple_assume: "(\<And>w. P w \<Longrightarrow> A) \<Longrightarrow> (A \<Longrightarrow> triple P m Q E) \<Longrightarrow> triple P m Q E"
  by (auto simp: triple_def)

lemma triple_conj: "triple P m Q E \<Longrightarrow> triple P m Q' E' \<Longrightarrow> triple P m (\<lambda>a w. Q a w \<and> Q' a w) (\<lambda>e w. E e w \<and> E' e w)"
  by (auto simp: triple_def split: prod.splits sum.splits)

end
