(* ===== verification/Xray_Safety.thy ===== *)
theory Xray_Safety
  imports Xray_Driver Agent_Triples
begin

text \<open>
  What the Xray driver promises. The record is the bookkeeping file; Xray and Hysteria are in step
  with it when both configuration files are rendered from it, the clients Xray holds on each inbound
  are the recorded ones, and Hysteria was last started with its file.

  Under the documented behaviour of the host (\<open>xray_law\<close>) a change that is reported as made leaves
  all of them in step with the changed client set, one that is reported as failed leaves them in
  step with the old one, and any other exception leaves at least the record as it was. The law says
  nothing of what \<open>rmu\<close> and \<open>adu\<close> do: the driver asks Xray afterwards.
\<close>

subsection \<open>What the host does\<close>

definition loaded_emails :: "string \<Rightarrow> string \<Rightarrow> string set" where
  "loaded_emails t tag =
     (case Option.bind (live_inbounds_by_tag t) (\<lambda>tis. map_of tis tag) of
        None \<Rightarrow> {}
      | Some li \<Rightarrow> fst ` set (li_clients li) - {[]})"

definition keeps_served :: "('k \<Rightarrow> string \<Rightarrow> string set) \<Rightarrow> ('k \<Rightarrow> string option) \<Rightarrow> ('k \<Rightarrow> 'r \<times> 'k) \<Rightarrow> bool" where
  "keeps_served live hys f \<longleftrightarrow> (\<forall>k r k'. f k = (r, k') \<longrightarrow> live k' = live k \<and> hys k' = hys k)"

text \<open>
  \<open>live\<close>: the emails of the clients the running Xray holds on each inbound, those without one left out. \<open>hys\<close>: the text
  Hysteria was last started with. A restart reads the file; \<open>inbounduser\<close> prints what is held; the
  rest changes neither, except that other API commands may change the clients of Xray.
\<close>

definition xray_law :: "'k xray_host \<Rightarrow> ('k \<Rightarrow> string \<Rightarrow> string set) \<Rightarrow> ('k \<Rightarrow> string option) \<Rightarrow> bool" where
  "xray_law host live hys \<longleftrightarrow>
     (\<forall>t k out err k'. xh_restart_xray host (Some t) k = (CompletedRun 0 out err, k') \<longrightarrow>
        live_inbounds_by_tag t \<noteq> None \<longrightarrow> live k' = loaded_emails t) \<and>
     (\<forall>t k r k'. xh_restart_xray host t k = (r, k') \<longrightarrow> hys k' = hys k) \<and>
     (\<forall>t k out err k'. xh_restart_hysteria host (Some t) k = (CompletedRun 0 out err, k') \<longrightarrow> hys k' = Some t) \<and>
     (\<forall>t k r k'. xh_restart_hysteria host t k = (r, k') \<longrightarrow> live k' = live k) \<and>
     (\<forall>tag k out err k' es. xh_api host ''inbounduser'' [tag_argument tag] None k = (CompletedRun 0 out err, k') \<longrightarrow>
        emails_in out = Inr es \<longrightarrow> set es = live k tag) \<and>
     (\<forall>tag. keeps_served live hys (xh_api host ''inbounduser'' [tag_argument tag] None)) \<and>
     (\<forall>command arguments stdin k r k'. xh_api host command arguments stdin k = (r, k') \<longrightarrow> hys k' = hys k) \<and>
     (\<forall>t. keeps_served live hys (xh_validate host t)) \<and>
     keeps_served live hys (xh_hysteria_is_active host) \<and>
     (\<forall>u s b. keeps_served live hys (xh_kick host u s b)) \<and>
     keeps_served live hys (xh_connect host) \<and> keeps_served live hys (xh_write host) \<and>
     (\<forall>t. keeps_served live hys (xh_sleep host t))"

lemma xray_lawD:
  assumes "xray_law host live hys"
  shows "xh_restart_xray host (Some t) k = (CompletedRun 0 out err, k') \<Longrightarrow> live_inbounds_by_tag t \<noteq> None \<Longrightarrow> live k' = loaded_emails t"
    and "xh_restart_xray host t' k = (r, k') \<Longrightarrow> hys k' = hys k"
    and "xh_restart_hysteria host (Some t) k = (CompletedRun 0 out err, k') \<Longrightarrow> hys k' = Some t"
    and "xh_restart_hysteria host t' k = (r, k') \<Longrightarrow> live k' = live k"
    and "xh_api host ''inbounduser'' [tag_argument tag] None k = (CompletedRun 0 out err, k') \<Longrightarrow> emails_in out = Inr es \<Longrightarrow>
           set es = live k tag"
    and "keeps_served live hys (xh_api host ''inbounduser'' [tag_argument tag] None)"
    and "xh_api host command arguments stdin k = (r, k') \<Longrightarrow> hys k' = hys k"
    and "keeps_served live hys (xh_validate host t')"
    and "keeps_served live hys (xh_hysteria_is_active host)"
    and "keeps_served live hys (xh_kick host u s b)"
    and "keeps_served live hys (xh_connect host)" and "keeps_served live hys (xh_write host)"
    and "keeps_served live hys (xh_sleep host n)"
proof -
  note law = assms [unfolded xray_law_def]
  show "xh_restart_xray host (Some t) k = (CompletedRun 0 out err, k') \<Longrightarrow> live_inbounds_by_tag t \<noteq> None \<Longrightarrow> live k' = loaded_emails t"
    by (rule law [THEN conjunct1, rule_format])
  show "xh_restart_xray host t' k = (r, k') \<Longrightarrow> hys k' = hys k"
    by (rule law [THEN conjunct2, THEN conjunct1, rule_format])
  show "xh_restart_hysteria host (Some t) k = (CompletedRun 0 out err, k') \<Longrightarrow> hys k' = Some t"
    by (rule law [THEN conjunct2, THEN conjunct2, THEN conjunct1, rule_format])
  show "xh_restart_hysteria host t' k = (r, k') \<Longrightarrow> live k' = live k"
    by (rule law [THEN conjunct2, THEN conjunct2, THEN conjunct2, THEN conjunct1, rule_format])
  show "xh_api host ''inbounduser'' [tag_argument tag] None k = (CompletedRun 0 out err, k') \<Longrightarrow> emails_in out = Inr es \<Longrightarrow>
           set es = live k tag"
    by (rule law [THEN conjunct2, THEN conjunct2, THEN conjunct2, THEN conjunct2, THEN conjunct1, rule_format])
  show "keeps_served live hys (xh_api host ''inbounduser'' [tag_argument tag] None)"
    by (rule law [THEN conjunct2, THEN conjunct2, THEN conjunct2, THEN conjunct2, THEN conjunct2, THEN conjunct1, rule_format])
  show "xh_api host command arguments stdin k = (r, k') \<Longrightarrow> hys k' = hys k"
    by (rule law [THEN conjunct2, THEN conjunct2, THEN conjunct2, THEN conjunct2, THEN conjunct2, THEN conjunct2, THEN conjunct1, rule_format])
  show "keeps_served live hys (xh_validate host t')"
    by (rule law [THEN conjunct2, THEN conjunct2, THEN conjunct2, THEN conjunct2, THEN conjunct2, THEN conjunct2, THEN conjunct2, THEN conjunct1, rule_format])
  show "keeps_served live hys (xh_hysteria_is_active host)"
    by (rule law [THEN conjunct2, THEN conjunct2, THEN conjunct2, THEN conjunct2, THEN conjunct2, THEN conjunct2, THEN conjunct2, THEN conjunct2, THEN conjunct1, rule_format])
  show "keeps_served live hys (xh_kick host u s b)"
    by (rule law [THEN conjunct2, THEN conjunct2, THEN conjunct2, THEN conjunct2, THEN conjunct2, THEN conjunct2, THEN conjunct2, THEN conjunct2, THEN conjunct2, THEN conjunct1, rule_format])
  show "keeps_served live hys (xh_connect host)"
    by (rule law [THEN conjunct2, THEN conjunct2, THEN conjunct2, THEN conjunct2, THEN conjunct2, THEN conjunct2, THEN conjunct2, THEN conjunct2, THEN conjunct2, THEN conjunct2, THEN conjunct1, rule_format])
  show "keeps_served live hys (xh_write host)"
    by (rule law [THEN conjunct2, THEN conjunct2, THEN conjunct2, THEN conjunct2, THEN conjunct2, THEN conjunct2, THEN conjunct2, THEN conjunct2, THEN conjunct2, THEN conjunct2, THEN conjunct2, THEN conjunct1, rule_format])
  show "keeps_served live hys (xh_sleep host n)"
    by (rule law [THEN conjunct2, THEN conjunct2, THEN conjunct2, THEN conjunct2, THEN conjunct2, THEN conjunct2, THEN conjunct2, THEN conjunct2, THEN conjunct2, THEN conjunct2, THEN conjunct2, THEN conjunct2, rule_format])
qed

subsection \<open>In step\<close>

definition uuids_ok :: "desired_xray_state \<Rightarrow> bool" where
  "uuids_ok d \<longleftrightarrow> (\<forall>c\<in>set (dx_clients d). xc_client_uuid c < 2 ^ 128) \<and> distinct (map xc_client_uuid (dx_clients d))"

text \<open>Profiles that differ in code and port, each of one protocol, and texts that are single lines; no digest is empty.\<close>

definition driver_ok :: "'k xray_driver \<Rightarrow> bool" where
  "driver_ok dr \<longleftrightarrow>
     distinct (map xp_code (xd_profiles dr)) \<and> distinct (map xp_port (xd_profiles dr)) \<and>
     (\<forall>p\<in>set (xd_profiles dr). one_protocol p) \<and> (\<forall>s. xd_sha256 dr s \<noteq> []) \<and>
     (\<forall>hp. xd_hysteria_profile dr = Some hp \<longrightarrow>
        hysteria_texts_ok (xd_sha256 dr) hp (xst_api_host (xd_settings dr)) (xst_dns_redirect (xd_settings dr)) \<and>
        hp_code hp \<notin> set (map xp_code (xd_profiles dr)))"

definition xray_recorded :: "'k xray_world \<Rightarrow> desired_xray_state \<Rightarrow> bool" where
  "xray_recorded w d \<longleftrightarrow> uuids_ok d \<and>
     (case xw_state_file w of None \<Rightarrow> d = no_clients | Some t \<Rightarrow> t = render_state_json d)"

definition live_ok :: "'k xray_driver \<Rightarrow> ('k \<Rightarrow> string \<Rightarrow> string set) \<Rightarrow> desired_xray_state \<Rightarrow> 'k xray_world \<Rightarrow> bool" where
  "live_ok dr live d w \<longleftrightarrow>
     (\<forall>tag\<in>set (live_codes (xd_profiles dr)). live (xw_host w) tag = emails_for (xd_sha256 dr) d tag)"

definition hysteria_ok :: "'k xray_driver \<Rightarrow> ('k \<Rightarrow> string option) \<Rightarrow> desired_xray_state \<Rightarrow> 'k xray_world \<Rightarrow> bool" where
  "hysteria_ok dr hys d w \<longleftrightarrow>
     (\<forall>hp. xd_hysteria_profile dr = Some hp \<longrightarrow>
        xw_hysteria_file w = Some (render_hysteria dr hp d) \<and> hys (xw_host w) = Some (render_hysteria dr hp d))"

definition xray_in_step ::
  "'k xray_driver \<Rightarrow> ('k \<Rightarrow> string \<Rightarrow> string set) \<Rightarrow> ('k \<Rightarrow> string option) \<Rightarrow> 'k xray_world \<Rightarrow> desired_xray_state \<Rightarrow> bool" where
  "xray_in_step dr live hys w d \<longleftrightarrow>
     xray_recorded w d \<and> xw_config_file w = Some (xray_render dr d) \<and> live_ok dr live d w \<and> hysteria_ok dr hys d w"

lemma uuids_ok_change:
  "uuids_ok d \<Longrightarrow> uuids_ok (without_client d u)"
  "uuids_ok d \<Longrightarrow> xc_client_uuid c < 2 ^ 128 \<Longrightarrow> uuids_ok (with_client d c)"
  by (auto simp: uuids_ok_def without_client_def with_client_def distinct_map_filter)

lemma state_newlines: "universal_newlines (render_state_json d) = render_state_json d"
  unfolding render_state_json_def dumps_indent_def by (rule dumps_newlines) (simp add: client_json_def)

lemma config_newlines: "universal_newlines (xray_render dr d) = xray_render dr d"
  unfolding xray_render_def render_xray_server_config_def dumps_indent_def by (rule dumps_newlines [OF plain_config])

lemma hysteria_file_newlines:
  assumes "driver_ok dr" "xd_hysteria_profile dr = Some hp"
  shows "universal_newlines (render_hysteria dr hp d) = render_hysteria dr hp d"
  unfolding render_hysteria_def
proof (rule hysteria_newlines)
  show texts: "hysteria_texts_ok (xd_sha256 dr) hp (xst_api_host (xd_settings dr)) (xst_dns_redirect (xd_settings dr))"
    using assms by (simp add: driver_ok_def)
  show "one_line url" if "(if xst_live_client_updates (xd_settings dr) then Some (hysteria_auth_url dr) else None) = Some url" for url
    using that texts by (auto simp: hysteria_auth_url_def hysteria_texts_ok_def HYSTERIA_AUTH_PATH_def line_break_def split: if_splits)
qed

lemma read_xray_recorded: "xray_recorded w d \<Longrightarrow> xray_last_known_good w = (Inr d, w)"
  by (auto simp: xray_recorded_def xray_last_known_good_def state_newlines parse_rendered_state uuids_ok_def split: option.splits)

lemma emails_nonempty: "driver_ok dr \<Longrightarrow> [] \<notin> emails_for (xd_sha256 dr) d tag"
  unfolding emails_for_def client_email_def driver_ok_def by (metis (mono_tags, lifting) imageE)

lemma loaded_rendered:
  assumes "driver_ok dr"
  shows "live_inbounds_by_tag (xray_render dr d) \<noteq> None"
    and "tag \<in> set (live_codes (xd_profiles dr)) \<Longrightarrow> loaded_emails (xray_render dr d) tag = emails_for (xd_sha256 dr) d tag"
proof -
  obtain tis where tis: "live_inbounds_by_tag (xray_render dr d) = Some tis" "map fst tis = live_codes (xd_profiles dr)"
      "\<forall>(tag, li)\<in>set tis. fst ` set (li_clients li) = emails_for (xd_sha256 dr) d tag"
    using live_inbounds_rendered [of "xd_profiles dr"] assms unfolding driver_ok_def xray_render_def by blast
  then show "live_inbounds_by_tag (xray_render dr d) \<noteq> None" by simp
  show "loaded_emails (xray_render dr d) tag = emails_for (xd_sha256 dr) d tag" if "tag \<in> set (live_codes (xd_profiles dr))"
  proof -
    have "tag \<in> fst ` set tis" using that tis(2) by (metis set_map)
    then obtain li where li: "map_of tis tag = Some li" by (metis domD dom_map_of_conv_image_fst)
    have "fst ` set (li_clients li) = emails_for (xd_sha256 dr) d tag" using tis(3) map_of_SomeD [OF li] by blast
    then show ?thesis using tis(1) li emails_nonempty [OF assms] by (simp add: loaded_emails_def)
  qed
qed

subsection \<open>Steps\<close>

lemma triple_asking:
  "(\<And>w r k. P w \<Longrightarrow> f (xw_host w) = (r, k) \<Longrightarrow> Q r (w\<lparr>xw_host := k\<rparr>)) \<Longrightarrow> triple P (asking_xray f) Q E"
  by (rule tripleI) (auto simp: asking_xray_def split: prod.splits)

lemma triple_run:
  assumes "\<And>w c out err k. P w \<Longrightarrow> f (xw_host w) = (CompletedRun c out err, k) \<Longrightarrow> Q (CompletedRun c out err) (w\<lparr>xw_host := k\<rparr>)"
    and "\<And>w r k. P w \<Longrightarrow> f (xw_host w) = (r, k) \<Longrightarrow> E SubprocessTimeoutError (w\<lparr>xw_host := k\<rparr>)"
  shows "triple P (run_xray_tool f) Q E"
proof (rule tripleI)
  show "Q a w'" if "P w" "run_xray_tool f w = (Inr a, w')" for w a w'
    using that assms(1) [OF that(1)]
    by (auto simp: run_xray_tool_def bind_io_def asking_xray_def completed_io_def return_io_def raise_io_def
        split: prod.splits run_result.splits)
  show "E e w'" if "P w" "run_xray_tool f w = (Inl e, w')" for w e w'
    using that assms(2) [OF that(1)]
    by (auto simp: run_xray_tool_def bind_io_def asking_xray_def completed_io_def return_io_def raise_io_def
        split: prod.splits run_result.splits)
qed

lemma triple_here: "(\<And>w. P w \<Longrightarrow> triple (\<lambda>v. v = w) (m w) Q E) \<Longrightarrow> triple P (\<lambda>w. m w w) Q E"
  by (simp add: triple_def)

lemma triple_result:
  "(\<And>w a. P w \<Longrightarrow> r = Inr a \<Longrightarrow> Q a w) \<Longrightarrow> (\<And>w e. P w \<Longrightarrow> r = Inl e \<Longrightarrow> E e w) \<Longrightarrow> triple P (result_io r) Q E"
  by (cases r) (simp_all add: triple_def result_io_def)

text \<open>What holds of the files, of the clients of Xray and of Hysteria's text survives a keeps_served step.\<close>

definition stable :: "('k \<Rightarrow> string \<Rightarrow> string set) \<Rightarrow> ('k \<Rightarrow> string option) \<Rightarrow> ('k xray_world \<Rightarrow> bool) \<Rightarrow> bool" where
  "stable live hys P \<longleftrightarrow>
     (\<forall>w k. P w \<longrightarrow> live k = live (xw_host w) \<longrightarrow> hys k = hys (xw_host w) \<longrightarrow> P (w\<lparr>xw_host := k\<rparr>))"

lemma quiet_run: "keeps_served live hys f \<Longrightarrow> stable live hys P \<Longrightarrow> triple P (run_xray_tool f) (\<lambda>_. P) (\<lambda>_. P)"
  by (rule triple_run) (simp_all add: keeps_served_def stable_def)

lemma quiet_asking: "keeps_served live hys f \<Longrightarrow> stable live hys P \<Longrightarrow> triple P (asking_xray f) (\<lambda>_. P) E"
  by (rule triple_asking) (simp add: keeps_served_def stable_def)

lemma triple_write:
  assumes "keeps_served live hys (xh_write (xd_host dr))" and "stable live hys P" and "\<And>w. P w \<Longrightarrow> Q () (put (Some content) w)"
    and "\<And>w. P w \<Longrightarrow> E OSError w"
  shows "triple P (write_atomically dr put content) Q E"
  unfolding write_atomically_def
  using assms(3,4)
  by (intro triple_bind [OF quiet_asking [OF assms(1,2)]] triple_bind [where R = "\<lambda>_. P"] triple_unless triple_modify)

text \<open>The rest of a world is as it was.\<close>

definition kept :: "('k \<Rightarrow> string option) \<Rightarrow> 'k xray_world \<Rightarrow> 'k xray_world \<Rightarrow> bool" where
  "kept hys w0 w \<longleftrightarrow> xw_state_file w = xw_state_file w0 \<and> xw_candidate w = xw_candidate w0 \<and>
     xw_config_file w = xw_config_file w0 \<and> xw_hysteria_file w = xw_hysteria_file w0 \<and> hys (xw_host w) = hys (xw_host w0)"

lemma kept_refl [simp]: "kept hys w w"
  by (simp add: kept_def)

lemma kept_host [simp]: "hys k = hys (xw_host w) \<Longrightarrow> kept hys w0 (w\<lparr>xw_host := k\<rparr>) = kept hys w0 w"
  by (simp add: kept_def)

lemma kept_lingering [simp]: "kept hys w0 (w\<lparr>xw_lingering := l\<rparr>) = kept hys w0 w"
  by (simp add: kept_def)

lemma stable_kept [simp]: "stable live hys (kept hys w0)"
  by (simp add: stable_def)

lemma reload_triple:
  assumes law: "xray_law (xd_host dr) live hys" and ok: "driver_ok dr" and "xw_config_file w0 = Some (xray_render dr d)"
  shows "triple (kept hys w0) (xray_reload dr) (\<lambda>_ w. kept hys w0 w \<and> live_ok dr live d w) (\<lambda>_. kept hys w0)"
  unfolding xray_reload_def
proof (rule triple_bind)
  show "triple (kept hys w0) (\<lambda>w. run_xray_tool (xh_restart_xray (xd_host dr) (xw_config_file w)) w)
     (\<lambda>r w. kept hys w0 w \<and> (returncode r = 0 \<longrightarrow> live_ok dr live d w)) (\<lambda>_. kept hys w0)"
  proof (rule triple_here, rule triple_run, goal_cases)
    case (1 w w' c out err k)
    then have "xw_config_file w = Some (xray_render dr d)" using assms(3) by (simp add: kept_def)
    then show ?case
      using 1 xray_lawD(1) [OF law _ loaded_rendered(1) [OF ok]] xray_lawD(2) [OF law] loaded_rendered(2) [OF ok]
      by (auto simp: live_ok_def)
  next
    case (2 w w' r k)
    then show ?case using xray_lawD(2) [OF law] by auto
  qed
  show "triple (\<lambda>w. kept hys w0 w \<and> (returncode r = 0 \<longrightarrow> live_ok dr live d w))
      (unless_io (returncode r = 0) (ApplyError (strip (stderr r)))) (\<lambda>_ w. kept hys w0 w \<and> live_ok dr live d w) (\<lambda>_. kept hys w0)" for r
    by (rule triple_unless) simp_all
qed

lemma api_triple:
  assumes "xray_law (xd_host dr) live hys"
  shows "triple (kept hys w0) (xray_api dr command arguments stdin) (\<lambda>_. kept hys w0) (\<lambda>_. kept hys w0)"
  unfolding xray_api_def
proof (rule triple_bind)
  show "triple (kept hys w0) (run_xray_tool (xh_api (xd_host dr) command arguments stdin)) (\<lambda>_. kept hys w0) (\<lambda>_. kept hys w0)"
    using xray_lawD(7) [OF assms] by (intro triple_run) auto
qed (rule triple_bind [where R = "\<lambda>_. kept hys w0"], (rule triple_unless triple_return; simp)+)

lemma live_emails_triple:
  assumes law: "xray_law (xd_host dr) live hys" and P: "stable live hys P"
  shows "triple P (live_emails dr tag) (\<lambda>es w. P w \<and> set es = live (xw_host w) tag) (\<lambda>_. P)"
  unfolding live_emails_def xray_api_def
proof (rule triple_bind [where R = "\<lambda>out w. P w \<and> (\<forall>es. emails_in out = Inr es \<longrightarrow> set es = live (xw_host w) tag)"])
  let ?api = "xh_api (xd_host dr) ''inbounduser'' [tag_argument tag] None"
  show "triple P (bind_io (run_xray_tool ?api) (\<lambda>result. bind_io (unless_io (returncode result = 0)
      (ApplyError (''xray api '' @ ''inbounduser'' @ '' failed: '' @ take 200 (strip (stderr result))))) (\<lambda>_. return_io (stdout result))))
     (\<lambda>out w. P w \<and> (\<forall>es. emails_in out = Inr es \<longrightarrow> set es = live (xw_host w) tag)) (\<lambda>_. P)"
  proof (rule triple_bind)
    show "triple P (run_xray_tool ?api)
      (\<lambda>r w. P w \<and> (returncode r = 0 \<longrightarrow> (\<forall>es. emails_in (stdout r) = Inr es \<longrightarrow> set es = live (xw_host w) tag))) (\<lambda>_. P)"
    proof (rule triple_run, goal_cases)
      case (1 w c out err k)
      have "live k = live (xw_host w)" "hys k = hys (xw_host w)"
        using xray_lawD(6) [OF law, of tag] 1(2) unfolding keeps_served_def by blast+
      then show ?case using 1 P xray_lawD(5) [OF law, of tag "xw_host w" out err k] by (auto simp: stable_def)
    next
      case (2 w r k)
      have "live k = live (xw_host w)" "hys k = hys (xw_host w)"
        using xray_lawD(6) [OF law, of tag] 2(2) unfolding keeps_served_def by blast+
      then show ?case using 2 P by (simp add: stable_def)
    qed
  next
    show "triple (\<lambda>w. P w \<and> (returncode r = 0 \<longrightarrow> (\<forall>es. emails_in (stdout r) = Inr es \<longrightarrow> set es = live (xw_host w) tag)))
      (bind_io (unless_io (returncode r = 0) (ApplyError (''xray api '' @ ''inbounduser'' @ '' failed: '' @ take 200 (strip (stderr r)))))
        (\<lambda>_. return_io (stdout r))) (\<lambda>out w. P w \<and> (\<forall>es. emails_in out = Inr es \<longrightarrow> set es = live (xw_host w) tag)) (\<lambda>_. P)" for r
      by (rule triple_bind [where R = "\<lambda>_ w. P w \<and> (\<forall>es. emails_in (stdout r) = Inr es \<longrightarrow> set es = live (xw_host w) tag)"])
         (rule triple_unless triple_return; simp)+
  qed
  show "triple (\<lambda>w. P w \<and> (\<forall>es. emails_in out = Inr es \<longrightarrow> set es = live (xw_host w) tag)) (result_io (emails_in out))
     (\<lambda>es w. P w \<and> set es = live (xw_host w) tag) (\<lambda>_. P)" for out
    by (rule triple_result) auto
qed

subsection \<open>Bringing Xray to a client set\<close>

lemma remove_gone_triple:
  assumes law: "xray_law (xd_host dr) live hys"
  shows "triple (kept hys w0) (remove_gone dr wanted removed additions) (\<lambda>_. kept hys w0) (\<lambda>_. kept hys w0)"
proof (induction wanted arbitrary: removed additions)
  case Nil
  show ?case by (simp add: triple_return)
next
  case (Cons x wanted)
  obtain tag inbound where x: "x = (tag, inbound)" by (cases x)
  have rmu: "triple (kept hys w0) (if gone = [] then return_io () else
      bind_io (xray_api dr ''rmu'' (tag_argument tag # sort gone) None) (\<lambda>_. return_io ())) (\<lambda>_. kept hys w0) (\<lambda>_. kept hys w0)" for gone
    by (auto intro!: triple_return triple_bind [OF api_triple [OF law]])
  have live: "triple (kept hys w0) (live_emails dr tag) (\<lambda>_. kept hys w0) (\<lambda>_. kept hys w0)"
    by (rule triple_weaken [OF live_emails_triple [OF law stable_kept]]) auto
  show ?case unfolding x remove_gone.simps Let_def by (rule triple_bind [OF live triple_bind [OF rmu Cons]])
qed

definition confirmed :: "('k \<Rightarrow> string \<Rightarrow> string set) \<Rightarrow> (string \<times> live_inbound) set \<Rightarrow> 'k xray_world \<Rightarrow> bool" where
  "confirmed live tis w \<longleftrightarrow> (\<forall>(tag, inbound)\<in>tis. live (xw_host w) tag = fst ` set (li_clients inbound))"

lemma stable_confirmed: "stable live hys (\<lambda>w. kept hys w0 w \<and> confirmed live tis w)"
  by (simp add: stable_def confirmed_def)

lemma confirm_triple:
  assumes law: "xray_law (xd_host dr) live hys"
  shows "triple (\<lambda>w. kept hys w0 w \<and> confirmed live tis w) (confirm_live dr (tag, inbound))
    (\<lambda>_ w. kept hys w0 w \<and> confirmed live (insert (tag, inbound) tis) w) (\<lambda>_. kept hys w0)"
  unfolding confirm_live_def prod.case
proof (rule triple_bind)
  show "triple (\<lambda>w. kept hys w0 w \<and> confirmed live tis w) (live_emails dr tag)
     (\<lambda>es w. (kept hys w0 w \<and> confirmed live tis w) \<and> set es = live (xw_host w) tag) (\<lambda>_. kept hys w0)"
    by (rule triple_weaken [OF live_emails_triple [OF law stable_confirmed]]) auto
  fix es
  let ?R = "\<lambda>w. (kept hys w0 w \<and> confirmed live tis w) \<and> set es = live (xw_host w) tag"
  show "triple ?R
     (bind_io (unless_io (set es = fst ` set (li_clients inbound)) (ApplyError (''Xray's live clients for '' @ tag @ '' do not match the rendered set'')))
       (\<lambda>_. modify_io (forget_lingering (map fst (li_clients inbound)))))
     (\<lambda>_ w. kept hys w0 w \<and> confirmed live (insert (tag, inbound) tis) w) (\<lambda>_. kept hys w0)"
  proof (rule triple_bind [where R = "\<lambda>_ w. kept hys w0 w \<and> confirmed live (insert (tag, inbound) tis) w"])
    show "triple ?R (unless_io (set es = fst ` set (li_clients inbound)) (ApplyError (''Xray's live clients for '' @ tag @ '' do not match the rendered set'')))
       (\<lambda>_ w. kept hys w0 w \<and> confirmed live (insert (tag, inbound) tis) w) (\<lambda>_. kept hys w0)"
      by (rule triple_unless) (auto simp: confirmed_def)
  qed (rule triple_modify, simp add: forget_lingering_def confirmed_def)
qed

lemma for_each_Nil [simp]: "for_each_io f [] = return_io ()"
  by (simp add: for_each_io_def)

lemma for_each_Cons [simp]: "for_each_io f (x # xs) = bind_io (f x) (\<lambda>_. for_each_io f xs)"
  by (simp add: for_each_io_def)

lemma confirm_all_triple:
  assumes law: "xray_law (xd_host dr) live hys"
  shows "triple (\<lambda>w. kept hys w0 w \<and> confirmed live tis w) (for_each_io (confirm_live dr) wanted)
    (\<lambda>_ w. kept hys w0 w \<and> confirmed live (tis \<union> set wanted) w) (\<lambda>_. kept hys w0)"
proof (induction wanted arbitrary: tis)
  case Nil
  show ?case by (simp add: triple_return)
next
  case (Cons x wanted)
  obtain tag inbound where x: "x = (tag, inbound)" by (cases x)
  show ?case
    unfolding x for_each_Cons using triple_bind [OF confirm_triple [OF law] Cons] by simp
qed

lemma apply_clients_live_triple:
  assumes law: "xray_law (xd_host dr) live hys" and ok: "driver_ok dr"
  shows "triple (kept hys w0) (apply_clients_live dr (xray_render dr d))
    (\<lambda>_ w. kept hys w0 w \<and> live_ok dr live d w) (\<lambda>_. kept hys w0)"
proof -
  obtain tis where tis: "live_inbounds_by_tag (xray_render dr d) = Some tis" "map fst tis = live_codes (xd_profiles dr)"
      "\<forall>(tag, li)\<in>set tis. fst ` set (li_clients li) = emails_for (xd_sha256 dr) d tag"
    using live_inbounds_rendered [of "xd_profiles dr"] ok unfolding driver_ok_def xray_render_def by blast
  have live: "live_ok dr live d w" if "confirmed live ({} \<union> set tis) w" for w
  proof -
    have "live (xw_host w) tag = emails_for (xd_sha256 dr) d tag" if "tag \<in> fst ` set tis" for tag
      using that \<open>confirmed live ({} \<union> set tis) w\<close> tis(3) by (fastforce simp: confirmed_def)
    then show ?thesis using tis(2) by (metis live_ok_def set_map)
  qed
  have adu: "triple (kept hys w0) (if additions = [] then return_io () else
      bind_io (xray_api dr ''adu'' [''stdin:''] (Some (dumps (JObj [(''inbounds'', JList additions)])))) (\<lambda>_. return_io ()))
      (\<lambda>_ w. kept hys w0 w \<and> confirmed live {} w) (\<lambda>_. kept hys w0)" for additions
    by (auto simp: confirmed_def intro!: triple_return triple_bind [OF api_triple [OF law]])
  have rest: "triple (\<lambda>w. kept hys w0 w \<and> confirmed live {} w) (bind_io (for_each_io (confirm_live dr) tis) (\<lambda>_. return_io removed))
      (\<lambda>_ w. kept hys w0 w \<and> live_ok dr live d w) (\<lambda>_. kept hys w0)" for removed
    using live by (blast intro: triple_bind [OF confirm_all_triple [OF law]] triple_return)
  have "triple (kept hys w0) (bind_io (remove_gone dr tis [] []) (\<lambda>(removed, additions).
      bind_io (if additions = [] then return_io () else
          bind_io (xray_api dr ''adu'' [''stdin:''] (Some (dumps (JObj [(''inbounds'', JList additions)])))) (\<lambda>_. return_io ())) (\<lambda>_.
      bind_io (for_each_io (confirm_live dr) tis) (\<lambda>_. return_io removed))))
      (\<lambda>_ w. kept hys w0 w \<and> live_ok dr live d w) (\<lambda>_. kept hys w0)"
    by (rule triple_bind [OF remove_gone_triple [OF law]], case_tac a, simp only: prod.case, rule triple_bind [OF adu rest])
  then show ?thesis by (simp add: apply_clients_live_def tis(1) the_io_def bind_io_def [abs_def] return_io_def)
qed

lemma apply_xray_triple:
  assumes law: "xray_law (xd_host dr) live hys" and ok: "driver_ok dr" and config: "xw_config_file w0 = Some (xray_render dr d)"
  shows "triple (kept hys w0) (apply_xray dr served (xray_render dr d))
    (\<lambda>_ w. kept hys w0 w \<and> live_ok dr live d w) (\<lambda>_. kept hys w0)"
proof -
  have reload: "triple (kept hys w0) (reload_instead dr) (\<lambda>_ w. kept hys w0 w \<and> live_ok dr live d w) (\<lambda>_. kept hys w0)"
    unfolding reload_instead_def by (rule triple_bind [OF reload_triple [OF law ok config]]) (rule triple_return)
  have live: "triple (kept hys w0) (try_io (apply_clients_live dr (xray_render dr d)) (on_apply_error (\<lambda>_. reload_instead dr)))
      (\<lambda>_ w. kept hys w0 w \<and> live_ok dr live d w) (\<lambda>_. kept hys w0)"
  proof (rule triple_try [OF apply_clients_live_triple [OF law ok]])
    show "triple (kept hys w0) k (\<lambda>_ w. kept hys w0 w \<and> live_ok dr live d w) (\<lambda>_. kept hys w0)"
      if "on_apply_error (\<lambda>_. reload_instead dr) e = Some k" for e k
      using that reload by (cases e) auto
  qed
  show ?thesis
    unfolding apply_xray_def
    by (cases served)
       (auto intro!: reload live triple_bind [where R = "\<lambda>_. kept hys w0"] triple_return triple_result triple_if)
qed

subsection \<open>Bringing Hysteria to a client set\<close>

lemma await_hysteria_triple:
  assumes law: "xray_law (xd_host dr) live hys" and P: "stable live hys P"
  shows "triple P (await_hysteria rounds dr deadline) (\<lambda>_. P) (\<lambda>_. P)"
proof (induction rounds)
  case 0
  show ?case by (simp add: triple_raise)
next
  case (Suc rounds)
  show ?case
    unfolding await_hysteria.simps Let_def
    by (rule triple_bind [OF quiet_run [OF xray_lawD(9) [OF law] P]])
       (auto intro!: triple_return triple_raise triple_bind [where R = "\<lambda>_. P"] triple_reads Suc
          quiet_asking [OF xray_lawD(13) [OF law] P])
qed

text \<open>The files apart from Hysteria's, and the clients of Xray.\<close>

definition xray_side :: "('k \<Rightarrow> string \<Rightarrow> string set) \<Rightarrow> 'k xray_world \<Rightarrow> 'k xray_world \<Rightarrow> bool" where
  "xray_side live w0 w \<longleftrightarrow> xw_state_file w = xw_state_file w0 \<and> xw_candidate w = xw_candidate w0 \<and>
     xw_config_file w = xw_config_file w0 \<and> live (xw_host w) = live (xw_host w0)"

lemma xray_side_simps [simp]:
  "xray_side live w w"
  "live k = live (xw_host w) \<Longrightarrow> xray_side live w0 (w\<lparr>xw_host := k\<rparr>) = xray_side live w0 w"
  "xray_side live w0 (w\<lparr>xw_hysteria_file := f\<rparr>) = xray_side live w0 w"
  by (simp_all add: xray_side_def)

text \<open>If the file is as it should be, so is what Hysteria was started with.\<close>

definition not_stale :: "'k xray_driver \<Rightarrow> ('k \<Rightarrow> string option) \<Rightarrow> desired_xray_state \<Rightarrow> 'k xray_world \<Rightarrow> bool" where
  "not_stale dr hys d w \<longleftrightarrow>
     (\<forall>hp. xd_hysteria_profile dr = Some hp \<longrightarrow> served_hysteria_config w = Some (render_hysteria dr hp d) \<longrightarrow> hysteria_ok dr hys d w)"

text \<open>What a failed attempt leaves: nothing changed, or the new text is in the file.\<close>

definition half_done :: "'k xray_driver \<Rightarrow> ('k \<Rightarrow> string option) \<Rightarrow> desired_xray_state \<Rightarrow> 'k xray_world \<Rightarrow> 'k xray_world \<Rightarrow> bool" where
  "half_done dr hys d w0 w \<longleftrightarrow>
     xw_hysteria_file w = xw_hysteria_file w0 \<and> hys (xw_host w) = hys (xw_host w0) \<or>
     (\<exists>hp. xd_hysteria_profile dr = Some hp \<and> xw_hysteria_file w = Some (render_hysteria dr hp d) \<and>
        served_hysteria_config w0 \<noteq> Some (render_hysteria dr hp d))"

definition hysteria_served :: "'k xray_driver \<Rightarrow> desired_xray_state \<Rightarrow> 'k xray_world \<Rightarrow> bool" where
  "hysteria_served dr d w \<longleftrightarrow>
     (\<forall>hp. xd_hysteria_profile dr = Some hp \<longrightarrow> served_hysteria_config w = Some (render_hysteria dr hp d))"

lemma apply_hysteria_triple:
  assumes law: "xray_law (xd_host dr) live hys" and ok: "driver_ok dr"
  shows "triple (\<lambda>w. w = w0) (apply_hysteria dr d)
    (\<lambda>_ w. xray_side live w0 w \<and> hysteria_served dr d w \<and> (not_stale dr hys d w0 \<longrightarrow> hysteria_ok dr hys d w))
    (\<lambda>_ w. xray_side live w0 w \<and> half_done dr hys d w0 w)"
proof (cases "xd_hysteria_profile dr")
  case None
  then show ?thesis by (simp add: apply_hysteria_def triple_def return_io_def hysteria_served_def hysteria_ok_def)
next
  case (Some hp)
  let ?t = "render_hysteria dr hp d"
  show ?thesis
  proof (cases "served_hysteria_config w0 = Some ?t")
    case True
    then have "apply_hysteria dr d w0 = (Inr (), w0)" using Some by (simp add: apply_hysteria_def Let_def io_simps)
    then show ?thesis using True Some by (auto simp: triple_def hysteria_served_def not_stale_def)
  next
    case False
    define W where "W w \<longleftrightarrow> xray_side live w0 w \<and> xw_hysteria_file w = Some ?t" for w
    have W: "half_done dr hys d w0 w" if "W w" for w using that Some False by (auto simp: W_def half_done_def)
    have before: "stable live hys (\<lambda>w. xray_side live w0 w \<and> xw_hysteria_file w = xw_hysteria_file w0 \<and> hys (xw_host w) = hys (xw_host w0))"
      by (simp add: stable_def)
    have wr: "triple (\<lambda>w. w = w0) (write_hysteria_config dr ?t) (\<lambda>_. W) (\<lambda>_ w. xray_side live w0 w \<and> half_done dr hys d w0 w)"
      unfolding write_hysteria_config_def
      by (rule triple_pre [OF triple_write [OF xray_lawD(12) [OF law] before]]) (auto simp: W_def half_done_def)
    have restart: "triple W (\<lambda>w. run_xray_tool (xh_restart_hysteria (xd_host dr) (xw_hysteria_file w)) w)
        (\<lambda>r w. W w \<and> (returncode r = 0 \<longrightarrow> hys (xw_host w) = Some ?t)) (\<lambda>_. W)"
    proof (rule triple_here, rule triple_run, goal_cases)
      case (1 w w' c out err k)
      then show ?case using xray_lawD(3) [OF law, of ?t "xw_host w" out err k] xray_lawD(4) [OF law, of "Some ?t" "xw_host w" _ k]
        by (auto simp: W_def)
    next
      case (2 w w' r k)
      then show ?case using xray_lawD(4) [OF law, of "Some ?t" "xw_host w" r k] by (auto simp: W_def)
    qed
    define D where "D w \<longleftrightarrow> W w \<and> hys (xw_host w) = Some ?t" for w
    have "stable live hys D" by (simp add: stable_def D_def W_def)
    note await = await_hysteria_triple [OF law this]
    have post: "xray_side live w0 w \<and> hysteria_served dr d w \<and> (not_stale dr hys d w0 \<longrightarrow> hysteria_ok dr hys d w)" if "D w" for w
      using that Some hysteria_file_newlines [OF ok Some, of d]
      by (auto simp: D_def W_def hysteria_served_def served_hysteria_config_def hysteria_ok_def)
    have rest: "triple W (restart_hysteria dr) (\<lambda>_. D) (\<lambda>_. W)"
      unfolding restart_hysteria_def
      by (rule triple_bind [OF restart])
         (rule triple_bind [where R = "\<lambda>_. D"], rule triple_unless, simp add: D_def, simp,
          rule triple_bind [where R = "\<lambda>_. D"], rule triple_reads, simp, rule triple_weaken [OF await], simp_all add: D_def)
    have "triple (\<lambda>w. w = w0) (bind_io (write_hysteria_config dr ?t) (\<lambda>_. restart_hysteria dr))
      (\<lambda>_ w. xray_side live w0 w \<and> hysteria_served dr d w \<and> (not_stale dr hys d w0 \<longrightarrow> hysteria_ok dr hys d w))
      (\<lambda>_ w. xray_side live w0 w \<and> half_done dr hys d w0 w)"
      by (rule triple_bind [OF wr], rule triple_weaken [OF rest]) (use post W in \<open>auto simp: W_def\<close>)
    moreover have "apply_hysteria dr d w0 = bind_io (write_hysteria_config dr ?t) (\<lambda>_. restart_hysteria dr) w0"
      using Some False by (simp add: apply_hysteria_def Let_def bind_io_def [of "reads_io served_hysteria_config"] reads_io_def)
    ultimately show ?thesis by (simp add: triple_def)
  qed
qed

subsection \<open>Applying a client set\<close>

fun is_refusal :: "driver_error \<Rightarrow> bool" where
  "is_refusal (ValidationError m) = True"
| "is_refusal (ApplyError m) = True"
| "is_refusal e = False"

text \<open>Only the validation of a configuration refuses it.\<close>

abbreviation "no_refusal \<equiv> (\<lambda>(e :: driver_error) _. \<forall>m. e \<noteq> ValidationError m)"

lemma run_errors: "triple (\<lambda>_. True) (run_xray_tool f) (\<lambda>_ _. True) no_refusal"
  by (rule triple_run) simp_all

lemma reload_errors: "triple (\<lambda>_. True) (xray_reload dr) (\<lambda>_ _. True) no_refusal"
  unfolding xray_reload_def
  by (rule triple_bind [where R = "\<lambda>_ _. True"], rule triple_here, rule triple_pre [OF run_errors], simp, rule triple_unless) simp_all

lemma await_errors: "triple (\<lambda>_. True) (await_hysteria rounds dr deadline) (\<lambda>_ _. True) no_refusal"
proof (induction rounds)
  case 0
  show ?case by (simp add: triple_raise)
next
  case (Suc rounds)
  show ?case
    unfolding await_hysteria.simps Let_def
    by (rule triple_bind [OF run_errors], rule triple_if, rule triple_return, simp,
        rule triple_bind [where R = "\<lambda>_ _. True"], rule triple_reads, simp, rule triple_if, rule triple_raise, simp,
        rule triple_bind [OF _ Suc], rule triple_asking, simp)
qed

lemma write_errors: "triple (\<lambda>_. True) (write_atomically dr put content) (\<lambda>_ _. True) no_refusal"
  unfolding write_atomically_def
  by (rule triple_bind [where R = "\<lambda>_ _. True"], rule triple_asking, simp,
      rule triple_bind [where R = "\<lambda>_ _. True"], rule triple_unless, simp, simp, rule triple_modify, simp)

lemma apply_hysteria_errors: "triple (\<lambda>_. True) (apply_hysteria dr d) (\<lambda>_ _. True) no_refusal"
proof -
  have "triple (\<lambda>_. True) (restart_hysteria dr) (\<lambda>_ _. True) no_refusal"
    unfolding restart_hysteria_def
    by (rule triple_bind [where R = "\<lambda>_ _. True"], rule triple_here, rule triple_pre [OF run_errors], simp,
        rule triple_bind [where R = "\<lambda>_ _. True"], rule triple_unless, simp, simp,
        rule triple_bind [where R = "\<lambda>_ _. True"], rule triple_reads, simp, rule await_errors)
  note body = triple_bind [OF write_errors this]
  show ?thesis
  proof (cases "xd_hysteria_profile dr")
    case None
    then show ?thesis by (simp add: apply_hysteria_def triple_return)
  next
    case (Some hp)
    then show ?thesis
      unfolding apply_hysteria_def Let_def option.case write_hysteria_config_def
      by (simp, intro triple_bind [where R = "\<lambda>_ _. True"] triple_reads triple_if triple_return body) simp_all
  qed
qed

lemma rollback_triple:
  fixes dr :: "'k xray_driver"
  assumes law: "xray_law (xd_host dr) live hys" and ok: "driver_ok dr" and rec: "xray_recorded w1 d"
  shows "triple (\<lambda>w. w = w1) (xray_rollback dr)
    (\<lambda>_ w. xray_recorded w d \<and> xw_config_file w = Some (xray_render dr d) \<and> live_ok dr live d w \<and>
       (not_stale dr hys d w1 \<longrightarrow> hysteria_ok dr hys d w))
    (\<lambda>e w. xray_recorded w d \<and> \<not> is_refusal e)"
proof -
  define C where "C w \<longleftrightarrow> xw_state_file w = xw_state_file w1 \<and> xw_config_file w = Some (xray_render dr d) \<and>
    xw_hysteria_file w = xw_hysteria_file w1 \<and> hys (xw_host w) = hys (xw_host w1)" for w :: "'k xray_world"
  have rec': "xray_recorded w d" if "xw_state_file w = xw_state_file w1" for w
    using that rec by (simp add: xray_recorded_def)
  have written: "triple (\<lambda>w. w = w1) (write_xray_config dr (xray_render dr d)) (\<lambda>_. C) (\<lambda>e w. xray_recorded w d \<and> \<not> is_refusal e)"
    unfolding write_xray_config_def
    by (rule triple_pre [OF triple_write [where P = "\<lambda>w. xw_state_file w = xw_state_file w1 \<and>
        xw_hysteria_file w = xw_hysteria_file w1 \<and> hys (xw_host w) = hys (xw_host w1)", OF xray_lawD(12) [OF law]]])
       (auto simp: C_def rec' stable_def)
  have "triple C (bind_io (xray_reload dr) (\<lambda>_. apply_hysteria dr d))
      (\<lambda>_ w. xray_recorded w d \<and> xw_config_file w = Some (xray_render dr d) \<and> live_ok dr live d w \<and>
         (not_stale dr hys d w1 \<longrightarrow> hysteria_ok dr hys d w)) (\<lambda>_ w. xray_recorded w d)"
  proof (rule triple_bind)
    show "triple C (xray_reload dr) (\<lambda>_ w. C w \<and> live_ok dr live d w) (\<lambda>_ w. xray_recorded w d)"
    proof (rule tripleI)
      show "C w' \<and> live_ok dr live d w'" if "C w" "xray_reload dr w = (Inr a, w')" for w a w'
        using tripleD(1) [OF reload_triple [OF law ok] kept_refl that(2)] that(1) by (auto simp: C_def kept_def)
      show "xray_recorded w' d" if "C w" "xray_reload dr w = (Inl e, w')" for w e w'
        using tripleD(2) [OF reload_triple [OF law ok] kept_refl that(2)] that(1) by (auto simp: C_def kept_def intro!: rec')
    qed
    show "triple (\<lambda>w. C w \<and> live_ok dr live d w) (apply_hysteria dr d)
        (\<lambda>_ w. xray_recorded w d \<and> xw_config_file w = Some (xray_render dr d) \<and> live_ok dr live d w \<and>
         (not_stale dr hys d w1 \<longrightarrow> hysteria_ok dr hys d w)) (\<lambda>_ w. xray_recorded w d)"
    proof (rule tripleI, goal_cases)
      case (1 w a w')
      have "xray_side live w w' \<and> (not_stale dr hys d w \<longrightarrow> hysteria_ok dr hys d w')"
        using tripleD(1) [OF apply_hysteria_triple [OF law ok] refl 1(2)] by blast
      moreover have "not_stale dr hys d w1 = not_stale dr hys d w"
        using 1(1) by (simp add: C_def not_stale_def served_hysteria_config_def hysteria_ok_def)
      ultimately show ?case using 1(1) by (auto simp: C_def xray_side_def live_ok_def rec')
    next
      case (2 w e w')
      have "xray_side live w w'" using tripleD(2) [OF apply_hysteria_triple [OF law ok] refl 2(2)] by blast
      then show ?case using 2(1) by (simp add: C_def xray_side_def rec')
    qed
  qed
  note reloaded = triple_conj [OF this triple_pre [OF triple_bind [OF reload_errors apply_hysteria_errors] TrueI]]
  have "triple C (try_io (bind_io (xray_reload dr) (\<lambda>_. apply_hysteria dr d)) (on_apply_error (\<lambda>m. raise_io (RollbackFailedError m))))
      (\<lambda>_ w. (xray_recorded w d \<and> xw_config_file w = Some (xray_render dr d) \<and> live_ok dr live d w \<and>
         (not_stale dr hys d w1 \<longrightarrow> hysteria_ok dr hys d w)) \<and> True) (\<lambda>e w. xray_recorded w d \<and> \<not> is_refusal e)"
    by (rule triple_try [OF reloaded]) (auto elim!: on_apply_error.elims is_refusal.elims intro!: triple_raise)
  note * = triple_bind [OF written this [unfolded simp_thms]]
  show ?thesis
    using tripleD [OF *, OF refl] read_xray_recorded [OF rec] unfolding xray_rollback_def
    by (intro tripleI) (simp_all add: bind_io_Inr)
qed

lemma api_errors: "triple (\<lambda>_. True) (xray_api dr command arguments stdin) (\<lambda>_ _. True) no_refusal"
  unfolding xray_api_def
  by (rule triple_bind [OF run_errors], rule triple_bind [where R = "\<lambda>_ _. True"], rule triple_unless, simp, simp, rule triple_return, simp)

lemma live_emails_errors: "triple (\<lambda>_. True) (live_emails dr tag) (\<lambda>_ _. True) no_refusal"
proof -
  have "emails_in out \<noteq> Inl (ValidationError m)" for out m
    by (simp add: emails_in_def split: sum.splits option.splits)
  then show ?thesis unfolding live_emails_def by (intro triple_bind [OF api_errors] triple_result) auto
qed

lemma remove_gone_errors: "triple (\<lambda>_. True) (remove_gone dr wanted removed additions) (\<lambda>_ _. True) no_refusal"
proof (induction wanted arbitrary: removed additions)
  case Nil
  show ?case by (simp add: triple_return)
next
  case (Cons x wanted)
  obtain tag inbound where x: "x = (tag, inbound)" by (cases x)
  have rmu: "triple (\<lambda>_. True) (if gone = [] then return_io () else
      bind_io (xray_api dr ''rmu'' (tag_argument tag # sort gone) None) (\<lambda>_. return_io ())) (\<lambda>_ _. True) no_refusal" for gone
    by (rule triple_if, rule triple_return, simp, rule triple_bind [OF api_errors], rule triple_return, simp)
  show ?case unfolding x remove_gone.simps Let_def by (rule triple_bind [OF live_emails_errors triple_bind [OF rmu Cons]])
qed

lemma confirm_errors: "triple (\<lambda>_. True) (for_each_io (confirm_live dr) wanted) (\<lambda>_ _. True) no_refusal"
proof (induction wanted)
  case Nil
  show ?case by (simp add: triple_return)
next
  case (Cons x wanted)
  obtain tag inbound where x: "x = (tag, inbound)" by (cases x)
  have "triple (\<lambda>_. True) (confirm_live dr x) (\<lambda>_ _. True) no_refusal"
    unfolding x confirm_live_def prod.case
    by (rule triple_bind [OF live_emails_errors], rule triple_bind [where R = "\<lambda>_ _. True"], rule triple_unless, simp, simp,
        rule triple_modify, simp)
  from triple_bind [OF this Cons] show ?case by simp
qed

lemma apply_xray_errors: "triple (\<lambda>_. True) (apply_xray dr served rendered) (\<lambda>_ _. True) no_refusal"
proof -
  have reload: "triple (\<lambda>_. True) (reload_instead dr) (\<lambda>_ _. True) no_refusal"
    unfolding reload_instead_def by (rule triple_bind [OF reload_errors]) (simp add: triple_return)
  have adu: "triple (\<lambda>_. True) (if additions = [] then return_io () else
      bind_io (xray_api dr ''adu'' [''stdin:''] (Some (dumps (JObj [(''inbounds'', JList additions)])))) (\<lambda>_. return_io ())) (\<lambda>_ _. True) no_refusal" for additions
    by (rule triple_if, rule triple_return, simp, rule triple_bind [OF api_errors], rule triple_return, simp)
  have clients: "triple (\<lambda>_. True) (apply_clients_live dr rendered) (\<lambda>_ _. True) no_refusal"
    unfolding apply_clients_live_def
    by (rule triple_bind [where R = "\<lambda>_ _. True"], rule triple_the, simp, simp, rule triple_bind [OF remove_gone_errors],
        case_tac aa, simp only: prod.case, rule triple_bind [OF adu], rule triple_bind [OF confirm_errors], rule triple_return, simp)
  have live: "triple (\<lambda>_. True) (try_io (apply_clients_live dr rendered) (on_apply_error (\<lambda>_. reload_instead dr))) (\<lambda>_ _. True) no_refusal"
    by (rule triple_try [OF clients]) (auto elim!: on_apply_error.elims intro!: triple_pre [OF reload])
  have "shape_without_clients t = Inl e \<Longrightarrow> e = TypeError" for t e
    by (auto simp: shape_without_clients_def emptied_inbounds_def split: sum.splits json.splits option.splits)
  then have shape: "triple (\<lambda>_. True) (result_io (shape_without_clients t)) (\<lambda>_ _. True) no_refusal" for t
    by (intro triple_result) auto
  then have first: "triple (\<lambda>_. True) (case served of None \<Rightarrow> return_io None | Some t \<Rightarrow> result_io (shape_without_clients t)) (\<lambda>_ _. True) no_refusal"
    by (cases served) (simp_all add: triple_return)
  show ?thesis
    unfolding apply_xray_def
    by (rule triple_if, rule reload, rule triple_bind [OF first], rule triple_if, rule reload, rule triple_bind [OF shape],
        rule triple_if, rule reload, rule live)
qed

text \<open>The recorded, the rendered and the served, of one world and of another.\<close>

definition same_world ::
  "('k \<Rightarrow> string \<Rightarrow> string set) \<Rightarrow> ('k \<Rightarrow> string option) \<Rightarrow> 'k xray_world \<Rightarrow> 'k xray_world \<Rightarrow> bool" where
  "same_world live hys w0 w \<longleftrightarrow> xw_state_file w = xw_state_file w0 \<and> xw_config_file w = xw_config_file w0 \<and>
     xw_hysteria_file w = xw_hysteria_file w0 \<and> live (xw_host w) = live (xw_host w0) \<and> hys (xw_host w) = hys (xw_host w0)"

lemma same_in_step: "same_world live hys w0 w \<Longrightarrow> xray_in_step dr live hys w0 d \<Longrightarrow> xray_in_step dr live hys w d"
  by (simp add: same_world_def xray_in_step_def xray_recorded_def live_ok_def hysteria_ok_def)

lemma recorded_same: "xw_state_file w = xw_state_file w0 \<Longrightarrow> xray_recorded w0 d \<Longrightarrow> xray_recorded w d"
  by (simp add: xray_recorded_def)

lemma validate_triple:
  assumes law: "xray_law (xd_host dr) live hys" and P: "stable live hys P" and scratch: "\<And>w s. P w \<Longrightarrow> P (w\<lparr>xw_scratch := s\<rparr>)"
  shows "triple P (xray_validate dr content) (\<lambda>_. P) (\<lambda>_. P)"
  unfolding xray_validate_def write_validate_scratch_def
proof (rule triple_bind)
  show "triple P (write_atomically dr (\<lambda>c. xw_scratch_update (\<lambda>_. c)) content) (\<lambda>_. P) (\<lambda>_. P)"
    by (rule triple_write [OF xray_lawD(12) [OF law] P]) (simp_all add: scratch)
  have "triple P (\<lambda>w. run_xray_tool (xh_validate (xd_host dr) (xw_scratch w)) w) (\<lambda>_. P) (\<lambda>_. P)"
    by (rule triple_here, rule triple_pre [OF quiet_run [OF xray_lawD(8) [OF law] P]]) simp
  then show "triple P (bind_io (\<lambda>w. run_xray_tool (xh_validate (xd_host dr) (xw_scratch w)) w)
     (\<lambda>result. unless_io (returncode result = 0) (ValidationError (strip (stderr result))))) (\<lambda>_. P) (\<lambda>_. P)"
    by (rule triple_bind) (rule triple_unless)
qed

lemma not_staleI: "driver_ok dr \<Longrightarrow> hysteria_ok dr hys d w \<Longrightarrow> not_stale dr hys d' w"
  using hysteria_file_newlines [of dr] by (fastforce simp: not_stale_def hysteria_ok_def served_hysteria_config_def)

lemma half_done_not_stale:
  assumes "driver_ok dr" "hysteria_ok dr hys d w0" "half_done dr hys d' w0 w"
  shows "not_stale dr hys d w"
  using assms(3) unfolding half_done_def
proof
  assume "xw_hysteria_file w = xw_hysteria_file w0 \<and> hys (xw_host w) = hys (xw_host w0)"
  then have "hysteria_ok dr hys d w" using assms(2) by (simp add: hysteria_ok_def)
  then show ?thesis by (rule not_staleI [OF assms(1)])
next
  assume "\<exists>hp. xd_hysteria_profile dr = Some hp \<and> xw_hysteria_file w = Some (render_hysteria dr hp d') \<and>
        served_hysteria_config w0 \<noteq> Some (render_hysteria dr hp d')"
  then show ?thesis
    using assms(1,2) hysteria_file_newlines [OF assms(1)] by (auto simp: not_stale_def hysteria_ok_def served_hysteria_config_def)
qed

lemma apply_or_roll_back_triple:
  fixes dr :: "'k xray_driver"
  assumes law: "xray_law (xd_host dr) live hys" and ok: "driver_ok dr" and rec: "xray_recorded w1 d"
    and config: "xw_config_file w1 = Some (xray_render dr d')"
  shows "triple (\<lambda>w. w = w1) (apply_or_roll_back dr served d')
    (\<lambda>_ w. xray_side (\<lambda>_ _. {}) w1 w \<and> live_ok dr live d' w \<and> hysteria_served dr d' w \<and>
       (hysteria_ok dr hys d w1 \<longrightarrow> hysteria_ok dr hys d' w))
    (\<lambda>e w. xray_recorded w d \<and> (is_refusal e \<longrightarrow> hysteria_ok dr hys d w1 \<longrightarrow> xray_in_step dr live hys w d))"
proof -
  let ?Q = "\<lambda>_ w. xray_side (\<lambda>_ _. {}) w1 w \<and> live_ok dr live d' w \<and> hysteria_served dr d' w \<and>
     (hysteria_ok dr hys d w1 \<longrightarrow> hysteria_ok dr hys d' w)"
  let ?E = "\<lambda>_ w. xw_state_file w = xw_state_file w1 \<and> half_done dr hys d' w1 w"
  have "triple (\<lambda>w. w = w1) (bind_io (apply_xray dr served (xray_render dr d')) (\<lambda>removed.
      bind_io (apply_hysteria dr d') (\<lambda>_. return_io removed))) ?Q ?E"
  proof (rule triple_bind)
    show "triple (\<lambda>w. w = w1) (apply_xray dr served (xray_render dr d')) (\<lambda>_ w. kept hys w1 w \<and> live_ok dr live d' w) ?E"
      by (rule triple_weaken [OF apply_xray_triple [OF law ok config]]) (auto simp: kept_def half_done_def)
    have "triple (\<lambda>w. kept hys w1 w \<and> live_ok dr live d' w) (apply_hysteria dr d') ?Q ?E"
    proof (rule tripleI, goal_cases)
      case (1 w a w')
      have "not_stale dr hys d' w" if "hysteria_ok dr hys d w1"
        using not_staleI [OF ok, of hys d w d'] that 1(1) by (simp add: kept_def hysteria_ok_def)
      then show ?case
        using tripleD(1) [OF apply_hysteria_triple [OF law ok] refl 1(2)] 1(1) by (auto simp: kept_def xray_side_def live_ok_def)
    next
      case (2 w e w')
      then show ?case
        using tripleD(2) [OF apply_hysteria_triple [OF law ok] refl 2(2)]
        by (auto simp: kept_def xray_side_def half_done_def served_hysteria_config_def)
    qed
    then show "triple (\<lambda>w. kept hys w1 w \<and> live_ok dr live d' w) (bind_io (apply_hysteria dr d') (\<lambda>_. return_io removed)) ?Q ?E" for removed
      by (rule triple_bind) (rule triple_return)
  qed
  moreover have "triple (\<lambda>w. w = w1) (bind_io (apply_xray dr served (xray_render dr d')) (\<lambda>removed.
      bind_io (apply_hysteria dr d') (\<lambda>_. return_io removed))) (\<lambda>_ _. True) no_refusal"
    by (rule triple_pre [OF triple_bind [OF apply_xray_errors triple_bind [OF apply_hysteria_errors]]]) (simp_all add: triple_return)
  ultimately have both: "triple (\<lambda>w. w = w1) (bind_io (apply_xray dr served (xray_render dr d')) (\<lambda>removed.
      bind_io (apply_hysteria dr d') (\<lambda>_. return_io removed))) (\<lambda>a w. ?Q a w \<and> True) (\<lambda>e w. ?E e w \<and> no_refusal e w)"
    by (rule triple_conj)
  show ?thesis
    unfolding apply_or_roll_back_def
  proof (rule triple_weaken [OF triple_try [OF both]])
    fix e k
    assume h: "on_apply_error (\<lambda>m. bind_io (xray_rollback dr) (\<lambda>_. raise_io (ApplyError m))) e = Some k"
    show "triple (\<lambda>w. ?E e w \<and> no_refusal e w) k (\<lambda>a w. ?Q a w \<and> True)
      (\<lambda>e w. xray_recorded w d \<and> (is_refusal e \<longrightarrow> hysteria_ok dr hys d w1 \<longrightarrow> xray_in_step dr live hys w d))"
    proof (rule tripleI, goal_cases)
      case (1 w a w')
      then show ?case using h by (cases e) (auto simp: bind_io_def raise_io_def split: prod.splits sum.splits)
    next
      case (2 w e' w')
      obtain m where k: "k = bind_io (xray_rollback dr) (\<lambda>_. raise_io (ApplyError m))" using h by (cases e) auto
      have w: "xray_recorded w d" using 2(1) rec recorded_same by blast
      have stale: "not_stale dr hys d w" if "hysteria_ok dr hys d w1" using half_done_not_stale [OF ok that] 2(1) by blast
      note rolled = tripleD [OF rollback_triple [OF law ok w] refl]
      from 2(2) [unfolded k] show ?case
      proof (cases rule: bind_io_cases)
        case (raised e'')
        then show ?thesis using rolled(2) by simp
      next
        case (went_on a w2)
        then show ?thesis using rolled(1) [OF went_on(1)] stale by (auto simp: raise_io_def xray_in_step_def)
      qed
    qed
  qed (use rec in \<open>auto simp: recorded_same elim!: is_refusal.elims on_apply_error.elims\<close>)
qed

lemma finish_triple:
  assumes law: "xray_law (xd_host dr) live hys" and new: "uuids_ok d'"
  shows "triple (\<lambda>w. xw_candidate w = Some (render_state_json d') \<and> xw_config_file w = Some (xray_render dr d') \<and>
       live_ok dr live d' w \<and> hysteria_served dr d' w \<and> (A \<longrightarrow> hysteria_ok dr hys d' w))
     (bind_io promote_xray_candidate (\<lambda>_. bind_io (watch_for_lingering dr removed) (\<lambda>_. kick_removed_hysteria_clients dr previous d')))
     (\<lambda>_ w. xray_recorded w d' \<and> xw_config_file w = Some (xray_render dr d') \<and>
       live_ok dr live d' w \<and> hysteria_served dr d' w \<and> (A \<longrightarrow> hysteria_ok dr hys d' w)) (\<lambda>_ _. False)"
    (is "triple _ _ (\<lambda>_. ?P) _")
proof (rule triple_bind)
  have stable: "stable live hys ?P"
    by (simp add: stable_def xray_recorded_def live_ok_def hysteria_served_def served_hysteria_config_def hysteria_ok_def)
  show "triple (\<lambda>w. xw_candidate w = Some (render_state_json d') \<and> xw_config_file w = Some (xray_render dr d') \<and>
       live_ok dr live d' w \<and> hysteria_served dr d' w \<and> (A \<longrightarrow> hysteria_ok dr hys d' w)) promote_xray_candidate (\<lambda>_. ?P) (\<lambda>_ _. False)"
    using new by (simp add: triple_def promote_xray_candidate_def xray_recorded_def live_ok_def hysteria_served_def
        served_hysteria_config_def hysteria_ok_def)
  have watch: "triple ?P (watch_for_lingering dr removed) (\<lambda>_. ?P) (\<lambda>_ _. False)"
    unfolding watch_for_lingering_def
    by (rule triple_if, rule triple_return, simp, rule triple_modify)
       (simp add: xray_recorded_def live_ok_def hysteria_served_def served_hysteria_config_def hysteria_ok_def)
  have kick: "triple ?P (asking_xray (xh_kick (xd_host dr) u s b)) (\<lambda>_. ?P) (\<lambda>_ _. False)" for u s b
    by (rule quiet_asking [OF xray_lawD(10) [OF law] stable])
  have "triple ?P (kick_removed_hysteria_clients dr previous d') (\<lambda>_. ?P) (\<lambda>_ _. False)"
  proof (cases "xd_hysteria_profile dr")
    case None
    then show ?thesis by (simp add: kick_removed_hysteria_clients_def triple_return)
  next
    case (Some hp)
    show ?thesis
      unfolding kick_removed_hysteria_clients_def Some Let_def option.case
      by (rule triple_if, rule triple_return, assumption, rule triple_if, rule triple_return, assumption,
          rule triple_bind [OF kick], rule triple_return, assumption)
  qed
  then show "triple ?P (bind_io (watch_for_lingering dr removed) (\<lambda>_. kick_removed_hysteria_clients dr previous d')) (\<lambda>_. ?P) (\<lambda>_ _. False)"
    by (rule triple_bind [OF watch])
qed

text \<open>
  A change of the client set: what holds when it returns, from any world with a readable record, and
  what holds when it raises.
\<close>

lemma xray_apply_delta_triple:
  fixes dr :: "'k xray_driver"
  assumes law: "xray_law (xd_host dr) live hys" and ok: "driver_ok dr" and rec: "xray_recorded w0 d" and new: "uuids_ok d'"
  shows "triple (\<lambda>w. w = w0) (xray_apply_delta dr d')
    (\<lambda>_ w. xray_recorded w d' \<and> xw_config_file w = Some (xray_render dr d') \<and> live_ok dr live d' w \<and>
       hysteria_served dr d' w \<and> (hysteria_ok dr hys d w0 \<longrightarrow> hysteria_ok dr hys d' w))
    (\<lambda>e w. xray_recorded w d \<and> (is_refusal e \<longrightarrow> xray_in_step dr live hys w0 d \<longrightarrow> xray_in_step dr live hys w d))"
    (is "triple _ _ ?Q ?E")
proof -
  let ?C = "\<lambda>w. same_world live hys w0 w \<and> xw_candidate w = Some (render_state_json d')"
  let ?D = "\<lambda>w. xw_state_file w = xw_state_file w0 \<and> xw_candidate w = Some (render_state_json d') \<and>
    xw_config_file w = Some (xray_render dr d') \<and> xw_hysteria_file w = xw_hysteria_file w0 \<and> hys (xw_host w) = hys (xw_host w0)"
  have err: "?E e w" if "same_world live hys w0 w" for e w
    using recorded_same [of w w0 d] rec same_in_step [OF that, of dr d] that by (simp add: same_world_def)
  have stable: "stable live hys (same_world live hys w0)" "stable live hys ?C" by (simp_all add: stable_def same_world_def)
  have cand: "triple (\<lambda>w. w = w0) (write_xray_candidate dr (render_state_json d')) (\<lambda>_. ?C) ?E"
    unfolding write_xray_candidate_def
    by (rule triple_pre [OF triple_write [OF xray_lawD(12) [OF law] stable(1)]]) (use err in \<open>auto simp: same_world_def\<close>)
  have valid: "triple ?C (xray_validate dr (xray_render dr d')) (\<lambda>_. ?C) ?E"
    by (rule triple_weaken [OF validate_triple [OF law stable(2)]]) (use err in \<open>auto simp: same_world_def\<close>)
  have config: "triple ?C (write_xray_config dr (xray_render dr d')) (\<lambda>_. ?D) ?E"
    unfolding write_xray_config_def
    by (rule triple_write [OF xray_lawD(12) [OF law] stable(2)]) (use err in \<open>auto simp: same_world_def\<close>)
  have both: "triple ?D (apply_or_roll_back dr served d')
      (\<lambda>_ w. xw_candidate w = Some (render_state_json d') \<and> xw_config_file w = Some (xray_render dr d') \<and>
        live_ok dr live d' w \<and> hysteria_served dr d' w \<and> (hysteria_ok dr hys d w0 \<longrightarrow> hysteria_ok dr hys d' w)) ?E" for served
  proof (rule tripleI, goal_cases)
    case (1 w a w')
    have "hysteria_ok dr hys d w0 = hysteria_ok dr hys d w" using 1(1) by (simp add: hysteria_ok_def)
    then show ?case
      using tripleD(1) [OF apply_or_roll_back_triple [OF law ok recorded_same [OF _ rec]] refl 1(2)] 1(1) by (auto simp: xray_side_def)
  next
    case (2 w e w')
    have "xray_in_step dr live hys w0 d \<Longrightarrow> hysteria_ok dr hys d w" using 2(1) by (auto simp: xray_in_step_def hysteria_ok_def)
    then show ?case
      using tripleD(2) [OF apply_or_roll_back_triple [OF law ok recorded_same [OF _ rec]] refl 2(2)] 2(1) by auto
  qed
  have end_: "triple (\<lambda>w. xw_candidate w = Some (render_state_json d') \<and> xw_config_file w = Some (xray_render dr d') \<and>
        live_ok dr live d' w \<and> hysteria_served dr d' w \<and> (hysteria_ok dr hys d w0 \<longrightarrow> hysteria_ok dr hys d' w))
      (bind_io promote_xray_candidate (\<lambda>_. bind_io (watch_for_lingering dr removed) (\<lambda>_. kick_removed_hysteria_clients dr d d')))
      ?Q ?E" for removed
    by (rule triple_weaken [OF finish_triple [OF law new]]) auto
  have "triple (\<lambda>w. w = w0) (bind_io (write_xray_candidate dr (render_state_json d')) (\<lambda>_.
     bind_io (xray_validate dr (xray_render dr d')) (\<lambda>_.
     bind_io (reads_io served_xray_config) (\<lambda>served.
     bind_io (write_xray_config dr (xray_render dr d')) (\<lambda>_.
     bind_io (apply_or_roll_back dr served d') (\<lambda>removed.
     bind_io promote_xray_candidate (\<lambda>_.
     bind_io (watch_for_lingering dr removed) (\<lambda>_.
     kick_removed_hysteria_clients dr d d')))))))) ?Q ?E"
    by (rule triple_bind [OF cand], rule triple_bind [OF valid], rule triple_bind [where R = "\<lambda>_. ?C"], rule triple_reads, assumption,
        rule triple_bind [OF config], rule triple_bind [OF both], rule end_)
  then show ?thesis
    using read_xray_recorded [OF rec] by (simp add: xray_apply_delta_def triple_def bind_io_Inr)
qed

text \<open>From a world in step: in step with the new set, or in step with the old one, or recorded as before.\<close>

lemma xray_change_outcome:
  assumes law: "xray_law (xd_host dr) live hys" and ok: "driver_ok dr" and step: "xray_in_step dr live hys w d" and new: "uuids_ok d'"
    and run: "xray_apply_delta dr d' w = (r, w')"
  shows "(r = Inr () \<longrightarrow> xray_in_step dr live hys w' d') \<and>
    (\<forall>e. r = Inl e \<longrightarrow> xray_recorded w' d \<and> (is_refusal e \<longrightarrow> xray_in_step dr live hys w' d))"
proof -
  have rec: "xray_recorded w d" and "hysteria_ok dr hys d w" using step by (simp_all add: xray_in_step_def)
  then show ?thesis
    using tripleD [OF xray_apply_delta_triple [OF law ok rec new] refl] run step
    by (cases r) (auto simp: xray_in_step_def)
qed

lemma try_change_outcome:
  assumes law: "xray_law (xd_host dr) live hys" and ok: "driver_ok dr" and step: "xray_in_step dr live hys w d" and new: "uuids_ok d'"
    and run: "try_io (bind_io (xray_apply_delta dr d') (\<lambda>_. reads_io f)) (on_refusal (reads_io g)) w = (r, w')"
  shows "(\<exists>a. r = Inr a \<and> a = f w' \<and> xray_in_step dr live hys w' d') \<or> (\<exists>a. r = Inr a \<and> a = g w' \<and> xray_in_step dr live hys w' d) \<or>
    (\<exists>e. r = Inl e \<and> \<not> is_refusal e \<and> xray_recorded w' d)"
proof -
  obtain r1 w1 where a: "xray_apply_delta dr d' w = (r1, w1)" by fastforce
  note out = xray_change_outcome [OF law ok step new a]
  show ?thesis
  proof (cases r1)
    case (Inr u)
    then show ?thesis using out run a by (auto simp: try_io_def bind_io_def reads_io_def)
  next
    case (Inl e)
    then show ?thesis using out run a by (cases e) (auto simp: try_io_def bind_io_def reads_io_def)
  qed
qed

lemma return_reads: "return_io a = reads_io (\<lambda>_. a)"
  by (simp add: return_io_def [abs_def] reads_io_def [abs_def])

end
