(* ===== verification/Xray_Requests.thy ===== *)
theory Xray_Requests
  imports Xray_Safety
begin

text \<open>
  What the requests to the Xray driver leave and answer: provisioning, revoking and pruning from a
  world in step, pruning from any world with a readable record, reconciling, and admitting a
  Hysteria connection.
\<close>

subsection \<open>Changes\<close>

datatype xray_request =
    ProvisionClient xray_provision_request
  | RevokeClient xray_revoke_request
  | PruneClients xray_prune_request

fun xray_target :: "xray_request \<Rightarrow> desired_xray_state \<Rightarrow> desired_xray_state" where
  "xray_target (ProvisionClient q) d = with_client d (requested_client q)"
| "xray_target (RevokeClient q) d = without_client d (xvq_client_uuid q)"
| "xray_target (PruneClients q) d =
     \<lparr>dx_clients = filter (\<lambda>c. xc_client_uuid c \<in> set (map exc_client_uuid (xnq_expected q))) (dx_clients d)\<rparr>"

text \<open>Serving a request; the value says whether the answer reports the change as made.\<close>

fun serve_xray :: "'k xray_driver \<Rightarrow> xray_request \<Rightarrow> ('k xray_world, bool) io" where
  "serve_xray dr (ProvisionClient q) = bind_io (provision_client dr q) (\<lambda>r. return_io (xpr_state r = ''active''))"
| "serve_xray dr (RevokeClient q) = bind_io (revoke_client dr q) (\<lambda>r. return_io (xvr_state r = ''revoked''))"
| "serve_xray dr (PruneClients q) = bind_io (prune_clients dr q) (\<lambda>r. return_io (xnr_state r = ''pruned''))"

fun xray_request_ok :: "xray_request \<Rightarrow> bool" where
  "xray_request_ok (ProvisionClient q) \<longleftrightarrow> xpq_client_uuid q < 2 ^ 128"
| "xray_request_ok _ \<longleftrightarrow> True"

lemma target_ok: "uuids_ok d \<Longrightarrow> xray_request_ok req \<Longrightarrow> uuids_ok (xray_target req d)"
  by (cases req) (auto simp: uuids_ok_change requested_client_def, auto simp: uuids_ok_def distinct_map_filter)

lemma bind_unless: "bind_io (unless_io b e) k w = (if b then k () w else (Inl e, w))"
  by (simp add: bind_io_def unless_io_simp)

lemma bind_lkg: "xray_recorded w d \<Longrightarrow> bind_io xray_last_known_good k w = k d w"
  by (simp add: bind_io_def read_xray_recorded)

lemma bind_result: "bind_io (result_io r) k w = (case r of Inl e \<Rightarrow> (Inl e, w) | Inr a \<Rightarrow> k a w)"
  by (simp add: bind_io_def result_io_def)

text \<open>Reading the served files changes nothing.\<close>

definition reads_only :: "('w, 'a) io \<Rightarrow> bool" where
  "reads_only m \<longleftrightarrow> (\<forall>w. snd (m w) = w)"

lemma reads_onlyD: "reads_only m \<Longrightarrow> m w = (r, w') \<Longrightarrow> w' = w"
  by (metis reads_only_def snd_conv)

lemma reads_only_bind: "reads_only m \<Longrightarrow> (\<And>a. reads_only (k a)) \<Longrightarrow> reads_only (bind_io m k)"
proof -
  assume m: "reads_only m" and k: "\<And>a. reads_only (k a)"
  have "snd (bind_io m k w) = w" for w
  proof (cases "m w")
    case (Pair r w1)
    then show ?thesis using reads_onlyD [OF m Pair] k by (cases r) (simp_all add: bind_io_def reads_only_def)
  qed
  then show ?thesis by (simp add: reads_only_def)
qed

lemma reads_only_try: "reads_only m \<Longrightarrow> (\<And>e k. h e = Some k \<Longrightarrow> reads_only k) \<Longrightarrow> reads_only (try_io m h)"
proof -
  assume m: "reads_only m" and h: "\<And>e k. h e = Some k \<Longrightarrow> reads_only k"
  have "snd (try_io m h w) = w" for w
  proof (cases "m w")
    case (Pair r w1)
    show ?thesis
    proof (cases r)
      case (Inl e)
      then show ?thesis using Pair reads_onlyD [OF m Pair] h [of e] by (cases "h e") (simp_all add: try_io_def reads_only_def)
    next
      case (Inr a)
      then show ?thesis using Pair reads_onlyD [OF m Pair] by (simp add: try_io_def)
    qed
  qed
  then show ?thesis by (simp add: reads_only_def)
qed

lemma reads_only_basic [simp]:
  "reads_only (return_io a)" "reads_only (reads_io f)" "reads_only (the_io e x)" "reads_only (result_io r)" "reads_only xray_last_known_good"
  by (simp_all add: reads_only_def io_simps result_io_def xray_last_known_good_def split: option.splits)

lemma reads_only_live: "reads_only (live_client_uuids_io p)" "reads_only (live_hysteria_uuids_io hp)"
  by (auto simp: live_client_uuids_io_def live_hysteria_uuids_io_def intro!: reads_only_bind)

lemma reads_only_profiles: "reads_only (live_of_profiles ps)"
  by (induction ps) (auto intro!: reads_only_bind reads_only_live)

lemma reads_only_unaccounted: "reads_only (unaccounted_live_uuids dr keep recorded)"
  by (auto simp: unaccounted_live_uuids_def Let_def intro!: reads_only_try reads_only_bind reads_only_profiles reads_only_live
      elim!: on_unreadable.elims split: option.splits)

lemma provision_outcome:
  assumes law: "xray_law (xd_host dr) live hys" and ok: "driver_ok dr" and step: "xray_in_step dr live hys w d"
    and q: "xpq_client_uuid q < 2 ^ 128" and run: "provision_client dr q w = (r, w')"
  shows "(\<exists>a. r = Inr a \<and> xpr_state a = ''active'' \<and> xpr_applied_generation a = xpq_desired_generation q \<and>
        xray_in_step dr live hys w' (with_client d (requested_client q))) \<or>
    (\<exists>a. r = Inr a \<and> xpr_state a = ''failed'' \<and> xpr_applied_generation a = xray_last_applied_generation d (xpq_client_uuid q) \<and>
        xray_in_step dr live hys w' d) \<or>
    (\<exists>e. r = Inl e \<and> xray_recorded w' d)"
proof (cases "serves dr (xpq_profile_code q)")
  case False
  then show ?thesis using run step by (auto simp: provision_client_def bind_unless xray_in_step_def)
next
  case True
  have rec: "xray_recorded w d" using step by (simp add: xray_in_step_def)
  have new: "uuids_ok (with_client d (requested_client q))"
    using target_ok [of d "ProvisionClient q"] rec q by (simp add: xray_recorded_def)
  show ?thesis
  proof (cases "response_common dr (xpq_profile_code q)")
    case (Inl e)
    then show ?thesis using run True rec by (auto simp: provision_client_def bind_unless bind_lkg bind_result)
  next
    case (Inr endpoint)
    from run have "try_io (bind_io (xray_apply_delta dr (with_client d (requested_client q))) (\<lambda>_.
         reads_io (\<lambda>_. \<lparr>xpr_state = ''active'', xpr_applied_generation = xpq_desired_generation q,
           xpr_endpoint = client_fields dr (xpq_profile_code q) (xpq_client_uuid q) endpoint, xpr_error_code = None\<rparr>)))
        (on_refusal (reads_io (\<lambda>_. \<lparr>xpr_state = ''failed'',
           xpr_applied_generation = xray_last_applied_generation d (xpq_client_uuid q),
           xpr_endpoint = client_fields dr (xpq_profile_code q) (xpq_client_uuid q) endpoint, xpr_error_code = Some ''apply_failed''\<rparr>))) w = (r, w')"
      using True rec Inr by (simp add: provision_client_def bind_unless bind_lkg bind_result Let_def return_reads)
    from try_change_outcome [OF law ok step new this] show ?thesis by auto
  qed
qed

lemma revoke_outcome:
  assumes law: "xray_law (xd_host dr) live hys" and ok: "driver_ok dr" and step: "xray_in_step dr live hys w d"
    and run: "revoke_client dr q w = (r, w')"
  shows "(\<exists>a. r = Inr a \<and> xvr_state a = ''revoked'' \<and> xray_in_step dr live hys w' (without_client d (xvq_client_uuid q))) \<or>
    (\<exists>a. r = Inr a \<and> xvr_state a = ''failed'' \<and> xray_in_step dr live hys w' d) \<or> (\<exists>e. r = Inl e \<and> xray_recorded w' d)"
proof (cases "serves dr (xvq_profile_code q)")
  case False
  then show ?thesis using run step by (auto simp: revoke_client_def bind_unless xray_in_step_def)
next
  case True
  have rec: "xray_recorded w d" using step by (simp add: xray_in_step_def)
  have new: "uuids_ok (without_client d (xvq_client_uuid q))"
    using target_ok [of d "RevokeClient q"] rec by (simp add: xray_recorded_def)
  from run [unfolded revoke_client_def bind_unless bind_lkg [OF rec]] have "try_io (bind_io (xray_apply_delta dr (without_client d (xvq_client_uuid q))) (\<lambda>_.
        reads_io (\<lambda>w. \<lparr>xvr_state = ''revoked'', xvr_applied_generation = xvq_desired_generation q,
          xvr_revoked_at = xh_now (xd_host dr) (xw_host w), xvr_error_code = None\<rparr>)))
       (on_refusal (reads_io (\<lambda>w. \<lparr>xvr_state = ''failed'',
          xvr_applied_generation = xray_last_applied_generation d (xvq_client_uuid q),
          xvr_revoked_at = xh_now (xd_host dr) (xw_host w), xvr_error_code = Some ''apply_failed''\<rparr>))) w = (r, w')"
    using True by simp
  from try_change_outcome [OF law ok step new this] show ?thesis by auto
qed

lemma filter_all: "length (filter P xs) = length xs \<Longrightarrow> filter P xs = xs"
  by (metis filter_True length_filter_less less_irrefl)

lemma prune_run:
  assumes rec: "xray_recorded w d" and "unaccounted_live_uuids dr (map exc_client_uuid (xnq_expected q)) (dx_clients d) w = (Inr us, w)"
    and "xray_target (PruneClients q) d = d'" and "int (length (dx_clients d)) - int (length (dx_clients d')) = removed"
  shows "prune_clients dr q w =
    (if removed = 0 \<and> us = []
     then (Inr \<lparr>xnr_state = ''pruned'', xnr_removed = 0, xnr_kept = int (length (dx_clients d')), xnr_error_code = None\<rparr>, w)
     else try_io (bind_io (xray_apply_delta dr d') (\<lambda>_.
         reads_io (\<lambda>_. \<lparr>xnr_state = ''pruned'', xnr_removed = removed + int (length us), xnr_kept = int (length (dx_clients d')),
           xnr_error_code = None\<rparr>)))
        (on_refusal (reads_io (\<lambda>_. \<lparr>xnr_state = ''failed'', xnr_removed = 0, xnr_kept = int (length (dx_clients d)),
           xnr_error_code = Some ''apply_failed''\<rparr>))) w)"
  unfolding prune_clients_def bind_lkg [OF rec] Let_def bind_io_Inr [where m = "unaccounted_live_uuids dr (map exc_client_uuid (xnq_expected q)) (dx_clients d)" and w = w, OF assms(2)] assms(3,4) [symmetric] xray_target.simps desired_xray_state.simps
  by (simp add: return_io_simp) (simp only: return_reads simp_thms)

lemma pruned_same:
  assumes "xray_target (PruneClients q) d = d'" and "int (length (dx_clients d)) - int (length (dx_clients d')) = 0"
  shows "d' = d"
proof -
  have "dx_clients d' = dx_clients d" using assms by (auto intro!: filter_all [OF sym])
  then show ?thesis by simp
qed

lemma unaccounted_cases: obtains u where "unaccounted_live_uuids dr keep recorded w = (u, w)"
  using reads_onlyD [OF reads_only_unaccounted] by (metis surj_pair)

lemma prune_outcome:
  assumes law: "xray_law (xd_host dr) live hys" and ok: "driver_ok dr" and step: "xray_in_step dr live hys w d"
    and run: "prune_clients dr q w = (r, w')"
  shows "(\<exists>a. r = Inr a \<and> xnr_state a = ''pruned'' \<and> xray_in_step dr live hys w' (xray_target (PruneClients q) d)) \<or>
    (\<exists>a. r = Inr a \<and> xnr_state a = ''failed'' \<and> xray_in_step dr live hys w' d) \<or> (\<exists>e. r = Inl e \<and> xray_recorded w' d)"
proof -
  define d' where "d' = xray_target (PruneClients q) d"
  have rec: "xray_recorded w d" using step by (simp add: xray_in_step_def)
  then have new: "uuids_ok d'" unfolding d'_def by (intro target_ok) (simp_all add: xray_recorded_def)
  obtain u where un: "unaccounted_live_uuids dr (map exc_client_uuid (xnq_expected q)) (dx_clients d) w = (u, w)"
    by (rule unaccounted_cases)
  show ?thesis
  proof (cases u)
    case (Inl e)
    then show ?thesis using run rec un by (auto simp: prune_clients_def bind_lkg Let_def bind_io_Inl)
  next
    case (Inr us)
    note go = run [unfolded prune_run [OF rec un [unfolded Inr] d'_def [symmetric] refl]]
    show ?thesis
    proof (cases "int (length (dx_clients d)) - int (length (dx_clients d')) = 0 \<and> us = []")
      case True
      then have "d' = d" using pruned_same [OF d'_def [symmetric]] by blast
      then show ?thesis using go True step unfolding d'_def [symmetric] by (auto simp del: xray_target.simps)
    next
      case False
      from try_change_outcome [OF law ok step new go [unfolded if_not_P [OF False]]] show ?thesis
        unfolding d'_def [symmetric] by auto
    qed
  qed
qed

lemma serve_xray_outcome:
  assumes law: "xray_law (xd_host dr) live hys" and ok: "driver_ok dr" and step: "xray_in_step dr live hys w d"
    and q: "xray_request_ok req" and run: "serve_xray dr req w = (r, w')"
  shows "r = Inr True \<and> xray_in_step dr live hys w' (xray_target req d) \<or> r = Inr False \<and> xray_in_step dr live hys w' d \<or>
    (\<exists>e. r = Inl e \<and> xray_recorded w' d)"
proof (cases req)
  case (ProvisionClient x)
  obtain r1 w1 where "provision_client dr x w = (r1, w1)" by fastforce
  with provision_outcome [OF law ok step _ this] show ?thesis
    using q run ProvisionClient by (auto simp: bind_io_def return_io_def)
next
  case (RevokeClient x)
  obtain r1 w1 where "revoke_client dr x w = (r1, w1)" by fastforce
  with revoke_outcome [OF law ok step this] show ?thesis using run RevokeClient by (auto simp: bind_io_def return_io_def)
next
  case (PruneClients x)
  obtain r1 w1 where "prune_clients dr x w = (r1, w1)" by fastforce
  with prune_outcome [OF law ok step this] show ?thesis using run PruneClients by (auto simp: bind_io_def return_io_def)
qed

text \<open>A sequence of requests; one that raises ends it here, with the record of the last one before it.\<close>

fun serve_all_xray :: "'k xray_driver \<Rightarrow> xray_request list \<Rightarrow> ('k xray_world, bool list) io" where
  "serve_all_xray dr [] = return_io []"
| "serve_all_xray dr (req # reqs) =
     bind_io (serve_xray dr req) (\<lambda>made. bind_io (serve_all_xray dr reqs) (\<lambda>rest. return_io (made # rest)))"

fun made_changes :: "(xray_request \<times> bool) list \<Rightarrow> desired_xray_state \<Rightarrow> desired_xray_state" where
  "made_changes [] d = d"
| "made_changes ((req, made) # rest) d = made_changes rest (if made then xray_target req d else d)"

lemma serve_all_in_step:
  assumes law: "xray_law (xd_host dr) live hys" and ok: "driver_ok dr"
  shows "xray_in_step dr live hys w d \<Longrightarrow> \<forall>req\<in>set reqs. xray_request_ok req \<Longrightarrow> serve_all_xray dr reqs w = (Inr made, w') \<Longrightarrow>
    xray_in_step dr live hys w' (made_changes (zip reqs made) d)"
proof (induction reqs arbitrary: w d made)
  case Nil
  then show ?case by (simp add: return_io_def)
next
  case (Cons req reqs)
  obtain m w1 where one: "serve_xray dr req w = (Inr m, w1)"
    using Cons.prems(3) by (auto elim!: bind_io_cases)
  then obtain rest where rest: "serve_all_xray dr reqs w1 = (Inr rest, w')" "made = m # rest"
    using Cons.prems(3) by (auto simp: bind_io_Inr return_io_def elim!: bind_io_cases)
  have "xray_in_step dr live hys w1 (if m then xray_target req d else d)"
    using serve_xray_outcome [OF law ok Cons.prems(1) _ one] Cons.prems(2) by auto
  from Cons.IH [OF this _ rest(1)] show ?case using Cons.prems(2) rest(2) by simp
qed

subsection \<open>Reading the served clients\<close>

lemma uuid_text_inj: "uuid_text a = uuid_text b \<Longrightarrow> a < 2 ^ 128 \<Longrightarrow> b < 2 ^ 128 \<Longrightarrow> a = b"
  by (metis option.inject parse_uuid_text)

lemma client_named_iff: "uuids_ok d \<Longrightarrow> client_named d u = Some c \<longleftrightarrow> c \<in> set (dx_clients d) \<and> xc_client_uuid c = u"
proof -
  assume "uuids_ok d"
  then have "inj_on xc_client_uuid (set (dx_clients d))" by (simp add: uuids_ok_def distinct_map)
  then show ?thesis
    unfolding client_named_def by (auto simp: find_Some_iff2 in_set_conv_nth inj_on_def dest: find_SomeD)
      (metis (mono_tags, lifting) find_None_iff find_SomeD inj_on_def nth_mem option.exhaust)
qed

lemma client_named_none: "client_named d u = None \<longleftrightarrow> u \<notin> xc_client_uuid ` set (dx_clients d)"
  by (auto simp: client_named_def find_None_iff)

lemma read_live_config:
  assumes "driver_ok dr" "uuids_ok d" "xw_config_file w = Some (xray_render dr d)" "p \<in> set (xd_profiles dr)"
  shows "live_client_uuids_io p w = (Inr (map (\<lambda>c. uuid_text (xc_client_uuid c)) (clients_for d (xp_code p))), w)"
proof -
  have "live_client_uuids p (xray_render dr d) = Inr (map (\<lambda>c. uuid_text (xc_client_uuid c)) (clients_for d (xp_code p)))"
    unfolding xray_render_def using assms(1,2,4) by (intro live_clients_rendered) (simp_all add: driver_ok_def uuids_ok_def)
  then show ?thesis
    using assms(3) by (simp add: live_client_uuids_io_def served_xray_config_def config_newlines io_simps result_io_def)
qed

lemma read_live_hysteria:
  assumes ok: "driver_ok dr" and hp: "xd_hysteria_profile dr = Some hp" and rec: "xray_recorded w d" and served: "hysteria_served dr d w"
  shows "\<exists>us. live_hysteria_uuids_io hp w = (Inr us, w) \<and> set us = uuid_text ` xc_client_uuid ` set (clients_for d (hp_code hp))"
proof -
  have on_disk: "served_hysteria_config w = Some (render_hysteria dr hp d)" using served hp by (simp add: hysteria_served_def)
  show ?thesis
  proof (cases "xst_live_client_updates (xd_settings dr)")
    case True
    then have c: "contains_text (NL # HTTP_AUTH_LINE @ [NL]) (render_hysteria dr hp d)"
      unfolding render_hysteria_def by (simp only: if_True http_auth_recognised)
    then have "live_hysteria_uuids_io hp w = (Inr (live_hysteria_uuids hp d (render_hysteria dr hp d)), w)"
      using on_disk by (simp add: live_hysteria_uuids_io_def io_simps bind_lkg [OF rec] the_io_def)
    then show ?thesis using c by (auto simp: live_hysteria_uuids_def)
  next
    case False
    have texts: "hysteria_texts_ok (xd_sha256 dr) hp (xst_api_host (xd_settings dr)) (xst_dns_redirect (xd_settings dr))"
      using ok hp by (simp add: driver_ok_def)
    have "live_hysteria_uuids hp d' (render_hysteria dr hp d) =
        map uuid_text (sort_key uuid_text (map xc_client_uuid (clients_for d (hp_code hp))))" for d'
      using live_hysteria_listed [OF texts, of d' "map xc_client_uuid (clients_for d (hp_code hp))"] hysteria_file_newlines [OF ok hp, of d] False by (simp add: render_hysteria_def)
    then show ?thesis
      using on_disk by (simp add: live_hysteria_uuids_io_def io_simps bind_lkg [OF rec] the_io_def)
  qed
qed

subsection \<open>Reconciling\<close>

definition true_answer :: "desired_xray_state \<Rightarrow> xray_reconcile_request \<Rightarrow> xray_reconcile_response" where
  "true_answer d q =
     (case client_named d (xrq_client_uuid q) of
        None \<Rightarrow> xray_reconcile_answer ''drift_detected'' None None
      | Some c \<Rightarrow>
          xray_reconcile_answer (if xc_profile_code c = xrq_profile_code q then ''in_sync'' else ''ambiguous'') (Some (xc_generation c)) None)"

lemma compare_true:
  assumes ok: "uuids_ok d" and "xrq_client_uuid q < 2 ^ 128"
    and live: "set live = uuid_text ` xc_client_uuid ` set (clients_for d (xrq_profile_code q))"
  shows "xray_compare_views q (client_named d (xrq_client_uuid q)) (uuid_text (xrq_client_uuid q) \<in> set live) = true_answer d q"
proof -
  have "uuid_text (xrq_client_uuid q) \<in> set live \<longleftrightarrow>
      (\<exists>c. client_named d (xrq_client_uuid q) = Some c \<and> xc_profile_code c = xrq_profile_code q)"
    (is "?l \<longleftrightarrow> ?r")
  proof
    assume ?l
    then obtain c where c: "c \<in> set (dx_clients d)" "xc_profile_code c = xrq_profile_code q" "uuid_text (xrq_client_uuid q) = uuid_text (xc_client_uuid c)"
      unfolding live clients_for_def by auto
    then have "xrq_client_uuid q = xc_client_uuid c" using uuid_text_inj [OF _ assms(2)] ok by (simp add: uuids_ok_def)
    then show ?r using c client_named_iff [OF ok] by auto
  next
    assume ?r
    then obtain c where "c \<in> set (clients_for d (xrq_profile_code q))" "xc_client_uuid c = xrq_client_uuid q"
      unfolding clients_for_def client_named_iff [OF ok] by auto
    then show ?l unfolding live by (metis imageI)
  qed
  then show ?thesis
    by (cases "client_named d (xrq_client_uuid q)") (auto simp: true_answer_def xray_compare_views_def)
qed

lemma reconcile_in_step:
  assumes ok: "driver_ok dr" and step: "xray_in_step dr live hys w d" and served: "serves dr (xrq_profile_code q)"
    and u: "xrq_client_uuid q < 2 ^ 128"
  shows "reconcile_client dr q w = (Inr (true_answer d q), w)"
proof -
  have rec: "xray_recorded w d" and uu: "uuids_ok d" and config: "xw_config_file w = Some (xray_render dr d)"
    and hyst: "hysteria_served dr d w"
    using step hysteria_file_newlines [OF ok]
    by (auto simp: xray_in_step_def xray_recorded_def hysteria_served_def hysteria_ok_def served_hysteria_config_def)
  define M :: "('a xray_world, string list) io" where
    "M = (if serves_hysteria dr (xrq_profile_code q) then live_hysteria_uuids_io (the (xd_hysteria_profile dr))
          else live_client_uuids_io (the (profile_for dr (xrq_profile_code q))))"
  have "\<exists>us. M w = (Inr us, w) \<and> set us = uuid_text ` xc_client_uuid ` set (clients_for d (xrq_profile_code q))"
  proof (cases "serves_hysteria dr (xrq_profile_code q)")
    case True
    then obtain hp where "xd_hysteria_profile dr = Some hp" "hp_code hp = xrq_profile_code q"
      by (auto simp: serves_hysteria_def split: option.splits)
    then show ?thesis using read_live_hysteria [OF ok _ rec hyst] True by (simp add: M_def)
  next
    case False
    then obtain p where "profile_for dr (xrq_profile_code q) = Some p" "p \<in> set (xd_profiles dr)" "xp_code p = xrq_profile_code q"
      using served unfolding serves_def profile_for_def by (metis (mono_tags, lifting) find_None_iff find_SomeD option.exhaust)
    then show ?thesis using read_live_config [OF ok uu config] False by (force simp: M_def)
  qed
  then obtain us where us: "M w = (Inr us, w)" "set us = uuid_text ` xc_client_uuid ` set (clients_for d (xrq_profile_code q))" by blast
  have known: "\<not> (\<not> serves_hysteria dr (xrq_profile_code q) \<and> profile_for dr (xrq_profile_code q) = None)"
    using served by (auto simp: serves_def profile_for_def find_None_iff)
  show ?thesis
    unfolding reconcile_client_def Let_def if_not_P [OF known] M_def [symmetric] bind_lkg [OF rec]
    using compare_true [OF uu u us(2)] us(1) by (simp add: try_io_def bind_io_def return_io_simp)
qed

subsection \<open>Pruning whatever is served\<close>

text \<open>Both files can be read, and every credential in them is one of a set.\<close>

definition files_readable :: "'k xray_driver \<Rightarrow> 'k xray_world \<Rightarrow> bool" where
  "files_readable dr w \<longleftrightarrow>
     (\<forall>p\<in>set (xd_profiles dr). \<exists>us. live_client_uuids_io p w = (Inr us, w)) \<and>
     (\<forall>hp. xd_hysteria_profile dr = Some hp \<longrightarrow> (\<exists>us. live_hysteria_uuids_io hp w = (Inr us, w)))"

definition serves_only :: "'k xray_driver \<Rightarrow> 'k xray_world \<Rightarrow> string set \<Rightarrow> bool" where
  "serves_only dr w credentials \<longleftrightarrow>
     (\<forall>p\<in>set (xd_profiles dr). \<exists>us. live_client_uuids_io p w = (Inr us, w) \<and> set us \<subseteq> credentials) \<and>
     (\<forall>hp. xd_hysteria_profile dr = Some hp \<longrightarrow> (\<exists>us. live_hysteria_uuids_io hp w = (Inr us, w) \<and> set us \<subseteq> credentials))"

lemma live_of_profiles_reads:
  "\<forall>p\<in>set ps. \<exists>us. live_client_uuids_io p w = (Inr us, w) \<Longrightarrow>
     \<exists>all. live_of_profiles ps w = (Inr all, w) \<and>
       (\<forall>p\<in>set ps. \<exists>us. live_client_uuids_io p w = (Inr us, w) \<and> set us \<subseteq> set all)"
proof (induction ps)
  case Nil
  show ?case by (simp add: return_io_def)
next
  case (Cons p ps)
  then obtain us rest where "live_client_uuids_io p w = (Inr us, w)" "live_of_profiles ps w = (Inr rest, w)"
      "\<forall>p\<in>set ps. \<exists>us. live_client_uuids_io p w = (Inr us, w) \<and> set us \<subseteq> set rest" by auto
  then show ?case by (fastforce simp: bind_io_def return_io_def)
qed

lemma unaccounted_none:
  assumes readable: "files_readable dr w" and run: "unaccounted_live_uuids dr keep recorded w = (Inr [], w)"
  shows "serves_only dr w (uuid_text ` set keep \<union> (\<lambda>c. uuid_text (xc_client_uuid c)) ` set recorded)"
proof -
  obtain all where all: "live_of_profiles (xd_profiles dr) w = (Inr all, w)"
      "\<forall>p\<in>set (xd_profiles dr). \<exists>us. live_client_uuids_io p w = (Inr us, w) \<and> set us \<subseteq> set all"
    using live_of_profiles_reads readable unfolding files_readable_def by blast
  obtain more where more: "(case xd_hysteria_profile dr of None \<Rightarrow> return_io [] | Some hp \<Rightarrow> live_hysteria_uuids_io hp) w = (Inr more, w)"
    using readable by (cases "xd_hysteria_profile dr") (auto simp: files_readable_def return_io_def)
  let ?known = "uuid_text ` set keep \<union> (\<lambda>c. uuid_text (xc_client_uuid c)) ` set recorded"
  have "filter (\<lambda>u. u \<notin> ?known) (remdups (all @ more)) = []"
    using run unfolding unaccounted_live_uuids_def Let_def
    by (simp add: try_io_def bind_io_def all(1) more return_io_def)
  then have "set all \<union> set more \<subseteq> ?known" by (auto simp: filter_empty_conv)
  then show ?thesis
    using all(2) more unfolding serves_only_def by (fastforce split: option.splits)
qed

lemma served_rendered:
  assumes ok: "driver_ok dr" and rec: "xray_recorded w d" and config: "xw_config_file w = Some (xray_render dr d)"
    and hyst: "hysteria_served dr d w"
  shows "serves_only dr w ((\<lambda>c. uuid_text (xc_client_uuid c)) ` set (dx_clients d))"
proof -
  have uu: "uuids_ok d" using rec by (simp add: xray_recorded_def)
  have sub: "set (clients_for d code) \<subseteq> set (dx_clients d)" for code by (auto simp: clients_for_def)
  show ?thesis
    unfolding serves_only_def
  proof (intro conjI ballI allI impI)
    show "\<exists>us. live_client_uuids_io p w = (Inr us, w) \<and> set us \<subseteq> (\<lambda>c. uuid_text (xc_client_uuid c)) ` set (dx_clients d)"
      if "p \<in> set (xd_profiles dr)" for p
      using read_live_config [OF ok uu config that] sub by auto
    show "\<exists>us. live_hysteria_uuids_io hp w = (Inr us, w) \<and> set us \<subseteq> (\<lambda>c. uuid_text (xc_client_uuid c)) ` set (dx_clients d)"
      if "xd_hysteria_profile dr = Some hp" for hp
      using read_live_hysteria [OF ok that rec hyst] sub by (fastforce simp: image_image)
  qed
qed

lemma serves_only_mono: "serves_only dr w A \<Longrightarrow> A \<subseteq> B \<Longrightarrow> serves_only dr w B"
  unfolding serves_only_def by (meson order_trans)

lemma prune_leaves_expected:
  assumes law: "xray_law (xd_host dr) live hys" and ok: "driver_ok dr" and rec: "xray_recorded w d" and readable: "files_readable dr w"
    and run: "prune_clients dr q w = (Inr a, w')" and a: "xnr_state a = ''pruned''"
  shows "serves_only dr w' (uuid_text ` exc_client_uuid ` set (xnq_expected q))"
proof -
  define d' where "d' = xray_target (PruneClients q) d"
  have new: "uuids_ok d'" using rec unfolding d'_def by (intro target_ok) (simp_all add: xray_recorded_def)
  have sub: "(\<lambda>c. uuid_text (xc_client_uuid c)) ` set (dx_clients d') \<subseteq> uuid_text ` exc_client_uuid ` set (xnq_expected q)"
    by (auto simp: d'_def)
  obtain u where un: "unaccounted_live_uuids dr (map exc_client_uuid (xnq_expected q)) (dx_clients d) w = (u, w)"
    by (rule unaccounted_cases)
  then obtain us where us: "u = Inr us" using run rec by (cases u) (auto simp: prune_clients_def bind_lkg Let_def bind_io_Inl)
  note go = run [unfolded prune_run [OF rec un [unfolded us] d'_def [symmetric] refl]]
  show ?thesis
  proof (cases "int (length (dx_clients d)) - int (length (dx_clients d')) = 0 \<and> us = []")
    case True
    then have "d' = d" using pruned_same [OF d'_def [symmetric]] by blast
    then show ?thesis
      using unaccounted_none [OF readable, of "map exc_client_uuid (xnq_expected q)" "dx_clients d"] un us True go sub
      by (auto elim!: serves_only_mono)
  next
    case False
    obtain r1 w1 where ap: "xray_apply_delta dr d' w = (r1, w1)" by fastforce
    note out = tripleD [OF xray_apply_delta_triple [OF law ok rec new] refl]
    have "r1 = Inr () \<and> w1 = w'"
      using go a ap unfolding if_not_P [OF False]
      by (cases r1; cases "projl r1") (auto simp: try_io_def bind_io_def reads_io_def)
    then show ?thesis using out(1) ap served_rendered [OF ok] serves_only_mono [OF _ sub] by blast
  qed
qed

subsection \<open>Admitting a Hysteria connection\<close>

lemma authorize_sound:
  assumes rec: "xray_recorded w d" and run: "authorize_hysteria dr auth w = (Inr (Some label), w')"
  shows "\<exists>hp c. xd_hysteria_profile dr = Some hp \<and> c \<in> set (clients_for d (hp_code hp)) \<and>
    lower_text (before_char CHR '':'' auth) = uuid_text (xc_client_uuid c) \<and>
    (CHR '':'' \<in> set auth \<longrightarrow> after_char CHR '':'' auth = before_char CHR '':'' auth) \<and>
    label = client_email (xd_sha256 dr) (xc_client_uuid c)"
  using run client_named_iff [of d] rec
  by (auto simp: authorize_hysteria_def Let_def bind_lkg [OF rec] return_io_simp xray_recorded_def clients_for_def
      split: option.splits if_splits)

lemma lower_uuid_text: "lower_text (uuid_text u) = uuid_text u"
proof -
  have "lower_char c = c" if "c \<in> set (uuid_text u)" for c
    using uuid_text_chars [OF that] by (auto simp: is_hex_def lower_char_def Let_def)
  then show ?thesis by (simp add: lower_text_def map_idI)
qed

lemma partition_fresh:
  "x \<notin> set a \<Longrightarrow> before_char x (a @ x # b) = a" "x \<notin> set a \<Longrightarrow> after_char x (a @ x # b) = b"
  "x \<notin> set a \<Longrightarrow> before_char x a = a"
  by (induction a) (auto simp: before_char_def after_char_def)

lemma authorize_complete:
  assumes rec: "xray_recorded w d" and hp: "xd_hysteria_profile dr = Some hp" and c: "c \<in> set (clients_for d (hp_code hp))"
    and auth: "auth = uuid_text (xc_client_uuid c) \<or> auth = uuid_text (xc_client_uuid c) @ '':'' @ uuid_text (xc_client_uuid c)"
  shows "authorize_hysteria dr auth w = (Inr (Some (client_email (xd_sha256 dr) (xc_client_uuid c))), w)"
proof -
  have uu: "uuids_ok d" using rec by (simp add: xray_recorded_def)
  then have u: "parse_uuid (uuid_text (xc_client_uuid c)) = Some (xc_client_uuid c)"
    using c by (intro parse_uuid_text) (auto simp: uuids_ok_def clients_for_def)
  have n: "client_named d (xc_client_uuid c) = Some c" "xc_profile_code c = hp_code hp"
    using c client_named_iff [OF uu] by (auto simp: clients_for_def)
  have colon: "CHR '':'' \<notin> set (uuid_text (xc_client_uuid c))"
    using uuid_text_chars [of "CHR '':''" "xc_client_uuid c"] by (auto simp: is_hex_def)
  then have "before_char CHR '':'' auth = uuid_text (xc_client_uuid c)"
      "CHR '':'' \<in> set auth \<longrightarrow> after_char CHR '':'' auth = uuid_text (xc_client_uuid c)"
    using auth by (auto simp: partition_fresh)
  then show ?thesis
    using u n by (auto simp: authorize_hysteria_def hp Let_def bind_lkg [OF rec] return_io_simp lower_uuid_text)
qed

end
