(* ===== verification/Xray_Live.thy ===== *)
theory Xray_Live
  imports Xray_Requests
begin

text \<open>
  Time and the running processes: the wait for Hysteria and the watch on removed clients come to an
  end; a change of clients on a healthy host restarts neither process; and a Hysteria that failed to
  start is not started again by a later change.
\<close>

subsection \<open>Clocks\<close>

text \<open>Sleeping takes at least the time asked for, and no command turns the clock back.\<close>

definition clock_law :: "'k xray_host \<Rightarrow> bool" where
  "clock_law host \<longleftrightarrow>
     (\<forall>n k r k'. xh_sleep host n k = (r, k') \<longrightarrow> xh_monotonic host k + n \<le> xh_monotonic host k') \<and>
     (\<forall>k r k'. xh_hysteria_is_active host k = (r, k') \<longrightarrow> xh_monotonic host k \<le> xh_monotonic host k') \<and>
     (\<forall>command arguments stdin k r k'. xh_api host command arguments stdin k = (r, k') \<longrightarrow>
        xh_monotonic host k \<le> xh_monotonic host k')"

lemma clock_lawD:
  assumes "clock_law host"
  shows "xh_sleep host n k = (r, k') \<Longrightarrow> xh_monotonic host k + n \<le> xh_monotonic host k'"
    and "xh_hysteria_is_active host k = (s, k') \<Longrightarrow> xh_monotonic host k \<le> xh_monotonic host k'"
    and "xh_api host command arguments stdin k = (s, k') \<Longrightarrow> xh_monotonic host k \<le> xh_monotonic host k'"
  using assms unfolding clock_law_def by blast+

lemma await_hysteria_ends:
  assumes clock: "clock_law (xd_host dr)"
  shows "triple (\<lambda>w. deadline \<le> xh_monotonic (xd_host dr) (xw_host w) + HYSTERIA_ACTIVE_POLL * int rounds)
    (await_hysteria (Suc rounds) dr deadline) (\<lambda>_ _. True) (\<lambda>e _. e \<noteq> NotReturned)"
proof (induction rounds)
  case 0
  show ?case
    unfolding await_hysteria.simps Let_def
  proof (rule triple_bind [where R = "\<lambda>_ w. deadline \<le> xh_monotonic (xd_host dr) (xw_host w)"])
    show "triple (\<lambda>w. deadline \<le> xh_monotonic (xd_host dr) (xw_host w) + HYSTERIA_ACTIVE_POLL * int 0)
        (run_xray_tool (xh_hysteria_is_active (xd_host dr))) (\<lambda>_ w. deadline \<le> xh_monotonic (xd_host dr) (xw_host w)) (\<lambda>e _. e \<noteq> NotReturned)"
      using clock_lawD(2) [OF clock] by (intro triple_run) (auto intro: order_trans)
  qed (rule triple_if, rule triple_return, simp,
      rule triple_bind [where R = "\<lambda>now _. deadline \<le> now"], rule triple_reads, simp, rule triple_if, rule triple_raise, simp,
      rule triple_assume [where A = False], simp_all)
next
  case (Suc rounds)
  show ?case
    unfolding await_hysteria.simps(2) [of "Suc rounds"] Let_def
  proof (rule triple_bind [where R = "\<lambda>_ w. deadline \<le> xh_monotonic (xd_host dr) (xw_host w) + HYSTERIA_ACTIVE_POLL * int (Suc rounds)"])
    show "triple (\<lambda>w. deadline \<le> xh_monotonic (xd_host dr) (xw_host w) + HYSTERIA_ACTIVE_POLL * int (Suc rounds))
        (run_xray_tool (xh_hysteria_is_active (xd_host dr)))
        (\<lambda>_ w. deadline \<le> xh_monotonic (xd_host dr) (xw_host w) + HYSTERIA_ACTIVE_POLL * int (Suc rounds)) (\<lambda>e _. e \<noteq> NotReturned)"
      using clock_lawD(2) [OF clock] by (intro triple_run) fastforce+
    have sleep: "triple (\<lambda>w. deadline \<le> xh_monotonic (xd_host dr) (xw_host w) + HYSTERIA_ACTIVE_POLL * int (Suc rounds))
        (asking_xray (xh_sleep (xd_host dr) HYSTERIA_ACTIVE_POLL))
        (\<lambda>_ w. deadline \<le> xh_monotonic (xd_host dr) (xw_host w) + HYSTERIA_ACTIVE_POLL * int rounds) (\<lambda>e _. e \<noteq> NotReturned)"
      using clock_lawD(1) [OF clock, of HYSTERIA_ACTIVE_POLL] by (intro triple_asking) (fastforce simp: algebra_simps)
    show "triple (\<lambda>w. deadline \<le> xh_monotonic (xd_host dr) (xw_host w) + HYSTERIA_ACTIVE_POLL * int (Suc rounds))
        (if returncode active = 0 then return_io ()
         else bind_io (reads_io (\<lambda>w. xh_monotonic (xd_host dr) (xw_host w))) (\<lambda>now.
           if (if strip (stdout active) = [] then ''inactive'' else strip (stdout active)) = ''failed'' \<or> deadline \<le> now
           then raise_io (ApplyError (''nebula-hysteria did not come up: '' @ (if strip (stdout active) = [] then ''inactive'' else strip (stdout active))))
           else bind_io (asking_xray (xh_sleep (xd_host dr) HYSTERIA_ACTIVE_POLL)) (\<lambda>_. await_hysteria (Suc rounds) dr deadline)))
        (\<lambda>_ _. True) (\<lambda>e _. e \<noteq> NotReturned)" for active
      by (rule triple_if, rule triple_return, simp, rule triple_bind [where R = "\<lambda>_ w. deadline \<le> xh_monotonic (xd_host dr) (xw_host w) + HYSTERIA_ACTIVE_POLL * int (Suc rounds)"],
          rule triple_reads, assumption, rule triple_if, rule triple_raise, simp, rule triple_bind [OF sleep Suc])
  qed
qed

lemma apply_hysteria_ends:
  assumes clock: "clock_law (xd_host dr)"
  shows "triple (\<lambda>_. True) (apply_hysteria dr d) (\<lambda>_ _. True) (\<lambda>e _. e \<noteq> NotReturned)"
proof (cases "xd_hysteria_profile dr")
  case None
  then show ?thesis by (simp add: apply_hysteria_def triple_return)
next
  case (Some hp)
  have rounds: "POLL_ROUNDS = Suc 30" by (simp add: POLL_ROUNDS_def)
  have await: "triple (\<lambda>w. deadline = xh_monotonic (xd_host dr) (xw_host w) + HYSTERIA_ACTIVE_TIMEOUT) (await_hysteria POLL_ROUNDS dr deadline)
      (\<lambda>_ _. True) (\<lambda>e _. e \<noteq> NotReturned)" for deadline
    unfolding rounds
    by (rule triple_pre [OF await_hysteria_ends [OF clock]]) (simp add: HYSTERIA_ACTIVE_TIMEOUT_def HYSTERIA_ACTIVE_POLL_def)
  have run: "triple (\<lambda>_. True) (run_xray_tool f) (\<lambda>_ _. True) (\<lambda>e (_ :: 'a xray_world). e \<noteq> NotReturned)" for f
    by (rule triple_run) simp_all
  have start: "triple (\<lambda>_. True) (restart_hysteria dr) (\<lambda>_ _. True) (\<lambda>e _. e \<noteq> NotReturned)"
    unfolding restart_hysteria_def
    by (rule triple_bind [where R = "\<lambda>_ _. True"], rule triple_here, rule triple_pre [OF run], simp,
        rule triple_bind [where R = "\<lambda>_ _. True"], rule triple_unless, simp, simp, rule triple_bind [OF _ await], rule triple_reads, simp)
  have wr: "triple (\<lambda>_. True) (write_hysteria_config dr t) (\<lambda>_ _. True) (\<lambda>e _. e \<noteq> NotReturned)" for t
    unfolding write_hysteria_config_def write_atomically_def
    by (rule triple_bind [where R = "\<lambda>_ _. True"], rule triple_asking, simp, rule triple_bind [where R = "\<lambda>_ _. True"],
        rule triple_unless, simp, simp, rule triple_modify, simp)
  show ?thesis
    unfolding apply_hysteria_def Some Let_def option.case
    by (rule triple_bind [where R = "\<lambda>_ _. True"], rule triple_reads, simp, rule triple_if, rule triple_return, simp,
        rule triple_bind [OF wr start])
qed

subsection \<open>The watch on removed clients\<close>

text \<open>The counters can be read.\<close>

definition counters_readable :: "'k xray_host \<Rightarrow> bool" where
  "counters_readable host \<longleftrightarrow>
     (\<forall>k. \<exists>out err k' totals. xh_api host ''statsquery'' [''-pattern'', ''user>>>''] None k = (CompletedRun 0 out err, k') \<and>
        traffic_totals_in out = Inr totals)"

text \<open>Every watch is over after \<open>n\<close> more rounds; one without a first reading needs two.\<close>

definition nearly_over :: "'k xray_driver \<Rightarrow> nat \<Rightarrow> 'k xray_world \<Rightarrow> bool" where
  "nearly_over dr n w \<longleftrightarrow>
     (\<forall>x\<in>set (xw_lingering w).
        lg_removed_at (snd x) + LINGER_WATCH \<le> xh_monotonic (xd_host dr) (xw_host w) + LINGER_POLL * int n \<and>
        1 \<le> n \<and> (lg_baseline (snd x) = None \<longrightarrow> 2 \<le> n))"

lemma watched_on_cases:
  assumes "(e, v) \<in> set (watched_on totals now l)" and "\<not> has_moved totals now l"
  obtains watch where "(e, watch) \<in> set l" "lg_removed_at v = lg_removed_at watch" "lg_baseline v \<noteq> None"
    "lg_baseline watch = None \<or> now - lg_removed_at watch < LINGER_WATCH"
proof -
  obtain watch where w: "(e, watch) \<in> set l" "fst (linger_step totals now (e, watch)) = Some v"
    using assms(1) by (auto simp: watched_on_def split: option.splits)
  have "\<not> snd (linger_step totals now (e, watch))" using assms(2) w(1) by (auto simp: has_moved_def)
  with w show ?thesis
    by (intro that [of watch]) (auto simp: linger_step_def Let_def split: option.splits if_splits)
qed

lemma nearly_over_step:
  assumes "nearly_over dr n w" and "xh_monotonic (xd_host dr) (xw_host w) + LINGER_POLL \<le> xh_monotonic (xd_host dr) k"
    and "\<not> has_moved totals (xh_monotonic (xd_host dr) k) (xw_lingering w)"
  shows "nearly_over dr (n - 1)
    (w\<lparr>xw_host := k, xw_lingering := watched_on totals (xh_monotonic (xd_host dr) k) (xw_lingering w)\<rparr>)"
  unfolding nearly_over_def
proof (intro ballI)
  fix x
  assume "x \<in> set (xw_lingering (w\<lparr>xw_host := k, xw_lingering := watched_on totals (xh_monotonic (xd_host dr) k) (xw_lingering w)\<rparr>))"
  then have "(fst x, snd x) \<in> set (watched_on totals (xh_monotonic (xd_host dr) k) (xw_lingering w))" by simp
  then obtain watch where watch: "(fst x, watch) \<in> set (xw_lingering w)" "lg_removed_at (snd x) = lg_removed_at watch"
      "lg_baseline (snd x) \<noteq> None" "lg_baseline watch = None \<or> xh_monotonic (xd_host dr) k - lg_removed_at watch < LINGER_WATCH"
    using assms(3) by (rule watched_on_cases)
  then have old: "lg_removed_at watch + LINGER_WATCH \<le> xh_monotonic (xd_host dr) (xw_host w) + LINGER_POLL * int n"
      "1 \<le> n" "lg_baseline watch = None \<longrightarrow> 2 \<le> n"
    using assms(1) by (auto simp: nearly_over_def)
  moreover have "n \<noteq> 1" using old watch(4) assms(2) by (auto simp: LINGER_POLL_def)
  ultimately show "lg_removed_at (snd x) + LINGER_WATCH \<le>
      xh_monotonic (xd_host dr) (xw_host (w\<lparr>xw_host := k, xw_lingering := watched_on totals (xh_monotonic (xd_host dr) k) (xw_lingering w)\<rparr>)) +
      LINGER_POLL * int (n - 1) \<and> 1 \<le> n - 1 \<and> (lg_baseline (snd x) = None \<longrightarrow> 2 \<le> n - 1)"
    using watch assms(2) by (auto simp: of_nat_diff algebra_simps)
qed

lemma restart_for_lingering_triple:
  "triple (\<lambda>_. True) (restart_for_lingering dr) (\<lambda>_ w. xw_lingering w = [])
     (\<lambda>e w. e = SubprocessTimeoutError \<and> xw_lingering w = [])"
  unfolding restart_for_lingering_def
proof (rule triple_bind [where R = "\<lambda>l w. l = [] \<longrightarrow> xw_lingering w = []"])
  have reload: "triple (\<lambda>w. xw_lingering w = []) (xray_reload dr) (\<lambda>_ w. xw_lingering w = [])
      (\<lambda>e w. (e = SubprocessTimeoutError \<or> (\<exists>m. e = ApplyError m)) \<and> xw_lingering w = [])"
    unfolding xray_reload_def
    by (rule triple_bind [where R = "\<lambda>_ w. xw_lingering w = []"], rule triple_here, rule triple_run, simp_all, rule triple_unless) simp_all
  have "triple (\<lambda>w. xw_lingering w = []) (try_io (xray_reload dr) (on_apply_error (\<lambda>_. return_io ()))) (\<lambda>_ w. xw_lingering w = [])
      (\<lambda>e w. e = SubprocessTimeoutError \<and> xw_lingering w = [])"
    by (rule triple_try [OF reload]) (auto elim!: on_apply_error.elims intro!: triple_return)
  note retry = triple_bind [OF triple_modify this]
  show "triple (\<lambda>w. l = [] \<longrightarrow> xw_lingering w = []) (if l = [] then return_io () else
      bind_io (modify_io (\<lambda>w. w\<lparr>xw_lingering := []\<rparr>)) (\<lambda>_. try_io (xray_reload dr) (on_apply_error (\<lambda>_. return_io ()))))
      (\<lambda>_ w. xw_lingering w = []) (\<lambda>e w. e = SubprocessTimeoutError \<and> xw_lingering w = [])" for l
    by (rule triple_if, rule triple_return, simp, rule retry) simp
qed (rule triple_reads, simp)

text \<open>A round that can read the counters: it goes on with less to watch, or it restarts Xray and forgets the rest.\<close>

lemma linger_round_cases:
  assumes clock: "clock_law (xd_host dr)" and reads: "counters_readable (xd_host dr)" and near: "nearly_over dr n w"
    and run: "linger_round dr w = (r, w')"
  shows "r = Inr True \<and> nearly_over dr (n - 1) w' \<or> (r = Inr False \<or> r = Inl SubprocessTimeoutError) \<and> xw_lingering w' = []"
proof -
  obtain k1 where sleep: "xh_sleep (xd_host dr) LINGER_POLL (xw_host w) = ((), k1)" by (metis old.unit.exhaust surj_pair)
  obtain out err k2 totals where api: "xh_api (xd_host dr) ''statsquery'' [''-pattern'', ''user>>>''] None k1 = (CompletedRun 0 out err, k2)"
      and totals: "traffic_totals_in out = Inr totals"
    using reads unfolding counters_readable_def by blast
  let ?now = "xh_monotonic (xd_host dr) k2"
  let ?w = "w\<lparr>xw_host := k2, xw_lingering := watched_on totals ?now (xw_lingering w)\<rparr>"
  have now: "xh_monotonic (xd_host dr) (xw_host w) + LINGER_POLL \<le> ?now"
    using clock_lawD(1) [OF clock sleep] clock_lawD(3) [OF clock api] by linarith
  have "user_traffic_totals dr (w\<lparr>xw_host := k1\<rparr>) = (Inr totals, w\<lparr>xw_host := k2\<rparr>)"
    by (simp add: user_traffic_totals_def xray_api_def run_xray_tool_def bind_io_def asking_xray_def completed_io_def
        api totals return_io_simp unless_io_simp result_io_def)
  then have read: "try_io (bind_io (user_traffic_totals dr) (\<lambda>t. return_io (Some t))) (on_apply_error (\<lambda>_. return_io None)) (w\<lparr>xw_host := k1\<rparr>) =
      (Inr (Some totals), w\<lparr>xw_host := k2\<rparr>)"
    by (simp add: try_io_def bind_io_def return_io_simp)
  have "linger_round dr w =
      (if has_moved totals ?now (xw_lingering w) then bind_io (restart_for_lingering dr) (\<lambda>_. return_io False) ?w else (Inr True, ?w))"
    by (simp add: linger_round_def bind_io_def asking_xray_def sleep read reads_io_simp modify_io_simp return_io_simp)
  note round = run [unfolded this]
  show ?thesis
  proof (cases "has_moved totals ?now (xw_lingering w)")
    case False
    then show ?thesis using round nearly_over_step [OF near now False] by simp
  next
    case True
    have t: "triple (\<lambda>_. True) (bind_io (restart_for_lingering dr) (\<lambda>_. return_io False)) (\<lambda>a w. a = False \<and> xw_lingering w = [])
        (\<lambda>e w. e = SubprocessTimeoutError \<and> xw_lingering w = [])"
      by (rule triple_bind [OF restart_for_lingering_triple], rule triple_return) simp
    have restart: "bind_io (restart_for_lingering dr) (\<lambda>_. return_io False) ?w = (r, w')" using round True by simp
    show ?thesis
    proof (cases r)
      case (Inl e)
      with tripleD(2) [OF t TrueI restart [unfolded Inl]] show ?thesis by simp
    next
      case (Inr a)
      with tripleD(1) [OF t TrueI restart [unfolded Inr]] show ?thesis by simp
    qed
  qed
qed

lemma cut_off_ends:
  assumes clock: "clock_law (xd_host dr)" and reads: "counters_readable (xd_host dr)"
  shows "nearly_over dr n w \<Longrightarrow> \<exists>r w'. cut_off_lingering (Suc n) dr w = (r, w') \<and> r \<in> {Inr (), Inl SubprocessTimeoutError} \<and> xw_lingering w' = []"
proof (induction n arbitrary: w)
  case 0
  then have "xw_lingering w = []" by (cases "xw_lingering w") (auto simp: nearly_over_def)
  then show ?case by (simp add: bind_io_def reads_io_simp return_io_simp)
next
  case (Suc n)
  show ?case
  proof (cases "xw_lingering w = []")
    case True
    then show ?thesis by (simp add: bind_io_def reads_io_simp return_io_simp)
  next
    case False
    obtain r w' where round: "linger_round dr w = (r, w')" by fastforce
    have unfold: "cut_off_lingering (Suc (Suc n)) dr w =
        bind_io (linger_round dr) (\<lambda>again. if again then cut_off_lingering (Suc n) dr else return_io ()) w"
      using False by (simp only: cut_off_lingering.simps(2) [of "Suc n"]) (simp add: bind_io_def [of "reads_io xw_lingering"] reads_io_simp)
    show ?thesis
      using linger_round_cases [OF clock reads Suc.prems round] Suc.IH [of w'] round
      unfolding unfold by (auto simp: bind_io_def return_io_simp)
  qed
qed

subsection \<open>A Hysteria that failed to start\<close>

lemma apply_hysteria_failed:
  assumes hp: "xd_hysteria_profile dr = Some hp"
  shows "triple (\<lambda>_. True) (apply_hysteria dr d) (\<lambda>_ _. True)
    (\<lambda>e w. e = OSError \<or> xw_hysteria_file w = Some (render_hysteria dr hp d))"
proof -
  let ?F = "\<lambda>w. xw_hysteria_file w = Some (render_hysteria dr hp d)"
  let ?E = "\<lambda>e w. e = OSError \<or> ?F w"
  have run: "triple ?F (run_xray_tool f) (\<lambda>_. ?F) ?E" for f
    by (rule triple_run) simp_all
  have await: "triple ?F (await_hysteria rounds dr deadline) (\<lambda>_. ?F) ?E" for rounds deadline
  proof (induction rounds)
    case 0
    show ?case by (simp add: triple_raise)
  next
    case (Suc rounds)
    show ?case
      unfolding await_hysteria.simps Let_def
      by (rule triple_bind [OF run], rule triple_if, rule triple_return, simp, rule triple_bind [where R = "\<lambda>_. ?F"], rule triple_reads, simp,
          rule triple_if, rule triple_raise, simp, rule triple_bind [OF _ Suc], rule triple_asking, simp)
  qed
  have start: "triple ?F (restart_hysteria dr) (\<lambda>_. ?F) ?E"
    unfolding restart_hysteria_def
    by (rule triple_bind [where R = "\<lambda>_. ?F"], rule triple_here, rule triple_pre [OF run], simp, rule triple_bind [where R = "\<lambda>_. ?F"],
        rule triple_unless, simp, simp, rule triple_bind [where R = "\<lambda>_. ?F"], rule triple_reads, simp, rule await)
  have wr: "triple (\<lambda>_. True) (write_hysteria_config dr (render_hysteria dr hp d)) (\<lambda>_. ?F) ?E"
    unfolding write_hysteria_config_def write_atomically_def
    by (rule triple_bind [where R = "\<lambda>_ _. True"], rule triple_asking, simp, rule triple_bind [where R = "\<lambda>_ _. True"],
        rule triple_unless, simp, simp, rule triple_modify, simp)
  show ?thesis
    unfolding apply_hysteria_def hp Let_def option.case
    by (rule triple_bind [where R = "\<lambda>_ _. True"], rule triple_reads, simp, rule triple_if, rule triple_return, simp,
        rule triple_weaken [OF triple_bind [OF wr start]]) simp_all
qed

lemma hysteria_retry_skips:
  assumes ok: "driver_ok dr" and hp: "xd_hysteria_profile dr = Some hp" and live: "xst_live_client_updates (xd_settings dr)"
    and failed: "apply_hysteria dr d w = (Inl (ApplyError m), w1)"
  shows "apply_hysteria dr d' w1 = (Inr (), w1)"
proof -
  have "xw_hysteria_file w1 = Some (render_hysteria dr hp d)"
    using tripleD(2) [OF apply_hysteria_failed [OF hp] TrueI failed] by simp
  moreover have "render_hysteria dr hp d = render_hysteria dr hp d'"
    using live hysteria_file_same_for_all by (simp add: render_hysteria_def)
  ultimately show ?thesis
    using hysteria_file_newlines [OF ok hp, of d'] by (simp add: apply_hysteria_def hp Let_def served_hysteria_config_def io_simps)
qed

subsection \<open>The inbounds Xray is told about\<close>

text \<open>What can be said of an inbound read from a file without fractions.\<close>

definition inbound_good :: "live_inbound \<Rightarrow> bool" where
  "inbound_good li \<longleftrightarrow>
     li_protocol li \<in> set LIVE_PROTOCOLS \<and> ''clients'' \<notin> fst ` set (li_settings li) \<and>
     (\<forall>m\<in>set (li_settings li). plain_json (snd m)) \<and> distinct (map fst (li_clients li)) \<and>
     (\<forall>(e, cl)\<in>set (li_clients li). (''email'', e) \<in> set cl \<and> distinct (map fst cl))"

lemma member_in: "member k ms = Some v \<Longrightarrow> (k, v) \<in> set ms"
  unfolding member_def by (metis map_of_SomeD set_rev)

lemma dict_of_in: "(k, v) \<in> set (dict_of ms) \<Longrightarrow> member k ms = Some v"
proof -
  assume "(k, v) \<in> set (dict_of ms)"
  then have "k \<in> fst ` set ms" "v = the (member k ms)" by (auto simp: dict_of_def)
  moreover from this(1) obtain x where "member k ms = Some x"
    unfolding member_def by (metis domD dom_map_of_conv_image_fst set_rev)
  ultimately show ?thesis by simp
qed

lemma dict_of_keys: "distinct (map fst (dict_of ms))" "member k ms = Some v \<Longrightarrow> (k, v) \<in> set (dict_of ms)"
proof -
  show "distinct (map fst (dict_of ms))" by (simp add: dict_of_def comp_def)
  assume "member k ms = Some v"
  moreover from this have "k \<in> fst ` set ms" using member_in by force
  ultimately show "(k, v) \<in> set (dict_of ms)" by (force simp: dict_of_def)
qed

lemma clients_by_email_good:
  "clients_by_email cs = Some r \<Longrightarrow>
     distinct (map fst r) \<and> (\<forall>(e, cl)\<in>set r. (''email'', e) \<in> set cl \<and> distinct (map fst cl))"
proof (induction cs arbitrary: r rule: clients_by_email.induct)
  case (2 ms cs)
  then obtain e rest where e: "member ''email'' ms = Some e" and rest: "clients_by_email cs = Some rest"
      and r: "r = (if py_str e \<in> fst ` set rest then rest else (py_str e, map (\<lambda>(k, v). (k, py_str v)) (dict_of ms)) # rest)"
    by (auto split: option.splits)
  have "(''email'', py_str e) \<in> set (map (\<lambda>(k, v). (k, py_str v)) (dict_of ms))" using dict_of_keys(2) [OF e] by force
  moreover have "distinct (map fst (map (\<lambda>(k, v). (k, py_str v)) (dict_of ms)))"
    using dict_of_keys(1) [of ms] by (simp add: comp_def case_prod_unfold)
  ultimately show ?case using "2.IH" [OF rest] r by auto
qed auto

lemma live_inbound_good:
  assumes "live_inbound_of ms = Some (tag, li)" and "live_protocol ms" and "plain_json (JObj ms)"
  shows "inbound_good li"
proof -
  obtain ss p cs where ss: "json_get ''settings'' (JObj []) ms = JObj ss" and "member ''port'' ms = Some (JInt p)"
      and cs: "Option.bind (json_iter (json_get ''clients'' (JList []) ss)) clients_by_email = Some cs"
      and li: "li = \<lparr>li_port = p, li_protocol = py_str (json_get ''protocol'' JNull ms),
                 li_settings = filter (\<lambda>m. fst m \<noteq> ''clients'') (dict_of ss), li_clients = cs\<rparr>"
    using assms(1) by (auto simp: live_inbound_of_def split: json.splits option.splits)
  have "\<forall>m\<in>set ss. plain_json (snd m)"
  proof (cases "member ''settings'' ms")
    case (Some j)
    then have "j = JObj ss" using ss by (simp add: json_get_def)
    then have "plain_json (JObj ss)" using bspec [of "set ms" "\<lambda>m. plain_json (snd m)" "(''settings'', j)"] member_in [OF Some] assms(3) by simp
    then show ?thesis by simp
  qed (use ss in \<open>simp add: json_get_def\<close>)
  then have "\<forall>m\<in>set (dict_of ss). plain_json (snd m)" by (auto dest!: dict_of_in member_in)
  moreover obtain xs where "clients_by_email xs = Some cs" using cs by (auto simp: bind_eq_Some_conv)
  ultimately show ?thesis
    using clients_by_email_good assms(2) by (auto simp: inbound_good_def li live_protocol_def)
qed

lemma live_inbounds_good:
  "live_inbounds xs acc = Some tis \<Longrightarrow> \<forall>x\<in>set xs. plain_json x \<Longrightarrow> \<forall>(tag, li)\<in>set acc. inbound_good li \<Longrightarrow>
     \<forall>(tag, li)\<in>set tis. inbound_good li"
proof (induction xs acc rule: live_inbounds.induct)
  case (2 ms rest acc)
  show ?case
  proof (cases "live_protocol ms")
    case False
    then show ?thesis using 2 by simp
  next
    case True
    then obtain tag li where li: "live_inbound_of ms = Some (tag, li)" "live_inbounds rest (dict_put tag li acc) = Some tis"
      using "2.prems"(1) by (auto split: option.splits)
    have "inbound_good li" using live_inbound_good [OF li(1) True] "2.prems"(2) by simp
    then have "\<forall>(t, l)\<in>set (dict_put tag li acc). inbound_good l" using "2.prems"(3) by (auto simp: dict_put_def split: if_splits)
    with "2.IH"(2) [OF _ li(1) refl li(2)] show ?thesis using True "2.prems"(2) by simp
  qed
qed auto

lemma rendered_inbounds_good:
  assumes "live_inbounds_by_tag (xray_render dr d) = Some tis"
  shows "\<forall>(tag, li)\<in>set tis. inbound_good li"
proof -
  let ?c = "server_config_json (xd_sha256 dr) (xd_settings dr) (xd_profiles dr) d"
  obtain ms where ms: "?c = JObj ms" by (simp add: server_config_json_def)
  let ?xs = "map (inbound_json (xd_sha256 dr) (xd_settings dr) d) (xd_profiles dr) @ [stats_api_inbound (xst_api_host (xd_settings dr))]"
  have "(''inbounds'', JList ?xs) \<in> set ms" by (rule member_in [OF config_inbounds [OF ms]])
  then have "\<forall>x\<in>set ?xs. plain_json x" using plain_config [of "xd_sha256 dr" "xd_settings dr" "xd_profiles dr" d] ms by auto
  moreover have "live_inbounds ?xs [] = Some tis"
    using assms by (simp add: live_inbounds_by_tag_def xray_render_def rendered_simps ms json_get_def config_inbounds [OF ms])
  ultimately show ?thesis using live_inbounds_good [of ?xs "[]" tis] by simp
qed

end
