(* ===== verification/Xray_Hot.thy ===== *)
theory Xray_Hot
  imports Xray_Live
begin

text \<open>
  Changing clients without a restart. The law of a healthy host (\<open>healthy\<close>) adds to \<open>xray_law\<close> what the
  commands of Xray's API do: \<open>rmu\<close> removes the named clients from an inbound, \<open>adu\<close> adds those of the
  inbounds it is given. On such a host a change that starts in step is made through the API: neither
  process is started again, so no other client is disconnected.
\<close>

subsection \<open>What is sent to \<open>adu\<close>\<close>

definition new_for :: "live_inbound \<Rightarrow> string set \<Rightarrow> (string \<times> string) list list" where
  "new_for li S = map (\<lambda>e. the (map_of (li_clients li) e)) (sort (filter (\<lambda>e. e \<notin> S) (map fst (li_clients li))))"

lemma new_clients_for: "new_clients li es = new_for li (set es)"
  by (simp add: new_clients_def new_for_def)

lemma new_for_email:
  assumes "inbound_good li"
  shows "\<exists>es. map (\<lambda>cl. the (map_of cl ''email'')) (new_for li S) = es \<and> set es = fst ` set (li_clients li) - S"
    and "cl \<in> set (new_for li S) \<Longrightarrow> \<exists>e. (''email'', e) \<in> set cl \<and> distinct (map fst cl)"
proof -
  let ?es = "sort (filter (\<lambda>e. e \<notin> S) (map fst (li_clients li)))"
  have one: "\<exists>cl. map_of (li_clients li) e = Some cl \<and> (''email'', e) \<in> set cl \<and> distinct (map fst cl)" if "e \<in> set ?es" for e
  proof -
    from that obtain cl where "(e, cl) \<in> set (li_clients li)" by auto
    then show ?thesis using assms by (force simp: inbound_good_def)
  qed
  have "map (\<lambda>cl. the (map_of cl ''email'')) (new_for li S) = ?es"
    unfolding new_for_def map_map comp_def using one by (intro map_idI) force
  then show "\<exists>es. map (\<lambda>cl. the (map_of cl ''email'')) (new_for li S) = es \<and> set es = fst ` set (li_clients li) - S"
    by (intro exI [of _ ?es]) auto
  show "\<exists>e. (''email'', e) \<in> set cl \<and> distinct (map fst cl)" if "cl \<in> set (new_for li S)"
    using that one unfolding new_for_def by force
qed

definition client_object :: "(string \<times> string) list \<Rightarrow> json" where
  "client_object cl = JObj (map (\<lambda>(k, v). (k, JStr v)) cl)"

lemma client_object_email:
  assumes "(''email'', e) \<in> set cl" "distinct (map fst cl)"
  shows "member ''email'' (map (\<lambda>(k, v). (k, JStr v)) cl) = Some (JStr e)" "map_of cl ''email'' = Some e"
proof -
  show m: "map_of cl ''email'' = Some e" using assms by simp
  have "distinct (map fst (map (\<lambda>(k, v). (k, JStr v)) cl))" using assms(2) by (simp add: comp_def case_prod_unfold)
  then have "distinct (map fst (rev (map (\<lambda>(k, v). (k, JStr v)) cl)))" by (metis distinct_rev rev_map)
  moreover have "(''email'', JStr e) \<in> set (rev (map (\<lambda>(k, v). (k, JStr v)) cl))" using assms(1) by force
  ultimately show "member ''email'' (map (\<lambda>(k, v). (k, JStr v)) cl) = Some (JStr e)"
    unfolding member_def by (rule map_of_is_SomeI)
qed

lemma clients_by_email_objects:
  "\<forall>cl\<in>set cls. \<exists>e. (''email'', e) \<in> set cl \<and> distinct (map fst cl) \<Longrightarrow>
     \<exists>r. clients_by_email (map client_object cls) = Some r \<and> fst ` set r = (\<lambda>cl. the (map_of cl ''email'')) ` set cls"
proof (induction cls)
  case (Cons cl cls)
  then obtain e r where "(''email'', e) \<in> set cl" "distinct (map fst cl)" "clients_by_email (map client_object cls) = Some r"
      "fst ` set r = (\<lambda>cl. the (map_of cl ''email'')) ` set cls" by auto
  then show ?case using client_object_email [of e cl] by (auto simp: client_object_def [of cl] insert_absorb)
qed simp

lemma addition_inbound:
  assumes good: "inbound_good li" and "addition_json tag li (new_for li S) = JObj ms"
  shows "\<exists>li'. live_inbound_of ms = Some (tag, li') \<and> fst ` set (li_clients li') = fst ` set (li_clients li) - S"
    and "live_protocol ms" and "plain_json (JObj ms)"
proof -
  let ?cs = "map client_object (new_for li S)"
  have put: "dict_put ''clients'' (JList ?cs) (li_settings li) = li_settings li @ [(''clients'', JList ?cs)]"
    using good by (simp add: dict_put_def inbound_good_def)
  have ms: "ms = [(''tag'', JStr tag), (''protocol'', JStr (li_protocol li)), (''port'', JInt (li_port li)),
      (''settings'', JObj (li_settings li @ [(''clients'', JList ?cs)]))]"
    using assms(2) by (simp add: addition_json_def client_object_def [abs_def, symmetric] put)
  obtain r where r: "clients_by_email ?cs = Some r" "fst ` set r = (\<lambda>cl. the (map_of cl ''email'')) ` set (new_for li S)"
    using clients_by_email_objects new_for_email(2) [OF good] by blast
  have "fst ` set r = fst ` set (li_clients li) - S" using r(2) new_for_email(1) [OF good, of S] by (metis set_map)
  then show "\<exists>li'. live_inbound_of ms = Some (tag, li') \<and> fst ` set (li_clients li') = fst ` set (li_clients li) - S"
    using r(1) by (simp add: live_inbound_of_def ms json_get_def member_def)
  show "live_protocol ms" using good by (auto simp: live_protocol_def ms json_get_def member_def inbound_good_def)
  have "plain_json (client_object cl)" for cl by (auto simp: client_object_def)
  then show "plain_json (JObj ms)" using good by (auto simp: ms inbound_good_def)
qed

text \<open>The additions for the clients missing from what is live, and what they say.\<close>

definition additions_for :: "(string \<times> live_inbound) list \<Rightarrow> (string \<Rightarrow> string set) \<Rightarrow> json list" where
  "additions_for tis L =
     concat (map (\<lambda>(tag, li). if new_for li (L tag) = [] then [] else [addition_json tag li (new_for li (L tag))]) tis)"

lemma additions_cong: "\<forall>tag\<in>fst ` set tis. L tag = L' tag \<Longrightarrow> additions_for tis L = additions_for tis L'"
  unfolding additions_for_def by (induction tis) auto

lemma additions_inbounds:
  assumes "\<forall>(tag, li)\<in>set tis. inbound_good li" and "distinct (map fst acc @ map fst tis)"
  shows "\<exists>more. live_inbounds (additions_for tis L) acc = Some (acc @ more) \<and>
    (\<forall>tag. (case map_of more tag of None \<Rightarrow> {} | Some li \<Rightarrow> fst ` set (li_clients li)) =
       (case map_of tis tag of None \<Rightarrow> {} | Some li \<Rightarrow> fst ` set (li_clients li) - L tag)) \<and> fst ` set more \<subseteq> fst ` set tis"
  using assms
proof (induction tis arbitrary: acc)
  case Nil
  show ?case by (simp add: additions_for_def)
next
  case (Cons x tis)
  obtain tag li where x: "x = (tag, li)" by (cases x)
  have good: "inbound_good li" using Cons.prems(1) x by simp
  show ?case
  proof (cases "new_for li (L tag) = []")
    case True
    then have "fst ` set (li_clients li) - L tag = {}" using new_for_email(1) [OF good, of "L tag"] by auto
    moreover obtain more where "live_inbounds (additions_for tis L) acc = Some (acc @ more)"
       "\<forall>tag. (case map_of more tag of None \<Rightarrow> {} | Some li \<Rightarrow> fst ` set (li_clients li)) =
       (case map_of tis tag of None \<Rightarrow> {} | Some li \<Rightarrow> fst ` set (li_clients li) - L tag)" "fst ` set more \<subseteq> fst ` set tis"
      using Cons.IH [of acc] Cons.prems by auto
    moreover have "map_of tis tag = None" using Cons.prems(2) x by (auto simp: map_of_eq_None_iff)
    ultimately show ?thesis using True x by (intro exI [of _ more]) (auto simp: additions_for_def)
  next
    case False
    obtain ms where ms: "addition_json tag li (new_for li (L tag)) = JObj ms" by (simp add: addition_json_def)
    obtain li' where li': "live_inbound_of ms = Some (tag, li')" "fst ` set (li_clients li') = fst ` set (li_clients li) - L tag"
      using addition_inbound(1) [OF good ms] by blast
    have put: "dict_put tag li' acc = acc @ [(tag, li')]" using Cons.prems(2) x by (auto simp: dict_put_def)
    obtain more where more: "live_inbounds (additions_for tis L) (acc @ [(tag, li')]) = Some ((acc @ [(tag, li')]) @ more)"
       "\<forall>tag. (case map_of more tag of None \<Rightarrow> {} | Some li \<Rightarrow> fst ` set (li_clients li)) =
       (case map_of tis tag of None \<Rightarrow> {} | Some li \<Rightarrow> fst ` set (li_clients li) - L tag)" "fst ` set more \<subseteq> fst ` set tis"
      using Cons.IH [of "acc @ [(tag, li')]"] Cons.prems x by auto
    have "live_inbounds (additions_for (x # tis) L) acc = Some (acc @ (tag, li') # more)"
      using False more(1) addition_inbound(2) [OF good ms] li'(1) put by (simp add: additions_for_def x ms)
    then show ?thesis using more(2,3) li'(2) x by (intro exI [of _ "(tag, li') # more"]) auto
  qed
qed

definition adu_payload :: "json list \<Rightarrow> string" where
  "adu_payload additions = dumps (JObj [(''inbounds'', JList additions)])"

lemma payload_emails:
  assumes good: "\<forall>(tag, li)\<in>set tis. inbound_good li" and "distinct (map fst tis)"
  shows "live_inbounds_by_tag (adu_payload (additions_for tis L)) \<noteq> None"
    and "loaded_emails (adu_payload (additions_for tis L)) tag =
       (case map_of tis tag of None \<Rightarrow> {} | Some li \<Rightarrow> fst ` set (li_clients li) - L tag) - {[]}"
proof -
  have "plain_json j" if sent: "j \<in> set (additions_for tis L)" for j
  proof -
    obtain x where "x \<in> set tis" and j: "j = addition_json (fst x) (snd x) (new_for (snd x) (L (fst x)))"
      using sent by (auto simp: additions_for_def case_prod_unfold split: if_splits)
    moreover obtain ms where "j = JObj ms" unfolding j by (simp add: addition_json_def)
    ultimately show ?thesis using good addition_inbound(3) [of "snd x" "fst x" "L (fst x)" ms] by auto
  qed
  then have "loads (adu_payload (additions_for tis L)) = Inr (JObj [(''inbounds'', JList (additions_for tis L))])"
    unfolding adu_payload_def dumps_def by (intro loads_dumps_at) simp
  then have p: "live_inbounds_by_tag (adu_payload (additions_for tis L)) = live_inbounds (additions_for tis L) []"
    by (simp add: live_inbounds_by_tag_def json_get_def member_def)
  obtain more where more: "live_inbounds (additions_for tis L) [] = Some more"
     "\<forall>tag. (case map_of more tag of None \<Rightarrow> {} | Some li \<Rightarrow> fst ` set (li_clients li)) =
       (case map_of tis tag of None \<Rightarrow> {} | Some li \<Rightarrow> fst ` set (li_clients li) - L tag)"
    using additions_inbounds [OF good, of "[]" L] assms(2) by auto
  then show "live_inbounds_by_tag (adu_payload (additions_for tis L)) \<noteq> None" by (simp add: p)
  show "loaded_emails (adu_payload (additions_for tis L)) tag =
       (case map_of tis tag of None \<Rightarrow> {} | Some li \<Rightarrow> fst ` set (li_clients li) - L tag) - {[]}"
    unfolding more(2) [rule_format, symmetric] using more(1) by (simp add: loaded_emails_def p split: option.splits)
qed

subsection \<open>A healthy host\<close>

text \<open>
  \<open>starts\<close> counts how often a process was started. Files can be written, a rendered configuration is
  valid, and the API does what its commands say.
\<close>

definition unchanged :: "('k \<Rightarrow> string \<Rightarrow> string set) \<Rightarrow> ('k \<Rightarrow> nat) \<Rightarrow> 'k \<Rightarrow> 'k \<Rightarrow> bool" where
  "unchanged live starts k k' \<longleftrightarrow> live k' = live k \<and> starts k' = starts k"

definition healthy :: "'k xray_host \<Rightarrow> ('k \<Rightarrow> string \<Rightarrow> string set) \<Rightarrow> ('k \<Rightarrow> nat) \<Rightarrow> bool" where
  "healthy host live starts \<longleftrightarrow>
     (\<forall>k. \<exists>k'. xh_write host k = (True, k') \<and> unchanged live starts k k') \<and>
     (\<forall>t k. \<exists>out err k'. xh_validate host (Some t) k = (CompletedRun 0 out err, k') \<and> unchanged live starts k k') \<and>
     (\<forall>u s b k. unchanged live starts k (snd (xh_kick host u s b k))) \<and>
     (\<forall>tag k. \<exists>out err k' es. xh_api host ''inbounduser'' [tag_argument tag] None k = (CompletedRun 0 out err, k') \<and>
        unchanged live starts k k' \<and> emails_in out = Inr es \<and> set es = live k tag) \<and>
     (\<forall>tag es k. \<exists>out err k'. xh_api host ''rmu'' (tag_argument tag # es) None k = (CompletedRun 0 out err, k') \<and>
        live k' = (live k)(tag := live k tag - set es) \<and> starts k' = starts k) \<and>
     (\<forall>t k. live_inbounds_by_tag t \<noteq> None \<longrightarrow>
        (\<exists>out err k'. xh_api host ''adu'' [''stdin:''] (Some t) k = (CompletedRun 0 out err, k') \<and>
           live k' = (\<lambda>tag. live k tag \<union> loaded_emails t tag) \<and> starts k' = starts k))"

lemma healthyD:
  assumes "healthy host live starts"
  shows "\<exists>k'. xh_write host k = (True, k') \<and> unchanged live starts k k'"
    and "\<exists>out err k'. xh_validate host (Some t) k = (CompletedRun 0 out err, k') \<and> unchanged live starts k k'"
    and "unchanged live starts k (snd (xh_kick host u s b k))"
    and "\<exists>out err k' es. xh_api host ''inbounduser'' [tag_argument tag] None k = (CompletedRun 0 out err, k') \<and>
        unchanged live starts k k' \<and> emails_in out = Inr es \<and> set es = live k tag"
    and "\<exists>out err k'. xh_api host ''rmu'' (tag_argument tag # es) None k = (CompletedRun 0 out err, k') \<and>
        live k' = (live k)(tag := live k tag - set es) \<and> starts k' = starts k"
    and "live_inbounds_by_tag t \<noteq> None \<Longrightarrow> \<exists>out err k'. xh_api host ''adu'' [''stdin:''] (Some t) k = (CompletedRun 0 out err, k') \<and>
           live k' = (\<lambda>tag. live k tag \<union> loaded_emails t tag) \<and> starts k' = starts k"
  using assms unfolding healthy_def by simp_all

lemma api_works:
  "xh_api (xd_host dr) command arguments stdin (xw_host w) = (CompletedRun 0 out err, k) \<Longrightarrow>
     xray_api dr command arguments stdin w = (Inr out, w\<lparr>xw_host := k\<rparr>)"
  by (simp add: xray_api_def run_xray_tool_def bind_io_def asking_xray_def completed_io_def return_io_simp unless_io_simp)

lemma live_emails_works:
  assumes "healthy (xd_host dr) live starts"
  shows "\<exists>es k. live_emails dr tag w = (Inr es, w\<lparr>xw_host := k\<rparr>) \<and> unchanged live starts (xw_host w) k \<and> set es = live (xw_host w) tag"
proof -
  obtain out err k es where "xh_api (xd_host dr) ''inbounduser'' [tag_argument tag] None (xw_host w) = (CompletedRun 0 out err, k)"
      "unchanged live starts (xw_host w) k" "emails_in out = Inr es" "set es = live (xw_host w) tag"
    using healthyD(4) [OF assms] by blast
  then show ?thesis using api_works [of dr "''inbounduser''"] by (auto simp: live_emails_def bind_io_def result_io_def)
qed

lemma rmu_works:
  assumes "healthy (xd_host dr) live starts"
  shows "\<exists>k. (if gone = [] then return_io () else bind_io (xray_api dr ''rmu'' (tag_argument tag # sort gone) None) (\<lambda>_. return_io ())) w =
      (Inr (), w\<lparr>xw_host := k\<rparr>) \<and> live k = (live (xw_host w))(tag := live (xw_host w) tag - set gone) \<and> starts k = starts (xw_host w)"
proof (cases "gone = []")
  case True
  then show ?thesis by (intro exI [of _ "xw_host w"]) (simp add: return_io_simp)
next
  case False
  obtain out err k where "xh_api (xd_host dr) ''rmu'' (tag_argument tag # sort gone) None (xw_host w) = (CompletedRun 0 out err, k)"
      "live k = (live (xw_host w))(tag := live (xw_host w) tag - set (sort gone))" "starts k = starts (xw_host w)"
    using healthyD(5) [OF assms] by blast
  then show ?thesis using False api_works [of dr "''rmu''"] by (intro exI [of _ k]) (simp add: bind_io_def return_io_simp)
qed

lemma remove_gone_works:
  assumes h: "healthy (xd_host dr) live starts"
  shows "distinct (map fst tis) \<Longrightarrow>
    \<exists>removed' k. remove_gone dr tis removed additions w = (Inr (removed', additions @ additions_for tis (live (xw_host w))), w\<lparr>xw_host := k\<rparr>) \<and>
      starts k = starts (xw_host w) \<and>
      live k = (\<lambda>tag. case map_of tis tag of None \<Rightarrow> live (xw_host w) tag | Some li \<Rightarrow> live (xw_host w) tag \<inter> fst ` set (li_clients li))"
proof (induction tis arbitrary: removed additions w)
  case Nil
  show ?case by (intro exI [of _ removed] exI [of _ "xw_host w"]) (simp add: additions_for_def return_io_simp)
next
  case (Cons x tis)
  obtain tag li where x: "x = (tag, li)" by (cases x)
  let ?L = "live (xw_host w)" and ?C = "fst ` set (li_clients li)"
  obtain es k1 where es: "live_emails dr tag w = (Inr es, w\<lparr>xw_host := k1\<rparr>)" "unchanged live starts (xw_host w) k1" "set es = ?L tag"
    using live_emails_works [OF h] by blast
  obtain k2 where rmu: "(if gone_emails li es = [] then return_io () else
      bind_io (xray_api dr ''rmu'' (tag_argument tag # sort (gone_emails li es)) None) (\<lambda>_. return_io ())) (w\<lparr>xw_host := k1\<rparr>) =
      (Inr (), w\<lparr>xw_host := k2\<rparr>)" "live k2 = (live k1)(tag := live k1 tag - set (gone_emails li es))" "starts k2 = starts k1"
    using rmu_works [OF h, of "gone_emails li es" tag "w\<lparr>xw_host := k1\<rparr>"] by auto
  have gone: "live k2 = ?L(tag := ?L tag \<inter> ?C)"
  proof -
    have "live k1 tag - set (gone_emails li es) = ?L tag \<inter> ?C" using es(2,3) by (auto simp: unchanged_def gone_emails_def)
    then show ?thesis using rmu(2) es(2) by (simp add: unchanged_def)
  qed
  have tag: "tag \<notin> fst ` set tis" using Cons.prems x by auto
  have same: "additions_for tis (live k2) = additions_for tis ?L"
    using tag by (intro additions_cong) (auto simp: gone)
  define more where "more = (if new_for li (?L tag) = [] then additions else additions @ [addition_json tag li (new_for li (?L tag))])"
  have host: "xw_host (w\<lparr>xw_host := k2\<rparr>) = k2" "w\<lparr>xw_host := k2, xw_host := k\<rparr> = w\<lparr>xw_host := k\<rparr>" for k by simp_all
  have "distinct (map fst tis)" using Cons.prems by simp
  from Cons.IH [OF this, of "removed @ gone_emails li es" more "w\<lparr>xw_host := k2\<rparr>", unfolded host same]
  obtain removed' k where rest: "remove_gone dr tis (removed @ gone_emails li es) more (w\<lparr>xw_host := k2\<rparr>) =
      (Inr (removed', more @ additions_for tis ?L), w\<lparr>xw_host := k\<rparr>)" "starts k = starts k2"
      "live k = (\<lambda>tag. case map_of tis tag of None \<Rightarrow> live k2 tag | Some li \<Rightarrow> live k2 tag \<inter> fst ` set (li_clients li))" by blast
  have "remove_gone dr (x # tis) removed additions w = (Inr (removed', additions @ additions_for (x # tis) ?L), w\<lparr>xw_host := k\<rparr>)"
    unfolding x remove_gone.simps Let_def new_clients_for bind_io_Inr [where m = "live_emails dr tag" and w = w, OF es(1)] es(3)
      bind_io_Inr [where w = "w\<lparr>xw_host := k1\<rparr>" and m = "if gone_emails li es = [] then return_io () else
        bind_io (xray_api dr ''rmu'' (tag_argument tag # sort (gone_emails li es)) None) (\<lambda>_. return_io ())", OF rmu(1)] more_def [symmetric] rest(1)
    by (simp add: additions_for_def more_def)
  moreover have "live k = (\<lambda>t. case map_of (x # tis) t of None \<Rightarrow> ?L t | Some li \<Rightarrow> ?L t \<inter> fst ` set (li_clients li))"
  proof
    fix t
    have "map_of tis tag = None" using tag by (simp add: map_of_eq_None_iff)
    then show "live k t = (case map_of (x # tis) t of None \<Rightarrow> ?L t | Some li \<Rightarrow> ?L t \<inter> fst ` set (li_clients li))"
      unfolding rest(3) gone x by (cases "t = tag") (auto split: option.splits)
  qed
  ultimately show ?case using rest(2) rmu(3) es(2) by (auto simp: unchanged_def)
qed

lemma confirm_works:
  assumes h: "healthy (xd_host dr) live starts"
  shows "\<forall>(tag, li)\<in>set tis. live (xw_host w) tag = fst ` set (li_clients li) \<Longrightarrow>
    \<exists>k l. for_each_io (confirm_live dr) tis w = (Inr (), w\<lparr>xw_host := k, xw_lingering := l\<rparr>) \<and> unchanged live starts (xw_host w) k"
proof (induction tis arbitrary: w)
  case Nil
  show ?case by (intro exI [of _ "xw_host w"] exI [of _ "xw_lingering w"]) (simp add: return_io_simp unchanged_def)
next
  case (Cons x tis)
  obtain tag li where x: "x = (tag, li)" by (cases x)
  obtain es k1 where es: "live_emails dr tag w = (Inr es, w\<lparr>xw_host := k1\<rparr>)" "unchanged live starts (xw_host w) k1" "set es = live (xw_host w) tag"
    using live_emails_works [OF h] by blast
  have eq: "set es = fst ` set (li_clients li)" using es(3) Cons.prems x by simp
  define w1 where "w1 = forget_lingering (map fst (li_clients li)) (w\<lparr>xw_host := k1\<rparr>)"
  have "confirm_live dr x w = (Inr (), w1)"
    using es(1) eq unfolding x confirm_live_def prod.case w1_def by (simp add: bind_io_def unless_io_simp modify_io_simp)
  moreover obtain k l where "for_each_io (confirm_live dr) tis w1 = (Inr (), w1\<lparr>xw_host := k, xw_lingering := l\<rparr>)" "unchanged live starts (xw_host w1) k"
    using Cons.IH [of w1] Cons.prems es(2) by (auto simp: w1_def forget_lingering_def unchanged_def)
  ultimately show ?case
    using es(2) by (intro exI [of _ k] exI [of _ l]) (auto simp: bind_io_def w1_def forget_lingering_def unchanged_def)
qed

lemma apply_clients_live_works:
  assumes h: "healthy (xd_host dr) live starts" and ok: "driver_ok dr"
  shows "\<exists>removed k l. apply_clients_live dr (xray_render dr d) w = (Inr removed, w\<lparr>xw_host := k, xw_lingering := l\<rparr>) \<and>
    starts k = starts (xw_host w)"
proof -
  obtain tis where tis: "live_inbounds_by_tag (xray_render dr d) = Some tis" "map fst tis = live_codes (xd_profiles dr)"
      "\<forall>(tag, li)\<in>set tis. fst ` set (li_clients li) = emails_for (xd_sha256 dr) d tag"
    using live_inbounds_rendered [of "xd_profiles dr"] ok unfolding driver_ok_def xray_render_def by blast
  have good: "\<forall>(tag, li)\<in>set tis. inbound_good li" by (rule rendered_inbounds_good [OF tis(1)])
  have dis: "distinct (map fst tis)"
    unfolding tis(2) live_codes_def using ok by (simp add: driver_ok_def distinct_map_filter)
  let ?L = "live (xw_host w)" and ?A = "additions_for tis (live (xw_host w))"
  obtain removed k where rem: "remove_gone dr tis [] [] w = (Inr (removed, ?A), w\<lparr>xw_host := k\<rparr>)" "starts k = starts (xw_host w)"
      "live k = (\<lambda>tag. case map_of tis tag of None \<Rightarrow> ?L tag | Some li \<Rightarrow> ?L tag \<inter> fst ` set (li_clients li))"
    using remove_gone_works [OF h dis, of "[]" "[]" w] by auto
  have full: "\<forall>(tag, li)\<in>set tis. (live k tag \<union> loaded_emails (adu_payload ?A) tag) = fst ` set (li_clients li)"
  proof clarify
    fix tag li
    assume li: "(tag, li) \<in> set tis"
    then have "map_of tis tag = Some li" using dis by simp
    moreover have "[] \<notin> fst ` set (li_clients li)" using bspec [OF tis(3) li] emails_nonempty [OF ok] by simp
    ultimately show "live k tag \<union> loaded_emails (adu_payload ?A) tag = fst ` set (li_clients li)"
      unfolding rem(3) payload_emails(2) [OF good dis] option.case by simp blast
  qed
  have "\<exists>k2. (if ?A = [] then return_io () else bind_io (xray_api dr ''adu'' [''stdin:''] (Some (adu_payload ?A))) (\<lambda>_. return_io ())) (w\<lparr>xw_host := k\<rparr>) =
      (Inr (), w\<lparr>xw_host := k2\<rparr>) \<and> starts k2 = starts k \<and> live k2 = (\<lambda>tag. live k tag \<union> loaded_emails (adu_payload ?A) tag)"
  proof (cases "?A = []")
    case True
    have "loaded_emails (adu_payload []) tag = {}" for tag
      using payload_emails(2) [of "[]" _ tag] by (simp add: additions_for_def)
    then show ?thesis using True by (intro exI [of _ k]) (simp add: return_io_simp)
  next
    case False
    obtain out err k2 where "xh_api (xd_host dr) ''adu'' [''stdin:''] (Some (adu_payload ?A)) k = (CompletedRun 0 out err, k2)"
        "live k2 = (\<lambda>tag. live k tag \<union> loaded_emails (adu_payload ?A) tag)" "starts k2 = starts k"
      using healthyD(6) [OF h payload_emails(1) [OF good dis]] by blast
    then show ?thesis
      using False api_works [of dr "''adu''" "[''stdin:'']" "Some (adu_payload ?A)" "w\<lparr>xw_host := k\<rparr>"]
      by (intro exI [of _ k2]) (simp add: bind_io_def return_io_simp)
  qed
  then obtain k2 where adu: "(if ?A = [] then return_io () else bind_io (xray_api dr ''adu'' [''stdin:''] (Some (adu_payload ?A))) (\<lambda>_. return_io ())) (w\<lparr>xw_host := k\<rparr>) =
      (Inr (), w\<lparr>xw_host := k2\<rparr>)" "starts k2 = starts k" "live k2 = (\<lambda>tag. live k tag \<union> loaded_emails (adu_payload ?A) tag)" by blast
  obtain k3 l where con: "for_each_io (confirm_live dr) tis (w\<lparr>xw_host := k2\<rparr>) = (Inr (), w\<lparr>xw_host := k3, xw_lingering := l\<rparr>)" "unchanged live starts k2 k3"
    using confirm_works [OF h, of tis "w\<lparr>xw_host := k2\<rparr>"] full adu(3) by auto
  have "apply_clients_live dr (xray_render dr d) w = (Inr removed, w\<lparr>xw_host := k3, xw_lingering := l\<rparr>)"
    using rem(1) adu(1) con(1) unfolding adu_payload_def by (simp add: apply_clients_live_def tis(1) the_io_simp bind_io_def return_io_simp)
  then show ?thesis using con(2) adu(2) rem(2) by (auto simp: unchanged_def)
qed

subsection \<open>A whole change\<close>

text \<open>An operation that cannot fail from \<open>P\<close>.\<close>

lemma tripleW: "(\<And>w. P w \<Longrightarrow> \<exists>a w'. m w = (Inr a, w') \<and> Q a w') \<Longrightarrow> triple P m Q (\<lambda>_ _. False)"
  by (rule tripleI) fastforce+

lemma atomic_write_works:
  assumes "healthy (xd_host dr) live starts"
    and "\<And>w k. P w \<Longrightarrow> unchanged live starts (xw_host w) k \<Longrightarrow> Q () (put (Some content) (w\<lparr>xw_host := k\<rparr>))"
  shows "triple P (write_atomically dr put content) Q (\<lambda>_ _. False)"
proof (rule tripleW)
  fix w
  assume P: "P w"
  obtain k where "xh_write (xd_host dr) (xw_host w) = (True, k)" and k: "unchanged live starts (xw_host w) k"
    using healthyD(1) [OF assms(1)] by blast
  then have "write_atomically dr put content w = (Inr (), put (Some content) (w\<lparr>xw_host := k\<rparr>))"
    by (simp add: write_atomically_def bind_io_def asking_xray_def unless_io_simp modify_io_simp)
  with assms(2) [OF P k] show "\<exists>a w'. write_atomically dr put content w = (Inr a, w') \<and> Q a w'" by blast
qed

lemma validate_works:
  assumes h: "healthy (xd_host dr) live starts"
    and P: "\<And>w k s. P w \<Longrightarrow> unchanged live starts (xw_host w) k \<Longrightarrow> P (w\<lparr>xw_host := k, xw_scratch := s\<rparr>)"
    and P': "\<And>w k. P w \<Longrightarrow> unchanged live starts (xw_host w) k \<Longrightarrow> P (w\<lparr>xw_host := k\<rparr>)"
  shows "triple P (xray_validate dr content) (\<lambda>_. P) (\<lambda>_ _. False)"
  unfolding xray_validate_def write_validate_scratch_def
proof (rule triple_bind)
  show "triple P (write_atomically dr (\<lambda>c. xw_scratch_update (\<lambda>_. c)) content) (\<lambda>_ w. P w \<and> xw_scratch w = Some content) (\<lambda>_ _. False)"
    by (rule atomic_write_works [OF h]) (simp add: P)
  show "triple (\<lambda>w. P w \<and> xw_scratch w = Some content) (bind_io (\<lambda>w. run_xray_tool (xh_validate (xd_host dr) (xw_scratch w)) w)
     (\<lambda>result. unless_io (returncode result = 0) (ValidationError (strip (stderr result))))) (\<lambda>_. P) (\<lambda>_ _. False)"
  proof (rule tripleW)
    fix w
    assume w: "P w \<and> xw_scratch w = Some content"
    obtain out err k where "xh_validate (xd_host dr) (Some content) (xw_host w) = (CompletedRun 0 out err, k)" "unchanged live starts (xw_host w) k"
      using healthyD(2) [OF h] by blast
    then show "\<exists>a w'. bind_io (\<lambda>w. run_xray_tool (xh_validate (xd_host dr) (xw_scratch w)) w)
        (\<lambda>result. unless_io (returncode result = 0) (ValidationError (strip (stderr result)))) w = (Inr a, w') \<and> P w'"
      using w P' by (auto simp: bind_io_def run_xray_tool_def asking_xray_def completed_io_def return_io_simp unless_io_simp)
  qed
qed

lemma apply_hot:
  assumes h: "healthy (xd_host dr) live starts" and ok: "driver_ok dr" and upd: "xst_live_client_updates (xd_settings dr)"
    and tr: "\<forall>p\<in>set (xd_profiles dr). xp_transport p \<noteq> HysteriaUdp"
    and hyst: "hysteria_served dr d w"
  shows "\<exists>removed k l. apply_or_roll_back dr (Some (xray_render dr d)) d' w = (Inr removed, w\<lparr>xw_host := k, xw_lingering := l\<rparr>) \<and>
    starts k = starts (xw_host w)"
proof -
  obtain removed k l where run: "apply_clients_live dr (xray_render dr d') w = (Inr removed, w\<lparr>xw_host := k, xw_lingering := l\<rparr>)" "starts k = starts (xw_host w)"
    using apply_clients_live_works [OF h ok] by blast
  have "apply_xray dr (Some (xray_render dr d)) (xray_render dr d') w = (Inr removed, w\<lparr>xw_host := k, xw_lingering := l\<rparr>)"
    using upd run(1) shape_rendered [OF tr] by (simp add: apply_xray_def xray_render_def bind_io_def result_io_def try_io_def)
  moreover have "apply_hysteria dr d' (w\<lparr>xw_host := k, xw_lingering := l\<rparr>) = (Inr (), w\<lparr>xw_host := k, xw_lingering := l\<rparr>)"
  proof (cases "xd_hysteria_profile dr")
    case None
    then show ?thesis by (simp add: apply_hysteria_def return_io_simp)
  next
    case (Some hp)
    have "render_hysteria dr hp d = render_hysteria dr hp d'"
      unfolding render_hysteria_def if_P [OF upd] by (rule hysteria_file_same_for_all)
    then have "served_hysteria_config (w\<lparr>xw_host := k, xw_lingering := l\<rparr>) = Some (render_hysteria dr hp d')"
      using hyst Some by (simp add: hysteria_served_def served_hysteria_config_def)
    then show ?thesis using Some by (simp add: apply_hysteria_def Let_def io_simps)
  qed
  ultimately show ?thesis
    using run(2) by (intro exI [of _ removed] exI [of _ k] exI [of _ l]) (simp add: apply_or_roll_back_def try_io_def bind_io_def return_io_simp)
qed

lemma change_without_restart:
  assumes h: "healthy (xd_host dr) live starts" and ok: "driver_ok dr" and upd: "xst_live_client_updates (xd_settings dr)"
    and tr: "\<forall>p\<in>set (xd_profiles dr). xp_transport p \<noteq> HysteriaUdp" and step: "xray_in_step dr live hys w0 d"
  shows "\<exists>w. xray_apply_delta dr d' w0 = (Inr (), w) \<and> starts (xw_host w) = starts (xw_host w0)"
proof -
  have rec: "xray_recorded w0 d" and config: "xw_config_file w0 = Some (xray_render dr d)" and hyst: "hysteria_served dr d w0"
    using step hysteria_file_newlines [OF ok]
    by (auto simp: xray_in_step_def hysteria_served_def hysteria_ok_def served_hysteria_config_def)
  let ?S = "\<lambda>w. xw_candidate w = Some (render_state_json d') \<and> hysteria_served dr d w \<and> starts (xw_host w) = starts (xw_host w0)"
  let ?C = "\<lambda>w. ?S w \<and> xw_config_file w = Some (xray_render dr d)"
  have cand: "triple (\<lambda>w. w = w0) (write_xray_candidate dr (render_state_json d')) (\<lambda>_. ?C) (\<lambda>_ _. False)"
    unfolding write_xray_candidate_def
    by (rule atomic_write_works [OF h]) (use config hyst in \<open>auto simp: unchanged_def hysteria_served_def served_hysteria_config_def\<close>)
  have valid: "triple ?C (xray_validate dr (xray_render dr d')) (\<lambda>_. ?C) (\<lambda>_ _. False)"
    by (rule validate_works [OF h]) (simp_all add: unchanged_def hysteria_served_def served_hysteria_config_def)
  have read: "triple ?C (reads_io served_xray_config) (\<lambda>served w. served = Some (xray_render dr d) \<and> ?S w) (\<lambda>_ _. False)"
    by (rule triple_reads) (simp add: served_xray_config_def config_newlines)
  have wr: "triple (\<lambda>w. served = Some (xray_render dr d) \<and> ?S w) (write_xray_config dr (xray_render dr d'))
      (\<lambda>_ w. served = Some (xray_render dr d) \<and> ?S w) (\<lambda>_ _. False)" for served
    unfolding write_xray_config_def
    by (rule atomic_write_works [OF h]) (simp add: unchanged_def hysteria_served_def served_hysteria_config_def)
  have both: "triple (\<lambda>w. served = Some (xray_render dr d) \<and> ?S w) (apply_or_roll_back dr served d') (\<lambda>_. ?S) (\<lambda>_ _. False)" for served
  proof (rule tripleW)
    fix w
    assume w: "served = Some (xray_render dr d) \<and> ?S w"
    then obtain removed k l where "apply_or_roll_back dr served d' w = (Inr removed, w\<lparr>xw_host := k, xw_lingering := l\<rparr>)" "starts k = starts (xw_host w)"
      using apply_hot [OF h ok upd tr, of d w] by blast
    then show "\<exists>a w'. apply_or_roll_back dr served d' w = (Inr a, w') \<and> ?S w'"
      using w by (auto simp: hysteria_served_def served_hysteria_config_def)
  qed
  let ?D = "\<lambda>w. starts (xw_host w) = starts (xw_host w0)"
  have promote: "triple ?S promote_xray_candidate (\<lambda>_. ?D) (\<lambda>_ _. False)"
    by (simp add: triple_def promote_xray_candidate_def)
  have watch: "triple ?D (watch_for_lingering dr removed) (\<lambda>_. ?D) (\<lambda>_ _. False)" for removed
    unfolding watch_for_lingering_def by (rule triple_if, rule triple_return, assumption, rule triple_modify) simp
  have asked: "triple ?D (asking_xray (xh_kick (xd_host dr) u s b)) (\<lambda>_. ?D) (\<lambda>_ _. False)" for u s b
  proof (rule triple_asking)
    show "?D (w\<lparr>xw_host := k\<rparr>)" if "?D w" "xh_kick (xd_host dr) u s b (xw_host w) = (r, k)" for w r k
      using that healthyD(3) [OF h, of "xw_host w" u s b] by (simp add: unchanged_def)
  qed
  have kick: "triple ?D (kick_removed_hysteria_clients dr d d') (\<lambda>_. ?D) (\<lambda>_ _. False)"
    unfolding kick_removed_hysteria_clients_def Let_def
    by (cases "xd_hysteria_profile dr") (simp_all add: triple_return triple_bind [OF asked triple_return])
  have t: "triple (\<lambda>w. w = w0) (bind_io (write_xray_candidate dr (render_state_json d')) (\<lambda>_.
     bind_io (xray_validate dr (xray_render dr d')) (\<lambda>_.
     bind_io (reads_io served_xray_config) (\<lambda>served.
     bind_io (write_xray_config dr (xray_render dr d')) (\<lambda>_.
     bind_io (apply_or_roll_back dr served d') (\<lambda>removed.
     bind_io promote_xray_candidate (\<lambda>_.
     bind_io (watch_for_lingering dr removed) (\<lambda>_.
     kick_removed_hysteria_clients dr d d')))))))) (\<lambda>_. ?D) (\<lambda>_ _. False)"
    by (rule triple_bind [OF cand], rule triple_bind [OF valid], rule triple_bind [OF read], rule triple_bind [OF wr],
        rule triple_bind [OF both], rule triple_bind [OF promote], rule triple_bind [OF watch], rule kick)
  obtain r w where run: "xray_apply_delta dr d' w0 = (r, w)" by fastforce
  note go = run [unfolded xray_apply_delta_def bind_lkg [OF rec]]
  show ?thesis
  proof (cases r)
    case (Inl e)
    with tripleD(2) [OF t refl go [unfolded Inl]] show ?thesis by simp
  next
    case (Inr u)
    with tripleD(1) [OF t refl go [unfolded Inr]] run show ?thesis by simp
  qed
qed

end
