(* ===== verification/Xray_Routes.thy ===== *)
theory Xray_Routes
  imports Agent_Dispatch Xray_Requests
begin

text \<open>
  The routes of the agent to its Xray driver (\<open>api/v1_xray.py\<close>), the in-memory driver of
  \<open>drivers/fake.py\<close> that stands in for the native one, and the server that answers Hysteria's question
  whom to admit (\<open>hysteria_auth.py\<close>).
\<close>

subsection \<open>The routes\<close>

definition route_provision_client ::
  "xray_provision_response response_codec \<Rightarrow> 'k xray_driver \<Rightarrow> string option \<Rightarrow> xray_provision_request \<Rightarrow>
   'k xray_world agent_state \<Rightarrow> xray_provision_response http_answer \<times> 'k xray_world agent_state" where
  "route_provision_client codec dr content_length q =
     ledgered_route codec content_length (xpq_idempotency_key q) ''provision_device'' (xpq_target_id q) (provision_client dr q)"

definition route_revoke_client ::
  "xray_revoke_response response_codec \<Rightarrow> 'k xray_driver \<Rightarrow> string option \<Rightarrow> xray_revoke_request \<Rightarrow>
   'k xray_world agent_state \<Rightarrow> xray_revoke_response http_answer \<times> 'k xray_world agent_state" where
  "route_revoke_client codec dr content_length q =
     ledgered_route codec content_length (xvq_idempotency_key q) ''revoke_device'' (xvq_target_id q) (revoke_client dr q)"

definition route_reconcile_client ::
  "'k xray_driver \<Rightarrow> string option \<Rightarrow> xray_reconcile_request \<Rightarrow> 'k xray_world agent_state \<Rightarrow>
   xray_reconcile_response http_answer \<times> 'k xray_world agent_state" where
  "route_reconcile_client dr content_length q = plain_route content_length (reconcile_client dr q)"

definition route_prune_clients ::
  "'k xray_driver \<Rightarrow> string option \<Rightarrow> xray_prune_request \<Rightarrow> 'k xray_world agent_state \<Rightarrow>
   xray_prune_response http_answer \<times> 'k xray_world agent_state" where
  "route_prune_clients dr content_length q = plain_route content_length (prune_clients dr q)"

definition route_xray_health ::
  "'k xray_driver \<Rightarrow> string option \<Rightarrow> 'k xray_world agent_state \<Rightarrow> xray_health_response http_answer \<times> 'k xray_world agent_state" where
  "route_xray_health dr content_length = plain_route content_length (xray_health dr)"

text \<open>
  The characters that no JSON text of a prune request can do without: the braces, the quoted names,
  the colons, the identifiers of 36 characters and the codes.
\<close>

definition expected_entry_text :: "expected_client \<Rightarrow> string" where
  "expected_entry_text e =
     ''{'' @ json_string ''client_uuid'' @ '':'' @ json_string (uuid_text (exc_client_uuid e)) @ '','' @
     json_string ''protocol_profile_code'' @ '':'' @ json_string (exc_profile_code e) @ ''}''"

definition prune_body_size :: "xray_prune_request \<Rightarrow> nat" where
  "prune_body_size q = sum_list (map (\<lambda>e. length (expected_entry_text e)) (xnq_expected q))"

lemma concat_escape_length: "length s \<le> length (concat (map json_escape s))"
proof (induction s)
  case (Cons c s)
  have "1 \<le> length (json_escape c)" by (simp add: json_escape_def)
  then show ?case using Cons by simp
qed simp

lemma expected_entry_length: "exc_profile_code e \<noteq> [] \<Longrightarrow> 82 \<le> length (expected_entry_text e)"
proof -
  assume "exc_profile_code e \<noteq> []"
  then have "1 \<le> length (concat (map json_escape (exc_profile_code e)))"
    using concat_escape_length [of "exc_profile_code e"] by (cases "exc_profile_code e") auto
  moreover have "36 \<le> length (concat (map json_escape (uuid_text (exc_client_uuid e))))"
    using concat_escape_length [of "uuid_text (exc_client_uuid e)"] by (simp add: uuid_text_def Let_def)
  moreover have "length (json_string ''client_uuid'') = 13" "length (json_string ''protocol_profile_code'') = 23"
    by (simp_all add: json_string_def json_escape_def)
  ultimately show ?thesis by (simp add: expected_entry_text_def json_string_def)
qed

lemma prune_body_large:
  assumes "\<forall>e\<in>set (xnq_expected q). exc_profile_code e \<noteq> []"
  shows "82 * length (xnq_expected q) \<le> prune_body_size q"
proof -
  have "sum_list (map (\<lambda>_. 82) (xnq_expected q)) \<le> prune_body_size q"
    unfolding prune_body_size_def using assms expected_entry_length by (intro sum_list_mono) auto
  then show ?thesis by (simp add: sum_list_triv mult.commute)
qed

subsection \<open>The fake driver\<close>

record fake_xray =
  fx_state :: desired_xray_state
  fx_server_address :: string
  fx_sni :: string
  fx_profiles :: "xray_profile list"
  fx_fail_next :: bool

definition fake_xray_profile :: "fake_xray \<Rightarrow> string \<Rightarrow> (driver_error, xray_profile) result" where
  "fake_xray_profile f code =
     (case find (\<lambda>p. xp_code p = code) (fx_profiles f) of None \<Rightarrow> Inl (no_inbound code) | Some p \<Rightarrow> Inr p)"

definition fake_xray_apply :: "desired_xray_state \<Rightarrow> (fake_xray, unit) io" where
  "fake_xray_apply new_state f =
     (if fx_fail_next f then (Inl (ApplyError ''simulated apply failure''), f\<lparr>fx_fail_next := False\<rparr>)
      else (Inr (), f\<lparr>fx_state := new_state\<rparr>))"

definition fake_endpoint :: "fake_xray \<Rightarrow> xray_profile \<Rightarrow> xray_endpoint" where
  "fake_endpoint f p =
     \<lparr>xe_server_address = fx_server_address f, xe_sni = Some (fx_sni f), xe_port = xp_port p,
      xe_transport = transport_text (xp_transport p), xe_transport_security = security_text (xp_security p),
      xe_path = (if or_else (xp_xhttp_path p) [] = [] then xp_ws_path p else xp_xhttp_path p),
      xe_service_name = xp_grpc_service_name p, xe_obfs_password = None, xe_port_hop = None, xe_reality_public_key = None,
      xe_reality_short_id = None, xe_flow = None, xe_protocol = ''vless'', xe_method = None, xe_password = None, xe_encryption = None\<rparr>"

definition fake_provision_client :: "xray_provision_request \<Rightarrow> (fake_xray, xray_provision_response) io" where
  "fake_provision_client q =
     bind_io (\<lambda>f. (fake_xray_profile f (xpq_profile_code q), f)) (\<lambda>p.
     bind_io (reads_io (\<lambda>f. (fx_state f, fake_endpoint f p))) (\<lambda>(current, common).
     try_io
       (bind_io (fake_xray_apply (with_client current (requested_client q))) (\<lambda>_.
        return_io \<lparr>xpr_state = ''active'', xpr_applied_generation = xpq_desired_generation q, xpr_endpoint = common, xpr_error_code = None\<rparr>))
       (on_apply_error (\<lambda>_. return_io \<lparr>xpr_state = ''failed'',
          xpr_applied_generation = xray_last_applied_generation current (xpq_client_uuid q),
          xpr_endpoint = common, xpr_error_code = Some ''apply_failed''\<rparr>))))"

text \<open>The time stamp of the answer is left out here; the native driver has it.\<close>

definition fake_revoke_client :: "xray_revoke_request \<Rightarrow> (fake_xray, agent_response) io" where
  "fake_revoke_client q =
     bind_io (\<lambda>f. (fake_xray_profile f (xvq_profile_code q), f)) (\<lambda>_.
     bind_io (reads_io fx_state) (\<lambda>current.
     try_io
       (bind_io (fake_xray_apply (without_client current (xvq_client_uuid q))) (\<lambda>_.
        return_io (change_response ''revoked'' (xvq_desired_generation q) None)))
       (on_apply_error (\<lambda>_. return_io (change_response ''failed''
          (xray_last_applied_generation current (xvq_client_uuid q)) (Some ''apply_failed''))))))"

definition fake_prune_clients :: "xray_prune_request \<Rightarrow> (fake_xray, xray_prune_response) io" where
  "fake_prune_clients q =
     bind_io (reads_io fx_state) (\<lambda>current.
     (let keep = map exc_client_uuid (xnq_expected q);
          survivors = filter (\<lambda>c. xc_client_uuid c \<in> set keep) (dx_clients current);
          removed = int (length (dx_clients current)) - int (length survivors) in
      if removed = 0
      then return_io \<lparr>xnr_state = ''pruned'', xnr_removed = 0, xnr_kept = int (length survivors), xnr_error_code = None\<rparr>
      else try_io
        (bind_io (fake_xray_apply \<lparr>dx_clients = survivors\<rparr>) (\<lambda>_.
         return_io \<lparr>xnr_state = ''pruned'', xnr_removed = removed, xnr_kept = int (length survivors), xnr_error_code = None\<rparr>))
        (on_apply_error (\<lambda>_. return_io \<lparr>xnr_state = ''failed'', xnr_removed = 0,
           xnr_kept = int (length (dx_clients current)), xnr_error_code = Some ''apply_failed''\<rparr>))))"

definition fake_reconcile_client :: "xray_reconcile_request \<Rightarrow> fake_xray \<Rightarrow> xray_reconcile_response" where
  "fake_reconcile_client q f =
     (case fake_xray_profile f (xrq_profile_code q) of
        Inl _ \<Rightarrow> xray_reconcile_answer ''ambiguous'' None None
      | Inr _ \<Rightarrow>
          (case client_named (fx_state f) (xrq_client_uuid q) of
             None \<Rightarrow> xray_reconcile_answer ''drift_detected'' None None
           | Some c \<Rightarrow>
               if xc_profile_code c \<noteq> xrq_profile_code q
               then xray_reconcile_answer ''ambiguous'' (Some (xc_generation c)) None
               else xray_reconcile_answer ''in_sync'' (Some (xc_generation c)) None))"

text \<open>The fake one answers a probe of a served profile as the native one in step with the same record does.\<close>

lemma fake_reconcile_agrees:
  "profile_for dr (xrq_profile_code q) = find (\<lambda>p. xp_code p = xrq_profile_code q) (fx_profiles f) \<Longrightarrow>
     profile_for dr (xrq_profile_code q) \<noteq> None \<Longrightarrow> fake_reconcile_client q f = true_answer (fx_state f) q"
  by (auto simp: fake_reconcile_client_def fake_xray_profile_def true_answer_def split: option.splits)

subsection \<open>Answering Hysteria\<close>

definition MAX_BODY_BYTES :: int where
  "MAX_BODY_BYTES = 4096"

definition CRLF :: string where
  "CRLF = [CHR 0x0D, CHR 0x0A]"

text \<open>
  The bytes a connection delivers before it ends or the time is up. \<open>readuntil\<close> raises without its
  separator, and when the head is longer than the limit of the stream.
\<close>

definition MAX_HEAD_BYTES :: nat where
  "MAX_HEAD_BYTES = 8192"

fun read_until :: "string \<Rightarrow> string \<Rightarrow> string \<Rightarrow> (string \<times> string) option" where
  "read_until sep seen [] = None"
| "read_until sep seen (c # cs) =
     (if starts_with sep (c # cs) then Some (seen @ sep, drop (length sep) (c # cs)) else read_until sep (seen @ [c]) cs)"

definition header_of :: "string list \<Rightarrow> string \<Rightarrow> string option" where
  "header_of lines name =
     map_of (rev (map (\<lambda>l. (lower_text (strip (before_char CHR '':'' l)), strip (after_char CHR '':'' l)))
       (filter (\<lambda>l. CHR '':'' \<in> set l) lines))) name"

text \<open>\<open>_answer\<close>, with what \<open>_handle\<close> makes of its exceptions: a cut request or a \<open>ValueError\<close> is answered with 400.\<close>

datatype auth_reply = Refused nat | Admitted string

definition hysteria_answer ::
  "string \<Rightarrow> (string \<Rightarrow> ('w, string option) io) \<Rightarrow> string \<Rightarrow> ('w, auth_reply) io" where
  "hysteria_answer path authorize sent =
     (case read_until (CRLF @ CRLF) [] sent of
        None \<Rightarrow> return_io (Refused 400)
      | Some (head, body) \<Rightarrow>
          if MAX_HEAD_BYTES < length head - length (CRLF @ CRLF) then return_io (Refused 400)
          else let lines = split_text CRLF head;
                   request = hd lines;
                   target = rpartition_before CHR '' '' (after_char CHR '' '' request) in
               if before_char CHR '' '' request \<noteq> ''POST'' \<or> target \<noteq> path then return_io (Refused 404)
               else if header_of (tl lines) ''transfer-encoding'' \<noteq> None then return_io (Refused 400)
               else (case py_int (case header_of (tl lines) ''content-length'' of None \<Rightarrow> ''-1'' | Some v \<Rightarrow> v) of
                       None \<Rightarrow> return_io (Refused 400)
                     | Some n \<Rightarrow>
                         if n < 0 \<or> MAX_BODY_BYTES < n \<or> int (length body) < n then return_io (Refused 400)
                         else (case loads (take (nat n) body) of
                                 Inr (JObj ms) \<Rightarrow>
                                   (case member ''auth'' ms of
                                      Some (JStr auth) \<Rightarrow>
                                        try_io
                                          (bind_io (authorize auth) (\<lambda>label.
                                           return_io (case label of None \<Rightarrow> Refused 200 | Some l \<Rightarrow> Admitted l)))
                                          (\<lambda>e. if e = ValueError then Some (return_io (Refused 400)) else None)
                                    | _ \<Rightarrow> return_io (Refused 400))
                               | _ \<Rightarrow> return_io (Refused 400))))"

definition reply_json :: "auth_reply \<Rightarrow> json" where
  "reply_json r =
     (case r of
        Refused _ \<Rightarrow> JObj [(''ok'', JBool False), (''id'', JStr [])]
      | Admitted l \<Rightarrow> JObj [(''ok'', JBool True), (''id'', JStr l)])"

text \<open>Whatever is sent, admitted is only what the driver authorizes.\<close>

lemma admitted_by:
  assumes "try_io (bind_io m (\<lambda>x. return_io (case x of None \<Rightarrow> Refused 200 | Some l \<Rightarrow> Admitted l)))
      (\<lambda>e. if e = ValueError then Some (return_io (Refused 400)) else None) w = (Inr (Admitted label), w')"
  shows "m w = (Inr (Some label), w')"
  using assms by (auto simp: try_io_def bind_io_def return_io_simp split: prod.splits sum.splits option.splits if_splits)

lemma hysteria_answer_sound:
  assumes "hysteria_answer path authorize sent w = (Inr (Admitted label), w')"
  shows "\<exists>auth. authorize auth w = (Inr (Some label), w')"
proof -
  have refused: False if "return_io (Refused n) w = (Inr (Admitted label), w')" for n using that by (simp add: return_io_simp)
  show ?thesis
    using assms unfolding hysteria_answer_def Let_def
    by (auto split: option.splits prod.splits if_splits sum.splits json.splits dest!: refused admitted_by)
qed

end
