(* ===== verification/Xray_Claims.thy ===== *)
theory Xray_Claims
  imports Xray_Hot Xray_Routes
begin

text \<open>
  The properties of the Xray side of the agent, each with an input at which its hypotheses hold. For
  those a host is simulated: it keeps the clients of each inbound, the text Hysteria was started
  with, a count of starts and a clock, and its commands do what the laws of \<open>Xray_Safety\<close>,
  \<open>Xray_Live\<close> and \<open>Xray_Hot\<close> say.
\<close>

subsection \<open>A simulated host\<close>

record sim =
  sm_live :: "string \<Rightarrow> string list"
  sm_hys :: "string option"
  sm_starts :: nat
  sm_clock :: int
  sm_hysteria_fails :: bool

definition emails_of_file :: "string \<Rightarrow> string \<Rightarrow> string list" where
  "emails_of_file t tag =
     (case Option.bind (live_inbounds_by_tag t) (\<lambda>tis. map_of tis tag) of None \<Rightarrow> [] | Some li \<Rightarrow> map fst (li_clients li))"

definition ran :: "string \<Rightarrow> 'k \<Rightarrow> run_result \<times> 'k" where
  "ran out k = (CompletedRun 0 out [], k)"

definition failed_run :: "'k \<Rightarrow> run_result \<times> 'k" where
  "failed_run k = (CompletedRun 1 [] ''failed'', k)"

definition users_text :: "string list \<Rightarrow> string" where
  "users_text es = dumps (JObj [(''users'', JList (map (\<lambda>e. JObj [(''email'', JStr e)]) es))])"

definition sim_api :: "string \<Rightarrow> string list \<Rightarrow> string option \<Rightarrow> sim \<Rightarrow> run_result \<times> sim" where
  "sim_api command arguments stdin k =
     (if command = ''inbounduser'' then ran (users_text (sm_live k (drop 5 (hd arguments)))) k
      else if command = ''rmu''
      then ran [] (k\<lparr>sm_live := (sm_live k)(drop 5 (hd arguments) :=
             filter (\<lambda>e. e \<notin> set (tl arguments)) (sm_live k (drop 5 (hd arguments))))\<rparr>)
      else if command = ''adu''
      then (case stdin of
              None \<Rightarrow> failed_run k
            | Some t \<Rightarrow> ran [] (k\<lparr>sm_live := (\<lambda>tag. sm_live k tag @ emails_of_file t tag)\<rparr>))
      else ran ''{}'' k)"

definition sim_host :: "sim xray_host" where
  "sim_host =
     \<lparr>xh_validate = (\<lambda>t k. ran [] k),
      xh_restart_xray = (\<lambda>t k. case t of
         None \<Rightarrow> failed_run k
       | Some c \<Rightarrow> ran [] (k\<lparr>sm_live := emails_of_file c, sm_starts := Suc (sm_starts k)\<rparr>)),
      xh_restart_hysteria = (\<lambda>t k. if sm_hysteria_fails k then failed_run k else ran [] (k\<lparr>sm_hys := t, sm_starts := Suc (sm_starts k)\<rparr>)),
      xh_hysteria_is_active = (\<lambda>k. ran ''active'' k),
      xh_api = sim_api,
      xh_kick = (\<lambda>u s b k. (Some 200, k)),
      xh_connect = (\<lambda>k. (True, k)),
      xh_write = (\<lambda>k. (True, k)),
      xh_sleep = (\<lambda>n k. ((), k\<lparr>sm_clock := sm_clock k + \<bar>n\<bar>\<rparr>)),
      xh_monotonic = sm_clock,
      xh_now = (\<lambda>k. sm_clock k)\<rparr>"

definition sim_emails :: "sim \<Rightarrow> string \<Rightarrow> string set" where
  "sim_emails k tag = set (sm_live k tag) - {[]}"

lemma user_email_of: "user_email (JObj [(''email'', JStr e)]) = (if e = [] then [] else [e])"
  by (simp add: user_email_def json_get_def member_def)

lemma emails_in_users: "emails_in (users_text es) = Inr (remdups (filter (\<lambda>e. e \<noteq> []) es))"
proof -
  have "loads (users_text es) = Inr (JObj [(''users'', JList (map (\<lambda>e. JObj [(''email'', JStr e)]) es))])"
    unfolding users_text_def dumps_def by (rule loads_dumps_at) simp
  moreover have "users_text es \<noteq> []" by (simp add: users_text_def dumps_def)
  moreover have "concat (map (\<lambda>e. if e = [] then [] else [e]) es) = filter (\<lambda>e. e \<noteq> []) es" by (induction es) auto
  ultimately show ?thesis by (simp add: emails_in_def json_get_def member_def comp_def user_email_of)
qed

lemma loaded_of_file: "loaded_emails t tag = set (emails_of_file t tag) - {[]}"
  by (auto simp: loaded_emails_def emails_of_file_def split: option.splits)

lemma sim_law: "xray_law sim_host sim_emails sm_hys"
  unfolding xray_law_def keeps_served_def
  by (auto simp: sim_host_def sim_api_def ran_def failed_run_def tag_argument_def emails_in_users sim_emails_def loaded_of_file fun_eq_iff
      split: option.splits if_splits)

lemma sim_monotonic: "xh_monotonic sim_host = sm_clock"
  by (simp add: sim_host_def)

lemma sim_clock: "clock_law sim_host"
  unfolding clock_law_def
  by (auto simp: sim_host_def sim_api_def ran_def failed_run_def split: option.splits if_splits)

lemma sim_counters: "counters_readable sim_host"
proof -
  have "loads ''{}'' = Inr (JObj [])" using loads_dumps_at [of "JObj []" None 0] by simp
  then have "traffic_totals_in ''{}'' = Inr []" by (simp add: traffic_totals_in_def json_get_def member_def)
  then show ?thesis by (simp add: counters_readable_def sim_host_def sim_api_def ran_def)
qed

lemma sim_healthy: "healthy sim_host sim_emails sm_starts"
  unfolding healthy_def unchanged_def
  by (auto simp: sim_host_def sim_api_def ran_def failed_run_def tag_argument_def emails_in_users sim_emails_def loaded_of_file fun_eq_iff
      split: option.splits if_splits)

subsection \<open>A node on that host\<close>

definition sim_profile :: xray_profile where
  "sim_profile =
     \<lparr>xp_code = ''vless-ws'', xp_transport = Websocket, xp_listen = ''127.0.0.1'', xp_port = 10001, xp_security = SecurityNone,
      xp_xhttp_path = None, xp_grpc_service_name = None, xp_ws_path = Some ''/ws'', xp_hysteria_up_mbps = None,
      xp_hysteria_down_mbps = None, xp_hysteria_obfs_password = None, xp_ss2022_server_key = None, xp_vless_decryption = None,
      xp_vless_encryption = None, xp_vmess = False, xp_reality_private_key = None, xp_reality_public_key = None,
      xp_reality_dest = None, xp_reality_server_name = None, xp_reality_short_id = None, xp_vision = False\<rparr>"

definition sim_hysteria :: hysteria_profile where
  "sim_hysteria =
     \<lparr>hp_code = ''hysteria2'', hp_port = 443, hp_tls_cert_file = ''/etc/cert.pem'', hp_tls_key_file = ''/etc/key.pem'',
      hp_obfs_password = ''salt'', hp_up_mbps = 100, hp_down_mbps = 100, hp_masquerade_url = ''https://example.org''\<rparr>"

definition sim_settings :: xray_settings where
  "sim_settings =
     \<lparr>xst_tls_cert_file = None, xst_tls_key_file = None, xst_api_host = ''127.0.0.1'', xst_live_client_updates = True,
      xst_dns_redirect = None, xst_public_host = ''vpn.example.org'', xst_sni = ''vpn.example.org'', xst_public_port = 443,
      xst_hysteria_hop_ports = None\<rparr>"

definition sim_driver :: "hysteria_profile option \<Rightarrow> sim xray_driver" where
  "sim_driver hp =
     \<lparr>xd_settings = sim_settings, xd_profiles = [sim_profile], xd_hysteria_profile = hp,
      xd_sha256 = (\<lambda>t. ''d'' @ filter (\<lambda>c. \<not> line_break c) t), xd_host = sim_host\<rparr>"

definition sim_start :: "bool \<Rightarrow> sim" where
  "sim_start fails = \<lparr>sm_live = (\<lambda>_. []), sm_hys = None, sm_starts = 1, sm_clock = 0, sm_hysteria_fails = fails\<rparr>"

definition sim_world :: "sim xray_world" where
  "sim_world =
     \<lparr>xw_state_file = None, xw_candidate = None, xw_scratch = None, xw_config_file = Some (xray_render (sim_driver None) no_clients),
      xw_hysteria_file = None, xw_lingering = [], xw_linger_task = False, xw_host = sim_start False\<rparr>"

definition sim_request :: xray_provision_request where
  "sim_request =
     \<lparr>xpq_idempotency_key = 1, xpq_target_id = 2, xpq_desired_generation = 1, xpq_client_uuid = 7, xpq_profile_code = ''vless-ws''\<rparr>"

lemma sim_driver_fields:
  "xd_settings (sim_driver hp) = sim_settings" "xd_profiles (sim_driver hp) = [sim_profile]"
  "xd_hysteria_profile (sim_driver hp) = hp" "xd_host (sim_driver hp) = sim_host"
  by (simp_all add: sim_driver_def)

lemma sim_driver_ok: "hp = None \<or> hp = Some sim_hysteria \<Longrightarrow> driver_ok (sim_driver hp)"
  by (auto simp: driver_ok_def sim_driver_def sim_profile_def sim_hysteria_def sim_settings_def one_protocol_def hysteria_texts_ok_def
      one_line_def line_break_def)

lemma sim_in_step: "xray_in_step (sim_driver None) sim_emails sm_hys sim_world no_clients"
  by (simp add: xray_in_step_def xray_recorded_def uuids_ok_def no_clients_def live_ok_def hysteria_ok_def sim_world_def sim_start_def
      sim_emails_def emails_for_def clients_for_def sim_driver_fields)

lemma sim_provisioned:
  "\<exists>w'. serve_all_xray (sim_driver None) [ProvisionClient sim_request] sim_world = (Inr [True], w')"
proof -
  have rec: "xray_recorded sim_world no_clients" using sim_in_step by (simp add: xray_in_step_def)
  obtain w' where "xray_apply_delta (sim_driver None) (with_client no_clients (requested_client sim_request)) sim_world = (Inr (), w')"
    using change_without_restart [of "sim_driver None", unfolded sim_driver_fields,
        OF sim_healthy sim_driver_ok [OF disjI1 [OF refl]] _ _ sim_in_step]
    by (auto simp: sim_settings_def sim_profile_def)
  moreover have "serves (sim_driver None) (xpq_profile_code sim_request)" "profile_for (sim_driver None) (xpq_profile_code sim_request) = Some sim_profile"
    "\<not> serves_hysteria (sim_driver None) (xpq_profile_code sim_request)"
    by (simp_all add: serves_def serves_hysteria_def profile_for_def sim_driver_def sim_request_def sim_profile_def)
  ultimately show ?thesis
    using rec
    by (simp add: provision_client_def response_common_def bind_io_def unless_io_simp read_xray_recorded result_io_def return_io_simp try_io_def Let_def)
qed

lemma sim_pruned:
  "prune_clients (sim_driver None) \<lparr>xnq_expected = []\<rparr> sim_world =
     (Inr \<lparr>xnr_state = ''pruned'', xnr_removed = 0, xnr_kept = 0, xnr_error_code = None\<rparr>, sim_world)"
proof -
  have "live_client_uuids_io sim_profile sim_world = (Inr [], sim_world)"
    using read_live_config [OF sim_driver_ok [OF disjI1 [OF refl]], of no_clients sim_world sim_profile] sim_in_step
    by (simp add: xray_in_step_def xray_recorded_def sim_driver_fields no_clients_def clients_for_def)
  then have "unaccounted_live_uuids (sim_driver None) [] [] sim_world = (Inr [], sim_world)"
    by (simp add: unaccounted_live_uuids_def sim_driver_fields bind_io_def return_io_simp try_io_def Let_def)
  moreover have "xray_recorded sim_world no_clients" using sim_in_step by (simp add: xray_in_step_def)
  ultimately show ?thesis
    by (simp add: prune_clients_def bind_lkg no_clients_def Let_def) (simp add: bind_io_def return_io_simp)
qed

definition sim_client :: rendered_xray_client where
  "sim_client = \<lparr>xc_client_uuid = 7, xc_profile_code = ''hysteria2'', xc_generation = 1\<rparr>"

definition sim_client_world :: "sim xray_world" where
  "sim_client_world = sim_world\<lparr>xw_state_file := Some (render_state_json (with_client no_clients sim_client))\<rparr>"

definition sim_prune :: xray_prune_request where
  "sim_prune = \<lparr>xnq_expected = replicate 200 \<lparr>exc_client_uuid = 7, exc_profile_code = ''vless-ws''\<rparr>\<rparr>"

lemma sim_authorized: "xray_recorded sim_client_world (with_client no_clients sim_client)"
  by (simp add: xray_recorded_def uuids_ok_def sim_client_world_def with_client_def no_clients_def sim_client_def)

lemma sim_hysteria_refused:
  assumes "w = sim_world\<lparr>xw_host := sim_start True\<rparr>"
  shows "apply_hysteria (sim_driver (Some sim_hysteria)) no_clients w =
    (Inl (ApplyError ''failed''),
     w\<lparr>xw_hysteria_file := Some (render_hysteria (sim_driver (Some sim_hysteria)) sim_hysteria no_clients)\<rparr>)"
proof -
  have "strip ''failed'' = ''failed''" by code_simp
  then show ?thesis
    using assms
    by (simp add: apply_hysteria_def sim_driver_fields served_hysteria_config_def sim_world_def bind_io_def reads_io_def Let_def
        write_hysteria_config_def write_atomically_def restart_hysteria_def run_xray_tool_def asking_xray_def completed_io_def
        sim_host_def sim_start_def failed_run_def unless_io_simp return_io_simp modify_io_def)
qed

subsection \<open>Properties\<close>

text \<open>
  C6. Whatever requests to provision, revoke and prune a node answers, in whatever order and
  whichever of them fail, its state file, its Xray configuration, the users Xray really serves and
  the text Hysteria runs with stay those of one client set: the one the successful requests made.
\<close>

theorem xray_requests_keep_in_step:
  assumes "xray_law (xd_host dr) live hys" and "driver_ok dr" and "xray_in_step dr live hys w d"
    and "\<forall>req\<in>set reqs. xray_request_ok req" and "serve_all_xray dr reqs w = (Inr made, w')"
  shows "xray_in_step dr live hys w' (made_changes (zip reqs made) d)"
  using serve_all_in_step [OF assms(1-5)] .

theorem xray_requests_keep_in_step_witness:
  "\<exists>w'. serve_all_xray (sim_driver None) [ProvisionClient sim_request] sim_world = (Inr [True], w') \<and>
     xray_in_step (sim_driver None) sim_emails sm_hys w' \<lparr>dx_clients = [requested_client sim_request]\<rparr>"
proof -
  obtain w' where w': "serve_all_xray (sim_driver None) [ProvisionClient sim_request] sim_world = (Inr [True], w')"
    using sim_provisioned by blast
  have "\<forall>req\<in>set [ProvisionClient sim_request]. xray_request_ok req" by (simp add: sim_request_def)
  from xray_requests_keep_in_step [OF _ sim_driver_ok [OF disjI1 [OF refl]] sim_in_step this w']
  show ?thesis using w' sim_law by (auto simp: sim_driver_fields with_client_def no_clients_def)
qed



text \<open>
  C24. On a node in step, a reconcile request is answered with the truth of the record and changes
  nothing: in sync for a client of that profile, ambiguous for one of another, drift for an unknown one.
\<close>

theorem reconcile_reports_the_record:
  assumes "driver_ok dr" and "xray_in_step dr live hys w d" and "serves dr (xrq_profile_code q)" and "xrq_client_uuid q < 2 ^ 128"
  shows "reconcile_client dr q w = (Inr (true_answer d q), w)"
  using reconcile_in_step [OF assms] .

theorem reconcile_reports_the_record_witness:
  "reconcile_client (sim_driver None)
     \<lparr>xrq_target_id = 2, xrq_client_uuid = 7, xrq_profile_code = ''vless-ws'', xrq_desired_generation = 1\<rparr> sim_world =
   (Inr \<lparr>xrr_outcome = ''drift_detected'', xrr_observed_generation = None, xrr_error_code = None\<rparr>, sim_world)"
  using reconcile_reports_the_record [OF sim_driver_ok [OF disjI1 [OF refl]] sim_in_step,
      of "\<lparr>xrq_target_id = 2, xrq_client_uuid = 7, xrq_profile_code = ''vless-ws'', xrq_desired_generation = 1\<rparr>"]
  by (simp add: serves_def sim_driver_fields sim_profile_def true_answer_def client_named_def no_clients_def xray_reconcile_answer_def)





text \<open>
  C27. Waiting for Hysteria to come up ends: with a clock that does not go back, applying a client set
  to it always gives an answer, within the deadline of the wait.
\<close>

theorem hysteria_wait_ends:
  assumes "clock_law (xd_host dr)"
  shows "fst (apply_hysteria dr d w) \<noteq> Inl NotReturned"
  using tripleD [OF apply_hysteria_ends [OF assms] TrueI, of d w] by (cases "apply_hysteria dr d w") auto

theorem hysteria_wait_ends_witness:
  "fst (apply_hysteria (sim_driver (Some sim_hysteria)) no_clients sim_world) \<noteq> Inl NotReturned"
  by (rule hysteria_wait_ends) (simp add: sim_driver_fields sim_clock)

text \<open>
  C28. The watch on removed clients ends: with a clock that does not go back and counters that can be
  read, it is over after at most 34 rounds, with nobody left on the list.
\<close>

theorem watch_on_removed_ends:
  assumes "clock_law (xd_host dr)" and "counters_readable (xd_host dr)"
    and "\<forall>(e, watch)\<in>set (xw_lingering w). lg_removed_at watch \<le> xh_monotonic (xd_host dr) (xw_host w)"
  shows "\<exists>r w'. cut_off_lingering 34 dr w = (r, w') \<and> r \<in> {Inr (), Inl SubprocessTimeoutError} \<and> xw_lingering w' = []"
proof -
  have "nearly_over dr 33 w" using assms(3) by (auto simp: nearly_over_def LINGER_WATCH_def LINGER_POLL_def split: prod.splits)
  moreover have "Suc 33 = 34" by simp
  ultimately show ?thesis using cut_off_ends [OF assms(1,2), of 33 w] by metis
qed

theorem watch_on_removed_ends_witness:
  "\<exists>r w'. cut_off_lingering 34 (sim_driver None)
       (sim_world\<lparr>xw_lingering := [(''email'', \<lparr>lg_removed_at = 0, lg_baseline = None\<rparr>)]\<rparr>) = (r, w') \<and>
     r \<in> {Inr (), Inl SubprocessTimeoutError} \<and> xw_lingering w' = []"
  by (rule watch_on_removed_ends) (simp_all add: sim_driver_fields sim_clock sim_counters sim_world_def sim_start_def sim_monotonic)



text \<open>
  C40. A node with 200 clients can no longer be pruned: the list of them does not fit the body the
  agent accepts, and the request is refused with 413 before the driver sees it.
\<close>

theorem large_prune_refused:
  assumes "200 \<le> length (xnq_expected q)" and "\<forall>e\<in>set (xnq_expected q). exc_profile_code e \<noteq> []" and "prune_body_size q \<le> n"
  shows "route_prune_clients dr (Some (int_text (int n))) q st = (HttpStatus 413, st)"
proof -
  have "MAX_OPERATION_BODY_BYTES < int n" using prune_body_large [OF assms(2)] assms(1,3) by (simp add: MAX_OPERATION_BODY_BYTES_def)
  then show ?thesis by (cases st) (simp add: route_prune_clients_def plain_route_def enforce_body_size_limit_def py_int_text)
qed

theorem large_prune_refused_witness:
  "route_prune_clients (sim_driver None) (Some (int_text (int (prune_body_size sim_prune)))) sim_prune (sim_world, empty_ledger 8, \<lparr>ld_file = None, ld_compact = None\<rparr>) =
   (HttpStatus 413, (sim_world, empty_ledger 8, \<lparr>ld_file = None, ld_compact = None\<rparr>))"
proof (rule large_prune_refused)
  show "200 \<le> length (xnq_expected sim_prune)" by (simp only: sim_prune_def xray_prune_request.simps length_replicate order_refl)
  show "\<forall>e\<in>set (xnq_expected sim_prune). exc_profile_code e \<noteq> []" unfolding sim_prune_def xray_prune_request.simps Ball_set_replicate by simp
qed simp

end
