(* ===== verification/Spec2Isabelle.thy ===== *)
theory Spec2Isabelle
  imports System Agent_Claims Xray_Claims
begin

text \<open>
  Nebula VPN is a control plane (\<open>services/api\<close>, Python with PostgreSQL) that decides who may use
  which VPN server, and an agent (\<open>services/vpn-agent\<close>, Python) on every server that changes WireGuard,
  Xray and Hysteria as the control plane asks. A connect request takes three phases: a transaction
  that checks the caller and writes the intended row, a call of the agent, and a transaction that
  records its outcome. Sweeps take access away from accounts that lapsed or spent their allowance,
  reconciliation compares the rows with what the agents report and repairs the difference, and
  pruning tells an agent the complete list of clients it should hold. Traffic counters of the
  servers are folded into a ledger that survives their restarts.

  \<^bold>\<open>How the code is modelled.\<close> A table is the list of its rows, a database the record of its tables, a
  transaction a function from a database to an error or a value and the next database; the CHECK,
  UNIQUE and foreign-key constraints are the predicate under which a commit is accepted. Agent code
  is a function from the world it runs in to an exception or a value and the world it leaves
  (\<open>Agent_IO\<close>), so that what was done before an exception stays done. Files are their texts. What lies
  outside the repository is a parameter: SHA-256 and AES-GCM, the HTTP transport, \<open>wg\<close>, \<open>xray\<close>,
  \<open>hysteria\<close>, systemd, the disk and the clock. What the theorems need of a parameter is a named
  hypothesis (\<open>wg_law\<close>, \<open>xray_law\<close>, \<open>clock_law\<close>, \<open>counters_readable\<close>, \<open>healthy\<close>), and a simulated host
  shows that each can hold.

  \<^bold>\<open>Shared vocabulary.\<close> \<open>Nebula_Prelude\<close> (rows and queries), \<open>Text_Format\<close>, \<open>Python_Text\<close>,
  \<open>Python_Encoding\<close>, \<open>Address_Text\<close> (Python's strings, numbers, UUIDs, base64 and IP addresses),
  \<open>Json_Text\<close> and \<open>Json_Prefix\<close> (\<open>json.dumps\<close> and \<open>json.loads\<close> with their round trip, and what is
  read of a text cut short), \<open>Agent_IO\<close> and \<open>Agent_Triples\<close> (effects and Hoare triples with a
  postcondition for exceptions).

  \<^bold>\<open>Control plane.\<close>
  \<^item> \<open>Control_DB\<close>, \<open>DB_Invariant\<close>: \<open>models/*.py\<close>. The rows, their constraints, and the laws of the two
    tables of runtime rows as a chain of locales, interpreted for WireGuard peers and Xray clients.
    \<open>Example_DB\<close> is a small deployment for the witnesses.
  \<^item> \<open>Allocator\<close>: \<open>provisioning/allocator.py\<close>. \<open>Xray_Credentials\<close>: \<open>provisioning/xray_credentials.py\<close>, with the
    round trip of a sealed identifier. \<open>Revocation\<close>: \<open>provisioning/revocation.py\<close>.
  \<^item> \<open>Usage_Ledger\<close>, \<open>Usage_Metering\<close>, \<open>Usage_Counters\<close>, \<open>Usage_Accounts\<close>, \<open>Traffic_Quota\<close>: \<open>usage/*.py\<close>. The
    totals never exceed the bytes served, and are exact when every restart is bracketed by reads; a
    sweep cuts off exactly the accounts that spent their allowance. \<open>Access_Expiry\<close>:
    \<open>access/expiry.py\<close>; a row has lapsed exactly when provisioning would refuse its account.
  \<^item> \<open>Agent_Client\<close>: \<open>agent_client/client.py\<close>, the classes of error of a call.
  \<^item> \<open>Provisioning_Guards\<close>, \<open>Provisioning\<close>: \<open>provisioning/service.py\<close>, with the four handlers.
    \<open>Provisioning_Safety\<close>, \<open>Provisioning_Invariant\<close>, \<open>Provisioning_Outcomes\<close>: who gets through, that a refusal
    changes nothing, that limits hold, that every transaction keeps the invariant, and that what
    the agent answered is what the rows say.
  \<^item> \<open>Reconciliation\<close>: \<open>provisioning/reconciliation.py\<close>. \<open>Reconciliation_Safety\<close>, \<open>Reconciliation_Drift\<close>,
    \<open>Reconciliation_Convergence\<close>: a pass keeps the invariant whatever agents answer, does nothing without a
    clear answer, and with a truthful agent one check makes row and server agree.
  \<^item> \<open>System\<close>: all of them as one step relation, one transaction per step. Every state reachable by any
    interleaving satisfies the invariant.

  \<^bold>\<open>Agent.\<close>
  \<^item> \<open>Wireguard_Config\<close>, \<open>Wireguard_Driver\<close>: \<open>drivers/config_store.py\<close>, \<open>drivers/wireguard.py\<close>, \<open>drivers/base.py\<close>.
    \<open>Wireguard_Safety\<close>, \<open>Wireguard_Claims\<close>: requests keep the interface in step with the record, the
    configuration file reads back as the peers it was rendered from.
  \<^item> \<open>Agent_Ledger\<close>, \<open>Agent_Dispatch\<close>, \<open>Agent_Claims\<close>: \<open>ledger.py\<close>, \<open>api/_dispatch.py\<close>, \<open>api/v1.py\<close>. The file reads back
    as the ledger in memory across restarts and compactions; a repeated request runs once. The
    contract of a store of answered operations is the locale \<open>operation_store\<close>.
  \<^item> \<open>Xray_Config\<close>, \<open>Xray_Files\<close>, \<open>Hysteria_Config\<close>: \<open>drivers/xray_config_store.py\<close>, \<open>drivers/egress.py\<close>,
    \<open>drivers/hysteria_config_store.py\<close> and the readers of the served files in \<open>drivers/xray.py\<close>.
  \<^item> \<open>Xray_Driver\<close>: \<open>drivers/xray.py\<close>, \<open>drivers/xray_base.py\<close>; one definition per method of \<open>NativeXrayDriver\<close>.
    \<open>Xray_Safety\<close> proves a triple for every step of an apply and from them what an apply leaves;
    \<open>Xray_Requests\<close> lifts it to requests and their sequences, to pruning, reconciling and admitting;
    \<open>Xray_Live\<close> has the two loops and the restarts; \<open>Xray_Hot\<close> shows that clients change without a restart.
  \<^item> \<open>Xray_Routes\<close>: \<open>api/v1_xray.py\<close>, the in-memory driver of \<open>drivers/fake.py\<close> and \<open>hysteria_auth.py\<close>.
    \<open>Xray_Claims\<close>: the properties of the Xray side and the simulated host.

  \<^bold>\<open>Bounds.\<close> \<open>loads\<close> runs its scanner with fuel twice the length of the text plus one, one unit per nested
  call, and is proved never to run out of it. The wait for Hysteria has 31 rounds:
  a deadline of 15 seconds at half a second each, and one more. The watch on removed clients needs
  34: 330 seconds at ten seconds each, and one more round to find the list empty. A loop whose
  rounds are used up gives \<open>NotReturned\<close>; both are proved never to, under a clock that does not go back. Times are integers, milliseconds for the two loops. Unbounded Python integers
  are \<open>int\<close>; columns of PostgreSQL carry their ranges as constraints.

  \<^bold>\<open>Not modelled.\<close> Sign-in, sessions and enrolment (cryptographic libraries and Redis), the mail worker,
  the forms that edit accounts and servers, HTTP wiring and pydantic's field validation, the agent's
  settings, start-up and monitoring, the collectors that parse the output of the servers'
  counters, migrations, the DNS tunnel, and the clients in TypeScript, Dart and JavaScript. The
  theorems about handlers hold for every database within the constraints, whoever wrote its rows.
  Operations of the Xray driver are atomic, as its lock makes them; the WireGuard driver has no lock,
  and \<open>Wireguard_Claims\<close> shows what two operations at once do.
\<close>

end
